(* ===== verification/Prelude.thy ===== *)
theory Prelude
  imports Main "HOL-Library.Word"
begin

text \<open>
  Shared vocabulary of the development: the outcome type of fallible Kotlin code, the few
  functions of the Kotlin and Java standard libraries the sources call (collections, strings,
  decimal printing and parsing, signed 64-bit comparison), the fact collections the component
  theories add to, and the generic lemmas about all of these.

  Conventions. A method that may throw has the result type \<open>exn + 'a\<close>: \<open>Inl\<close> carries the
  exception, \<open>Inr\<close> the value. Strings are \<open>string\<close> (lists of \<open>char\<close>), which is exact for
  the ASCII strings identifiers, denominations and amounts consist of. A Kotlin \<open>Long\<close> is a
  64-bit word, compared through \<open>sint\<close>.
\<close>

named_theorems outcome_simps "inversion of successful outcomes"
named_theorems model_defs "definitions unfolded when an operation is executed symbolically"

type_synonym long = "64 word"
type_synonym byte = "8 word"
type_synonym bytes = "8 word list"

section \<open>Outcomes\<close>

text \<open>
  The exceptions the sources raise or rely on. The message of an
  \<open>IllegalArgumentException\<close> is kept because the ICS-20 callbacks store it in an error
  acknowledgement; \<open>None\<close> is a null message. \<open>NumberFormatException\<close> and bitcoinj's
  \<open>AddressFormatException\<close> are subclasses of \<open>IllegalArgumentException\<close>.
\<close>

datatype exn =
    IllegalArgument "string option"
  | NoSuchElement
  | NullPointer
  | IndexOutOfBounds
  | NotImplemented
  | ClassCast
  | ArithmeticError
  | External string

type_synonym 'a outcome = "exn + 'a"

primrec bindE :: "'e + 'a \<Rightarrow> ('a \<Rightarrow> 'e + 'b) \<Rightarrow> 'e + 'b" where
  "bindE (Inl e) f = Inl e"
| "bindE (Inr x) f = f x"

text \<open>\<open>require(c){msg}\<close> followed by the rest of the method.\<close>

definition guardE :: "bool \<Rightarrow> string \<Rightarrow> 'a outcome \<Rightarrow> 'a outcome" where
  "guardE c msg k = (if c then k else Inl (IllegalArgument (Some msg)))"

text \<open>\<open>require(c)\<close> without a message uses the default text of the standard library.\<close>

abbreviation requireE :: "bool \<Rightarrow> 'a outcome \<Rightarrow> 'a outcome" where
  "requireE c k \<equiv> guardE c ''Failed requirement.'' k"

definition is_ok :: "'e + 'a \<Rightarrow> bool" where
  "is_ok r \<longleftrightarrow> (\<exists>x. r = Inr x)"

lemma bindE_Inr_iff [outcome_simps]:
  "bindE m f = Inr y \<longleftrightarrow> (\<exists>x. m = Inr x \<and> f x = Inr y)"
  by (cases m) auto

lemma bindE_Inl_iff: "bindE m f = Inl e \<longleftrightarrow> m = Inl e \<or> (\<exists>x. m = Inr x \<and> f x = Inl e)"
  by (cases m) auto

lemma guardE_Inr_iff [outcome_simps]: "guardE c msg k = Inr y \<longleftrightarrow> c \<and> k = Inr y"
  by (simp add: guardE_def)

lemmas [outcome_simps] = Let_def

lemma guardE_True [simp]: "guardE True msg k = k"
  by (simp add: guardE_def)

lemma guardE_False [simp]: "guardE False msg k = Inl (IllegalArgument (Some msg))"
  by (simp add: guardE_def)

lemma guardE_cong [cong]:
  "c = c' \<Longrightarrow> (c' \<Longrightarrow> k = k') \<Longrightarrow> guardE c msg k = guardE c' msg k'"
  by (auto simp: guardE_def)

lemma bindE_assoc: "bindE (bindE m f) g = bindE m (\<lambda>x. bindE (f x) g)"
  by (cases m) auto

lemma bindE_right_unit [simp]: "bindE m Inr = m"
  by (cases m) auto

lemma is_ok_Inr [simp]: "is_ok (Inr x)"
  by (simp add: is_ok_def)

lemma is_ok_Inl [simp]: "\<not> is_ok (Inl e)"
  by (simp add: is_ok_def)

lemma not_is_ok_iff: "\<not> is_ok r \<longleftrightarrow> (\<exists>e. r = Inl e)"
  by (cases r) auto

lemma is_ok_bindE: "is_ok (bindE m f) \<longleftrightarrow> (\<exists>x. m = Inr x \<and> is_ok (f x))"
  by (cases m) auto

lemma is_ok_guardE: "is_ok (guardE c msg k) \<longleftrightarrow> c \<and> is_ok k"
  by (simp add: guardE_def)

text \<open>\<open>mapM_E f xs\<close> runs \<open>f\<close> over a list from left to right and stops at the first
  exception.\<close>

primrec mapM_E :: "('a \<Rightarrow> 'e + 'b) \<Rightarrow> 'a list \<Rightarrow> 'e + 'b list" where
  "mapM_E f [] = Inr []"
| "mapM_E f (x # xs) = bindE (f x) (\<lambda>y. bindE (mapM_E f xs) (\<lambda>ys. Inr (y # ys)))"

lemma mapM_E_map: "(\<And>x. x \<in> set xs \<Longrightarrow> f x = Inr (g x)) \<Longrightarrow> mapM_E f xs = Inr (map g xs)"
  by (induction xs) auto

section \<open>Kotlin collections\<close>

text \<open>\<open>single()\<close>, \<open>first()\<close> and \<open>!!\<close>.\<close>

fun singleE :: "'a list \<Rightarrow> 'a outcome" where
  "singleE [] = Inl NoSuchElement"
| "singleE [x] = Inr x"
| "singleE (x # y # xs) = Inl (IllegalArgument (Some ''Collection has more than one element.''))"

primrec firstE :: "'a list \<Rightarrow> 'a outcome" where
  "firstE [] = Inl NoSuchElement"
| "firstE (x # xs) = Inr x"

primrec not_null :: "'a option \<Rightarrow> 'a outcome" where
  "not_null None = Inl NullPointer"
| "not_null (Some x) = Inr x"

lemma singleE_Inr_iff [outcome_simps]: "singleE xs = Inr x \<longleftrightarrow> xs = [x]"
  by (cases xs rule: singleE.cases) auto

lemma firstE_Inr_iff [outcome_simps]: "firstE xs = Inr x \<longleftrightarrow> (\<exists>ys. xs = x # ys)"
  by (cases xs) auto

lemma not_null_Inr_iff [outcome_simps]: "not_null v = Inr x \<longleftrightarrow> v = Some x"
  by (cases v) auto

section \<open>Signed 64-bit comparison\<close>

text \<open>\<open>Long.compareTo\<close>: negative, zero or positive as the signed values compare.\<close>

definition long_compare :: "long \<Rightarrow> long \<Rightarrow> int" where
  "long_compare a b = (if sint a < sint b then -1 else if sint a = sint b then 0 else 1)"

lemma long_linear: "a = b \<or> sint a < sint b \<or> sint b < sint a" for a b :: long
proof (cases "sint a = sint b")
  case True
  then have "a = b" by (rule signed_word_eqI)
  then show ?thesis by simp
qed linarith

lemma sint_word_of_int_long:
  "- (2 ^ 63) \<le> i \<Longrightarrow> i < 2 ^ 63 \<Longrightarrow> sint (word_of_int i :: long) = i"
  by (simp add: sint_sbintrunc' signed_take_bit_int_eq_self)

lemma long_compare_zero_iff [simp]: "long_compare a b = 0 \<longleftrightarrow> a = b"
  by (auto simp: long_compare_def signed_word_eqI)

lemma long_compare_neg_iff [simp]: "long_compare a b < 0 \<longleftrightarrow> sint a < sint b"
  by (auto simp: long_compare_def)

section \<open>Strings\<close>

text \<open>\<open>split(c)\<close> always returns at least one component.\<close>

fun split_on :: "char \<Rightarrow> string \<Rightarrow> string list" where
  "split_on c [] = [[]]"
| "split_on c (x # xs) =
     (if x = c then [] # split_on c xs
      else (case split_on c xs of [] \<Rightarrow> [[x]] | y # ys \<Rightarrow> (x # y) # ys))"

text \<open>\<open>split(c, limit = n)\<close> for a positive limit: the last component is not split further.\<close>

fun split_limit :: "char \<Rightarrow> nat \<Rightarrow> string \<Rightarrow> string list" where
  "split_limit c n [] = [[]]"
| "split_limit c n (x # xs) =
     (if n \<le> 1 then [x # xs]
      else if x = c then [] # split_limit c (n - 1) xs
      else (case split_limit c n xs of [] \<Rightarrow> [[x]] | y # ys \<Rightarrow> (x # y) # ys))"

text \<open>\<open>joinToString(sep)\<close> for a one-character separator.\<close>

fun join_with :: "char \<Rightarrow> string list \<Rightarrow> string" where
  "join_with c [] = []"
| "join_with c [x] = x"
| "join_with c (x # y # ys) = x @ c # join_with c (y # ys)"

lemma split_on_not_Nil [simp]: "split_on c s \<noteq> []"
  by (induction s) (auto split: list.splits)

lemma split_limit_not_Nil [simp]: "split_limit c n s \<noteq> []"
  by (induction c n s rule: split_limit.induct) (auto split: list.splits)

lemma join_with_Cons: "ys \<noteq> [] \<Longrightarrow> join_with c (x # ys) = x @ c # join_with c ys"
  by (cases ys) auto

lemma join_split_on [simp]: "join_with c (split_on c s) = s"
proof (induction s)
  case (Cons x xs)
  then show ?case
    by (cases "split_on c xs"; cases "tl (split_on c xs)") (auto simp: join_with_Cons)
qed simp

lemma split_on_no_sep: "c \<notin> set s \<Longrightarrow> split_on c s = [s]"
  by (induction s) auto

lemma split_on_append_sep:
  "c \<notin> set p \<Longrightarrow> split_on c (p @ c # s) = p # split_on c s"
  by (induction p) auto

lemma split_on_join:
  "xs \<noteq> [] \<Longrightarrow> \<forall>x \<in> set xs. c \<notin> set x \<Longrightarrow> split_on c (join_with c xs) = xs"
  by (induction c xs rule: join_with.induct) (auto simp: split_on_no_sep split_on_append_sep)

lemma split_on_snoc_sep:
  "c \<notin> set b \<Longrightarrow> split_on c (p @ c # b) = split_on c p @ [b]"
  by (induction p) (auto simp: split_on_no_sep split: list.splits)

lemma split_on_components: "x \<in> set (split_on c s) \<Longrightarrow> c \<notin> set x"
  by (induction s arbitrary: x) (auto split: if_splits list.splits)

lemma split_limit_join [simp]: "join_with c (split_limit c n s) = s"
proof (induction c n s rule: split_limit.induct)
  case (2 c n x xs)
  then show ?case
    by (cases "split_limit c n xs"; cases "tl (split_limit c n xs)")
      (auto simp: join_with_Cons)
qed simp

lemma split_limit_append_sep:
  "1 < n \<Longrightarrow> c \<notin> set p \<Longrightarrow> split_limit c n (p @ c # s) = p # split_limit c (n - 1) s"
  by (induction p) auto

lemma split_limit_no_sep: "c \<notin> set s \<Longrightarrow> split_limit c n s = [s]"
  by (induction s) auto

lemma split_limit_1 [simp]: "split_limit c (Suc 0) s = [s]"
  by (cases s) auto

text \<open>\<open>lastIndexOf(c)\<close>; \<open>None\<close> is the \<open>-1\<close> of a missing character.\<close>

fun last_index_of :: "char \<Rightarrow> string \<Rightarrow> nat option" where
  "last_index_of c [] = None"
| "last_index_of c (x # xs) =
     (case last_index_of c xs of
        Some i \<Rightarrow> Some (Suc i)
      | None \<Rightarrow> if x = c then Some 0 else None)"

lemma last_index_of_None_iff: "last_index_of c s = None \<longleftrightarrow> c \<notin> set s"
  by (induction s) (auto split: option.splits)

lemma last_index_of_append:
  "c \<notin> set q \<Longrightarrow> last_index_of c (p @ c # q) = Some (length p)"
  by (induction p) (auto simp: last_index_of_None_iff split: option.splits)

text \<open>\<open>substringAfterLast(c)\<close>: the whole string when \<open>c\<close> is missing.\<close>

definition substring_after_last :: "char \<Rightarrow> string \<Rightarrow> string" where
  "substring_after_last c s =
     (case last_index_of c s of None \<Rightarrow> s | Some i \<Rightarrow> drop (Suc i) s)"

section \<open>Decimal numbers\<close>

definition digit_char :: "nat \<Rightarrow> char" where
  "digit_char d = char_of (48 + d)"

definition digit_value :: "char \<Rightarrow> nat option" where
  "digit_value c =
     (let n = (of_char c :: nat) in if 48 \<le> n \<and> n \<le> 57 then Some (n - 48) else None)"

fun nat_to_string :: "nat \<Rightarrow> string" where
  "nat_to_string n =
     (if n < 10 then [digit_char n] else nat_to_string (n div 10) @ [digit_char (n mod 10)])"

declare nat_to_string.simps [simp del]

text \<open>\<open>toString()\<close> of a \<open>Long\<close> or a \<open>BigInteger\<close>.\<close>

definition int_to_string :: "int \<Rightarrow> string" where
  "int_to_string i =
     (if i < 0 then CHR ''-'' # nat_to_string (nat (- i)) else nat_to_string (nat i))"

fun digits_value :: "nat \<Rightarrow> string \<Rightarrow> nat option" where
  "digits_value acc [] = Some acc"
| "digits_value acc (c # cs) =
     (case digit_value c of None \<Rightarrow> None | Some d \<Rightarrow> digits_value (10 * acc + d) cs)"

definition parse_digits :: "string \<Rightarrow> nat option" where
  "parse_digits s = (if s = [] then None else digits_value 0 s)"

text \<open>An optional sign and at least one digit: the syntax \<open>Long.parseLong\<close> and the
  \<open>BigInteger\<close> constructor accept.\<close>

fun parse_int :: "string \<Rightarrow> int option" where
  "parse_int [] = None"
| "parse_int (c # cs) =
     (if c = CHR ''-'' then map_option (\<lambda>n. - int n) (parse_digits cs)
      else if c = CHR ''+'' then map_option int (parse_digits cs)
      else map_option int (parse_digits (c # cs)))"

definition to_big_integer :: "string \<Rightarrow> int outcome" where
  "to_big_integer s =
     (case parse_int s of
        None \<Rightarrow> Inl (IllegalArgument (Some (''For input string: '' @ s)))
      | Some i \<Rightarrow> Inr i)"

definition to_long :: "string \<Rightarrow> long outcome" where
  "to_long s =
     (case parse_int s of
        None \<Rightarrow> Inl (IllegalArgument (Some (''For input string: '' @ s)))
      | Some i \<Rightarrow>
          if - (2 ^ 63) \<le> i \<and> i < 2 ^ 63 then Inr (word_of_int i)
          else Inl (IllegalArgument (Some (''For input string: '' @ s))))"

text \<open>The \<open>BigDecimal\<close> constructor: digits with an optional sign, point and exponent. The value
  is the unscaled number and the scale, which must be a 32-bit number.\<close>

definition parse_big_decimal :: "string \<Rightarrow> (int \<times> int) option" where
  "parse_big_decimal s =
     (let mantissa = takeWhile (\<lambda>c. c \<notin> set ''eE'') s;
          exponent = drop (length mantissa) s;
          negative = (mantissa \<noteq> [] \<and> hd mantissa = CHR ''-'');
          body = (if mantissa \<noteq> [] \<and> hd mantissa \<in> set ''+-'' then tl mantissa else mantissa);
          whole = takeWhile (\<lambda>c. c \<noteq> CHR ''.'') body;
          fraction = drop (Suc (length whole)) body
      in case (parse_digits (whole @ fraction), if exponent = [] then Some 0 else parse_int (tl exponent)) of
           (Some n, Some e) \<Rightarrow>
             let scale = int (length fraction) - e in
             if - (2 ^ 31) \<le> scale \<and> scale < 2 ^ 31
             then Some (if negative then - int n else int n, scale) else None
         | _ \<Rightarrow> None)"

definition to_big_decimal :: "string \<Rightarrow> (int \<times> int) outcome" where
  "to_big_decimal s =
     (case parse_big_decimal s of None \<Rightarrow> Inl (IllegalArgument None) | Some d \<Rightarrow> Inr d)"

text \<open>\<open>try { ... } catch (e: IllegalArgumentException) { ... }\<close>, where the handler sees the
  message.\<close>

fun catch_illegal_argument :: "'a outcome \<Rightarrow> (string option \<Rightarrow> 'a outcome) \<Rightarrow> 'a outcome" where
  "catch_illegal_argument (Inl (IllegalArgument msg)) handler = handler msg"
| "catch_illegal_argument r handler = r"

lemma digit_value_digit_char [simp]: "d < 10 \<Longrightarrow> digit_value (digit_char d) = Some d"
  by (simp add: digit_value_def digit_char_def Let_def)

lemma digits_value_append:
  "digits_value acc (xs @ ys) =
     (case digits_value acc xs of None \<Rightarrow> None | Some v \<Rightarrow> digits_value v ys)"
  by (induction xs arbitrary: acc) (auto split: option.splits)

lemma digits_value_nat_to_string:
  "digits_value 0 (nat_to_string n) = Some n"
proof (induction n rule: nat_to_string.induct)
  case (1 n)
  show ?case
  proof (cases "n < 10")
    case True
    then show ?thesis by (simp add: nat_to_string.simps [of n])
  next
    case False
    with 1 have "digits_value 0 (nat_to_string (n div 10)) = Some (n div 10)" by simp
    with False show ?thesis
      by (simp add: nat_to_string.simps [of n] digits_value_append)
  qed
qed

lemma nat_to_string_not_Nil [simp]: "nat_to_string n \<noteq> []"
  by (simp add: nat_to_string.simps [of n])

lemma digit_char_neq:
  "d < 10 \<Longrightarrow> digit_char d \<noteq> CHR ''-'' \<and> digit_char d \<noteq> CHR ''+'' \<and> digit_char d \<noteq> CHR ''/''"
proof -
  assume "d < 10"
  then have "of_char (digit_char d) = 48 + d"
    by (simp add: digit_char_def)
  with \<open>d < 10\<close> show ?thesis by auto
qed

lemma nat_to_string_digits:
  "c \<in> set (nat_to_string n) \<Longrightarrow> \<exists>d<10. c = digit_char d"
proof (induction n rule: nat_to_string.induct)
  case (1 n)
  then show ?case
    by (cases "n < 10") (auto simp: nat_to_string.simps [of n] intro: exI [of _ "n mod 10"])
qed

lemma nat_to_string_clean:
  "CHR ''-'' \<notin> set (nat_to_string n)" "CHR ''+'' \<notin> set (nat_to_string n)"
  "CHR ''/'' \<notin> set (nat_to_string n)"
  using nat_to_string_digits digit_char_neq by metis+

lemma parse_digits_nat_to_string [simp]: "parse_digits (nat_to_string n) = Some n"
  by (simp add: parse_digits_def digits_value_nat_to_string)

lemma parse_int_nat_to_string: "parse_int (nat_to_string n) = Some (int n)"
proof (cases "nat_to_string n")
  case (Cons c cs)
  with nat_to_string_clean(1,2) [of n] have "c \<noteq> CHR ''-''" "c \<noteq> CHR ''+''" by auto
  with parse_digits_nat_to_string [of n] Cons show ?thesis by simp
qed simp

text \<open>Printing and parsing agree.\<close>

lemma parse_int_to_string [simp]: "parse_int (int_to_string i) = Some i"
  by (simp add: int_to_string_def parse_int_nat_to_string)

lemma to_big_integer_to_string [simp]: "to_big_integer (int_to_string i) = Inr i"
  by (simp add: to_big_integer_def)

lemma to_long_to_string [simp]: "to_long (int_to_string (sint x)) = Inr x" for x :: long
  using sint_range_size [of x] by (simp add: to_long_def word_size)

lemma int_to_string_inject [simp]: "int_to_string i = int_to_string j \<longleftrightarrow> i = j"
  by (metis option.inject parse_int_to_string)

lemma int_to_string_nonneg:
  "0 \<le> i \<Longrightarrow> CHR ''-'' \<notin> set (int_to_string i)"
  by (simp add: int_to_string_def nat_to_string_clean)

end
