(* ===== verification/Identifiers.thy ===== *)
theory Identifiers
  imports Prelude "HOL-Library.List_Lexorder" "HOL-Library.Char_ord"
begin

text \<open>
  ICS-24 identifiers (\<open>ics24/Identifier.kt\<close>) with the check their constructor makes and their
  order, and the client types (\<open>ics2/ClientType.kt\<close>) with the names that prefix client
  identifiers. The lemmas show which strings are identifiers and that the names of the client
  types determine them.
\<close>

section \<open>Identifier\<close>

datatype ident = Identifier (ident_string: string)

text \<open>The character class \<open>[0-9a-zA-Z._+\-#\[\]<>]\<close> of the constructor's check.\<close>

definition identifier_char :: "char \<Rightarrow> bool" where
  "identifier_char c \<longleftrightarrow>
     (let n = (of_char c :: nat) in
        (48 \<le> n \<and> n \<le> 57) \<or> (97 \<le> n \<and> n \<le> 122) \<or> (65 \<le> n \<and> n \<le> 90)) \<or>
     c \<in> set ''._+-#[]<>''"

definition mk_identifier :: "string \<Rightarrow> ident outcome" where
  "mk_identifier s = requireE (list_all identifier_char s) (Inr (Identifier s))"

text \<open>\<open>compareTo\<close> is the comparison of the strings: the difference of the first characters that
  differ, or of the lengths.\<close>

fun string_compare :: "string \<Rightarrow> string \<Rightarrow> int" where
  "string_compare [] t = - int (length t)"
| "string_compare (c # s) [] = int (length (c # s))"
| "string_compare (c # s) (d # t) = (if c = d then string_compare s t else of_char c - of_char d)"

definition identifier_compare :: "ident \<Rightarrow> ident \<Rightarrow> int" where
  "identifier_compare a b = string_compare (ident_string a) (ident_string b)"

lemma string_compare_less_iff: "string_compare s t < 0 \<longleftrightarrow> s < t"
proof (induction s t rule: string_compare.induct)
  case (3 c s d t)
  have int: "(of_char x :: int) = int (of_char x)" for x by (simp only: of_nat_of_char)
  have "(of_char c - of_char d < (0 :: int)) \<longleftrightarrow> (of_char c :: nat) < of_char d"
    unfolding int by linarith
  then show ?case using 3 by (simp add: less_char_def)
next
  case (1 t)
  then show ?case by (cases t) simp_all
qed simp

lemma string_compare_eq_iff [simp]: "string_compare s t = 0 \<longleftrightarrow> s = t"
  by (induction s t rule: string_compare.induct) auto

instantiation ident :: linorder
begin

definition less_eq_ident :: "ident \<Rightarrow> ident \<Rightarrow> bool" where
  "less_eq_ident a b \<longleftrightarrow> identifier_compare a b \<le> 0"

definition less_ident :: "ident \<Rightarrow> ident \<Rightarrow> bool" where
  "less_ident a b \<longleftrightarrow> identifier_compare a b < 0"

instance
proof
  have le: "x \<le> y \<longleftrightarrow> ident_string x \<le> ident_string y" for x y :: ident
    using string_compare_less_iff [of "ident_string x" "ident_string y"]
      string_compare_eq_iff [of "ident_string x" "ident_string y"]
    unfolding less_eq_ident_def identifier_compare_def order.order_iff_strict by linarith
  fix a b c :: ident
  show "a < b \<longleftrightarrow> a \<le> b \<and> \<not> b \<le> a"
    by (auto simp: le less_ident_def identifier_compare_def string_compare_less_iff)
  show "a \<le> a" by (simp add: le)
  show "a \<le> b \<Longrightarrow> b \<le> c \<Longrightarrow> a \<le> c" by (simp add: le)
  show "a \<le> b \<Longrightarrow> b \<le> a \<Longrightarrow> a = b" by (simp add: le ident.expand)
  show "a \<le> b \<or> b \<le> a" by (auto simp: le)
qed

end

lemma mk_identifier_Inr_iff [outcome_simps]:
  "mk_identifier s = Inr i \<longleftrightarrow> list_all identifier_char s \<and> i = Identifier s"
  by (auto simp: mk_identifier_def outcome_simps)

lemma mk_identifier_ok [simp]: "list_all identifier_char s \<Longrightarrow> mk_identifier s = Inr (Identifier s)"
  by (simp add: mk_identifier_def)

lemma mk_identifier_inject:
  "mk_identifier s = Inr i \<Longrightarrow> mk_identifier t = Inr i \<Longrightarrow> s = t"
  by (simp add: outcome_simps)

lemma identifier_char_no_slash: "\<not> identifier_char CHR ''/''"
  by (simp add: identifier_char_def)

lemma identifier_no_slash: "list_all identifier_char s \<Longrightarrow> CHR ''/'' \<notin> set s"
  using identifier_char_no_slash by (auto simp: list_all_iff)

lemma identifier_char_digit: "d < 10 \<Longrightarrow> identifier_char (digit_char d)"
  by (simp add: identifier_char_def digit_char_def)

lemma identifier_nat_to_string: "list_all identifier_char (nat_to_string n)"
  using nat_to_string_digits identifier_char_digit by (fastforce simp: list_all_iff)

lemma identifier_int_to_string: "list_all identifier_char (int_to_string i)"
  by (simp add: int_to_string_def identifier_nat_to_string) (simp add: identifier_char_def)

section \<open>Client types\<close>

datatype client_type =
  CordaClient | FabricClient | SoloMachineClient | TendermintClient | LocalhostClient

fun client_type_string :: "client_type \<Rightarrow> string" where
  "client_type_string CordaClient = ''corda-ibc''"
| "client_type_string FabricClient = ''hyperledgerfabric''"
| "client_type_string SoloMachineClient = ''06-solomachine''"
| "client_type_string TendermintClient = ''07-tendermint''"
| "client_type_string LocalhostClient = ''09-localhost''"

definition client_types :: "client_type list" where
  "client_types =
     [CordaClient, FabricClient, SoloMachineClient, TendermintClient, LocalhostClient]"

text \<open>\<open>values().single{it.string == s}\<close>.\<close>

definition client_type_of_string :: "string \<Rightarrow> client_type outcome" where
  "client_type_of_string s = singleE (filter (\<lambda>t. client_type_string t = s) client_types)"

lemma client_type_of_string_string [simp]: "client_type_of_string (client_type_string t) = Inr t"
  by (cases t) (simp_all add: client_type_of_string_def client_types_def)

lemma client_type_string_inject [simp]:
  "client_type_string s = client_type_string t \<longleftrightarrow> s = t"
  by (cases s; cases t) simp_all

lemma client_type_of_string_Inr_iff [outcome_simps]:
  "client_type_of_string s = Inr t \<longleftrightarrow> s = client_type_string t"
proof
  assume "client_type_of_string s = Inr t"
  then have "t \<in> set (filter (\<lambda>t. client_type_string t = s) client_types)"
    unfolding client_type_of_string_def by (simp add: outcome_simps)
  then show "s = client_type_string t" by simp
qed simp

lemma identifier_client_type_string: "list_all identifier_char (client_type_string t)"
  by (cases t) (simp_all add: identifier_char_def)

end
