(* ===== verification/Ibc_Messages.thy ===== *)
theory Ibc_Messages
  imports Prelude
begin

text \<open>
  The protocol-buffer messages the CorDapp exchanges (the generated Java classes of
  \<open>ibc.core\<close>, \<open>ibc.applications.transfer\<close> and \<open>ibc.lightclients\<close>), one record per message
  with the fields the sources read or write, and one constructor per enum value. An unset
  string is the empty string and an unset number is 0, as in proto3; a sub-message whose
  presence is tested (\<open>hasVersion()\<close>) is an option. The height order is
  \<open>proto/src/main/kotlin/ibc/core/client/v1/extension.kt\<close>, the constants are
  \<open>clients/corda/constants.kt\<close>.
\<close>

section \<open>Client messages\<close>

datatype height = Height (revision_number: long) (revision_height: long)

text \<open>\<open>Client.Height.compareTo\<close>: revision number first, both as signed \<open>Long\<close>s.\<close>

definition height_compare :: "height \<Rightarrow> height \<Rightarrow> int" where
  "height_compare a b =
     (if revision_number a = revision_number b
      then long_compare (revision_height a) (revision_height b)
      else long_compare (revision_number a) (revision_number b))"

definition height_is_zero :: "height \<Rightarrow> bool" where
  "height_is_zero h \<longleftrightarrow> h = Height 0 0"

text \<open>\<open>google.protobuf.Any\<close>.\<close>

record any =
  type_url :: string
  any_value :: bytes

record merkle_prefix =
  key_prefix :: bytes

record msg_create_client =
  mcc_client_state :: any
  mcc_consensus_state :: any

section \<open>Connection messages\<close>

record version =
  version_identifier :: string
  version_features :: "string list"

datatype conn_state = CONN_UNINITIALIZED | CONN_INIT | CONN_TRYOPEN | CONN_OPEN

record conn_counterparty =
  cp_client_id :: string
  cp_connection_id :: string
  cp_prefix :: merkle_prefix

record connection_end =
  ce_client_id :: string
  ce_versions :: "version list"
  ce_state :: conn_state
  ce_counterparty :: conn_counterparty
  ce_delay_period :: long

record msg_conn_open_init =
  coi_client_id :: string
  coi_counterparty :: conn_counterparty
  coi_version :: "version option"
  coi_delay_period :: long

record msg_conn_open_try =
  cot_client_id :: string
  cot_previous_connection_id :: string
  cot_client_state :: any
  cot_counterparty :: conn_counterparty
  cot_delay_period :: long
  cot_counterparty_versions :: "version list"
  cot_proof_height :: height
  cot_proof_init :: bytes
  cot_proof_client :: bytes
  cot_proof_consensus :: bytes
  cot_consensus_height :: height

record msg_conn_open_ack =
  coa_connection_id :: string
  coa_counterparty_connection_id :: string
  coa_version :: version
  coa_client_state :: any
  coa_proof_height :: height
  coa_proof_try :: bytes
  coa_proof_client :: bytes
  coa_proof_consensus :: bytes
  coa_consensus_height :: height

record msg_conn_open_confirm =
  coc_connection_id :: string
  coc_proof_ack :: bytes
  coc_proof_height :: height

section \<open>Channel messages\<close>

datatype chan_state = CHAN_UNINITIALIZED | CHAN_INIT | CHAN_TRYOPEN | CHAN_OPEN | CHAN_CLOSED

datatype order = ORDER_NONE_UNSPECIFIED | ORDER_UNORDERED | ORDER_ORDERED

text \<open>\<open>ordering.name\<close>, the name of the Java enum constant.\<close>

fun order_name :: "order \<Rightarrow> string" where
  "order_name ORDER_NONE_UNSPECIFIED = ''ORDER_NONE_UNSPECIFIED''"
| "order_name ORDER_UNORDERED = ''ORDER_UNORDERED''"
| "order_name ORDER_ORDERED = ''ORDER_ORDERED''"

record chan_counterparty =
  cc_port_id :: string
  cc_channel_id :: string

record channel_end =
  ch_state :: chan_state
  ch_ordering :: order
  ch_counterparty :: chan_counterparty
  ch_connection_hops :: "string list"
  ch_version :: string

record packet =
  pkt_sequence :: long
  pkt_source_port :: string
  pkt_source_channel :: string
  pkt_destination_port :: string
  pkt_destination_channel :: string
  pkt_data :: bytes
  pkt_timeout_height :: height
  pkt_timeout_timestamp :: long

text \<open>The \<open>oneof response\<close> of \<open>Acknowledgement\<close>.\<close>

datatype acknowledgement = AckResult bytes | AckError string | AckNotSet

record msg_chan_open_init =
  hoi_port_id :: string
  hoi_channel :: channel_end

record msg_chan_open_try =
  hot_port_id :: string
  hot_previous_channel_id :: string
  hot_channel :: channel_end
  hot_counterparty_version :: string
  hot_proof_init :: bytes
  hot_proof_height :: height

record msg_chan_open_ack =
  hoa_port_id :: string
  hoa_channel_id :: string
  hoa_counterparty_channel_id :: string
  hoa_counterparty_version :: string
  hoa_proof_try :: bytes
  hoa_proof_height :: height

record msg_chan_open_confirm =
  hoc_port_id :: string
  hoc_channel_id :: string
  hoc_proof_ack :: bytes
  hoc_proof_height :: height

record msg_chan_close_init =
  hci_port_id :: string
  hci_channel_id :: string

record msg_chan_close_confirm =
  hcc_port_id :: string
  hcc_channel_id :: string
  hcc_proof_init :: bytes
  hcc_proof_height :: height

record msg_recv_packet =
  mrp_packet :: packet
  mrp_proof_commitment :: bytes
  mrp_proof_height :: height

record msg_acknowledgement =
  mak_packet :: packet
  mak_acknowledgement :: bytes
  mak_proof_acked :: bytes
  mak_proof_height :: height

section \<open>Transfer messages\<close>

record denom_trace =
  trace_path :: string
  trace_base_denom :: string

record msg_transfer =
  mt_source_port :: string
  mt_source_channel :: string
  mt_token_denom :: string
  mt_token_amount :: string
  mt_sender :: string
  mt_receiver :: string
  mt_timeout_height :: height
  mt_timeout_timestamp :: long

record packet_data =
  pd_denom :: string
  pd_amount :: string
  pd_sender :: string
  pd_receiver :: string

section \<open>Constants of the Corda side\<close>

definition corda_HEIGHT :: height where
  "corda_HEIGHT = Height 0 1"

definition corda_VERSION :: version where
  "corda_VERSION =
     \<lparr>version_identifier = ''1'', version_features = [''ORDER_ORDERED'', ''ORDER_UNORDERED'']\<rparr>"

definition ascii_bytes :: "string \<Rightarrow> bytes" where
  "ascii_bytes s = map of_char s"

definition corda_PREFIX :: merkle_prefix where
  "corda_PREFIX = \<lparr>key_prefix = ascii_bytes ''ibc''\<rparr>"

section \<open>The height order\<close>

lemma height_compare_less_iff:
  "height_compare a b < 0 \<longleftrightarrow>
     sint (revision_number a) < sint (revision_number b) \<or>
     revision_number a = revision_number b \<and> sint (revision_height a) < sint (revision_height b)"
  by (auto simp: height_compare_def)

lemma height_compare_eq_iff [simp]: "height_compare a b = 0 \<longleftrightarrow> a = b"
  by (cases a; cases b) (auto simp: height_compare_def)

text \<open>
  \<open>compareTo\<close> makes heights a linear order, so the operators \<open><\<close> and \<open>\<le>\<close> of the sources
  are those of the library's class.
\<close>

instantiation height :: linorder
begin

definition less_eq_height :: "height \<Rightarrow> height \<Rightarrow> bool" where
  "less_eq_height a b \<longleftrightarrow> height_compare a b \<le> 0"

definition less_height :: "height \<Rightarrow> height \<Rightarrow> bool" where
  "less_height a b \<longleftrightarrow> height_compare a b < 0"

instance
proof
  fix a b c :: height
  have le: "x \<le> y \<longleftrightarrow> height_compare x y < 0 \<or> x = y" for x y :: height
    using height_compare_eq_iff [of x y] by (auto simp: less_eq_height_def simp del: height_compare_eq_iff)
  show "a < b \<longleftrightarrow> a \<le> b \<and> \<not> b \<le> a"
    by (auto simp: le less_height_def height_compare_less_iff)
  show "a \<le> a" by (simp add: le)
  show "a \<le> b \<Longrightarrow> b \<le> c \<Longrightarrow> a \<le> c"
    by (auto simp: le height_compare_less_iff)
  show "a \<le> b \<Longrightarrow> b \<le> a \<Longrightarrow> a = b"
    by (auto simp: le height_compare_less_iff)
  show "a \<le> b \<or> b \<le> a"
    using long_linear [of "revision_number a" "revision_number b"]
      long_linear [of "revision_height a" "revision_height b"] height.expand [of a b]
    by (auto simp: le height_compare_less_iff)
qed

end

lemma height_less_iff:
  "a < b \<longleftrightarrow>
     sint (revision_number a) < sint (revision_number b) \<or>
     revision_number a = revision_number b \<and> sint (revision_height a) < sint (revision_height b)"
  for a b :: height
  by (simp add: less_height_def height_compare_less_iff)

lemma height_less_Height [simp]:
  "Height m i < Height n j \<longleftrightarrow> sint m < sint n \<or> m = n \<and> sint i < sint j"
  by (simp add: height_less_iff)

end
