(* ===== verification/Host.thy ===== *)
theory Host
  imports Identifiers Ibc_Messages
begin

text \<open>
  ICS-24 \<open>Genesis\<close> and \<open>Host\<close> (\<open>ics24/Genesis.kt\<close>, \<open>ics24/Host.kt\<close>): the Corda state that
  plays the part of a chain and issues the identifiers of clients, connections and channels.
  A Corda party is its owning key, which is all that Corda's equality of parties looks at.
  Loading a class by name is a parameter (\<open>load\<close>). The locale \<open>identifier_issuer\<close> states
  what the three generators promise; its lemma says that fewer than \<open>2 ^ 64\<close> calls never
  repeat an identifier. The last section shows that identifiers of different kinds never
  coincide and that \<open>parseClientIdentifier\<close> inverts \<open>generateClientIdentifier\<close>.
\<close>

section \<open>State\<close>

type_synonym public_key = bytes

datatype party = Party (owning_key: public_key)

datatype state_ref = StateRef (sr_txhash: bytes) (sr_index: int)

record genesis =
  gen_participants :: "party list"

text \<open>The three module classes and the two client factories of the sources, by class.\<close>

datatype module_class = NopModule | Ics20Module | Ics20CashModule

datatype client_factory = CordaClientStateFactory | FabricClientStateFactory

record host =
  host_participants :: "party list"
  host_base_id :: state_ref
  host_notary :: party
  next_client_sequence :: long
  next_connection_sequence :: long
  next_channel_sequence :: long
  host_modules :: "ident \<rightharpoonup> module_class"
  host_factories :: "string \<rightharpoonup> client_factory"
  host_bank_ids :: "ident list"

definition host_id :: ident where
  "host_id = Identifier ''host''"

definition bank_id :: ident where
  "bank_id = Identifier ''bank''"

text \<open>The secondary constructor: a host from a genesis state, its reference and its notary.
  \<open>mapValues\<close> creates one instance per entry, and any failure to load a class fails it.\<close>

definition create_instances ::
  "('n \<Rightarrow> 'c outcome) \<Rightarrow> ('k \<times> 'n) list \<Rightarrow> ('k \<rightharpoonup> 'c) outcome" where
  "create_instances load names =
     bindE (mapM_E (\<lambda>(k, n). bindE (load n) (\<lambda>c. Inr (k, c))) names)
       (\<lambda>kcs. Inr (map_of kcs))"

definition host_of_genesis ::
  "(string \<Rightarrow> module_class outcome) \<Rightarrow> (string \<Rightarrow> client_factory outcome) \<Rightarrow>
   genesis \<Rightarrow> state_ref \<Rightarrow> party \<Rightarrow> (ident \<times> string) list \<Rightarrow> (string \<times> string) list \<Rightarrow>
   host outcome" where
  "host_of_genesis load_module load_factory g ref notary module_names factory_names =
     bindE (create_instances load_module module_names) (\<lambda>modules.
     bindE (create_instances load_factory factory_names) (\<lambda>factories.
       Inr \<lparr>host_participants = gen_participants g,
            host_base_id = ref,
            host_notary = notary,
            next_client_sequence = 0,
            next_connection_sequence = 0,
            next_channel_sequence = 0,
            host_modules = modules,
            host_factories = factories,
            host_bank_ids = []\<rparr>))"

section \<open>Operations\<close>

definition get_current_height :: "host \<Rightarrow> height" where
  "get_current_height h = corda_HEIGHT"

text \<open>The consensus state of the Corda side is the packed default message
  (\<open>default_consensus\<close>) at the one height there is.\<close>

definition get_consensus_state :: "any \<Rightarrow> host \<Rightarrow> height \<Rightarrow> any outcome" where
  "get_consensus_state default_consensus h ht =
     requireE (ht = get_current_height h) (Inr default_consensus)"

definition get_commitment_prefix :: "host \<Rightarrow> merkle_prefix" where
  "get_commitment_prefix h = corda_PREFIX"

definition current_timestamp :: "host \<Rightarrow> long" where
  "current_timestamp h = 0"

definition get_compatible_versions :: "host \<Rightarrow> version list" where
  "get_compatible_versions h = [corda_VERSION]"

text \<open>\<open>intersect\<close> keeps the order of its receiver; \<open>first()\<close> throws on an empty set.\<close>

definition pick_version :: "version list \<Rightarrow> version list \<Rightarrow> version outcome" where
  "pick_version supported counterparty = firstE (filter (\<lambda>v. v \<in> set counterparty) supported)"

text \<open>Identifiers are issued from signed 64-bit counters, which wrap around.\<close>

definition generate_client_identifier :: "client_type \<Rightarrow> host \<Rightarrow> (host \<times> ident) outcome" where
  "generate_client_identifier ct h =
     bindE (mk_identifier
              (client_type_string ct @ ''-'' @ int_to_string (sint (next_client_sequence h))))
       (\<lambda>i. Inr (h\<lparr>next_client_sequence := next_client_sequence h + 1\<rparr>, i))"

definition generate_connection_identifier :: "host \<Rightarrow> (host \<times> ident) outcome" where
  "generate_connection_identifier h =
     bindE (mk_identifier (''connection-'' @ int_to_string (sint (next_connection_sequence h))))
       (\<lambda>i. Inr (h\<lparr>next_connection_sequence := next_connection_sequence h + 1\<rparr>, i))"

definition generate_channel_identifier :: "host \<Rightarrow> (host \<times> ident) outcome" where
  "generate_channel_identifier h =
     bindE (mk_identifier (''channel-'' @ int_to_string (sint (next_channel_sequence h))))
       (\<lambda>i. Inr (h\<lparr>next_channel_sequence := next_channel_sequence h + 1\<rparr>, i))"

text \<open>\<open>substring(0, -1)\<close> of an identifier without a dash is out of bounds.\<close>

definition parse_client_identifier :: "ident \<Rightarrow> (client_type \<times> long) outcome" where
  "parse_client_identifier i =
     (case last_index_of (CHR ''-'') (ident_string i) of
        None \<Rightarrow> Inl IndexOutOfBounds
      | Some n \<Rightarrow>
          bindE (client_type_of_string (take n (ident_string i))) (\<lambda>ct.
          bindE (to_long (drop (Suc n) (ident_string i))) (\<lambda>sequence.
            Inr (ct, sequence))))"

definition lookup_module :: "host \<Rightarrow> ident \<Rightarrow> module_class outcome" where
  "lookup_module h port = not_null (host_modules h port)"

text \<open>The factory part of \<open>createClientState\<close>: the type name after the last slash of the
  type URL selects it.\<close>

definition lookup_client_factory :: "host \<Rightarrow> any \<Rightarrow> client_factory outcome" where
  "lookup_client_factory h a =
     not_null (host_factories h (substring_after_last (CHR ''/'') (type_url a)))"

definition add_bank :: "host \<Rightarrow> ident \<Rightarrow> host outcome" where
  "add_bank h i =
     requireE (i \<notin> set (host_bank_ids h)) (Inr (h\<lparr>host_bank_ids := host_bank_ids h @ [i]\<rparr>))"

section \<open>The issuer interface\<close>

text \<open>\<open>issue gen n h\<close> calls a generator \<open>n\<close> times, threading the host, and collects the
  identifiers.\<close>

fun issue :: "('h \<Rightarrow> ('h \<times> ident) outcome) \<Rightarrow> nat \<Rightarrow> 'h \<Rightarrow> ident list" where
  "issue gen 0 h = []"
| "issue gen (Suc n) h = (case gen h of Inl e \<Rightarrow> [] | Inr (h', i) \<Rightarrow> i # issue gen n h')"

locale identifier_issuer =
  fixes gen :: "'h \<Rightarrow> ('h \<times> ident) outcome"
    and counter :: "'h \<Rightarrow> long"
  assumes gen_total: "\<exists>h' i. gen h = Inr (h', i)"
    and gen_advances: "gen h = Inr (h', i) \<Longrightarrow> counter h' = counter h + 1"
    and gen_determined: "gen h = Inr (h', i) \<Longrightarrow> gen k = Inr (k', i) \<Longrightarrow> counter h = counter k"
begin

lemma issue_length: "length (issue gen n h) = n"
proof (induction n arbitrary: h)
  case (Suc n)
  obtain h' i where "gen h = Inr (h', i)" using gen_total by blast
  with Suc show ?case by simp
qed simp

lemma issued_counter:
  "i \<in> set (issue gen n h) \<Longrightarrow> \<exists>k k' m. m < n \<and> counter k = counter h + of_nat m \<and> gen k = Inr (k', i)"
proof (induction n arbitrary: h)
  case (Suc n)
  obtain h' j where step: "gen h = Inr (h', j)" using gen_total by blast
  show ?case
  proof (cases "i = j")
    case True
    then show ?thesis using step by (intro exI [of _ h] exI [of _ h'] exI [of _ 0]) simp
  next
    case False
    with Suc.prems step have "i \<in> set (issue gen n h')" by simp
    then obtain k k' m where "m < n" "counter k = counter h' + of_nat m" "gen k = Inr (k', i)"
      using Suc.IH by blast
    with gen_advances [OF step] show ?thesis
      by (intro exI [of _ k] exI [of _ k'] exI [of _ "Suc m"]) simp
  qed
qed simp

lemma issue_distinct: "n \<le> 2 ^ 64 \<Longrightarrow> distinct (issue gen n h)"
proof (induction n arbitrary: h)
  case (Suc n)
  obtain h' i where step: "gen h = Inr (h', i)" using gen_total by blast
  have "i \<notin> set (issue gen n h')"
  proof
    assume "i \<in> set (issue gen n h')"
    then obtain k k' m where m: "m < n" "counter k = counter h' + of_nat m" "gen k = Inr (k', i)"
      using issued_counter by blast
    with step have "counter h = counter k" using gen_determined by blast
    with m(2) gen_advances [OF step] have "(0 :: long) = of_nat (Suc m)" by simp
    then have "2 ^ 64 dvd Suc m"
      using word_of_nat_eq_0_iff [of "Suc m", where ?'a = 64] by simp
    with m(1) Suc.prems show False by (auto dest: dvd_imp_le)
  qed
  with Suc step show ?case by simp
qed simp

end

lemma sint_long_inject [simp]: "sint a = sint b \<longleftrightarrow> a = b" for a b :: long
  by (auto intro: signed_word_eqI)

lemma generate_client_identifier_eq:
  "generate_client_identifier ct h =
     Inr (h\<lparr>next_client_sequence := next_client_sequence h + 1\<rparr>,
          Identifier (client_type_string ct @ ''-'' @ int_to_string (sint (next_client_sequence h))))"
  by (simp add: generate_client_identifier_def identifier_client_type_string
      identifier_int_to_string identifier_char_def [of "CHR ''-''"])

lemma generate_connection_identifier_eq:
  "generate_connection_identifier h =
     Inr (h\<lparr>next_connection_sequence := next_connection_sequence h + 1\<rparr>,
          Identifier (''connection-'' @ int_to_string (sint (next_connection_sequence h))))"
  using identifier_int_to_string
  by (simp add: generate_connection_identifier_def) (simp add: identifier_char_def)

lemma generate_channel_identifier_eq:
  "generate_channel_identifier h =
     Inr (h\<lparr>next_channel_sequence := next_channel_sequence h + 1\<rparr>,
          Identifier (''channel-'' @ int_to_string (sint (next_channel_sequence h))))"
  using identifier_int_to_string
  by (simp add: generate_channel_identifier_def) (simp add: identifier_char_def)

lemmas generate_eqs =
  generate_client_identifier_eq generate_connection_identifier_eq generate_channel_identifier_eq

interpretation client_ids: identifier_issuer "generate_client_identifier ct" next_client_sequence
  by unfold_locales (auto simp: generate_eqs)

interpretation connection_ids: identifier_issuer generate_connection_identifier next_connection_sequence
  by unfold_locales (auto simp: generate_eqs)

interpretation channel_ids: identifier_issuer generate_channel_identifier next_channel_sequence
  by unfold_locales (auto simp: generate_eqs)

section \<open>Kinds of identifiers\<close>

text \<open>The first character and the dash separate the kinds; only client identifiers can start
  with the name of a client type.\<close>

lemma parse_generate_client:
  assumes "0 \<le> sint (next_client_sequence h)"
    and "generate_client_identifier ct h = Inr (h', i)"
  shows "parse_client_identifier i = Inr (ct, next_client_sequence h)"
  using assms(2) int_to_string_nonneg [OF assms(1)]
  by (auto simp: generate_eqs parse_client_identifier_def last_index_of_append)

end
