(* ===== verification/Denoms.thy ===== *)
theory Denoms
  imports Identifiers Ibc_Messages
begin

text \<open>
  ICS-20 denominations: the path functions of \<open>ics20/denom-path.kt\<close> and the class \<open>Denom\<close> of
  \<open>ics20/Denom.kt\<close>, a wrapper of \<open>DenomTrace\<close>. Hashing, hexadecimal, key decoding and the
  currency table belong to Corda and the JDK and are parameters. The lemmas show when printing
  and parsing a denomination are inverse, and that adding a port/channel hop and removing it
  are inverse, which the source/sink decision of the transfer module rests on.
\<close>

type_synonym denom = denom_trace

section \<open>Paths\<close>

definition path_add :: "string \<Rightarrow> ident \<Rightarrow> ident \<Rightarrow> string" where
  "path_add path port chan =
     (let new_path = ident_string port @ ''/'' @ ident_string chan in
      if path = [] then new_path else new_path @ ''/'' @ path)"

definition path_remove_prefix :: "string \<Rightarrow> string outcome" where
  "path_remove_prefix path =
     (let components = split_limit (CHR ''/'') 3 path in
      if length components = 2 then Inr []
      else requireE (length components = 3) (Inr (last components)))"

definition path_has_prefixes :: "string \<Rightarrow> string list \<Rightarrow> bool" where
  "path_has_prefixes path prefixes =
     (let components = split_on (CHR ''/'') path in
      if length components < length prefixes then False
      else list_all (\<lambda>(component, prefix). component = prefix) (zip components prefixes))"

section \<open>Denominations\<close>

definition denom_from_string :: "string \<Rightarrow> denom" where
  "denom_from_string s =
     (let components = split_on (CHR ''/'') s in
      \<lparr>trace_path = join_with (CHR ''/'') (butlast components),
       trace_base_denom = last components\<rparr>)"

definition denom_add_path :: "denom \<Rightarrow> ident \<Rightarrow> ident \<Rightarrow> denom" where
  "denom_add_path d port chan = d\<lparr>trace_path := path_add (trace_path d) port chan\<rparr>"

definition denom_has_prefix :: "denom \<Rightarrow> ident \<Rightarrow> ident \<Rightarrow> bool" where
  "denom_has_prefix d port chan =
     path_has_prefixes (trace_path d) [ident_string port, ident_string chan]"

definition denom_remove_prefix :: "denom \<Rightarrow> denom outcome" where
  "denom_remove_prefix d =
     bindE (path_remove_prefix (trace_path d)) (\<lambda>path. Inr (d\<lparr>trace_path := path\<rparr>))"

definition is_voucher :: "denom \<Rightarrow> bool" where
  "is_voucher d \<longleftrightarrow> trace_path d \<noteq> []"

definition denom_to_string :: "denom \<Rightarrow> string" where
  "denom_to_string d =
     (if is_voucher d then trace_path d @ ''/'' @ trace_base_denom d else trace_base_denom d)"

definition to_ibc_denom :: "(bytes \<Rightarrow> bytes) \<Rightarrow> (bytes \<Rightarrow> string) \<Rightarrow> denom \<Rightarrow> string" where
  "to_ibc_denom sha256 to_hex d = ''ibc/'' @ to_hex (sha256 (ascii_bytes (denom_to_string d)))"

text \<open>Issued currencies: the three-letter currency code, then the issuer's key in hex.
  \<open>slice\<close> past the end of the string is out of bounds.\<close>

definition encode_issued_currency :: "(bytes \<Rightarrow> string) \<Rightarrow> bytes \<Rightarrow> string \<Rightarrow> string" where
  "encode_issued_currency to_hex issuer_key currency_code = currency_code @ to_hex issuer_key"

definition decode_issued_currency ::
  "(string \<Rightarrow> bytes outcome) \<Rightarrow> (bytes \<Rightarrow> bytes outcome) \<Rightarrow> (string \<Rightarrow> string outcome) \<Rightarrow>
   string \<Rightarrow> (bytes \<times> string) outcome" where
  "decode_issued_currency from_hex decode_key currency_of s =
     (if length s < 3 then Inl IndexOutOfBounds
      else bindE (bindE (from_hex (drop 3 s)) decode_key) (\<lambda>issuer_key.
           bindE (currency_of (take 3 s)) (\<lambda>currency.
             Inr (issuer_key, currency))))"

definition denom_from_issued_currency :: "(bytes \<Rightarrow> string) \<Rightarrow> bytes \<Rightarrow> string \<Rightarrow> denom" where
  "denom_from_issued_currency to_hex issuer_key currency_code =
     denom_from_string (encode_issued_currency to_hex issuer_key currency_code)"

definition denom_issuer_key ::
  "(string \<Rightarrow> bytes outcome) \<Rightarrow> (bytes \<Rightarrow> bytes outcome) \<Rightarrow> (string \<Rightarrow> string outcome) \<Rightarrow>
   denom \<Rightarrow> bytes outcome" where
  "denom_issuer_key from_hex decode_key currency_of d =
     requireE (\<not> is_voucher d)
       (bindE (decode_issued_currency from_hex decode_key currency_of (trace_base_denom d))
          (\<lambda>p. Inr (fst p)))"

definition denom_currency ::
  "(string \<Rightarrow> bytes outcome) \<Rightarrow> (bytes \<Rightarrow> bytes outcome) \<Rightarrow> (string \<Rightarrow> string outcome) \<Rightarrow>
   denom \<Rightarrow> string outcome" where
  "denom_currency from_hex decode_key currency_of d =
     requireE (\<not> is_voucher d)
       (bindE (decode_issued_currency from_hex decode_key currency_of (trace_base_denom d))
          (\<lambda>p. Inr (snd p)))"

section \<open>Round trips\<close>

lemma denom_string_roundtrip:
  assumes "CHR ''/'' \<notin> set (trace_base_denom d)"
  shows "denom_from_string (denom_to_string d) = d"
  using assms
  by (cases d) (simp add: denom_from_string_def denom_to_string_def is_voucher_def
      split_on_snoc_sep split_on_no_sep Let_def)

lemma split_on_two:
  assumes "split_on c s = p # q # r"
  shows "s = p @ c # join_with c (q # r)" "c \<notin> set p"
  using assms join_split_on [of c s] split_on_components [of p c s]
  by (auto simp: join_with_Cons)

lemma denom_base_no_slash [simp]: "CHR ''/'' \<notin> set (trace_base_denom (denom_from_string s))"
  using split_on_components [OF last_in_set [OF split_on_not_Nil]]
  by (simp add: denom_from_string_def Let_def)

text \<open>Printing a parsed denomination gives the string back, except that a single leading slash
  is lost: the path before it is empty.\<close>

lemma denom_to_string_from_string:
  assumes "\<not> (\<exists>b. s = CHR ''/'' # b \<and> CHR ''/'' \<notin> set b)"
  shows "denom_to_string (denom_from_string s) = s"
proof (cases "CHR ''/'' \<in> set s")
  case True
  then obtain p b where s: "s = p @ CHR ''/'' # b" and b: "CHR ''/'' \<notin> set b"
    by (metis split_list_last)
  with assms have "p \<noteq> []" by auto
  with s b show ?thesis
    by (simp add: denom_to_string_def denom_from_string_def is_voucher_def split_on_snoc_sep)
next
  case False
  then show ?thesis
    by (simp add: denom_to_string_def denom_from_string_def is_voucher_def split_on_no_sep)
qed

lemma path_has_prefixes_two:
  "path_has_prefixes path [p, q] \<longleftrightarrow> (\<exists>r. split_on (CHR ''/'') path = p # q # r)"
  by (cases "split_on (CHR ''/'') path" rule: remdups_adj.cases)
    (auto simp: path_has_prefixes_def Let_def)

lemma ident_no_slash:
  assumes "mk_identifier s = Inr i"
  shows "CHR ''/'' \<notin> set (ident_string i)"
  using assms by (auto simp: outcome_simps identifier_no_slash)

lemma denom_has_prefix_add_path:
  assumes "CHR ''/'' \<notin> set (ident_string port)" "CHR ''/'' \<notin> set (ident_string chan)"
  shows "denom_has_prefix (denom_add_path d port chan) port chan"
  using assms
  by (simp add: denom_has_prefix_def denom_add_path_def path_add_def path_has_prefixes_two
      split_on_append_sep split_on_no_sep Let_def)

lemma denom_remove_add_path:
  assumes "CHR ''/'' \<notin> set (ident_string port)" "CHR ''/'' \<notin> set (ident_string chan)"
  shows "denom_remove_prefix (denom_add_path d port chan) = Inr d"
  using assms
  by (simp add: denom_remove_prefix_def denom_add_path_def path_add_def path_remove_prefix_def
      split_limit_append_sep split_limit_no_sep Let_def)

lemma denom_add_remove_prefix:
  assumes "denom_has_prefix d port chan"
    and "trace_path d \<noteq> ident_string port @ ''/'' @ ident_string chan @ ''/''"
  shows "\<exists>d'. denom_remove_prefix d = Inr d' \<and> denom_add_path d' port chan = d"
proof -
  let ?c = "CHR ''/''" and ?p = "ident_string port" and ?q = "ident_string chan"
  obtain r where split: "split_on ?c (trace_path d) = ?p # ?q # r"
    using assms(1) by (auto simp: denom_has_prefix_def path_has_prefixes_two)
  note path = split_on_two [OF split]
  have q: "?c \<notin> set ?q"
    using split_on_components [of ?q ?c "trace_path d"] split by simp
  show ?thesis
  proof (cases r)
    case Nil
    with path q show ?thesis
      by (simp add: denom_remove_prefix_def denom_add_path_def path_add_def path_remove_prefix_def
          split_limit_append_sep split_limit_no_sep Let_def)
  next
    case (Cons y ys)
    then have "trace_path d = ?p @ ?c # ?q @ ?c # join_with ?c r"
      using path by (simp add: join_with_Cons)
    with path(2) q assms(2) show ?thesis
      by (auto simp add: denom_remove_prefix_def denom_add_path_def path_add_def
          path_remove_prefix_def split_limit_append_sep Let_def)
  qed
qed

lemma denom_has_prefix_is_voucher: "denom_has_prefix d port chan \<Longrightarrow> is_voucher d"
  by (auto simp: denom_has_prefix_def path_has_prefixes_two is_voucher_def)

end
