(* ===== verification/Addresses.thy ===== *)
theory Addresses
  imports Prelude
begin

unbundle bit_operations_syntax

text \<open>
  ICS-20 addresses (\<open>ics20/Address.kt\<close>): the regrouping of a byte string into groups of
  another width (\<open>convertBits\<close>), and the Bech32 form built on it. The Bech32 codec itself,
  hexadecimal and key decoding are library code and parameters. The theory proves that the
  5-to-8 regrouping without padding inverts the 8-to-5 regrouping with padding, so an address
  survives its Bech32 form. The proof compares the two sides as bit strings: \<open>bits_be k n\<close> is
  the low \<open>k\<close> bits of \<open>n\<close>, most significant first.
\<close>

section \<open>Regrouping bits\<close>

text \<open>The inner \<open>while\<close> loop: emit groups while at least \<open>to_bits\<close> bits are pending.\<close>

fun drain_bits :: "nat \<Rightarrow> nat \<Rightarrow> nat \<Rightarrow> nat \<times> nat list" where
  "drain_bits to_bits acc n =
     (if 0 < to_bits \<and> to_bits \<le> n
      then (let n' = n - to_bits;
                (pending, out) = drain_bits to_bits acc n'
            in (pending, (drop_bit n' acc AND mask to_bits) # out))
      else (n, []))"

declare drain_bits.simps [simp del]

text \<open>The outer \<open>for\<close> loop over the values, with the accumulator and the number of pending
  bits; an input value wider than \<open>from_bits\<close> is refused.\<close>

fun feed_bits ::
  "nat \<Rightarrow> nat \<Rightarrow> nat \<Rightarrow> nat \<Rightarrow> nat list \<Rightarrow> (nat \<times> nat \<times> nat list) outcome" where
  "feed_bits from_bits to_bits acc n [] = Inr (acc, n, [])"
| "feed_bits from_bits to_bits acc n (v # vs) =
     guardE (drop_bit from_bits v = 0)
       (''Input value '' @ nat_to_string v @ '' exceeds '' @ nat_to_string from_bits @ '' bit size'')
       (let acc' = (push_bit from_bits acc OR v) AND mask (from_bits + to_bits - 1);
            (n', out) = drain_bits to_bits acc' (n + from_bits)
        in bindE (feed_bits from_bits to_bits acc' n' vs) (\<lambda>(acc'', n'', out').
             Inr (acc'', n'', out @ out')))"

definition convert_bits :: "nat \<Rightarrow> nat \<Rightarrow> bool \<Rightarrow> bytes \<Rightarrow> bytes outcome" where
  "convert_bits from_bits to_bits pad bs =
     bindE (feed_bits from_bits to_bits 0 0 (map unat bs)) (\<lambda>(acc, n, out).
       let rest = push_bit (to_bits - n) acc AND mask to_bits in
       if pad then Inr (map of_nat (if 0 < n then out @ [rest] else out))
       else if from_bits \<le> n \<or> rest \<noteq> 0
            then Inl (IllegalArgument (Some ''Could not convert bits, invalid padding''))
            else Inr (map of_nat out))"

section \<open>Addresses\<close>

datatype address = Address (address_bytes: bytes)

text \<open>The constructor runs the one of the library class \<open>OpaqueBytes\<close> (\<open>opaque\<close>), which may
  refuse the array.\<close>

definition mk_address :: "(bytes \<Rightarrow> unit outcome) \<Rightarrow> bytes \<Rightarrow> address outcome" where
  "mk_address opaque bs = bindE (opaque bs) (\<lambda>_. Inr (Address bs))"

definition bech32_prefix :: string where
  "bech32_prefix = ''cosmos''"

definition decode_bech32 ::
  "(string \<Rightarrow> (string \<times> bytes) outcome) \<Rightarrow> string \<Rightarrow> bytes outcome" where
  "decode_bech32 bech32_decode s =
     bindE (bech32_decode s) (\<lambda>(hrp, data).
       requireE (hrp = bech32_prefix) (convert_bits 5 8 False data))"

definition encode_bech32 :: "(string \<Rightarrow> bytes \<Rightarrow> string) \<Rightarrow> bytes \<Rightarrow> string outcome" where
  "encode_bech32 bech32_encode value =
     bindE (convert_bits 8 5 True value) (\<lambda>data. Inr (bech32_encode bech32_prefix data))"

definition address_from_bech32 ::
  "(bytes \<Rightarrow> unit outcome) \<Rightarrow> (string \<Rightarrow> (string \<times> bytes) outcome) \<Rightarrow> string \<Rightarrow>
   address outcome" where
  "address_from_bech32 opaque bech32_decode s =
     bindE (decode_bech32 bech32_decode s) (mk_address opaque)"

definition address_to_bech32 :: "(string \<Rightarrow> bytes \<Rightarrow> string) \<Rightarrow> address \<Rightarrow> string outcome" where
  "address_to_bech32 bech32_encode a = encode_bech32 bech32_encode (address_bytes a)"

definition address_from_hex ::
  "(bytes \<Rightarrow> unit outcome) \<Rightarrow> (string \<Rightarrow> bytes outcome) \<Rightarrow> string \<Rightarrow> address outcome" where
  "address_from_hex opaque parse_hex s = bindE (parse_hex s) (mk_address opaque)"

definition address_from_public_key :: "(bytes \<Rightarrow> unit outcome) \<Rightarrow> bytes \<Rightarrow> address outcome" where
  "address_from_public_key opaque encoded = mk_address opaque encoded"

definition address_to_public_key :: "(bytes \<Rightarrow> bytes outcome) \<Rightarrow> address \<Rightarrow> bytes outcome" where
  "address_to_public_key decode_key a = decode_key (address_bytes a)"

definition address_to_hex :: "(bytes \<Rightarrow> string) \<Rightarrow> address \<Rightarrow> string" where
  "address_to_hex to_hex a = to_hex (address_bytes a)"

section \<open>Bit strings\<close>

definition bits_be :: "nat \<Rightarrow> nat \<Rightarrow> bool list" where
  "bits_be k n = map (bit n) (rev [0..<k])"

lemma bits_be_0 [simp]: "bits_be 0 n = []"
  by (simp add: bits_be_def)

lemma length_bits_be [simp]: "length (bits_be k n) = k"
  by (simp add: bits_be_def)

lemma bits_be_add: "bits_be (j + k) n = bits_be j (drop_bit k n) @ bits_be k n"
proof -
  have "rev [0..<j + k] = map (\<lambda>i. i + k) (rev [0..<j]) @ rev [0..<k]"
    by (induction j) auto
  then show ?thesis
    by (simp add: bits_be_def bit_drop_bit_eq o_def add.commute)
qed

lemma bits_be_cong:
  "(\<And>i. i < k \<Longrightarrow> bit m i = bit n i) \<Longrightarrow> bits_be k m = bits_be k n"
  by (simp add: bits_be_def)

lemma bits_be_mask: "k \<le> m \<Longrightarrow> bits_be k (n AND mask m) = bits_be k n"
  by (rule bits_be_cong) (simp add: bit_simps)

lemma drop_bit_zero_iff: "drop_bit k v = 0 \<longleftrightarrow> v < 2 ^ k" for v :: nat
  by (simp add: drop_bit_eq_div div_eq_0_iff)

lemma bits_be_push:
  assumes "drop_bit k v = 0"
  shows "bits_be (j + k) (push_bit k a OR v) = bits_be j a @ bits_be k v"
proof -
  have "drop_bit k (push_bit k a OR v) = a"
    using assms by (simp add: drop_bit_push_bit)
  moreover have "bits_be k (push_bit k a OR v) = bits_be k v"
    by (rule bits_be_cong) (simp add: bit_simps)
  ultimately show ?thesis by (simp add: bits_be_add)
qed

lemma bits_be_inject:
  assumes "bits_be k m = bits_be k n" "m < 2 ^ k" "n < 2 ^ k"
  shows "m = n"
proof (rule bit_eqI)
  fix i
  show "bit m i = bit n i"
  proof (cases "i < k")
    case True
    with assms(1) show ?thesis by (simp add: bits_be_def)
  next
    case False
    then have "\<not> bit m i" "\<not> bit n i"
      using assms(2,3) drop_bit_zero_iff [of k]
      by (metis bit_iff_odd_drop_bit drop_bit_drop_bit drop_bit_of_0 even_zero
          le_add_diff_inverse2 linorder_not_less)+
    then show ?thesis by simp
  qed
qed

lemma bits_be_of_0 [simp]: "bits_be k 0 = replicate k False"
  by (rule nth_equalityI) (simp_all add: bits_be_def)

lemma bits_be_zero_iff: "bits_be k n = replicate k False \<longleftrightarrow> n AND mask k = 0"
proof -
  have "bits_be k n = replicate k False \<longleftrightarrow> bits_be k (n AND mask k) = bits_be k 0"
    by (simp add: bits_be_mask)
  also have "\<dots> \<longleftrightarrow> n AND mask k = 0"
    using bits_be_inject [of k "n AND mask k" 0]
    by (auto simp: take_bit_eq_mask [symmetric] take_bit_eq_mod)
  finally show ?thesis .
qed

lemma concat_bits_inject:
  assumes "concat (map (bits_be k) xs) = concat (map (bits_be k) ys)" "length xs = length ys"
    and "\<forall>x \<in> set xs. x < 2 ^ k" "\<forall>y \<in> set ys. y < 2 ^ k"
  shows "xs = ys"
  using assms(2,1,3,4)
  by (induction xs ys rule: list_induct2) (auto dest: bits_be_inject)

lemma length_concat_bits [simp]: "length (concat (map (bits_be k) xs)) = length xs * k"
  by (induction xs) auto

section \<open>What the loops compute\<close>

lemma drain_bits_spec:
  assumes "0 < to_bits" "drain_bits to_bits acc n = (pending, out)"
  shows "bits_be n acc = concat (map (bits_be to_bits) out) @ bits_be pending acc
    \<and> pending < to_bits \<and> (\<forall>v \<in> set out. v < 2 ^ to_bits)"
  using assms
proof (induction to_bits acc n arbitrary: pending out rule: drain_bits.induct)
  case (1 to_bits acc n)
  show ?case
  proof (cases "to_bits \<le> n")
    case True
    define n' where "n' = n - to_bits"
    obtain p o1 where rec: "drain_bits to_bits acc n' = (p, o1)" by fastforce
    with "1.prems" True have out: "pending = p" "out = (drop_bit n' acc AND mask to_bits) # o1"
      by (auto simp: drain_bits.simps [of to_bits acc n] n'_def Let_def)
    have IH: "bits_be n' acc = concat (map (bits_be to_bits) o1) @ bits_be p acc
        \<and> p < to_bits \<and> (\<forall>v \<in> set o1. v < 2 ^ to_bits)"
      using "1.IH" [of n' p o1] rec "1.prems"(1) True by (simp add: n'_def)
    have "bits_be n acc = bits_be to_bits (drop_bit n' acc) @ bits_be n' acc"
      using bits_be_add [of to_bits n' acc] True by (simp add: n'_def)
    with IH out show ?thesis
      by (auto simp: bits_be_mask) (simp flip: take_bit_eq_mask)
  next
    case False
    with "1.prems" show ?thesis by (auto simp: drain_bits.simps [of to_bits acc n])
  qed
qed

lemma feed_bits_spec:
  assumes "0 < to_bits" "n < to_bits"
    and "feed_bits from_bits to_bits acc n vs = Inr (acc', n', out)"
  shows "bits_be n acc @ concat (map (bits_be from_bits) vs)
      = concat (map (bits_be to_bits) out) @ bits_be n' acc'
    \<and> n' < to_bits \<and> (\<forall>v \<in> set out. v < 2 ^ to_bits)"
  using assms
proof (induction vs arbitrary: acc n out)
  case (Cons v vs)
  define a where "a = (push_bit from_bits acc OR v) AND mask (from_bits + to_bits - 1)"
  obtain m o1 where drain: "drain_bits to_bits a (n + from_bits) = (m, o1)" by fastforce
  with Cons.prems(3) obtain o2 where
    v: "drop_bit from_bits v = 0" and
    feed: "feed_bits from_bits to_bits a m vs = Inr (acc', n', o2)" and out: "out = o1 @ o2"
    by (auto simp: outcome_simps a_def Let_def)
  note d = drain_bits_spec [OF Cons.prems(1) drain]
  then have "m < to_bits" by blast
  note IH = Cons.IH [OF Cons.prems(1) this feed]
  have "bits_be n acc @ bits_be from_bits v = bits_be (n + from_bits) a"
    using bits_be_push [OF v, of n acc] Cons.prems(2) by (simp add: a_def bits_be_mask)
  then have "bits_be n acc @ concat (map (bits_be from_bits) (v # vs))
      = bits_be (n + from_bits) a @ concat (map (bits_be from_bits) vs)" by simp
  with d IH out show ?case by auto
qed auto

lemma feed_bits_total:
  "\<forall>v \<in> set vs. v < 2 ^ from_bits \<Longrightarrow> \<exists>r. feed_bits from_bits to_bits acc n vs = Inr r"
proof (induction vs arbitrary: acc n)
  case (Cons v vs)
  then show ?case
    by (fastforce simp: drop_bit_zero_iff Let_def outcome_simps split: prod.splits)
qed simp

section \<open>The two regroupings are inverse\<close>

lemma unat_byte_less: "\<forall>v \<in> set (map unat (bs :: bytes)). v < 2 ^ 8"
  using unsigned_less [where 'b = 8] by auto

lemma convert_bits_pad:
  assumes "convert_bits 8 5 True bs = Inr ys"
  shows "\<exists>p < 5. concat (map (bits_be 5) (map unat ys))
      = concat (map (bits_be 8) (map unat bs)) @ replicate p False
    \<and> (\<forall>v \<in> set (map unat ys). v < 2 ^ 5)"
proof -
  obtain acc n out where feed: "feed_bits 8 5 0 0 (map unat bs) = Inr (acc, n, out)"
    and ys: "ys = map of_nat (if 0 < n then out @ [push_bit (5 - n) acc AND mask 5] else out)"
    using assms by (auto simp: convert_bits_def outcome_simps Let_def)
  note spec = feed_bits_spec [OF _ _ feed, simplified]
  have small: "map unat (map of_nat vs :: bytes) = vs" if "\<forall>v \<in> set vs. v < 2 ^ 5" for vs
    using that by (auto simp: unat_of_nat take_bit_nat_eq_self intro!: map_idI)
  show ?thesis
  proof (cases "n = 0")
    case True
    with ys spec small [of out] show ?thesis by (intro exI [of _ 0]) simp
  next
    case False
    define r where "r = push_bit (5 - n) acc AND mask 5"
    have "bits_be 5 r = bits_be n acc @ replicate (5 - n) False"
      using bits_be_push [of "5 - n" 0 n acc] spec
      by (simp add: r_def bits_be_mask)
    moreover have "r < 2 ^ 5"
      by (simp add: r_def take_bit_eq_mod flip: take_bit_eq_mask)
    ultimately show ?thesis
      using False ys spec small [of "out @ [r]"]
      by (intro exI [of _ "5 - n"]) (auto simp: r_def)
  qed
qed

lemma convert_bits_roundtrip:
  assumes "convert_bits 8 5 True bs = Inr ys"
  shows "convert_bits 5 8 False ys = Inr bs"
proof -
  define us vs where "us = map unat bs" and "vs = map unat ys"
  obtain p where p: "p < 5" and small: "\<forall>v \<in> set vs. v < 2 ^ 5"
    and bits: "concat (map (bits_be 5) vs) = concat (map (bits_be 8) us) @ replicate p False"
    using convert_bits_pad [OF assms] unfolding us_def vs_def by blast
  obtain acc n out where feed: "feed_bits 5 8 0 0 vs = Inr (acc, n, out)"
    using feed_bits_total [OF small] by (metis prod_cases3)
  have spec: "concat (map (bits_be 5) vs) = concat (map (bits_be 8) out) @ bits_be n acc"
    "n < 8" "\<forall>v \<in> set out. v < 2 ^ 8"
    using feed_bits_spec [OF _ _ feed] by simp_all
  with bits have eq: "concat (map (bits_be 8) out) @ bits_be n acc
      = concat (map (bits_be 8) us) @ replicate p False" by simp
  from arg_cong [OF this, of length] have "length out * 8 + n = length us * 8 + p" by simp
  with p spec(2) have len: "length out = length us" "n = p" by presburger+
  with eq have parts: "concat (map (bits_be 8) out) = concat (map (bits_be 8) us)"
    "bits_be n acc = replicate n False"
    by (auto simp: append_eq_append_conv)
  have "out = us"
    using concat_bits_inject [OF parts(1) len(1) spec(3)] unat_byte_less [of bs] by (simp add: us_def)
  moreover have "push_bit (8 - n) acc AND mask 8 = 0"
    using bits_be_push [of "8 - n" 0 n acc] parts(2) spec(2)
      bits_be_zero_iff [of 8 "push_bit (8 - n) acc"]
    by (simp flip: replicate_add)
  ultimately show ?thesis
    using feed len p by (simp add: convert_bits_def Let_def us_def vs_def o_def)
qed

lemma convert_bits_pad_total: "\<exists>ys. convert_bits 8 5 True bs = Inr ys"
  using feed_bits_total [OF unat_byte_less [of bs]]
  by (fastforce simp: convert_bits_def outcome_simps Let_def)

end
