(* ===== verification/Token_Pools.thy ===== *)
theory Token_Pools
  imports Denoms
begin

text \<open>
  The interface a token book offers the ICS-20 modules: tokens of a denomination are added and
  taken, and taking needs enough of them. The locale \<open>token_pool\<close> states it; its lemmas say
  what any sequence of operations does to the amount held. \<open>Bank\<close> provides it for the tokens
  it locks and the vouchers it mints, \<open>CashBank\<close> for its voucher supply.
\<close>

datatype pool_op = Put denom int | Take denom int

fun run_pool ::
  "('s \<Rightarrow> denom \<Rightarrow> int \<Rightarrow> 's outcome) \<Rightarrow> ('s \<Rightarrow> denom \<Rightarrow> int \<Rightarrow> 's outcome) \<Rightarrow>
   pool_op list \<Rightarrow> 's \<Rightarrow> 's outcome" where
  "run_pool put tak [] s = Inr s"
| "run_pool put tak (Put d a # ops) s = bindE (put s d a) (run_pool put tak ops)"
| "run_pool put tak (Take d a # ops) s = bindE (tak s d a) (run_pool put tak ops)"

fun net_amount :: "denom \<Rightarrow> pool_op list \<Rightarrow> int" where
  "net_amount d [] = 0"
| "net_amount d (Put d' a # ops) = (if d' = d then a else 0) + net_amount d ops"
| "net_amount d (Take d' a # ops) = (if d' = d then - a else 0) + net_amount d ops"

fun amounts_nonneg :: "pool_op list \<Rightarrow> bool" where
  "amounts_nonneg [] = True"
| "amounts_nonneg (Put d a # ops) = (0 \<le> a \<and> amounts_nonneg ops)"
| "amounts_nonneg (Take d a # ops) = (0 \<le> a \<and> amounts_nonneg ops)"

locale token_pool =
  fixes put :: "'s \<Rightarrow> denom \<Rightarrow> int \<Rightarrow> 's outcome"
    and tak :: "'s \<Rightarrow> denom \<Rightarrow> int \<Rightarrow> 's outcome"
    and held :: "'s \<Rightarrow> denom \<Rightarrow> int"
  assumes held_put: "put s d a = Inr s' \<Longrightarrow> held s' = (held s)(d := held s d + a)"
    and held_take: "tak s d a = Inr s' \<Longrightarrow> held s' = (held s)(d := held s d - a)"
    and take_bounded: "tak s d a = Inr s' \<Longrightarrow> a \<le> held s d"
begin

lemma run_held:
  "run_pool put tak ops s = Inr s' \<Longrightarrow> held s' d = held s d + net_amount d ops"
proof (induction ops arbitrary: s)
  case (Cons op ops)
  show ?case
  proof (cases op)
    case (Put d' a)
    with Cons.prems obtain s1 where "put s d' a = Inr s1" "run_pool put tak ops s1 = Inr s'"
      by (auto simp: outcome_simps)
    with Cons.IH [of s1] held_put Put show ?thesis by fastforce
  next
    case (Take d' a)
    with Cons.prems obtain s1 where "tak s d' a = Inr s1" "run_pool put tak ops s1 = Inr s'"
      by (auto simp: outcome_simps)
    with Cons.IH [of s1] held_take Take show ?thesis by fastforce
  qed
qed simp

lemma run_nonneg:
  assumes "run_pool put tak ops s = Inr s'" "amounts_nonneg ops" "\<forall>d. 0 \<le> held s d"
  shows "0 \<le> held s' d"
  using assms
proof (induction ops arbitrary: s)
  case (Cons op ops)
  show ?case
  proof (cases op)
    case (Put d' a)
    with Cons.prems obtain s1 where "put s d' a = Inr s1" "run_pool put tak ops s1 = Inr s'"
      by (auto simp: outcome_simps)
    with Cons.IH [of s1] held_put [of s d' a s1] Cons.prems Put show ?thesis by simp
  next
    case (Take d' a)
    with Cons.prems obtain s1 where "tak s d' a = Inr s1" "run_pool put tak ops s1 = Inr s'"
      by (auto simp: outcome_simps)
    with Cons.IH [of s1] held_take [of s d' a s1] take_bounded [of s d' a s1] Cons.prems Take
    show ?thesis by simp
  qed
qed simp

text \<open>Tokens cannot be taken that were not put there before.\<close>

lemma taken_at_most_put:
  assumes "run_pool put tak ops s = Inr s'" "amounts_nonneg ops" "\<forall>d. held s d = 0"
  shows "0 \<le> net_amount d ops"
  using run_held [OF assms(1), of d] run_nonneg [OF assms(1,2), of d] assms(3) by simp

end

end
