(* ===== verification/Bank.thy ===== *)
theory Bank
  imports Host Denoms Addresses Token_Pools
begin

text \<open>
  The account book of the plain ICS-20 application (\<open>ics20/Bank.kt\<close>, \<open>ics20/Amount.kt\<close>). The
  Kotlin class copies itself deeply before each change, so its operations are functions from
  a bank to a bank. Amounts are unbounded integers. \<open>balance_of\<close> reads a missing entry as 0.
  The lemmas give the effect of each operation on every balance, the conservation of tokens
  under \<open>lock\<close> and \<open>unlock\<close>, and interpret \<open>token_pool\<close> for the locked and the minted tokens.
\<close>

section \<open>Amounts\<close>

definition amount_from_string :: "string \<Rightarrow> int outcome" where
  "amount_from_string s = to_big_integer s"

definition amount_from_long :: "long \<Rightarrow> int" where
  "amount_from_long n = sint n"

text \<open>\<open>longValueExact()\<close>.\<close>

definition amount_to_long :: "int \<Rightarrow> long outcome" where
  "amount_to_long a =
     (if - (2 ^ 63) \<le> a \<and> a < 2 ^ 63 then Inr (word_of_int a) else Inl ArithmeticError)"

section \<open>Balance maps\<close>

type_synonym balances = "denom \<rightharpoonup> (address \<rightharpoonup> int)"

definition balances_up :: "balances \<Rightarrow> denom \<Rightarrow> address \<Rightarrow> int \<Rightarrow> balances" where
  "balances_up m d owner amount =
     (let inner = (case m d of None \<Rightarrow> Map.empty | Some b \<Rightarrow> b);
          old = (case inner owner of None \<Rightarrow> 0 | Some x \<Rightarrow> x)
      in m(d \<mapsto> inner(owner \<mapsto> old + amount)))"

definition balances_down :: "balances \<Rightarrow> denom \<Rightarrow> address \<Rightarrow> int \<Rightarrow> balances outcome" where
  "balances_down m d owner amount =
     (case m d of
        None \<Rightarrow> Inl (IllegalArgument (Some (''unknown denom: '' @ denom_to_string d)))
      | Some b \<Rightarrow>
          (case b owner of
             None \<Rightarrow> Inl (IllegalArgument (Some (''no fund: amount='' @ int_to_string amount)))
           | Some x \<Rightarrow>
               guardE (amount \<le> x)
                 (''insufficient fund: balance='' @ int_to_string x @
                  '', amount='' @ int_to_string amount)
                 (Inr (m(d \<mapsto> b(owner \<mapsto> x - amount))))))"

definition balance_of :: "balances \<Rightarrow> denom \<Rightarrow> address \<Rightarrow> int" where
  "balance_of m d owner =
     (case m d of None \<Rightarrow> 0 | Some b \<Rightarrow> (case b owner of None \<Rightarrow> 0 | Some x \<Rightarrow> x))"

section \<open>The bank\<close>

record bank =
  bank_participants :: "party list"
  bank_base_id :: state_ref
  allocated :: balances
  locked :: balances
  minted :: balances
  bank_denoms :: "string \<rightharpoonup> denom"

definition bank_of_host :: "host \<Rightarrow> bank" where
  "bank_of_host h =
     \<lparr>bank_participants = host_participants h, bank_base_id = host_base_id h,
      allocated = Map.empty, locked = Map.empty, minted = Map.empty, bank_denoms = Map.empty\<rparr>"

definition bank_allocate :: "address \<Rightarrow> denom \<Rightarrow> int \<Rightarrow> bank \<Rightarrow> bank" where
  "bank_allocate owner d amount b = b\<lparr>allocated := balances_up (allocated b) d owner amount\<rparr>"

definition bank_lock :: "address \<Rightarrow> denom \<Rightarrow> int \<Rightarrow> bank \<Rightarrow> bank outcome" where
  "bank_lock owner d amount b =
     bindE (balances_down (allocated b) d owner amount) (\<lambda>allocated'.
       Inr (b\<lparr>allocated := allocated', locked := balances_up (locked b) d owner amount\<rparr>))"

definition bank_unlock :: "address \<Rightarrow> denom \<Rightarrow> int \<Rightarrow> bank \<Rightarrow> bank outcome" where
  "bank_unlock owner d amount b =
     (let allocated' = balances_up (allocated b) d owner amount in
      bindE (balances_down (locked b) d owner amount) (\<lambda>locked'.
        Inr (b\<lparr>allocated := allocated', locked := locked'\<rparr>)))"

definition bank_mint :: "address \<Rightarrow> denom \<Rightarrow> int \<Rightarrow> bank \<Rightarrow> bank" where
  "bank_mint owner d amount b = b\<lparr>minted := balances_up (minted b) d owner amount\<rparr>"

definition bank_burn :: "address \<Rightarrow> denom \<Rightarrow> int \<Rightarrow> bank \<Rightarrow> bank outcome" where
  "bank_burn owner d amount b =
     bindE (balances_down (minted b) d owner amount) (\<lambda>minted'. Inr (b\<lparr>minted := minted'\<rparr>))"

definition bank_record_denom :: "(denom \<Rightarrow> string) \<Rightarrow> denom \<Rightarrow> bank \<Rightarrow> bank" where
  "bank_record_denom ibc_denom d b = b\<lparr>bank_denoms := (bank_denoms b)(ibc_denom d \<mapsto> d)\<rparr>"

definition bank_resolve_denom :: "string \<Rightarrow> bank \<Rightarrow> denom outcome" where
  "bank_resolve_denom s b =
     (case bank_denoms b s of
        None \<Rightarrow> Inl (IllegalArgument (Some (''unknown IBC denom: '' @ s)))
      | Some d \<Rightarrow> Inr d)"

section \<open>Effect on balances\<close>

text \<open>\<open>shift f d o1 a\<close> adds \<open>a\<close> to one entry of a balance function.\<close>

definition shift :: "(denom \<Rightarrow> address \<Rightarrow> int) \<Rightarrow> denom \<Rightarrow> address \<Rightarrow> int \<Rightarrow> denom \<Rightarrow> address \<Rightarrow> int" where
  "shift f d o1 a = f(d := (f d)(o1 := f d o1 + a))"

lemma shift_apply: "shift f d o1 a d' o2 = f d' o2 + (if d' = d \<and> o2 = o1 then a else 0)"
  by (simp add: shift_def)

lemma shift_shift_cancel [simp]:
  "shift (shift f d o1 a) d o1 (- a) = f" "shift (shift f d o1 (- a)) d o1 a = f"
  by (simp_all add: shift_def)

lemma balance_of_up [simp]: "balance_of (balances_up m d o1 a) = shift (balance_of m) d o1 a"
  by (auto simp: fun_eq_iff shift_apply balance_of_def balances_up_def Let_def split: option.splits)

lemma balances_down_Inr:
  assumes "balances_down m d o1 a = Inr m'"
  shows "a \<le> balance_of m d o1" "balance_of m' = shift (balance_of m) d o1 (- a)"
proof -
  obtain b x where "m d = Some b" "b o1 = Some x" "a \<le> x" "m' = m(d \<mapsto> b(o1 \<mapsto> x - a))"
    using assms by (auto simp: balances_down_def outcome_simps split: option.splits)
  then show "a \<le> balance_of m d o1" "balance_of m' = shift (balance_of m) d o1 (- a)"
    by (auto simp: fun_eq_iff shift_apply balance_of_def)
qed

lemma balances_down_after_up:
  assumes "balances_up m d o1 a = m'" "a \<le> balance_of m' d o1"
  shows "\<exists>m''. balances_down m' d o1 a = Inr m''"
  using assms
  by (auto simp: balances_up_def balances_down_def balance_of_def Let_def)

lemma balances_down_only_IllegalArgument:
  "balances_down m d o1 a = Inl e \<Longrightarrow> \<exists>msg. e = IllegalArgument (Some msg)"
  by (auto simp: balances_down_def guardE_def split: option.splits if_splits)

lemma bank_lock_Inr:
  assumes "bank_lock owner d a b = Inr b'"
  shows "a \<le> balance_of (allocated b) d owner"
    and "balance_of (allocated b') = shift (balance_of (allocated b)) d owner (- a)"
    and "balance_of (locked b') = shift (balance_of (locked b)) d owner a"
    and "minted b' = minted b" "bank_denoms b' = bank_denoms b" "bank_base_id b' = bank_base_id b"
      "bank_participants b' = bank_participants b"
  using assms by (auto simp: bank_lock_def outcome_simps dest: balances_down_Inr)

lemma bank_unlock_Inr:
  assumes "bank_unlock owner d a b = Inr b'"
  shows "a \<le> balance_of (locked b) d owner"
    and "balance_of (allocated b') = shift (balance_of (allocated b)) d owner a"
    and "balance_of (locked b') = shift (balance_of (locked b)) d owner (- a)"
    and "minted b' = minted b" "bank_denoms b' = bank_denoms b" "bank_base_id b' = bank_base_id b"
      "bank_participants b' = bank_participants b"
  using assms by (auto simp: bank_unlock_def outcome_simps Let_def dest: balances_down_Inr)

lemma bank_burn_Inr:
  assumes "bank_burn owner d a b = Inr b'"
  shows "a \<le> balance_of (minted b) d owner"
    and "balance_of (minted b') = shift (balance_of (minted b)) d owner (- a)"
    and "allocated b' = allocated b" "locked b' = locked b" "bank_base_id b' = bank_base_id b"
      "bank_participants b' = bank_participants b" "bank_denoms b' = bank_denoms b"
  using assms by (auto simp: bank_burn_def outcome_simps dest: balances_down_Inr)

lemma bank_mint_effect [simp]:
  "balance_of (minted (bank_mint owner d a b)) = shift (balance_of (minted b)) d owner a"
  "allocated (bank_mint owner d a b) = allocated b"
  "locked (bank_mint owner d a b) = locked b"
  "bank_base_id (bank_mint owner d a b) = bank_base_id b"
  by (simp_all add: bank_mint_def)

lemmas bank_op_effects = bank_lock_Inr bank_unlock_Inr bank_burn_Inr

text \<open>After a successful lock the same owner can unlock the same tokens again, provided the
  owner's locked balance was not negative, and every balance is then what it was.\<close>

lemma unlock_after_lock:
  assumes lock: "bank_lock owner d a b = Inr b'"
    and nonneg: "0 \<le> balance_of (locked b) d owner"
  shows "\<exists>b''. bank_unlock owner d a b' = Inr b'' \<and>
    balance_of (allocated b'') = balance_of (allocated b) \<and>
    balance_of (locked b'') = balance_of (locked b) \<and> minted b'' = minted b"
proof -
  have "locked b' = balances_up (locked b) d owner a"
    using lock by (auto simp: bank_lock_def outcome_simps)
  from balances_down_after_up [OF this [symmetric]] nonneg
  obtain b'' where unlock: "bank_unlock owner d a b' = Inr b''"
    using bank_lock_Inr(3) [OF lock] by (auto simp: bank_unlock_def shift_apply)
  then show ?thesis
    using bank_unlock_Inr [OF unlock] bank_lock_Inr [OF lock] by (intro exI [of _ b'']) simp
qed

section \<open>The bank as token pools\<close>

interpretation locked_pool: token_pool
  "\<lambda>b d a. bank_lock owner d a b" "\<lambda>b d a. bank_unlock owner d a b"
  "\<lambda>b d. balance_of (locked b) d owner"
  by unfold_locales (auto simp: fun_eq_iff shift_apply dest: bank_op_effects)

interpretation minted_pool: token_pool
  "\<lambda>b d a. Inr (bank_mint owner d a b)" "\<lambda>b d a. bank_burn owner d a b"
  "\<lambda>b d. balance_of (minted b) d owner"
  by unfold_locales (auto simp: fun_eq_iff shift_apply dest: bank_op_effects)

section \<open>Conservation\<close>

text \<open>C17: locking and unlocking only move tokens between \<open>allocated\<close> and \<open>locked\<close>: for every
  denomination and owner their sum is unchanged, and minted vouchers are untouched.\<close>

theorem bank_lock_unlock_conserve:
  assumes "bank_lock owner d a b = Inr b' \<or> bank_unlock owner d a b = Inr b'"
  shows "balance_of (allocated b') d' x + balance_of (locked b') d' x =
           balance_of (allocated b) d' x + balance_of (locked b) d' x \<and>
         minted b' = minted b"
  using assms
proof
  assume "bank_lock owner d a b = Inr b'"
  from bank_lock_Inr [OF this] show ?thesis by (simp add: shift_apply)
next
  assume "bank_unlock owner d a b = Inr b'"
  from bank_unlock_Inr [OF this] show ?thesis by (simp add: shift_apply)
qed

definition demo_bank :: bank where
  "demo_bank =
     \<lparr>bank_participants = [Party [1]], bank_base_id = StateRef [5] 0,
      allocated = [denom_from_string ''coin'' \<mapsto> [Address [1] \<mapsto> 10]], locked = Map.empty,
      minted = Map.empty, bank_denoms = Map.empty\<rparr>"

lemma demo_bank_lock: "\<exists>b'. bank_lock (Address [1]) (denom_from_string ''coin'') 5 demo_bank = Inr b'"
  by (simp add: bank_lock_def demo_bank_def balances_down_def)

theorem bank_lock_unlock_conserve_witness:
  "\<exists>b' :: bank. balance_of (allocated b') (denom_from_string ''coin'') (Address [1]) +
      balance_of (locked b') (denom_from_string ''coin'') (Address [1]) = 10"
proof -
  obtain b' where "bank_lock (Address [1]) (denom_from_string ''coin'') 5 demo_bank = Inr b'"
    using demo_bank_lock by blast
  from bank_lock_unlock_conserve [OF disjI1, OF this, of "denom_from_string ''coin''" "Address [1]"]
  have "balance_of (allocated b') (denom_from_string ''coin'') (Address [1]) +
      balance_of (locked b') (denom_from_string ''coin'') (Address [1]) = 10"
    by (simp add: demo_bank_def balance_of_def)
  then show ?thesis by blast
qed

text \<open>Whatever transfers a bank goes through, the vouchers an owner has burnt never exceed
  those minted for that owner: from a bank without minted vouchers, every successful sequence
  of mints and burns of non-negative amounts has a non-negative net amount.\<close>

theorem burnt_at_most_minted:
  assumes "run_pool (\<lambda>b d a. Inr (bank_mint owner d a b)) (\<lambda>b d a. bank_burn owner d a b) ops b = Inr b'"
    and "amounts_nonneg ops" "\<forall>d. balance_of (minted b) d owner = 0"
  shows "0 \<le> net_amount d ops"
  using minted_pool.taken_at_most_put [OF assms] .

theorem burnt_at_most_minted_witness:
  "0 \<le> net_amount (denom_from_string ''coin'')
     [Put (denom_from_string ''coin'') 5, Take (denom_from_string ''coin'') 3]"
proof -
  have "\<exists>b'. run_pool (\<lambda>b d a. Inr (bank_mint (Address [1]) d a b)) (\<lambda>b d a. bank_burn (Address [1]) d a b)
      [Put (denom_from_string ''coin'') 5, Take (denom_from_string ''coin'') 3] demo_bank = Inr b'"
    by (simp add: bank_mint_def bank_burn_def demo_bank_def balances_up_def balances_down_def)
  then obtain b' where "run_pool (\<lambda>b d a. Inr (bank_mint (Address [1]) d a b))
      (\<lambda>b d a. bank_burn (Address [1]) d a b)
      [Put (denom_from_string ''coin'') 5, Take (denom_from_string ''coin'') 3] demo_bank = Inr b'"
    by blast
  from burnt_at_most_minted [OF this] show ?thesis by (simp add: demo_bank_def balance_of_def)
qed

end
