(* ===== verification/Cash_Bank.thy ===== *)
theory Cash_Bank
  imports Bank
begin

text \<open>
  The bank of the Cash-based ICS-20 application (\<open>ics20cash/CashBank.kt\<close>,
  \<open>ics20cash/Voucher.kt\<close>): it keeps the supply of each voucher denomination, and vouchers are
  separate fungible states. Corda's \<open>Amount\<close> is a 64-bit quantity of a token, and its
  operations are library code collected in the parameter record \<open>amount_ops\<close>; a Cash token is
  an issued currency. The lemmas give the effect of minting and burning on the
  supply and interpret \<open>token_pool\<close> for it.
\<close>

section \<open>Corda amounts, Cash and vouchers\<close>

record 'token corda_amount =
  quantity :: long
  token :: 'token

record issued_currency =
  issuer :: party
  issuer_reference :: bytes
  product :: string

record cash_state =
  cash_amount :: "issued_currency corda_amount"
  cash_owner :: party

record voucher =
  voucher_base_id :: state_ref
  voucher_amount :: "denom_trace corda_amount"
  voucher_owner :: party

text \<open>The constructor, \<open>sumOrThrow\<close>, \<open>minus\<close>, \<open>compareTo\<close> and \<open>fromDecimal\<close> of Corda's
  \<open>Amount\<close>. A decimal is its unscaled value and its scale.\<close>

type_synonym decimal = "int \<times> int"

record 'token amount_ops =
  ao_make :: "long \<Rightarrow> 'token \<Rightarrow> 'token corda_amount outcome"
  ao_sum :: "'token corda_amount list \<Rightarrow> 'token corda_amount outcome"
  ao_minus :: "'token corda_amount \<Rightarrow> 'token corda_amount \<Rightarrow> 'token corda_amount outcome"
  ao_compare :: "'token corda_amount \<Rightarrow> 'token corda_amount \<Rightarrow> int outcome"
  ao_from_decimal :: "decimal \<Rightarrow> 'token \<Rightarrow> 'token corda_amount outcome"

section \<open>The bank\<close>

record cash_bank =
  cb_participants :: "party list"
  cb_base_id :: state_ref
  cb_owner :: party
  cb_supply :: "denom \<rightharpoonup> int"
  cb_denoms :: "string \<rightharpoonup> denom"

definition cash_bank_of_host :: "host \<Rightarrow> party \<Rightarrow> cash_bank" where
  "cash_bank_of_host h owner =
     \<lparr>cb_participants = host_participants h, cb_base_id = host_base_id h, cb_owner = owner,
      cb_supply = Map.empty, cb_denoms = Map.empty\<rparr>"

definition cb_set_supply :: "denom \<Rightarrow> int \<Rightarrow> cash_bank \<Rightarrow> cash_bank" where
  "cb_set_supply d amount b = b\<lparr>cb_supply := (cb_supply b)(d \<mapsto> amount)\<rparr>"

definition supply_of :: "cash_bank \<Rightarrow> denom \<Rightarrow> int" where
  "supply_of b d = (case cb_supply b d of None \<Rightarrow> 0 | Some x \<Rightarrow> x)"

definition cb_mint ::
  "denom amount_ops \<Rightarrow> (bytes \<Rightarrow> bytes outcome) \<Rightarrow> address \<Rightarrow> denom \<Rightarrow> int \<Rightarrow> cash_bank \<Rightarrow>
   (cash_bank \<times> voucher) outcome" where
  "cb_mint ops decode_key owner d amount b =
     (let bank = cb_set_supply d (supply_of b d + amount) b in
      bindE (address_to_public_key decode_key owner) (\<lambda>key.
      bindE (amount_to_long amount) (\<lambda>q.
      bindE (ao_make ops q d) (\<lambda>corda_amount.
        Inr (bank, \<lparr>voucher_base_id = cb_base_id b, voucher_amount = corda_amount,
                    voucher_owner = Party key\<rparr>)))))"

definition cb_burn :: "denom \<Rightarrow> int \<Rightarrow> cash_bank \<Rightarrow> cash_bank outcome" where
  "cb_burn d amount b =
     bindE (not_null (cb_supply b d)) (\<lambda>old.
       requireE (0 \<le> old - amount) (Inr (cb_set_supply d (old - amount) b)))"

definition cb_record_denom :: "(denom \<Rightarrow> string) \<Rightarrow> denom \<Rightarrow> cash_bank \<Rightarrow> cash_bank" where
  "cb_record_denom ibc_denom d b = b\<lparr>cb_denoms := (cb_denoms b)(ibc_denom d \<mapsto> d)\<rparr>"

definition cb_resolve_denom :: "string \<Rightarrow> cash_bank \<Rightarrow> denom outcome" where
  "cb_resolve_denom s b =
     (case cb_denoms b s of
        None \<Rightarrow> Inl (IllegalArgument (Some (''unknown IBC denom: '' @ s)))
      | Some d \<Rightarrow> Inr d)"

section \<open>Effect on the supply\<close>

lemma supply_of_set [simp]: "supply_of (cb_set_supply d a b) = (supply_of b)(d := a)"
  by (simp add: fun_eq_iff supply_of_def cb_set_supply_def)

lemma cb_record_denom_supply [simp]: "supply_of (cb_record_denom ibc_denom d b) = supply_of b"
  by (simp add: fun_eq_iff supply_of_def cb_record_denom_def)

lemma cb_set_supply_simps [simp]:
  "cb_participants (cb_set_supply d a b) = cb_participants b"
  "cb_base_id (cb_set_supply d a b) = cb_base_id b"
  "cb_owner (cb_set_supply d a b) = cb_owner b"
  "cb_denoms (cb_set_supply d a b) = cb_denoms b"
  by (simp_all add: cb_set_supply_def)

lemma cb_mint_Inr:
  assumes "cb_mint ops decode_key owner d a b = Inr (b', v)"
  shows "supply_of b' = (supply_of b)(d := supply_of b d + a)"
    and "- (2 ^ 63) \<le> a" "a < 2 ^ 63" "ao_make ops (word_of_int a) d = Inr (voucher_amount v)"
    and "voucher_base_id v = cb_base_id b"
    and "cb_base_id b' = cb_base_id b" "cb_owner b' = cb_owner b"
      "cb_participants b' = cb_participants b" "cb_denoms b' = cb_denoms b"
    and "decode_key (address_bytes owner) = Inr (owning_key (voucher_owner v))"
  using assms
  by (auto simp: cb_mint_def outcome_simps Let_def amount_to_long_def address_to_public_key_def
      split: if_splits)

lemma cb_burn_Inr:
  assumes "cb_burn d a b = Inr b'"
  shows "supply_of b' = (supply_of b)(d := supply_of b d - a)" "a \<le> supply_of b d"
    and "cb_base_id b' = cb_base_id b" "cb_owner b' = cb_owner b"
  using assms by (auto simp: cb_burn_def outcome_simps supply_of_def cb_set_supply_def fun_eq_iff)

interpretation cash_pool: token_pool
  "\<lambda>b d a. map_sum id fst (cb_mint ops decode_key owner d a b)" "\<lambda>b d a. cb_burn d a b" supply_of
proof
  fix s d a s'
  assume "map_sum id fst (cb_mint ops decode_key owner d a s) = Inr s'"
  then obtain v where "cb_mint ops decode_key owner d a s = Inr (s', v)"
    by (cases "cb_mint ops decode_key owner d a s") auto
  then show "supply_of s' = (supply_of s)(d := supply_of s d + a)" by (rule cb_mint_Inr)
qed (auto dest: cb_burn_Inr)

end
