(* ===== verification/Ledger_States.thy ===== *)
theory Ledger_States
  imports Bank Cash_Bank
begin

text \<open>
  The contract states of the CorDapp (\<open>states/*.kt\<close> and the states of the banks), the union of
  everything a transaction can carry, and \<open>ics26/Context.kt\<close>: the inputs and references a
  handler reads and the outputs it collects, with the check of the transaction's outputs
  against them. The lemmas characterise reading a single state, adding an output and the
  acceptance test \<open>verifyResults\<close>.
\<close>

section \<open>Client, connection and channel states\<close>

text \<open>The two implementations of \<open>ClientState\<close>. The base id and the notary key of the Corda
  client are unpacked from the \<open>Any\<close> when the object is made.\<close>

record corda_client =
  ccl_any_client_state :: any
  ccl_any_consensus_states :: "height \<rightharpoonup> any"
  ccl_base_id :: state_ref
  ccl_notary_key :: public_key

record fabric_client =
  fcl_any_client_state :: any
  fcl_any_consensus_states :: "height \<rightharpoonup> any"

datatype client_state = CordaClientState corda_client | FabricClientState fabric_client

fun any_client_state :: "client_state \<Rightarrow> any" where
  "any_client_state (CordaClientState c) = ccl_any_client_state c"
| "any_client_state (FabricClientState c) = fcl_any_client_state c"

fun any_consensus_states :: "client_state \<Rightarrow> height \<rightharpoonup> any" where
  "any_consensus_states (CordaClientState c) = ccl_any_consensus_states c"
| "any_consensus_states (FabricClientState c) = fcl_any_consensus_states c"

record ibc_client_state =
  cl_participants :: "party list"
  cl_base_id :: state_ref
  cl_id :: ident
  cl_any_client_state :: any
  cl_any_consensus_states :: "height \<rightharpoonup> any"
  cl_impl :: client_state

definition mk_ibc_client_state :: "host \<Rightarrow> ident \<Rightarrow> client_state \<Rightarrow> ibc_client_state" where
  "mk_ibc_client_state h i c =
     \<lparr>cl_participants = host_participants h, cl_base_id = host_base_id h, cl_id = i,
      cl_any_client_state = any_client_state c,
      cl_any_consensus_states = any_consensus_states c, cl_impl = c\<rparr>"

definition update_client :: "ibc_client_state \<Rightarrow> client_state \<Rightarrow> ibc_client_state" where
  "update_client st c =
     st\<lparr>cl_any_client_state := any_client_state c,
        cl_any_consensus_states := any_consensus_states c, cl_impl := c\<rparr>"

record ibc_connection =
  conn_participants :: "party list"
  conn_base_id :: state_ref
  conn_id :: ident
  conn_end :: connection_end

definition mk_ibc_connection :: "host \<Rightarrow> ident \<Rightarrow> connection_end \<Rightarrow> ibc_connection" where
  "mk_ibc_connection h i e =
     \<lparr>conn_participants = host_participants h, conn_base_id = host_base_id h, conn_id = i,
      conn_end = e\<rparr>"

record ibc_channel =
  chan_participants :: "party list"
  chan_base_id :: state_ref
  chan_id :: ident
  chan_port_id :: ident
  chan_end :: channel_end
  next_sequence_send :: long
  next_sequence_recv :: long
  next_sequence_ack :: long
  packets :: "long \<rightharpoonup> packet"
  receipts :: "long set"
  acknowledgements :: "long \<rightharpoonup> acknowledgement"

definition mk_ibc_channel :: "host \<Rightarrow> ident \<Rightarrow> ident \<Rightarrow> channel_end \<Rightarrow> ibc_channel" where
  "mk_ibc_channel h port i e =
     \<lparr>chan_participants = host_participants h, chan_base_id = host_base_id h, chan_id = i,
      chan_port_id = port, chan_end = e,
      next_sequence_send = 1, next_sequence_recv = 1, next_sequence_ack = 1,
      packets = Map.empty, receipts = {}, acknowledgements = Map.empty\<rparr>"

section \<open>Contract states\<close>

text \<open>\<open>OtherState\<close> stands for a state of another contract in the same transaction.\<close>

datatype contract_state =
    GenesisState genesis
  | HostState host
  | ClientSt ibc_client_state
  | ConnectionSt ibc_connection
  | ChannelSt ibc_channel
  | BankState bank
  | CashBankState cash_bank
  | VoucherState voucher
  | CashState cash_state
  | OtherState nat

datatype state_kind =
  KGenesis | KHost | KClient | KConnection | KChannel | KBank | KCashBank | KVoucher | KCash | KOther

fun kind_of :: "contract_state \<Rightarrow> state_kind" where
  "kind_of (GenesisState x) = KGenesis"
| "kind_of (HostState x) = KHost"
| "kind_of (ClientSt x) = KClient"
| "kind_of (ConnectionSt x) = KConnection"
| "kind_of (ChannelSt x) = KChannel"
| "kind_of (BankState x) = KBank"
| "kind_of (CashBankState x) = KCashBank"
| "kind_of (VoucherState x) = KVoucher"
| "kind_of (CashState x) = KCash"
| "kind_of (OtherState x) = KOther"

text \<open>\<open>it is IbcState\<close> and \<open>it is IbcFungibleState\<close>.\<close>

definition is_ibc_state :: "contract_state \<Rightarrow> bool" where
  "is_ibc_state s \<longleftrightarrow>
     kind_of s \<in> {KHost, KClient, KConnection, KChannel, KBank, KCashBank, KVoucher}"

definition is_fungible_state :: "contract_state \<Rightarrow> bool" where
  "is_fungible_state s \<longleftrightarrow> kind_of s = KVoucher"

fun state_base_id :: "contract_state \<Rightarrow> state_ref option" where
  "state_base_id (HostState x) = Some (host_base_id x)"
| "state_base_id (ClientSt x) = Some (cl_base_id x)"
| "state_base_id (ConnectionSt x) = Some (conn_base_id x)"
| "state_base_id (ChannelSt x) = Some (chan_base_id x)"
| "state_base_id (BankState x) = Some (bank_base_id x)"
| "state_base_id (CashBankState x) = Some (cb_base_id x)"
| "state_base_id (VoucherState x) = Some (voucher_base_id x)"
| "state_base_id _ = None"

fun state_ident :: "contract_state \<Rightarrow> ident option" where
  "state_ident (HostState x) = Some host_id"
| "state_ident (ClientSt x) = Some (cl_id x)"
| "state_ident (ConnectionSt x) = Some (conn_id x)"
| "state_ident (ChannelSt x) = Some (chan_id x)"
| "state_ident (BankState x) = Some bank_id"
| "state_ident (CashBankState x) = Some bank_id"
| "state_ident (VoucherState x) = Some (Identifier [])"
| "state_ident _ = None"

text \<open>\<open>linearId\<close>: the \<open>UniqueIdentifier\<close> made from the base id and the name-based UUID of the
  identifier. \<open>uid\<close> stands for the two library classes.\<close>

definition linear_id :: "(state_ref \<Rightarrow> string \<Rightarrow> bytes) \<Rightarrow> contract_state \<Rightarrow> bytes option" where
  "linear_id uid s =
     (case (state_base_id s, state_ident s) of
        (Some b, Some i) \<Rightarrow> Some (uid b (ident_string i))
      | _ \<Rightarrow> None)"

fun as_genesis :: "contract_state \<Rightarrow> genesis option" where
  "as_genesis (GenesisState x) = Some x" | "as_genesis _ = None"
fun as_host :: "contract_state \<Rightarrow> host option" where
  "as_host (HostState x) = Some x" | "as_host _ = None"
fun as_client :: "contract_state \<Rightarrow> ibc_client_state option" where
  "as_client (ClientSt x) = Some x" | "as_client _ = None"
fun as_connection :: "contract_state \<Rightarrow> ibc_connection option" where
  "as_connection (ConnectionSt x) = Some x" | "as_connection _ = None"
fun as_channel :: "contract_state \<Rightarrow> ibc_channel option" where
  "as_channel (ChannelSt x) = Some x" | "as_channel _ = None"
fun as_bank :: "contract_state \<Rightarrow> bank option" where
  "as_bank (BankState x) = Some x" | "as_bank _ = None"
fun as_cash_bank :: "contract_state \<Rightarrow> cash_bank option" where
  "as_cash_bank (CashBankState x) = Some x" | "as_cash_bank _ = None"
fun as_voucher :: "contract_state \<Rightarrow> voucher option" where
  "as_voucher (VoucherState x) = Some x" | "as_voucher _ = None"
fun as_cash :: "contract_state \<Rightarrow> cash_state option" where
  "as_cash (CashState x) = Some x" | "as_cash _ = None"

lemmas as_simps = as_genesis.simps as_host.simps as_client.simps as_connection.simps
  as_channel.simps as_bank.simps as_cash_bank.simps as_voucher.simps as_cash.simps

section \<open>Context\<close>

record ctx =
  in_states :: "contract_state list"
  ref_states :: "contract_state list"
  out_states :: "contract_state list"

definition mk_context :: "contract_state list \<Rightarrow> contract_state list \<Rightarrow> ctx" where
  "mk_context ins refs = \<lparr>in_states = ins, ref_states = refs, out_states = []\<rparr>"

text \<open>\<open>filterIsInstance<T>()\<close>, with the class given by its selector.\<close>

definition get_inputs :: "(contract_state \<Rightarrow> 'a option) \<Rightarrow> ctx \<Rightarrow> 'a list" where
  "get_inputs sel c = List.map_filter sel (in_states c)"

definition get_input :: "(contract_state \<Rightarrow> 'a option) \<Rightarrow> ctx \<Rightarrow> 'a outcome" where
  "get_input sel c = singleE (get_inputs sel c)"

definition get_references :: "(contract_state \<Rightarrow> 'a option) \<Rightarrow> ctx \<Rightarrow> 'a list" where
  "get_references sel c = List.map_filter sel (ref_states c)"

definition get_reference :: "(contract_state \<Rightarrow> 'a option) \<Rightarrow> ctx \<Rightarrow> 'a outcome" where
  "get_reference sel c = singleE (get_references sel c)"

text \<open>The outputs are a \<open>LinkedHashSet\<close>: insertion order, no duplicates. An IBC state is only
  added when no output of its class is there yet.\<close>

definition add_output :: "contract_state \<Rightarrow> ctx \<Rightarrow> ctx outcome" where
  "add_output s c =
     guardE (is_ibc_state s \<longrightarrow> (\<forall>t \<in> set (out_states c). kind_of t \<noteq> kind_of s))
       ''At most one IBC state can be contained in a transaction''
       (Inr (c\<lparr>out_states :=
          (if s \<in> set (out_states c) then out_states c else out_states c @ [s])\<rparr>))"

definition ibc_states :: "contract_state list \<Rightarrow> contract_state list" where
  "ibc_states ss = filter is_ibc_state ss"

definition linear_ids :: "(state_ref \<Rightarrow> string \<Rightarrow> bytes) \<Rightarrow> contract_state list \<Rightarrow> bytes option list" where
  "linear_ids uid ss =
     map (linear_id uid) (filter (\<lambda>s. \<not> is_fungible_state s) (ibc_states ss))"

definition verify_results ::
  "(state_ref \<Rightarrow> string \<Rightarrow> bytes) \<Rightarrow> contract_state list \<Rightarrow> ctx \<Rightarrow> unit outcome" where
  "verify_results uid expected c =
     requireE (length expected = length (out_states c)) (
     guardE (\<forall>s \<in> set expected. s \<in> set (out_states c)) ''it is not included in outStates'' (
     requireE (set (linear_ids uid (in_states c)) \<subseteq> set (linear_ids uid (out_states c))) (
     bindE (firstE (ibc_states (out_states c))) (\<lambda>s.
       let base_id = state_base_id s in
       requireE (\<forall>t \<in> set (ibc_states (in_states c)). state_base_id t = base_id) (
       requireE (\<forall>t \<in> set (ibc_states (ref_states c)). state_base_id t = base_id) (
       requireE (\<forall>t \<in> set (ibc_states (out_states c)). state_base_id t = base_id)
         (Inr ())))))))"

section \<open>Lemmas\<close>

lemma get_input_Inr [outcome_simps]:
  "get_input sel c = Inr x \<longleftrightarrow> List.map_filter sel (in_states c) = [x]"
  by (simp add: get_input_def get_inputs_def outcome_simps)

lemma get_reference_Inr [outcome_simps]:
  "get_reference sel c = Inr x \<longleftrightarrow> List.map_filter sel (ref_states c) = [x]"
  by (simp add: get_reference_def get_references_def outcome_simps)

lemma map_filter_member: "List.map_filter f xs = [x] \<Longrightarrow> \<exists>s \<in> set xs. f s = Some x"
  by (induction xs) (auto simp: List.map_filter_simps split: option.splits)

lemma add_output_Inr [outcome_simps]:
  "add_output s c = Inr c' \<longleftrightarrow>
     (is_ibc_state s \<longrightarrow> (\<forall>t \<in> set (out_states c). kind_of t \<noteq> kind_of s)) \<and>
     c' = c\<lparr>out_states := (if s \<in> set (out_states c) then out_states c else out_states c @ [s])\<rparr>"
  by (auto simp: add_output_def outcome_simps)

lemma add_output_frame:
  "add_output s c = Inr c' \<Longrightarrow> in_states c' = in_states c \<and> ref_states c' = ref_states c"
  by (auto simp: outcome_simps)

lemma add_output_fresh:
  "is_ibc_state s \<Longrightarrow> add_output s c = Inr c' \<longleftrightarrow>
     (\<forall>t \<in> set (out_states c). kind_of t \<noteq> kind_of s) \<and> c' = c\<lparr>out_states := out_states c @ [s]\<rparr>"
  by (auto simp: outcome_simps)

lemma add_output_distinct:
  "add_output s c = Inr c' \<Longrightarrow> distinct (out_states c) \<Longrightarrow> distinct (out_states c')"
  by (auto simp: outcome_simps)

lemma verify_results_Inr:
  "verify_results uid expected c = Inr () \<longleftrightarrow>
     length expected = length (out_states c) \<and>
     set expected \<subseteq> set (out_states c) \<and>
     set (linear_ids uid (in_states c)) \<subseteq> set (linear_ids uid (out_states c)) \<and>
     (\<exists>b. (\<exists>s ss. ibc_states (out_states c) = s # ss \<and> state_base_id s = b) \<and>
        (\<forall>t \<in> set (ibc_states (in_states c @ ref_states c @ out_states c)). state_base_id t = b))"
  by (auto simp: verify_results_def outcome_simps ibc_states_def subset_iff)

text \<open>The acceptance test compares the sizes of the two collections and looks every expected
  output up in the computed ones. When the transaction's outputs are distinct it is an
  equality.\<close>

lemma verify_results_distinct:
  assumes "verify_results uid expected c = Inr ()" "distinct expected"
  shows "set expected = set (out_states c)" "distinct (out_states c)"
proof -
  have sub: "set expected \<subseteq> set (out_states c)" and len: "length expected = length (out_states c)"
    using assms(1) by (simp_all add: verify_results_Inr)
  have "card (set expected) = length (out_states c)"
    using len assms(2) by (simp add: distinct_card)
  moreover have "card (set expected) \<le> card (set (out_states c))"
    using sub by (simp add: card_mono)
  moreover have "card (set (out_states c)) \<le> length (out_states c)" by (rule card_length)
  ultimately have card: "card (set expected) = card (set (out_states c))"
    "card (set (out_states c)) = length (out_states c)" by linarith+
  show "set expected = set (out_states c)"
    using sub card(1) by (simp add: card_subset_eq)
  show "distinct (out_states c)" using card(2) by (rule card_distinct)
qed

end
