(* ===== verification/Clients.thy ===== *)
theory Clients
  imports Ledger_States
begin

text \<open>
  Light clients. The record \<open>env\<close> collects the code that is not part of the repository
  (hashing, codecs, JSON, Corda's serialisation, the gRPC service the Fabric client calls,
  reflection) as functions; every definition that needs some of it takes the record. Then the
  client of a Corda counterparty (\<open>clients/corda/*.kt\<close>) is modelled method by method, the client
  of a Fabric counterparty (\<open>clients/fabric/*.kt\<close>) up to its remote calls, and the methods of
  the interface \<open>ics2/ClientState.kt\<close> dispatch on the implementation. The locale \<open>light_client\<close>
  states what verification promises to the handlers; it is interpreted on the Corda client.
\<close>

section \<open>Code outside the repository\<close>

text \<open>What is read from a deserialised proof: the visible outputs of the filtered transaction, its
  notary and the keys that signed it.\<close>

record signed_tx =
  stx_outputs :: "contract_state list"
  stx_notary :: "party option"
  stx_signers :: "public_key list"

record env =
  env_sha256 :: "bytes \<Rightarrow> bytes"
  env_to_hex :: "bytes \<Rightarrow> string"
  env_from_hex :: "string \<Rightarrow> bytes outcome"
  env_decode_key :: "bytes \<Rightarrow> bytes outcome"
  env_currency_of :: "string \<Rightarrow> string outcome"
  env_bech32_encode :: "string \<Rightarrow> bytes \<Rightarrow> string"
  env_bech32_decode :: "string \<Rightarrow> (string \<times> bytes) outcome"
  env_uid :: "state_ref \<Rightarrow> string \<Rightarrow> bytes"
  env_parse_packet_data :: "bytes \<Rightarrow> packet_data outcome"
  env_print_packet_data :: "packet_data \<Rightarrow> bytes"
  env_parse_ack :: "bytes \<Rightarrow> acknowledgement outcome"
  env_unpack_transfer :: "any \<Rightarrow> msg_transfer outcome"
  env_unpack_packet :: "any \<Rightarrow> packet outcome"
  env_unpack_corda_client :: "any \<Rightarrow> (state_ref \<times> public_key) outcome"
  env_unpack_corda_consensus :: "any \<Rightarrow> unit outcome"
  env_default_corda_consensus :: any
  env_deserialize_proof :: "bytes \<Rightarrow> signed_tx outcome"
  env_filtered_verify :: "signed_tx \<Rightarrow> unit outcome"
  env_load_module :: "string \<Rightarrow> module_class outcome"
  env_load_factory :: "string \<Rightarrow> client_factory outcome"
  env_opaque_bytes :: "bytes \<Rightarrow> unit outcome"
  env_cash_ops :: "issued_currency amount_ops"
  env_voucher_ops :: "denom_trace amount_ops"
  env_fabric_client_type :: "fabric_client \<Rightarrow> string outcome"
  env_fabric_latest_height :: "fabric_client \<Rightarrow> height outcome"
  env_fabric_timestamp :: "any \<Rightarrow> long outcome"
  env_fabric_last_sequence :: "any \<Rightarrow> long outcome"
  env_fabric_check_header :: "fabric_client \<Rightarrow> any \<Rightarrow> (any \<times> (long \<rightharpoonup> any)) outcome"
  env_fabric_verify_client ::
    "fabric_client \<Rightarrow> height \<Rightarrow> merkle_prefix \<Rightarrow> ident \<Rightarrow> bytes \<Rightarrow> any \<Rightarrow> unit outcome"
  env_fabric_verify_consensus ::
    "fabric_client \<Rightarrow> height \<Rightarrow> ident \<Rightarrow> height \<Rightarrow> merkle_prefix \<Rightarrow> bytes \<Rightarrow> any \<Rightarrow> unit outcome"
  env_fabric_verify_connection ::
    "fabric_client \<Rightarrow> height \<Rightarrow> merkle_prefix \<Rightarrow> bytes \<Rightarrow> ident \<Rightarrow> connection_end \<Rightarrow> unit outcome"
  env_fabric_verify_channel ::
    "fabric_client \<Rightarrow> height \<Rightarrow> merkle_prefix \<Rightarrow> bytes \<Rightarrow> ident \<Rightarrow> ident \<Rightarrow> channel_end \<Rightarrow> unit outcome"
  env_fabric_verify_commitment ::
    "fabric_client \<Rightarrow> height \<Rightarrow> long \<Rightarrow> long \<Rightarrow> merkle_prefix \<Rightarrow> bytes \<Rightarrow> ident \<Rightarrow> ident \<Rightarrow> long \<Rightarrow>
     bytes \<Rightarrow> unit outcome"
  env_fabric_verify_ack ::
    "fabric_client \<Rightarrow> height \<Rightarrow> long \<Rightarrow> long \<Rightarrow> merkle_prefix \<Rightarrow> bytes \<Rightarrow> ident \<Rightarrow> ident \<Rightarrow> long \<Rightarrow>
     acknowledgement \<Rightarrow> unit outcome"
  env_fabric_verify_next_recv ::
    "fabric_client \<Rightarrow> height \<Rightarrow> long \<Rightarrow> long \<Rightarrow> merkle_prefix \<Rightarrow> bytes \<Rightarrow> ident \<Rightarrow> ident \<Rightarrow> long \<Rightarrow>
     unit outcome"
  env_fabric_verify_receipt_absence ::
    "fabric_client \<Rightarrow> height \<Rightarrow> long \<Rightarrow> long \<Rightarrow> merkle_prefix \<Rightarrow> bytes \<Rightarrow> ident \<Rightarrow> ident \<Rightarrow> long \<Rightarrow>
     unit outcome"

section \<open>Packet commitments\<close>

text \<open>\<open>putLong\<close> in big-endian order: the eight bytes of a word, most significant first.\<close>

definition long_bytes :: "long \<Rightarrow> bytes" where
  "long_bytes n = map (\<lambda>i. ucast (drop_bit (8 * i) n)) (rev [0..<8])"

definition packet_to_commitment :: "(bytes \<Rightarrow> bytes) \<Rightarrow> packet \<Rightarrow> bytes" where
  "packet_to_commitment sha256 p =
     sha256 (long_bytes (pkt_timeout_timestamp p) @
             long_bytes (revision_number (pkt_timeout_height p)) @
             long_bytes (revision_height (pkt_timeout_height p)) @
             sha256 (pkt_data p))"

section \<open>Proofs\<close>

text \<open>\<open>CommitmentProof\<close> is an \<open>OpaqueBytes\<close>, whose constructor may refuse the array.\<close>

definition mk_proof :: "env \<Rightarrow> bytes \<Rightarrow> bytes outcome" where
  "mk_proof E bs = bindE (env_opaque_bytes E bs) (\<lambda>_. Inr bs)"

definition to_signed_transaction :: "env \<Rightarrow> bytes \<Rightarrow> signed_tx outcome" where
  "to_signed_transaction E proof =
     bindE (env_deserialize_proof E proof) (\<lambda>stx.
     bindE (env_filtered_verify E stx) (\<lambda>_. Inr stx))"

section \<open>The client of a Corda counterparty\<close>

definition mk_corda_client :: "env \<Rightarrow> any \<Rightarrow> any \<Rightarrow> corda_client outcome" where
  "mk_corda_client E client consensus =
     bindE (env_unpack_corda_consensus E consensus) (\<lambda>_.
     bindE (env_unpack_corda_client E client) (\<lambda>(base_id, notary_key).
       Inr \<lparr>ccl_any_client_state = client,
            ccl_any_consensus_states = [corda_HEIGHT \<mapsto> consensus],
            ccl_base_id = base_id, ccl_notary_key = notary_key\<rparr>))"

definition corda_verify_height :: "height \<Rightarrow> 'a outcome \<Rightarrow> 'a outcome" where
  "corda_verify_height h k = guardE (h = corda_HEIGHT) ''unmatched height'' k"

definition corda_verify_notary_key :: "env \<Rightarrow> corda_client \<Rightarrow> bytes \<Rightarrow> unit outcome" where
  "corda_verify_notary_key E c proof =
     bindE (to_signed_transaction E proof) (\<lambda>stx.
     bindE (not_null (stx_notary stx)) (\<lambda>notary.
       guardE (owning_key notary = ccl_notary_key c) ''unmatched notary key'' (Inr ())))"

definition corda_extract_state ::
  "env \<Rightarrow> (contract_state \<Rightarrow> 'a option) \<Rightarrow> bytes \<Rightarrow> 'a outcome" where
  "corda_extract_state E sel proof =
     bindE (to_signed_transaction E proof) (\<lambda>stx. singleE (List.map_filter sel (stx_outputs stx)))"

definition corda_verify_client_state ::
  "env \<Rightarrow> corda_client \<Rightarrow> height \<Rightarrow> merkle_prefix \<Rightarrow> ident \<Rightarrow> bytes \<Rightarrow> any \<Rightarrow> unit outcome" where
  "corda_verify_client_state E c h prefix client_id proof client_any =
     corda_verify_height h (
     bindE (corda_verify_notary_key E c proof) (\<lambda>_.
     bindE (corda_extract_state E as_client proof) (\<lambda>st.
       guardE (cl_base_id st = ccl_base_id c) ''unmatched client base id'' (
       guardE (cl_id st = client_id) ''unmatched client id'' (
       guardE (cl_any_client_state st = client_any) ''unmatched client state'' (Inr ()))))))"

definition corda_verify_client_consensus_state ::
  "env \<Rightarrow> corda_client \<Rightarrow> height \<Rightarrow> ident \<Rightarrow> height \<Rightarrow> merkle_prefix \<Rightarrow> bytes \<Rightarrow> any \<Rightarrow> unit outcome" where
  "corda_verify_client_consensus_state E c h client_id consensus_height prefix proof consensus =
     corda_verify_height h (
     bindE (corda_verify_notary_key E c proof) (\<lambda>_.
     bindE (corda_extract_state E as_client proof) (\<lambda>st.
       guardE (cl_base_id st = ccl_base_id c) ''unmatched consensus base id'' (
       guardE (cl_id st = client_id) ''unmatched consensus id'' (
       guardE (cl_any_consensus_states st consensus_height = Some consensus)
         ''unmatched consensus state'' (Inr ()))))))"

definition corda_verify_connection_state ::
  "env \<Rightarrow> corda_client \<Rightarrow> height \<Rightarrow> merkle_prefix \<Rightarrow> bytes \<Rightarrow> ident \<Rightarrow> connection_end \<Rightarrow> unit outcome" where
  "corda_verify_connection_state E c h prefix proof connection_id expected_end =
     corda_verify_height h (
     bindE (corda_verify_notary_key E c proof) (\<lambda>_.
     bindE (corda_extract_state E as_connection proof) (\<lambda>st.
       guardE (conn_base_id st = ccl_base_id c) ''unmatched connection base id'' (
       guardE (conn_id st = connection_id) ''unmatched connection id'' (
       guardE (conn_end st = expected_end) ''unmatched connection state'' (Inr ()))))))"

definition corda_verify_channel_state ::
  "env \<Rightarrow> corda_client \<Rightarrow> height \<Rightarrow> merkle_prefix \<Rightarrow> bytes \<Rightarrow> ident \<Rightarrow> ident \<Rightarrow> channel_end \<Rightarrow> unit outcome" where
  "corda_verify_channel_state E c h prefix proof port_id channel_id channel =
     corda_verify_height h (
     bindE (corda_verify_notary_key E c proof) (\<lambda>_.
     bindE (corda_extract_state E as_channel proof) (\<lambda>st.
       guardE (chan_base_id st = ccl_base_id c) ''unmatched channel base id'' (
       guardE (chan_port_id st = port_id) ''unmatched port id'' (
       guardE (chan_id st = channel_id) ''unmatched channel id'' (
       guardE (chan_end st = channel) ''unmatched channel state'' (Inr ())))))))"

definition corda_verify_packet_commitment ::
  "env \<Rightarrow> corda_client \<Rightarrow> height \<Rightarrow> long \<Rightarrow> long \<Rightarrow> merkle_prefix \<Rightarrow> bytes \<Rightarrow> ident \<Rightarrow> ident \<Rightarrow> long \<Rightarrow>
   bytes \<Rightarrow> unit outcome" where
  "corda_verify_packet_commitment E c h delay_time delay_block prefix proof port_id channel_id
     seq commitment =
     corda_verify_height h (
     bindE (corda_verify_notary_key E c proof) (\<lambda>_.
     requireE (delay_time = 0) (
     requireE (delay_block = 0) (
     bindE (corda_extract_state E as_channel proof) (\<lambda>st.
       guardE (chan_base_id st = ccl_base_id c) ''unmatched channel base id'' (
       guardE (chan_port_id st = port_id) ''unmatched port id'' (
       guardE (chan_id st = channel_id) ''unmatched channel id'' (
       bindE (not_null (packets st seq)) (\<lambda>included.
         guardE (packet_to_commitment (env_sha256 E) included = commitment) ''unmatched packet''
           (Inr ()))))))))))"

definition corda_verify_packet_acknowledgement ::
  "env \<Rightarrow> corda_client \<Rightarrow> height \<Rightarrow> long \<Rightarrow> long \<Rightarrow> merkle_prefix \<Rightarrow> bytes \<Rightarrow> ident \<Rightarrow> ident \<Rightarrow> long \<Rightarrow>
   acknowledgement \<Rightarrow> unit outcome" where
  "corda_verify_packet_acknowledgement E c h delay_time delay_block prefix proof port_id channel_id
     seq ack =
     corda_verify_height h (
     bindE (corda_verify_notary_key E c proof) (\<lambda>_.
     requireE (delay_time = 0) (
     requireE (delay_block = 0) (
     bindE (corda_extract_state E as_channel proof) (\<lambda>st.
       guardE (chan_base_id st = ccl_base_id c) ''unmatched channel base id'' (
       guardE (chan_port_id st = port_id) ''unmatched port id'' (
       guardE (chan_id st = channel_id) ''unmatched channel id'' (
       bindE (not_null (acknowledgements st seq)) (\<lambda>included.
         guardE (included = ack) ''unmatched ack'' (Inr ()))))))))))"

definition corda_verify_next_sequence_recv ::
  "env \<Rightarrow> corda_client \<Rightarrow> height \<Rightarrow> long \<Rightarrow> long \<Rightarrow> merkle_prefix \<Rightarrow> bytes \<Rightarrow> ident \<Rightarrow> ident \<Rightarrow> long \<Rightarrow>
   unit outcome" where
  "corda_verify_next_sequence_recv E c h delay_time delay_block prefix proof port_id channel_id seq =
     corda_verify_height h (
     bindE (corda_verify_notary_key E c proof) (\<lambda>_.
     requireE (delay_time = 0) (
     requireE (delay_block = 0) (
     bindE (corda_extract_state E as_channel proof) (\<lambda>st.
       guardE (chan_base_id st = ccl_base_id c) ''unmatched channel base id'' (
       guardE (chan_port_id st = port_id) ''unmatched port id'' (
       guardE (chan_id st = channel_id) ''unmatched channel id'' (
       guardE (next_sequence_recv st = seq) ''unmatched next sequence recv'' (Inr ())))))))))"

section \<open>The client of a Fabric counterparty\<close>

text \<open>The height of a fresh client is the last sequence of its chaincode header; all its heights
  have revision number 0.\<close>

definition mk_fabric_client :: "env \<Rightarrow> any \<Rightarrow> any \<Rightarrow> fabric_client outcome" where
  "mk_fabric_client E client consensus =
     bindE (env_fabric_last_sequence E client) (\<lambda>seq.
     bindE (env_fabric_timestamp E consensus) (\<lambda>_.
       Inr \<lparr>fcl_any_client_state = client,
            fcl_any_consensus_states = [Height 0 seq \<mapsto> consensus]\<rparr>))"

definition fabric_check_header :: "env \<Rightarrow> fabric_client \<Rightarrow> any \<Rightarrow> (fabric_client \<times> any) outcome" where
  "fabric_check_header E c header =
     bindE (env_fabric_check_header E c header) (\<lambda>(new_client, new_consensus).
       let c' = c\<lparr>fcl_any_client_state := new_client,
                  fcl_any_consensus_states :=
                    (\<lambda>h. if revision_number h = 0 then new_consensus (revision_height h) else None)\<rparr>
       in bindE (env_fabric_latest_height E c') (\<lambda>h.
          bindE (not_null (fcl_any_consensus_states c' h)) (\<lambda>consensus. Inr (c', consensus))))"

section \<open>The ClientState interface\<close>

datatype header = FabricHeader any

fun create_client_state :: "env \<Rightarrow> client_factory \<Rightarrow> any \<Rightarrow> any \<Rightarrow> client_state outcome" where
  "create_client_state E CordaClientStateFactory client consensus =
     bindE (mk_corda_client E client consensus) (\<lambda>c. Inr (CordaClientState c))"
| "create_client_state E FabricClientStateFactory client consensus =
     bindE (mk_fabric_client E client consensus) (\<lambda>c. Inr (FabricClientState c))"

text \<open>\<open>Host.createClientState\<close>.\<close>

definition host_create_client_state :: "env \<Rightarrow> host \<Rightarrow> any \<Rightarrow> any \<Rightarrow> client_state outcome" where
  "host_create_client_state E h client consensus =
     bindE (lookup_client_factory h client) (\<lambda>factory.
       create_client_state E factory client consensus)"

fun client_type_of :: "env \<Rightarrow> client_state \<Rightarrow> client_type outcome" where
  "client_type_of E (CordaClientState c) = Inr CordaClient"
| "client_type_of E (FabricClientState c) =
     bindE (env_fabric_client_type E c) (\<lambda>t. requireE (t = ''fabric'') (Inr FabricClient))"

fun latest_height :: "env \<Rightarrow> client_state \<Rightarrow> height outcome" where
  "latest_height E (CordaClientState c) = Inr corda_HEIGHT"
| "latest_height E (FabricClientState c) = env_fabric_latest_height E c"

text \<open>\<open>consensusStates[h]!!.getTimestamp()\<close>.\<close>

fun consensus_timestamp :: "env \<Rightarrow> client_state \<Rightarrow> height \<Rightarrow> long outcome" where
  "consensus_timestamp E (CordaClientState c) h =
     bindE (not_null (ccl_any_consensus_states c h)) (\<lambda>_. Inl NotImplemented)"
| "consensus_timestamp E (FabricClientState c) h =
     bindE (not_null (fcl_any_consensus_states c h)) (env_fabric_timestamp E)"

fun check_header_and_update_state :: "env \<Rightarrow> client_state \<Rightarrow> header \<Rightarrow> (client_state \<times> any) outcome" where
  "check_header_and_update_state E (CordaClientState c) hdr = Inl NotImplemented"
| "check_header_and_update_state E (FabricClientState c) (FabricHeader hdr) =
     bindE (fabric_check_header E c hdr) (\<lambda>(c', consensus). Inr (FabricClientState c', consensus))"

fun check_misbehaviour_and_update_state :: "client_state \<Rightarrow> any \<Rightarrow> client_state outcome" where
  "check_misbehaviour_and_update_state (CordaClientState c) m = Inl NotImplemented"
| "check_misbehaviour_and_update_state (FabricClientState c) m = Inl NotImplemented"

fun verify_client_state ::
  "env \<Rightarrow> client_state \<Rightarrow> height \<Rightarrow> merkle_prefix \<Rightarrow> ident \<Rightarrow> bytes \<Rightarrow> any \<Rightarrow> unit outcome" where
  "verify_client_state E (CordaClientState c) = corda_verify_client_state E c"
| "verify_client_state E (FabricClientState c) = env_fabric_verify_client E c"

fun verify_client_consensus_state ::
  "env \<Rightarrow> client_state \<Rightarrow> height \<Rightarrow> ident \<Rightarrow> height \<Rightarrow> merkle_prefix \<Rightarrow> bytes \<Rightarrow> any \<Rightarrow> unit outcome" where
  "verify_client_consensus_state E (CordaClientState c) = corda_verify_client_consensus_state E c"
| "verify_client_consensus_state E (FabricClientState c) = env_fabric_verify_consensus E c"

fun verify_connection_state ::
  "env \<Rightarrow> client_state \<Rightarrow> height \<Rightarrow> merkle_prefix \<Rightarrow> bytes \<Rightarrow> ident \<Rightarrow> connection_end \<Rightarrow> unit outcome" where
  "verify_connection_state E (CordaClientState c) = corda_verify_connection_state E c"
| "verify_connection_state E (FabricClientState c) = env_fabric_verify_connection E c"

fun verify_channel_state ::
  "env \<Rightarrow> client_state \<Rightarrow> height \<Rightarrow> merkle_prefix \<Rightarrow> bytes \<Rightarrow> ident \<Rightarrow> ident \<Rightarrow> channel_end \<Rightarrow> unit outcome" where
  "verify_channel_state E (CordaClientState c) = corda_verify_channel_state E c"
| "verify_channel_state E (FabricClientState c) = env_fabric_verify_channel E c"

fun verify_packet_commitment ::
  "env \<Rightarrow> client_state \<Rightarrow> height \<Rightarrow> long \<Rightarrow> long \<Rightarrow> merkle_prefix \<Rightarrow> bytes \<Rightarrow> ident \<Rightarrow> ident \<Rightarrow> long \<Rightarrow>
   bytes \<Rightarrow> unit outcome" where
  "verify_packet_commitment E (CordaClientState c) = corda_verify_packet_commitment E c"
| "verify_packet_commitment E (FabricClientState c) = env_fabric_verify_commitment E c"

fun verify_packet_acknowledgement ::
  "env \<Rightarrow> client_state \<Rightarrow> height \<Rightarrow> long \<Rightarrow> long \<Rightarrow> merkle_prefix \<Rightarrow> bytes \<Rightarrow> ident \<Rightarrow> ident \<Rightarrow> long \<Rightarrow>
   acknowledgement \<Rightarrow> unit outcome" where
  "verify_packet_acknowledgement E (CordaClientState c) = corda_verify_packet_acknowledgement E c"
| "verify_packet_acknowledgement E (FabricClientState c) = env_fabric_verify_ack E c"

fun verify_packet_receipt_absence ::
  "env \<Rightarrow> client_state \<Rightarrow> height \<Rightarrow> long \<Rightarrow> long \<Rightarrow> merkle_prefix \<Rightarrow> bytes \<Rightarrow> ident \<Rightarrow> ident \<Rightarrow> long \<Rightarrow>
   unit outcome" where
  "verify_packet_receipt_absence E (CordaClientState c) h dt db prefix proof port chan seq =
     Inl NotImplemented"
| "verify_packet_receipt_absence E (FabricClientState c) h dt db prefix proof port chan seq =
     env_fabric_verify_receipt_absence E c h dt db prefix proof port chan seq"

fun verify_next_sequence_recv ::
  "env \<Rightarrow> client_state \<Rightarrow> height \<Rightarrow> long \<Rightarrow> long \<Rightarrow> merkle_prefix \<Rightarrow> bytes \<Rightarrow> ident \<Rightarrow> ident \<Rightarrow> long \<Rightarrow>
   unit outcome" where
  "verify_next_sequence_recv E (CordaClientState c) = corda_verify_next_sequence_recv E c"
| "verify_next_sequence_recv E (FabricClientState c) = env_fabric_verify_next_recv E c"

end
