(* ===== verification/Light_Client.thy ===== *)
theory Light_Client
  imports Clients
begin

text \<open>
  What the handlers rely on when they ask a client to verify the counterparty: the locale
  \<open>light_client\<close> says that a successful verification is about a state of the counterparty the
  proof attests, and that a proof attests at most one state of a kind. The Corda client
  provides it with \<open>corda_attests\<close>: the proof's transaction names the counterparty's notary,
  has the state as its only output of the kind, and the state carries the counterparty's base
  id. The last section states what the Corda client does not look at.
\<close>

section \<open>The interface\<close>

locale light_client =
  fixes v_client :: "'c \<Rightarrow> height \<Rightarrow> merkle_prefix \<Rightarrow> ident \<Rightarrow> bytes \<Rightarrow> any \<Rightarrow> unit outcome"
    and v_connection ::
      "'c \<Rightarrow> height \<Rightarrow> merkle_prefix \<Rightarrow> bytes \<Rightarrow> ident \<Rightarrow> connection_end \<Rightarrow> unit outcome"
    and v_channel ::
      "'c \<Rightarrow> height \<Rightarrow> merkle_prefix \<Rightarrow> bytes \<Rightarrow> ident \<Rightarrow> ident \<Rightarrow> channel_end \<Rightarrow> unit outcome"
    and v_commitment ::
      "'c \<Rightarrow> height \<Rightarrow> long \<Rightarrow> long \<Rightarrow> merkle_prefix \<Rightarrow> bytes \<Rightarrow> ident \<Rightarrow> ident \<Rightarrow> long \<Rightarrow> bytes \<Rightarrow> unit outcome"
    and v_ack ::
      "'c \<Rightarrow> height \<Rightarrow> long \<Rightarrow> long \<Rightarrow> merkle_prefix \<Rightarrow> bytes \<Rightarrow> ident \<Rightarrow> ident \<Rightarrow> long \<Rightarrow>
       acknowledgement \<Rightarrow> unit outcome"
    and commitment :: "packet \<Rightarrow> bytes"
    and attests :: "'c \<Rightarrow> bytes \<Rightarrow> contract_state \<Rightarrow> bool"
  assumes client_sound: "v_client c h prefix i proof a = Inr () \<Longrightarrow>
      \<exists>st. attests c proof (ClientSt st) \<and> cl_id st = i \<and> cl_any_client_state st = a"
    and connection_sound: "v_connection c h prefix proof i e = Inr () \<Longrightarrow>
      \<exists>st. attests c proof (ConnectionSt st) \<and> conn_id st = i \<and> conn_end st = e"
    and channel_sound: "v_channel c h prefix proof port i e' = Inr () \<Longrightarrow>
      \<exists>st. attests c proof (ChannelSt st) \<and> chan_port_id st = port \<and> chan_id st = i \<and> chan_end st = e'"
    and commitment_sound: "v_commitment c h dt db prefix proof port i seq bs = Inr () \<Longrightarrow>
      \<exists>st p. attests c proof (ChannelSt st) \<and> chan_port_id st = port \<and> chan_id st = i \<and>
        packets st seq = Some p \<and> commitment p = bs"
    and ack_sound: "v_ack c h dt db prefix proof port i seq ack = Inr () \<Longrightarrow>
      \<exists>st. attests c proof (ChannelSt st) \<and> chan_port_id st = port \<and> chan_id st = i \<and>
        acknowledgements st seq = Some ack"
    and attests_unique: "attests c proof s \<Longrightarrow> attests c proof t \<Longrightarrow> kind_of s = kind_of t \<Longrightarrow> s = t"
begin

text \<open>One proof cannot be used for two different ends, packets or acknowledgements.\<close>

lemma connection_unique:
  assumes "v_connection c h prefix proof i e = Inr ()" "v_connection c h' prefix' proof i' e' = Inr ()"
  shows "i = i' \<and> e = e'"
  using connection_sound [OF assms(1)] connection_sound [OF assms(2)] attests_unique by fastforce

lemma channel_unique:
  assumes "v_channel c h prefix proof port i e = Inr ()"
    and "v_channel c h' prefix' proof port' i' e' = Inr ()"
  shows "port = port' \<and> i = i' \<and> e = e'"
  using channel_sound [OF assms(1)] channel_sound [OF assms(2)] attests_unique by fastforce

lemma commitment_unique:
  assumes "v_commitment c h dt db prefix proof port i seq bs = Inr ()"
    and "v_commitment c h' dt' db' prefix' proof port' i' seq bs' = Inr ()"
  shows "bs = bs'"
  using commitment_sound [OF assms(1)] commitment_sound [OF assms(2)] attests_unique by fastforce

lemma ack_unique:
  assumes "v_ack c h dt db prefix proof port i seq ack = Inr ()"
    and "v_ack c h' dt' db' prefix' proof port' i' seq ack' = Inr ()"
  shows "ack = ack'"
  using ack_sound [OF assms(1)] ack_sound [OF assms(2)] attests_unique by fastforce

end

section \<open>The Corda client\<close>

definition corda_attests :: "env \<Rightarrow> corda_client \<Rightarrow> bytes \<Rightarrow> contract_state \<Rightarrow> bool" where
  "corda_attests E c proof s \<longleftrightarrow>
     (case to_signed_transaction E proof of
        Inl e \<Rightarrow> False
      | Inr stx \<Rightarrow>
          (case stx_notary stx of
             None \<Rightarrow> False
           | Some notary \<Rightarrow>
               owning_key notary = ccl_notary_key c \<and>
               filter (\<lambda>t. kind_of t = kind_of s) (stx_outputs stx) = [s] \<and>
               state_base_id s = Some (ccl_base_id c)))"

lemma corda_attests_iff:
  "corda_attests E c proof s \<longleftrightarrow>
     (\<exists>stx notary. to_signed_transaction E proof = Inr stx \<and> stx_notary stx = Some notary \<and>
        owning_key notary = ccl_notary_key c \<and>
        filter (\<lambda>t. kind_of t = kind_of s) (stx_outputs stx) = [s] \<and>
        state_base_id s = Some (ccl_base_id c))"
  by (auto simp: corda_attests_def split: sum.splits option.splits)

lemma filter_kind_as:
  "filter (\<lambda>t. kind_of t = KClient) ss = map ClientSt (List.map_filter as_client ss)"
  "filter (\<lambda>t. kind_of t = KConnection) ss = map ConnectionSt (List.map_filter as_connection ss)"
  "filter (\<lambda>t. kind_of t = KChannel) ss = map ChannelSt (List.map_filter as_channel ss)"
proof (induction ss)
  case (Cons s ss)
  {
    case 1
    then show ?case using Cons by (cases s) (simp_all add: List.map_filter_simps)
  next
    case 2
    then show ?case using Cons by (cases s) (simp_all add: List.map_filter_simps)
  next
    case 3
    then show ?case using Cons by (cases s) (simp_all add: List.map_filter_simps)
  }
qed (simp_all add: List.map_filter_simps)

lemma map_filter_kind:
  "List.map_filter as_client ss = [x] \<longleftrightarrow> filter (\<lambda>t. kind_of t = KClient) ss = [ClientSt x]"
  "List.map_filter as_connection ss = [y] \<longleftrightarrow> filter (\<lambda>t. kind_of t = KConnection) ss = [ConnectionSt y]"
  "List.map_filter as_channel ss = [z] \<longleftrightarrow> filter (\<lambda>t. kind_of t = KChannel) ss = [ChannelSt z]"
  unfolding filter_kind_as by (auto simp: map_eq_Cons_conv)

lemmas corda_verify_defs = corda_verify_height_def corda_verify_notary_key_def
  corda_extract_state_def corda_verify_client_state_def corda_verify_client_consensus_state_def
  corda_verify_connection_state_def corda_verify_channel_state_def
  corda_verify_packet_commitment_def corda_verify_packet_acknowledgement_def
  corda_verify_next_sequence_recv_def

text \<open>Acceptance, exactly: the one height, zero delays and an attested state with the expected
  contents.\<close>

lemma corda_verify_iff:
  "corda_verify_client_state E c h prefix i proof a = Inr () \<longleftrightarrow> h = corda_HEIGHT \<and>
     (\<exists>st. corda_attests E c proof (ClientSt st) \<and> cl_id st = i \<and> cl_any_client_state st = a)"
  "corda_verify_client_consensus_state E c h i ch prefix proof a = Inr () \<longleftrightarrow> h = corda_HEIGHT \<and>
     (\<exists>st. corda_attests E c proof (ClientSt st) \<and> cl_id st = i \<and>
        cl_any_consensus_states st ch = Some a)"
  "corda_verify_connection_state E c h prefix proof i e = Inr () \<longleftrightarrow> h = corda_HEIGHT \<and>
     (\<exists>st. corda_attests E c proof (ConnectionSt st) \<and> conn_id st = i \<and> conn_end st = e)"
  "corda_verify_channel_state E c h prefix proof port i e' = Inr () \<longleftrightarrow> h = corda_HEIGHT \<and>
     (\<exists>st. corda_attests E c proof (ChannelSt st) \<and> chan_port_id st = port \<and> chan_id st = i \<and>
        chan_end st = e')"
  "corda_verify_packet_commitment E c h dt db prefix proof port i seq bs = Inr () \<longleftrightarrow>
     h = corda_HEIGHT \<and> dt = 0 \<and> db = 0 \<and>
     (\<exists>st p. corda_attests E c proof (ChannelSt st) \<and> chan_port_id st = port \<and> chan_id st = i \<and>
        packets st seq = Some p \<and> packet_to_commitment (env_sha256 E) p = bs)"
  "corda_verify_packet_acknowledgement E c h dt db prefix proof port i seq ack = Inr () \<longleftrightarrow>
     h = corda_HEIGHT \<and> dt = 0 \<and> db = 0 \<and>
     (\<exists>st. corda_attests E c proof (ChannelSt st) \<and> chan_port_id st = port \<and> chan_id st = i \<and>
        acknowledgements st seq = Some ack)"
  "corda_verify_next_sequence_recv E c h dt db prefix proof port i seq = Inr () \<longleftrightarrow>
     h = corda_HEIGHT \<and> dt = 0 \<and> db = 0 \<and>
     (\<exists>st. corda_attests E c proof (ChannelSt st) \<and> chan_port_id st = port \<and> chan_id st = i \<and>
        next_sequence_recv st = seq)"
  by (fastforce simp: corda_verify_defs corda_attests_iff outcome_simps map_filter_kind)+

interpretation corda_light: light_client
  "corda_verify_client_state E" "corda_verify_connection_state E" "corda_verify_channel_state E"
  "corda_verify_packet_commitment E" "corda_verify_packet_acknowledgement E"
  "packet_to_commitment (env_sha256 E)" "corda_attests E"
proof
  fix c pr s t
  assume "corda_attests E c pr s" "corda_attests E c pr t" "kind_of s = kind_of t"
  then show "s = t" by (auto simp: corda_attests_iff)
qed (auto simp: corda_verify_iff)

end
