(* ===== verification/Handler_Connection.thy ===== *)
theory Handler_Connection
  imports Light_Client
begin

text \<open>
  The client and connection handlers of \<open>ics25/Handler.kt\<close>: \<open>createClient\<close>,
  \<open>connOpenInit\<close>, \<open>connOpenTry\<close>, \<open>connOpenAck\<close> and \<open>connOpenConfirm\<close>, each a function from the
  context to the context with the outputs added. The inversion lemmas list what a successful
  call has checked and what it outputs; the step relation and its properties follow in
  \<open>Connection_Machine\<close>.
\<close>

section \<open>Handlers\<close>

definition create_client :: "env \<Rightarrow> msg_create_client \<Rightarrow> ctx \<Rightarrow> ctx outcome" where
  "create_client E msg c =
     bindE (get_input as_host c) (\<lambda>host.
     bindE (host_create_client_state E host (mcc_client_state msg) (mcc_consensus_state msg)) (\<lambda>cs.
     bindE (client_type_of E cs) (\<lambda>ct.
     bindE (generate_client_identifier ct host) (\<lambda>(next_host, client_id).
     bindE (add_output (HostState next_host) c) (\<lambda>c.
       add_output (ClientSt (mk_ibc_client_state host client_id cs)) c)))))"

definition conn_open_init :: "msg_conn_open_init \<Rightarrow> ctx \<Rightarrow> ctx outcome" where
  "conn_open_init msg c =
     bindE (get_input as_host c) (\<lambda>host.
     bindE (generate_connection_identifier host) (\<lambda>(next_host, connection_id).
     bindE (get_reference as_client c) (\<lambda>client.
     bindE (mk_identifier (coi_client_id msg)) (\<lambda>client_id.
     guardE (cl_id client = client_id) ''mismatch client'' (
     bindE (case coi_version msg of
              Some v \<Rightarrow> guardE (v \<in> set (get_compatible_versions host)) ''incompatible version'' (Inr [v])
            | None \<Rightarrow> Inr (get_compatible_versions host)) (\<lambda>versions.
     let end1 = \<lparr>ce_client_id = coi_client_id msg, ce_versions = versions, ce_state = CONN_INIT,
                 ce_counterparty = coi_counterparty msg, ce_delay_period = coi_delay_period msg\<rparr> in
     bindE (add_output (HostState next_host) c) (\<lambda>c.
       add_output (ConnectionSt (mk_ibc_connection host connection_id end1)) c)))))))"

text \<open>The first part of \<open>connOpenTry\<close>: the host to output, the identifier of the connection and
  the versions of a previous connection in \<open>INIT\<close>, if the message names one.\<close>

definition conn_try_previous ::
  "msg_conn_open_try \<Rightarrow> host \<Rightarrow> ctx \<Rightarrow> (host \<times> ident \<times> version list) outcome" where
  "conn_try_previous msg host c =
     (if cot_previous_connection_id msg \<noteq> [] then
        bindE (get_input as_connection c) (\<lambda>previous.
        bindE (mk_identifier (cot_previous_connection_id msg)) (\<lambda>previous_id.
        guardE (conn_id previous = previous_id) ''mismatch connection'' (
        guardE (cp_connection_id (ce_counterparty (conn_end previous)) = [] \<and>
                cp_prefix (ce_counterparty (conn_end previous)) = cp_prefix (cot_counterparty msg) \<and>
                ce_client_id (conn_end previous) = cot_client_id msg \<and>
                cp_client_id (ce_counterparty (conn_end previous)) = cp_client_id (cot_counterparty msg) \<and>
                ce_delay_period (conn_end previous) = cot_delay_period msg)
          ''connection fields mismatch previous connection fields'' (
        guardE (ce_state (conn_end previous) = CONN_INIT)
          ''previous connection state is not INIT''
          (Inr (host, conn_id previous, ce_versions (conn_end previous)))))))
      else
        bindE (generate_connection_identifier host) (\<lambda>(next_host, connection_id).
          Inr (next_host, connection_id, [])))"

definition conn_open_try :: "env \<Rightarrow> msg_conn_open_try \<Rightarrow> ctx \<Rightarrow> ctx outcome" where
  "conn_open_try E msg c =
     bindE (get_input as_host c) (\<lambda>host.
     bindE (get_reference as_client c) (\<lambda>client.
     bindE (mk_identifier (cot_client_id msg)) (\<lambda>client_id.
     guardE (cl_id client = client_id) ''mismatch client'' (
     bindE (conn_try_previous msg host c) (\<lambda>(next_host, connection_id, previous_versions).
     guardE (cot_consensus_height msg = get_current_height host)
       ''consensus height is not equal to the current block height'' (
     bindE (get_consensus_state (env_default_corda_consensus E) host (cot_consensus_height msg))
       (\<lambda>expected_consensus.
     let expected_connection =
           \<lparr>ce_client_id = cp_client_id (cot_counterparty msg),
            ce_versions = cot_counterparty_versions msg,
            ce_state = CONN_INIT,
            ce_counterparty = \<lparr>cp_client_id = cot_client_id msg, cp_connection_id = [],
                               cp_prefix = get_commitment_prefix host\<rparr>,
            ce_delay_period = cot_delay_period msg\<rparr>;
         supported_versions =
           (if previous_versions = [] then get_compatible_versions host else previous_versions) in
     bindE (pick_version supported_versions (cot_counterparty_versions msg)) (\<lambda>v.
     let end1 = \<lparr>ce_client_id = cot_client_id msg, ce_versions = [v], ce_state = CONN_TRYOPEN,
                 ce_counterparty = cot_counterparty msg, ce_delay_period = cot_delay_period msg\<rparr> in
     bindE (mk_proof E (cot_proof_init msg)) (\<lambda>proof_init.
     bindE (mk_identifier (cp_connection_id (cot_counterparty msg))) (\<lambda>counterparty_id.
     bindE (verify_connection_state E (cl_impl client) (cot_proof_height msg)
              (cp_prefix (cot_counterparty msg)) proof_init counterparty_id expected_connection) (\<lambda>_.
     bindE (mk_identifier (cp_client_id (cot_counterparty msg))) (\<lambda>counterparty_client_id.
     bindE (mk_proof E (cot_proof_client msg)) (\<lambda>proof_client.
     bindE (verify_client_state E (cl_impl client) (cot_proof_height msg)
              (cp_prefix (cot_counterparty msg)) counterparty_client_id proof_client
              (cot_client_state msg)) (\<lambda>_.
     bindE (mk_proof E (cot_proof_consensus msg)) (\<lambda>proof_consensus.
     bindE (verify_client_consensus_state E (cl_impl client) (cot_proof_height msg)
              counterparty_client_id (cot_consensus_height msg) (cp_prefix (cot_counterparty msg))
              proof_consensus expected_consensus) (\<lambda>_.
     bindE (add_output (HostState next_host) c) (\<lambda>c.
       add_output (ConnectionSt (mk_ibc_connection host connection_id end1)) c)))))))))))))))))"

definition conn_open_ack :: "env \<Rightarrow> msg_conn_open_ack \<Rightarrow> ctx \<Rightarrow> ctx outcome" where
  "conn_open_ack E msg c =
     bindE (get_reference as_host c) (\<lambda>host.
     bindE (get_input as_connection c) (\<lambda>conn.
     bindE (mk_identifier (coa_connection_id msg)) (\<lambda>connection_id.
     guardE (conn_id conn = connection_id) ''mismatch connection'' (
     bindE (get_reference as_client c) (\<lambda>client.
     bindE (mk_identifier (ce_client_id (conn_end conn))) (\<lambda>client_id.
     guardE (cl_id client = client_id) ''mismatch client'' (
     guardE (coa_consensus_height msg = get_current_height host)
       ''consensus height is not equal to the current block height'' (
     bindE (case ce_state (conn_end conn) of
              CONN_INIT \<Rightarrow>
                guardE (coa_version msg \<in> set (get_compatible_versions host))
                  ''connection state is in INIT but the provided version is not supported'' (Inr ())
            | CONN_TRYOPEN \<Rightarrow>
                bindE (singleE (ce_versions (conn_end conn))) (\<lambda>v.
                  guardE (v = coa_version msg)
                    ''connection state is in TRYOPEN but the provided version is not set'' (Inr ()))
            | _ \<Rightarrow> Inl (IllegalArgument (Some ''connection state is not INIT or TRYOPEN''))) (\<lambda>_.
     bindE (get_consensus_state (env_default_corda_consensus E) host (coa_consensus_height msg))
       (\<lambda>expected_consensus.
     let counterparty = ce_counterparty (conn_end conn);
         expected_connection =
           \<lparr>ce_client_id = cp_client_id counterparty,
            ce_versions = [coa_version msg],
            ce_state = CONN_TRYOPEN,
            ce_counterparty = \<lparr>cp_client_id = ce_client_id (conn_end conn),
                               cp_connection_id = coa_connection_id msg,
                               cp_prefix = get_commitment_prefix host\<rparr>,
            ce_delay_period = ce_delay_period (conn_end conn)\<rparr> in
     bindE (mk_proof E (coa_proof_try msg)) (\<lambda>proof_try.
     bindE (mk_identifier (coa_counterparty_connection_id msg)) (\<lambda>counterparty_id.
     bindE (verify_connection_state E (cl_impl client) (coa_proof_height msg)
              (cp_prefix counterparty) proof_try counterparty_id expected_connection) (\<lambda>_.
     bindE (mk_identifier (cp_client_id counterparty)) (\<lambda>counterparty_client_id.
     bindE (mk_proof E (coa_proof_client msg)) (\<lambda>proof_client.
     bindE (verify_client_state E (cl_impl client) (coa_proof_height msg) (cp_prefix counterparty)
              counterparty_client_id proof_client (coa_client_state msg)) (\<lambda>_.
     bindE (mk_proof E (coa_proof_consensus msg)) (\<lambda>proof_consensus.
     bindE (verify_client_consensus_state E (cl_impl client) (coa_proof_height msg)
              counterparty_client_id (coa_consensus_height msg) (cp_prefix counterparty)
              proof_consensus expected_consensus) (\<lambda>_.
       add_output (ConnectionSt (conn\<lparr>conn_end := (conn_end conn)\<lparr>
           ce_state := CONN_OPEN,
           ce_versions := [coa_version msg],
           ce_counterparty := counterparty\<lparr>cp_connection_id := coa_counterparty_connection_id msg\<rparr>
         \<rparr>\<rparr>)) c))))))))))))))))))"

text \<open>The connection end \<open>connOpenConfirm\<close> expects of the counterparty does not set the delay
  period, so it expects 0.\<close>

definition conn_confirm_expected :: "host \<Rightarrow> connection_end \<Rightarrow> string \<Rightarrow> connection_end" where
  "conn_confirm_expected host e connection_id =
     \<lparr>ce_client_id = cp_client_id (ce_counterparty e),
      ce_versions = ce_versions e,
      ce_state = CONN_OPEN,
      ce_counterparty = \<lparr>cp_client_id = ce_client_id e, cp_connection_id = connection_id,
                         cp_prefix = get_commitment_prefix host\<rparr>,
      ce_delay_period = 0\<rparr>"

definition conn_open_confirm :: "env \<Rightarrow> msg_conn_open_confirm \<Rightarrow> ctx \<Rightarrow> ctx outcome" where
  "conn_open_confirm E msg c =
     bindE (get_reference as_host c) (\<lambda>host.
     bindE (get_input as_connection c) (\<lambda>conn.
     bindE (mk_identifier (coc_connection_id msg)) (\<lambda>connection_id.
     guardE (conn_id conn = connection_id) ''mismatch connection'' (
     bindE (get_reference as_client c) (\<lambda>client.
     bindE (mk_identifier (ce_client_id (conn_end conn))) (\<lambda>client_id.
     guardE (cl_id client = client_id) ''mismatch client'' (
     guardE (ce_state (conn_end conn) = CONN_TRYOPEN) ''invalid connection state'' (
     bindE (mk_proof E (coc_proof_ack msg)) (\<lambda>proof_ack.
     bindE (mk_identifier (cp_connection_id (ce_counterparty (conn_end conn)))) (\<lambda>counterparty_id.
     bindE (verify_connection_state E (cl_impl client) (coc_proof_height msg)
              (cp_prefix (ce_counterparty (conn_end conn))) proof_ack counterparty_id
              (conn_confirm_expected host (conn_end conn) (coc_connection_id msg))) (\<lambda>_.
       add_output (ConnectionSt (conn\<lparr>conn_end := (conn_end conn)\<lparr>ce_state := CONN_OPEN\<rparr>\<rparr>)) c)))))))))))"

section \<open>What a successful call has checked\<close>

lemma create_client_Inr:
  assumes "create_client E msg c = Inr c'"
  shows "\<exists>host cs ct next_host i.
    get_input as_host c = Inr host \<and>
    host_create_client_state E host (mcc_client_state msg) (mcc_consensus_state msg) = Inr cs \<and>
    client_type_of E cs = Inr ct \<and>
    generate_client_identifier ct host = Inr (next_host, i) \<and>
    (\<forall>t \<in> set (out_states c). kind_of t \<noteq> KHost \<and> kind_of t \<noteq> KClient) \<and>
    c' = c\<lparr>out_states := out_states c @
           [HostState next_host, ClientSt (mk_ibc_client_state host i cs)]\<rparr>"
  using assms unfolding create_client_def
  by (auto simp: bindE_Inr_iff add_output_fresh is_ibc_state_def split: prod.splits)

lemma conn_open_init_Inr:
  assumes "conn_open_init msg c = Inr c'"
  shows "\<exists>host next_host i client.
    get_input as_host c = Inr host \<and>
    generate_connection_identifier host = Inr (next_host, i) \<and>
    get_reference as_client c = Inr client \<and>
    mk_identifier (coi_client_id msg) = Inr (cl_id client) \<and>
    (\<forall>v. coi_version msg = Some v \<longrightarrow> v = corda_VERSION) \<and>
    (\<forall>t \<in> set (out_states c). kind_of t \<noteq> KHost \<and> kind_of t \<noteq> KConnection) \<and>
    c' = c\<lparr>out_states := out_states c @
           [HostState next_host, ConnectionSt (mk_ibc_connection host i
             \<lparr>ce_client_id = coi_client_id msg, ce_versions = [corda_VERSION],
              ce_state = CONN_INIT, ce_counterparty = coi_counterparty msg,
              ce_delay_period = coi_delay_period msg\<rparr>)]\<rparr>"
  using assms unfolding conn_open_init_def
  by (auto simp: bindE_Inr_iff guardE_Inr_iff add_output_fresh is_ibc_state_def Let_def
      get_compatible_versions_def split: prod.splits option.splits)

lemma conn_try_previous_Inr:
  assumes "conn_try_previous msg host c = Inr (next_host, i, versions)"
  shows "cot_previous_connection_id msg = [] \<and> versions = [] \<and>
      generate_connection_identifier host = Inr (next_host, i) \<or>
    cot_previous_connection_id msg \<noteq> [] \<and> next_host = host \<and>
      (\<exists>prev. get_input as_connection c = Inr prev \<and> conn_id prev = i \<and>
        mk_identifier (cot_previous_connection_id msg) = Inr i \<and>
        ce_state (conn_end prev) = CONN_INIT \<and> ce_versions (conn_end prev) = versions \<and>
        ce_client_id (conn_end prev) = cot_client_id msg \<and>
        cp_connection_id (ce_counterparty (conn_end prev)) = [] \<and>
        ce_delay_period (conn_end prev) = cot_delay_period msg)"
  using assms unfolding conn_try_previous_def
  by (auto simp: bindE_Inr_iff guardE_Inr_iff split: if_splits prod.splits)

lemma conn_open_try_Inr:
  assumes "conn_open_try E msg c = Inr c'"
  shows "\<exists>host client next_host i versions v counterparty_id.
    get_input as_host c = Inr host \<and>
    get_reference as_client c = Inr client \<and>
    mk_identifier (cot_client_id msg) = Inr (cl_id client) \<and>
    conn_try_previous msg host c = Inr (next_host, i, versions) \<and>
    cot_consensus_height msg = corda_HEIGHT \<and>
    pick_version (if versions = [] then get_compatible_versions host else versions)
      (cot_counterparty_versions msg) = Inr v \<and>
    mk_identifier (cp_connection_id (cot_counterparty msg)) = Inr counterparty_id \<and>
    verify_connection_state E (cl_impl client) (cot_proof_height msg)
      (cp_prefix (cot_counterparty msg)) (cot_proof_init msg) counterparty_id
      \<lparr>ce_client_id = cp_client_id (cot_counterparty msg),
       ce_versions = cot_counterparty_versions msg, ce_state = CONN_INIT,
       ce_counterparty = \<lparr>cp_client_id = cot_client_id msg, cp_connection_id = [],
                          cp_prefix = corda_PREFIX\<rparr>,
       ce_delay_period = cot_delay_period msg\<rparr> = Inr () \<and>
    c' = c\<lparr>out_states := out_states c @
           [HostState next_host, ConnectionSt (mk_ibc_connection host i
             \<lparr>ce_client_id = cot_client_id msg, ce_versions = [v], ce_state = CONN_TRYOPEN,
              ce_counterparty = cot_counterparty msg,
              ce_delay_period = cot_delay_period msg\<rparr>)]\<rparr>"
  using assms unfolding conn_open_try_def
  by (auto simp: bindE_Inr_iff guardE_Inr_iff add_output_fresh is_ibc_state_def Let_def
      mk_proof_def get_current_height_def get_commitment_prefix_def
      split: prod.splits split del: if_split)

lemma conn_state_case_Inr:
  "(case st of CONN_INIT \<Rightarrow> a | CONN_TRYOPEN \<Rightarrow> b | _ \<Rightarrow> Inl e) = Inr x \<longleftrightarrow>
     st = CONN_INIT \<and> a = Inr x \<or> st = CONN_TRYOPEN \<and> b = Inr x"
  by (cases st) auto

lemma conn_open_ack_Inr:
  assumes "conn_open_ack E msg c = Inr c'"
  shows "\<exists>conn client counterparty_id.
    get_input as_connection c = Inr conn \<and>
    mk_identifier (coa_connection_id msg) = Inr (conn_id conn) \<and>
    get_reference as_client c = Inr client \<and>
    mk_identifier (ce_client_id (conn_end conn)) = Inr (cl_id client) \<and>
    coa_consensus_height msg = corda_HEIGHT \<and>
    (ce_state (conn_end conn) = CONN_INIT \<and> coa_version msg = corda_VERSION \<or>
     ce_state (conn_end conn) = CONN_TRYOPEN \<and> ce_versions (conn_end conn) = [coa_version msg]) \<and>
    mk_identifier (coa_counterparty_connection_id msg) = Inr counterparty_id \<and>
    verify_connection_state E (cl_impl client) (coa_proof_height msg)
      (cp_prefix (ce_counterparty (conn_end conn))) (coa_proof_try msg) counterparty_id
      \<lparr>ce_client_id = cp_client_id (ce_counterparty (conn_end conn)),
       ce_versions = [coa_version msg], ce_state = CONN_TRYOPEN,
       ce_counterparty = \<lparr>cp_client_id = ce_client_id (conn_end conn),
                          cp_connection_id = coa_connection_id msg, cp_prefix = corda_PREFIX\<rparr>,
       ce_delay_period = ce_delay_period (conn_end conn)\<rparr> = Inr () \<and>
    (\<forall>t \<in> set (out_states c). kind_of t \<noteq> KConnection) \<and>
    c' = c\<lparr>out_states := out_states c @
      [ConnectionSt (conn\<lparr>conn_end := (conn_end conn)\<lparr>
           ce_state := CONN_OPEN, ce_versions := [coa_version msg],
           ce_counterparty := (ce_counterparty (conn_end conn))
             \<lparr>cp_connection_id := coa_counterparty_connection_id msg\<rparr>\<rparr>\<rparr>)]\<rparr>"
  using assms unfolding conn_open_ack_def
  by (auto simp: bindE_Inr_iff guardE_Inr_iff add_output_fresh is_ibc_state_def Let_def singleE_Inr_iff
      conn_state_case_Inr mk_proof_def get_current_height_def get_commitment_prefix_def
      get_compatible_versions_def)

lemma conn_open_confirm_Inr:
  assumes "conn_open_confirm E msg c = Inr c'"
  shows "\<exists>host conn client counterparty_id.
    get_reference as_host c = Inr host \<and>
    get_input as_connection c = Inr conn \<and>
    mk_identifier (coc_connection_id msg) = Inr (conn_id conn) \<and>
    get_reference as_client c = Inr client \<and>
    mk_identifier (ce_client_id (conn_end conn)) = Inr (cl_id client) \<and>
    ce_state (conn_end conn) = CONN_TRYOPEN \<and>
    mk_identifier (cp_connection_id (ce_counterparty (conn_end conn))) = Inr counterparty_id \<and>
    verify_connection_state E (cl_impl client) (coc_proof_height msg)
      (cp_prefix (ce_counterparty (conn_end conn))) (coc_proof_ack msg) counterparty_id
      (conn_confirm_expected host (conn_end conn) (coc_connection_id msg)) = Inr () \<and>
    (\<forall>t \<in> set (out_states c). kind_of t \<noteq> KConnection) \<and>
    c' = c\<lparr>out_states := out_states c @
      [ConnectionSt (conn\<lparr>conn_end := (conn_end conn)\<lparr>ce_state := CONN_OPEN\<rparr>\<rparr>)]\<rparr>"
  using assms unfolding conn_open_confirm_def
  by (auto simp: bindE_Inr_iff guardE_Inr_iff add_output_fresh is_ibc_state_def mk_proof_def)

end
