(* ===== verification/Handler_Channel.thy ===== *)
theory Handler_Channel
  imports Handler_Connection
begin

text \<open>
  The channel handshake and the closing of channels of \<open>ics25/Handler.kt\<close>: \<open>chanOpenInit\<close>,
  \<open>chanOpenTry\<close>, \<open>chanOpenAck\<close>, \<open>chanOpenConfirm\<close>, \<open>chanCloseInit\<close> and
  \<open>chanCloseConfirm\<close>. The three \<open>select_\<close> functions are the opening lines these handlers (and
  the packet handlers) share. As for connections, an inversion lemma per handler lists what a
  successful call has checked and its output.
\<close>

section \<open>The states a handler works on\<close>

definition select_channel :: "string \<Rightarrow> string \<Rightarrow> ctx \<Rightarrow> ibc_channel outcome" where
  "select_channel port channel c =
     bindE (get_input as_channel c) (\<lambda>chan.
     bindE (mk_identifier port) (\<lambda>port_id.
     requireE (chan_port_id chan = port_id) (
     bindE (mk_identifier channel) (\<lambda>channel_id.
     requireE (chan_id chan = channel_id) (Inr chan)))))"

definition select_connection :: "string list \<Rightarrow> ctx \<Rightarrow> ibc_connection outcome" where
  "select_connection hops c =
     bindE (get_reference as_connection c) (\<lambda>conn.
     bindE (singleE hops) (\<lambda>hop.
     bindE (mk_identifier hop) (\<lambda>connection_id.
     requireE (conn_id conn = connection_id) (Inr conn))))"

definition select_client :: "ibc_connection \<Rightarrow> ctx \<Rightarrow> ibc_client_state outcome" where
  "select_client conn c =
     bindE (get_reference as_client c) (\<lambda>client.
     bindE (mk_identifier (ce_client_id (conn_end conn))) (\<lambda>client_id.
     requireE (cl_id client = client_id) (Inr client)))"

section \<open>Handlers\<close>

definition chan_open_init :: "msg_chan_open_init \<Rightarrow> ctx \<Rightarrow> ctx outcome" where
  "chan_open_init msg c =
     (let channel = hoi_channel msg in
     bindE (get_input as_host c) (\<lambda>host.
     bindE (select_connection (ch_connection_hops channel) c) (\<lambda>conn.
     bindE (singleE (ce_versions (conn_end conn))) (\<lambda>version.
     guardE (order_name (ch_ordering channel) \<in> set (version_features version))
       ''connection version does not support channel ordering'' (
     bindE (generate_channel_identifier host) (\<lambda>(next_host, channel_id).
     let end1 = \<lparr>ch_state = CHAN_INIT, ch_ordering = ch_ordering channel,
                 ch_counterparty = ch_counterparty channel,
                 ch_connection_hops = ch_connection_hops channel,
                 ch_version = ch_version channel\<rparr> in
     bindE (add_output (HostState next_host) c) (\<lambda>c.
     bindE (mk_identifier (hoi_port_id msg)) (\<lambda>port_id.
       add_output (ChannelSt (mk_ibc_channel host port_id channel_id end1)) c))))))))"

text \<open>The first part of \<open>chanOpenTry\<close>: the host to output, the identifier of the channel and the
  previous channel in \<open>INIT\<close>, if the message names one. Neither the port of the previous
  channel nor its stored packets are compared with the message.\<close>

definition chan_try_previous ::
  "msg_chan_open_try \<Rightarrow> host \<Rightarrow> ctx \<Rightarrow> (host \<times> ident \<times> ibc_channel option) outcome" where
  "chan_try_previous msg host c =
     (if hot_previous_channel_id msg \<noteq> [] then
        bindE (get_input as_channel c) (\<lambda>previous.
        bindE (mk_identifier (hot_previous_channel_id msg)) (\<lambda>previous_id.
        guardE (chan_id previous = previous_id) ''mismatch channel'' (
        bindE (if ch_ordering (chan_end previous) = ch_ordering (hot_channel msg) \<and>
                  cc_port_id (ch_counterparty (chan_end previous)) =
                    cc_port_id (ch_counterparty (hot_channel msg)) \<and>
                  cc_channel_id (ch_counterparty (chan_end previous)) = []
               then bindE (firstE (ch_connection_hops (chan_end previous))) (\<lambda>previous_hop.
                    bindE (firstE (ch_connection_hops (hot_channel msg))) (\<lambda>hop.
                      Inr (previous_hop = hop \<and>
                           ch_version (chan_end previous) = ch_version (hot_channel msg))))
               else Inr False) (\<lambda>same_fields.
        guardE same_fields ''channel fields mismatch previous channel fields'' (
        guardE (ch_state (chan_end previous) = CHAN_INIT) ''previous channel state is not INIT''
          (Inr (host, chan_id previous, Some previous)))))))
      else
        bindE (generate_channel_identifier host) (\<lambda>(next_host, channel_id).
          Inr (next_host, channel_id, None)))"

definition chan_open_try :: "env \<Rightarrow> msg_chan_open_try \<Rightarrow> ctx \<Rightarrow> ctx outcome" where
  "chan_open_try E msg c =
     (let channel = hot_channel msg in
     bindE (get_input as_host c) (\<lambda>host.
     bindE (select_connection (ch_connection_hops channel) c) (\<lambda>conn.
     bindE (select_client conn c) (\<lambda>client.
     bindE (chan_try_previous msg host c) (\<lambda>(next_host, channel_id, previous).
     guardE (ce_state (conn_end conn) = CONN_OPEN) ''connection state is not OPEN'' (
     bindE (singleE (ce_versions (conn_end conn))) (\<lambda>version.
     guardE (order_name (ch_ordering channel) \<in> set (version_features version))
       ''connection version does not support channel ordering'' (
     let end1 = \<lparr>ch_state = CHAN_TRYOPEN, ch_ordering = ch_ordering channel,
                 ch_counterparty = ch_counterparty channel,
                 ch_connection_hops = ch_connection_hops channel,
                 ch_version = ch_version channel\<rparr>;
         counterparty_hops = [cp_connection_id (ce_counterparty (conn_end conn))];
         expected_channel =
           \<lparr>ch_state = CHAN_INIT, ch_ordering = ch_ordering channel,
            ch_counterparty = \<lparr>cc_port_id = hot_port_id msg, cc_channel_id = []\<rparr>,
            ch_connection_hops = counterparty_hops,
            ch_version = hot_counterparty_version msg\<rparr> in
     bindE (mk_proof E (hot_proof_init msg)) (\<lambda>proof_init.
     bindE (mk_identifier (cc_port_id (ch_counterparty channel))) (\<lambda>counterparty_port.
     bindE (mk_identifier (cc_channel_id (ch_counterparty channel))) (\<lambda>counterparty_channel.
     bindE (verify_channel_state E (cl_impl client) (hot_proof_height msg)
              (cp_prefix (ce_counterparty (conn_end conn))) proof_init
              counterparty_port counterparty_channel expected_channel) (\<lambda>_.
     bindE (mk_identifier (hot_port_id msg)) (\<lambda>port_id.
     let chan = mk_ibc_channel host port_id channel_id end1 in
     bindE (add_output (HostState next_host) c) (\<lambda>c.
       add_output (ChannelSt (case previous of
           None \<Rightarrow> chan
         | Some p \<Rightarrow> chan\<lparr>next_sequence_ack := next_sequence_ack p,
                          next_sequence_send := next_sequence_send p,
                          next_sequence_recv := next_sequence_recv p\<rparr>)) c))))))))))))))"

definition chan_open_ack :: "env \<Rightarrow> msg_chan_open_ack \<Rightarrow> ctx \<Rightarrow> ctx outcome" where
  "chan_open_ack E msg c =
     bindE (get_reference as_host c) (\<lambda>host.
     bindE (select_channel (hoa_port_id msg) (hoa_channel_id msg) c) (\<lambda>chan.
     bindE (select_connection (ch_connection_hops (chan_end chan)) c) (\<lambda>conn.
     bindE (select_client conn c) (\<lambda>client.
     guardE (ch_state (chan_end chan) = CHAN_INIT \<or> ch_state (chan_end chan) = CHAN_TRYOPEN)
       ''channel state should be INIT or TRYOPEN'' (
     guardE (ce_state (conn_end conn) = CONN_OPEN) ''connection state is not OPEN'' (
     let counterparty_hops = [cp_connection_id (ce_counterparty (conn_end conn))];
         expected_channel =
           \<lparr>ch_state = CHAN_TRYOPEN, ch_ordering = ch_ordering (chan_end chan),
            ch_counterparty = \<lparr>cc_port_id = hoa_port_id msg, cc_channel_id = hoa_channel_id msg\<rparr>,
            ch_connection_hops = counterparty_hops,
            ch_version = hoa_counterparty_version msg\<rparr> in
     bindE (mk_proof E (hoa_proof_try msg)) (\<lambda>proof_try.
     bindE (mk_identifier (cc_port_id (ch_counterparty (chan_end chan)))) (\<lambda>counterparty_port.
     bindE (mk_identifier (hoa_counterparty_channel_id msg)) (\<lambda>counterparty_channel.
     bindE (verify_channel_state E (cl_impl client) (hoa_proof_height msg)
              (cp_prefix (ce_counterparty (conn_end conn))) proof_try
              counterparty_port counterparty_channel expected_channel) (\<lambda>_.
       add_output (ChannelSt (chan\<lparr>chan_end := (chan_end chan)\<lparr>
           ch_state := CHAN_OPEN,
           ch_version := hoa_counterparty_version msg,
           ch_counterparty := (ch_counterparty (chan_end chan))
             \<lparr>cc_channel_id := hoa_counterparty_channel_id msg\<rparr>\<rparr>\<rparr>)) c))))))))))"

definition chan_open_confirm :: "env \<Rightarrow> msg_chan_open_confirm \<Rightarrow> ctx \<Rightarrow> ctx outcome" where
  "chan_open_confirm E msg c =
     bindE (get_reference as_host c) (\<lambda>host.
     bindE (select_channel (hoc_port_id msg) (hoc_channel_id msg) c) (\<lambda>chan.
     bindE (select_connection (ch_connection_hops (chan_end chan)) c) (\<lambda>conn.
     bindE (select_client conn c) (\<lambda>client.
     guardE (ch_state (chan_end chan) = CHAN_TRYOPEN) ''channel state is not TRYOPEN'' (
     guardE (ce_state (conn_end conn) = CONN_OPEN) ''connection state is not OPEN'' (
     let counterparty_hops = [cp_connection_id (ce_counterparty (conn_end conn))];
         expected_channel =
           \<lparr>ch_state = CHAN_OPEN, ch_ordering = ch_ordering (chan_end chan),
            ch_counterparty = \<lparr>cc_port_id = hoc_port_id msg, cc_channel_id = hoc_channel_id msg\<rparr>,
            ch_connection_hops = counterparty_hops,
            ch_version = ch_version (chan_end chan)\<rparr> in
     bindE (mk_proof E (hoc_proof_ack msg)) (\<lambda>proof_ack.
     bindE (mk_identifier (cc_port_id (ch_counterparty (chan_end chan)))) (\<lambda>counterparty_port.
     bindE (mk_identifier (cc_channel_id (ch_counterparty (chan_end chan)))) (\<lambda>counterparty_channel.
     bindE (verify_channel_state E (cl_impl client) (hoc_proof_height msg)
              (cp_prefix (ce_counterparty (conn_end conn))) proof_ack
              counterparty_port counterparty_channel expected_channel) (\<lambda>_.
       add_output (ChannelSt (chan\<lparr>chan_end := (chan_end chan)\<lparr>ch_state := CHAN_OPEN\<rparr>\<rparr>)) c))))))))))"

definition chan_close_init :: "msg_chan_close_init \<Rightarrow> ctx \<Rightarrow> ctx outcome" where
  "chan_close_init msg c =
     bindE (get_reference as_host c) (\<lambda>host.
     bindE (select_channel (hci_port_id msg) (hci_channel_id msg) c) (\<lambda>chan.
     bindE (select_connection (ch_connection_hops (chan_end chan)) c) (\<lambda>conn.
     guardE (ch_state (chan_end chan) \<noteq> CHAN_CLOSED) ''channel is already CLOSED'' (
     guardE (ce_state (conn_end conn) = CONN_OPEN) ''connection state is not OPEN'' (
       add_output (ChannelSt (chan\<lparr>chan_end := (chan_end chan)\<lparr>ch_state := CHAN_CLOSED\<rparr>\<rparr>)) c)))))"

definition chan_close_confirm :: "env \<Rightarrow> msg_chan_close_confirm \<Rightarrow> ctx \<Rightarrow> ctx outcome" where
  "chan_close_confirm E msg c =
     bindE (get_reference as_host c) (\<lambda>host.
     bindE (select_channel (hcc_port_id msg) (hcc_channel_id msg) c) (\<lambda>chan.
     bindE (select_connection (ch_connection_hops (chan_end chan)) c) (\<lambda>conn.
     bindE (select_client conn c) (\<lambda>client.
     guardE (ch_state (chan_end chan) \<noteq> CHAN_CLOSED) ''channel is already CLOSED'' (
     guardE (ce_state (conn_end conn) = CONN_OPEN) ''connection state is not OPEN'' (
     let counterparty_hops = [cp_connection_id (ce_counterparty (conn_end conn))];
         expected_channel =
           \<lparr>ch_state = CHAN_CLOSED, ch_ordering = ch_ordering (chan_end chan),
            ch_counterparty = \<lparr>cc_port_id = hcc_port_id msg, cc_channel_id = hcc_channel_id msg\<rparr>,
            ch_connection_hops = counterparty_hops,
            ch_version = ch_version (chan_end chan)\<rparr> in
     bindE (mk_proof E (hcc_proof_init msg)) (\<lambda>proof_init.
     bindE (mk_identifier (cc_port_id (ch_counterparty (chan_end chan)))) (\<lambda>counterparty_port.
     bindE (mk_identifier (cc_channel_id (ch_counterparty (chan_end chan)))) (\<lambda>counterparty_channel.
     bindE (verify_channel_state E (cl_impl client) (hcc_proof_height msg)
              (cp_prefix (ce_counterparty (conn_end conn))) proof_init
              counterparty_port counterparty_channel expected_channel) (\<lambda>_.
       add_output (ChannelSt (chan\<lparr>chan_end := (chan_end chan)\<lparr>ch_state := CHAN_CLOSED\<rparr>\<rparr>)) c))))))))))"

section \<open>What a successful call has checked\<close>

lemma select_channel_Inr [outcome_simps]:
  "select_channel port channel c = Inr chan \<longleftrightarrow>
     get_input as_channel c = Inr chan \<and> mk_identifier port = Inr (chan_port_id chan) \<and>
     mk_identifier channel = Inr (chan_id chan)"
  by (auto simp: select_channel_def bindE_Inr_iff guardE_Inr_iff)

lemma select_connection_Inr [outcome_simps]:
  "select_connection hops c = Inr conn \<longleftrightarrow>
     get_reference as_connection c = Inr conn \<and>
     (\<exists>hop. hops = [hop] \<and> mk_identifier hop = Inr (conn_id conn))"
  by (auto simp: select_connection_def bindE_Inr_iff guardE_Inr_iff singleE_Inr_iff)

lemma select_client_Inr [outcome_simps]:
  "select_client conn c = Inr client \<longleftrightarrow>
     get_reference as_client c = Inr client \<and>
     mk_identifier (ce_client_id (conn_end conn)) = Inr (cl_id client)"
  by (auto simp: select_client_def bindE_Inr_iff guardE_Inr_iff)

lemmas handler_inversion = bindE_Inr_iff guardE_Inr_iff singleE_Inr_iff add_output_fresh
  is_ibc_state_def select_channel_Inr select_connection_Inr select_client_Inr mk_proof_def Let_def

lemma chan_open_init_Inr:
  assumes "chan_open_init msg c = Inr c'"
  shows "\<exists>host next_host i port conn.
    get_input as_host c = Inr host \<and>
    select_connection (ch_connection_hops (hoi_channel msg)) c = Inr conn \<and>
    generate_channel_identifier host = Inr (next_host, i) \<and>
    mk_identifier (hoi_port_id msg) = Inr port \<and>
    (\<forall>t \<in> set (out_states c). kind_of t \<noteq> KHost \<and> kind_of t \<noteq> KChannel) \<and>
    c' = c\<lparr>out_states := out_states c @
           [HostState next_host, ChannelSt (mk_ibc_channel host port i
             \<lparr>ch_state = CHAN_INIT, ch_ordering = ch_ordering (hoi_channel msg),
              ch_counterparty = ch_counterparty (hoi_channel msg),
              ch_connection_hops = ch_connection_hops (hoi_channel msg),
              ch_version = ch_version (hoi_channel msg)\<rparr>)]\<rparr>"
  using assms unfolding chan_open_init_def
  by (auto simp: handler_inversion split: prod.splits)

lemma chan_try_previous_Inr:
  assumes "chan_try_previous msg host c = Inr (next_host, i, previous)"
  shows "hot_previous_channel_id msg = [] \<and> previous = None \<and>
      generate_channel_identifier host = Inr (next_host, i) \<or>
    hot_previous_channel_id msg \<noteq> [] \<and> next_host = host \<and>
      (\<exists>p. previous = Some p \<and> get_input as_channel c = Inr p \<and> chan_id p = i \<and>
        mk_identifier (hot_previous_channel_id msg) = Inr i \<and>
        ch_state (chan_end p) = CHAN_INIT \<and>
        ch_ordering (chan_end p) = ch_ordering (hot_channel msg))"
  using assms unfolding chan_try_previous_def
  by (auto simp: bindE_Inr_iff guardE_Inr_iff split: if_splits prod.splits)

text \<open>The channel a successful \<open>chanOpenTry\<close> outputs.\<close>

definition tried_channel ::
  "msg_chan_open_try \<Rightarrow> host \<Rightarrow> ident \<Rightarrow> ident \<Rightarrow> ibc_channel option \<Rightarrow> ibc_channel" where
  "tried_channel msg host port i previous =
     (let chan = mk_ibc_channel host port i
            \<lparr>ch_state = CHAN_TRYOPEN, ch_ordering = ch_ordering (hot_channel msg),
             ch_counterparty = ch_counterparty (hot_channel msg),
             ch_connection_hops = ch_connection_hops (hot_channel msg),
             ch_version = ch_version (hot_channel msg)\<rparr>
      in case previous of
           None \<Rightarrow> chan
         | Some p \<Rightarrow> chan\<lparr>next_sequence_ack := next_sequence_ack p,
                          next_sequence_send := next_sequence_send p,
                          next_sequence_recv := next_sequence_recv p\<rparr>)"

lemma chan_open_try_Inr:
  assumes "chan_open_try E msg c = Inr c'"
  shows "\<exists>host conn client next_host i previous port counterparty_port counterparty_channel.
    get_input as_host c = Inr host \<and>
    select_connection (ch_connection_hops (hot_channel msg)) c = Inr conn \<and>
    select_client conn c = Inr client \<and>
    chan_try_previous msg host c = Inr (next_host, i, previous) \<and>
    ce_state (conn_end conn) = CONN_OPEN \<and>
    mk_identifier (cc_port_id (ch_counterparty (hot_channel msg))) = Inr counterparty_port \<and>
    mk_identifier (cc_channel_id (ch_counterparty (hot_channel msg))) = Inr counterparty_channel \<and>
    verify_channel_state E (cl_impl client) (hot_proof_height msg)
      (cp_prefix (ce_counterparty (conn_end conn))) (hot_proof_init msg)
      counterparty_port counterparty_channel
      \<lparr>ch_state = CHAN_INIT, ch_ordering = ch_ordering (hot_channel msg),
       ch_counterparty = \<lparr>cc_port_id = hot_port_id msg, cc_channel_id = []\<rparr>,
       ch_connection_hops = [cp_connection_id (ce_counterparty (conn_end conn))],
       ch_version = hot_counterparty_version msg\<rparr> = Inr () \<and>
    mk_identifier (hot_port_id msg) = Inr port \<and>
    (\<forall>t \<in> set (out_states c). kind_of t \<noteq> KHost \<and> kind_of t \<noteq> KChannel) \<and>
    c' = c\<lparr>out_states := out_states c @
      [HostState next_host, ChannelSt (tried_channel msg host port i previous)]\<rparr>"
  using assms unfolding chan_open_try_def tried_channel_def
  by (auto simp: handler_inversion split: prod.splits split del: if_split)

text \<open>What \<open>chanOpenAck\<close>, \<open>chanOpenConfirm\<close> and \<open>chanCloseConfirm\<close> have in common: the
  counterparty's channel end has been verified by the client of the channel's connection.\<close>

definition verified_end ::
  "env \<Rightarrow> ctx \<Rightarrow> ibc_channel \<Rightarrow> height \<Rightarrow> bytes \<Rightarrow> string \<Rightarrow> chan_state \<Rightarrow> string \<Rightarrow> bool" where
  "verified_end E c chan h prf counterparty_channel st version \<longleftrightarrow>
     (\<exists>conn client port i.
        select_connection (ch_connection_hops (chan_end chan)) c = Inr conn \<and>
        ce_state (conn_end conn) = CONN_OPEN \<and>
        select_client conn c = Inr client \<and>
        mk_identifier (cc_port_id (ch_counterparty (chan_end chan))) = Inr port \<and>
        mk_identifier counterparty_channel = Inr i \<and>
        verify_channel_state E (cl_impl client) h (cp_prefix (ce_counterparty (conn_end conn)))
          prf port i
          \<lparr>ch_state = st, ch_ordering = ch_ordering (chan_end chan),
           ch_counterparty = \<lparr>cc_port_id = ident_string (chan_port_id chan),
                              cc_channel_id = ident_string (chan_id chan)\<rparr>,
           ch_connection_hops = [cp_connection_id (ce_counterparty (conn_end conn))],
           ch_version = version\<rparr> = Inr ())"

lemma chan_open_ack_Inr:
  assumes "chan_open_ack E msg c = Inr c'"
  shows "\<exists>chan. select_channel (hoa_port_id msg) (hoa_channel_id msg) c = Inr chan \<and>
    ch_state (chan_end chan) \<in> {CHAN_INIT, CHAN_TRYOPEN} \<and>
    verified_end E c chan (hoa_proof_height msg) (hoa_proof_try msg)
      (hoa_counterparty_channel_id msg) CHAN_TRYOPEN (hoa_counterparty_version msg) \<and>
    (\<forall>t \<in> set (out_states c). kind_of t \<noteq> KChannel) \<and>
    c' = c\<lparr>out_states := out_states c @
      [ChannelSt (chan\<lparr>chan_end := (chan_end chan)\<lparr>
           ch_state := CHAN_OPEN, ch_version := hoa_counterparty_version msg,
           ch_counterparty := (ch_counterparty (chan_end chan))
             \<lparr>cc_channel_id := hoa_counterparty_channel_id msg\<rparr>\<rparr>\<rparr>)]\<rparr>"
  using assms unfolding chan_open_ack_def verified_end_def
  by (auto simp: handler_inversion mk_identifier_Inr_iff)

lemma chan_open_confirm_Inr:
  assumes "chan_open_confirm E msg c = Inr c'"
  shows "\<exists>chan. select_channel (hoc_port_id msg) (hoc_channel_id msg) c = Inr chan \<and>
    ch_state (chan_end chan) = CHAN_TRYOPEN \<and>
    verified_end E c chan (hoc_proof_height msg) (hoc_proof_ack msg)
      (cc_channel_id (ch_counterparty (chan_end chan))) CHAN_OPEN (ch_version (chan_end chan)) \<and>
    (\<forall>t \<in> set (out_states c). kind_of t \<noteq> KChannel) \<and>
    c' = c\<lparr>out_states := out_states c @
      [ChannelSt (chan\<lparr>chan_end := (chan_end chan)\<lparr>ch_state := CHAN_OPEN\<rparr>\<rparr>)]\<rparr>"
  using assms unfolding chan_open_confirm_def verified_end_def
  by (auto simp: handler_inversion mk_identifier_Inr_iff)

lemma chan_close_init_Inr:
  assumes "chan_close_init msg c = Inr c'"
  shows "\<exists>chan conn. select_channel (hci_port_id msg) (hci_channel_id msg) c = Inr chan \<and>
    select_connection (ch_connection_hops (chan_end chan)) c = Inr conn \<and>
    ce_state (conn_end conn) = CONN_OPEN \<and>
    ch_state (chan_end chan) \<noteq> CHAN_CLOSED \<and>
    (\<forall>t \<in> set (out_states c). kind_of t \<noteq> KChannel) \<and>
    c' = c\<lparr>out_states := out_states c @
      [ChannelSt (chan\<lparr>chan_end := (chan_end chan)\<lparr>ch_state := CHAN_CLOSED\<rparr>\<rparr>)]\<rparr>"
  using assms unfolding chan_close_init_def by (auto simp: handler_inversion)

lemma chan_close_confirm_Inr:
  assumes "chan_close_confirm E msg c = Inr c'"
  shows "\<exists>chan. select_channel (hcc_port_id msg) (hcc_channel_id msg) c = Inr chan \<and>
    ch_state (chan_end chan) \<noteq> CHAN_CLOSED \<and>
    verified_end E c chan (hcc_proof_height msg) (hcc_proof_init msg)
      (cc_channel_id (ch_counterparty (chan_end chan))) CHAN_CLOSED (ch_version (chan_end chan)) \<and>
    (\<forall>t \<in> set (out_states c). kind_of t \<noteq> KChannel) \<and>
    c' = c\<lparr>out_states := out_states c @
      [ChannelSt (chan\<lparr>chan_end := (chan_end chan)\<lparr>ch_state := CHAN_CLOSED\<rparr>\<rparr>)]\<rparr>"
  using assms unfolding chan_close_confirm_def verified_end_def
  by (auto simp: handler_inversion mk_identifier_Inr_iff)

end
