(* ===== verification/Handler_Packet.thy ===== *)
theory Handler_Packet
  imports Handler_Channel
begin

text \<open>
  The packet handlers of \<open>ics25/Handler.kt\<close>: \<open>sendPacket\<close>, \<open>recvPacket\<close> and
  \<open>acknowledgePacket\<close>. \<open>sent\<close>, \<open>received\<close> and \<open>acked\<close> are the updates of the channel state they
  make, with the sequence checks that guard them; the inversion lemmas reduce a successful
  call to its checks and this update.
\<close>

section \<open>Sending\<close>

text \<open>\<open>packet.timeoutHeight.isZero() || latestHeight < timeoutHeight\<close>.\<close>

definition before_timeout_height :: "height \<Rightarrow> packet \<Rightarrow> bool" where
  "before_timeout_height h p \<longleftrightarrow>
     height_is_zero (pkt_timeout_height p) \<or> h < pkt_timeout_height p"

text \<open>\<open>packet.timeoutTimestamp == 0L || latestTimestamp < packet.timeoutTimestamp\<close>, on signed
  numbers.\<close>

definition before_timeout_timestamp :: "long \<Rightarrow> packet \<Rightarrow> bool" where
  "before_timeout_timestamp t p \<longleftrightarrow>
     pkt_timeout_timestamp p = 0 \<or> sint t < sint (pkt_timeout_timestamp p)"

text \<open>The timestamp of the counterparty is only looked at for clients that have one.\<close>

definition check_counterparty_timestamp ::
  "env \<Rightarrow> ibc_connection \<Rightarrow> ibc_client_state \<Rightarrow> height \<Rightarrow> packet \<Rightarrow> unit outcome" where
  "check_counterparty_timestamp E conn client latest packet =
     bindE (mk_identifier (ce_client_id (conn_end conn))) (\<lambda>client_id.
     bindE (parse_client_identifier client_id) (\<lambda>(client_type, _).
       if client_type \<noteq> SoloMachineClient \<and> client_type \<noteq> CordaClient then
         bindE (consensus_timestamp E (cl_impl client) latest) (\<lambda>latest_timestamp.
           guardE (before_timeout_timestamp latest_timestamp packet)
             ''receiving chain block timestamp >= packet timeout timestamp'' (Inr ()))
       else Inr ()))"

definition send_packet :: "env \<Rightarrow> packet \<Rightarrow> ctx \<Rightarrow> ctx outcome" where
  "send_packet E packet c =
     bindE (get_reference as_host c) (\<lambda>host.
     bindE (select_channel (pkt_source_port packet) (pkt_source_channel packet) c) (\<lambda>chan.
     bindE (select_connection (ch_connection_hops (chan_end chan)) c) (\<lambda>conn.
     bindE (select_client conn c) (\<lambda>client.
     guardE (ch_state (chan_end chan) \<noteq> CHAN_CLOSED) ''channel is CLOSED'' (
     guardE (pkt_destination_port packet = cc_port_id (ch_counterparty (chan_end chan)))
       ''packet destination port doesn't match the counterparty's port'' (
     guardE (pkt_destination_channel packet = cc_channel_id (ch_counterparty (chan_end chan)))
       ''packet destination channel doesn't match the counterparty's channel'' (
     bindE (latest_height E (cl_impl client)) (\<lambda>latest.
     guardE (before_timeout_height latest packet)
       ''receiving chain block height >= packet timeout height'' (
     bindE (check_counterparty_timestamp E conn client latest packet) (\<lambda>_.
     guardE (pkt_sequence packet = next_sequence_send chan)
       ''packet sequence is not the next send sequence'' (
       add_output (ChannelSt (chan\<lparr>next_sequence_send := next_sequence_send chan + 1,
                                   packets := (packets chan)(pkt_sequence packet \<mapsto> packet)\<rparr>))
         c)))))))))))"

section \<open>Receiving\<close>

definition recv_packet ::
  "env \<Rightarrow> packet \<Rightarrow> bytes \<Rightarrow> height \<Rightarrow> acknowledgement \<Rightarrow> ctx \<Rightarrow> ctx outcome" where
  "recv_packet E packet prf proof_height acknowledgement c =
     bindE (get_reference as_host c) (\<lambda>host.
     bindE (select_channel (pkt_destination_port packet) (pkt_destination_channel packet) c) (\<lambda>chan.
     bindE (select_connection (ch_connection_hops (chan_end chan)) c) (\<lambda>conn.
     bindE (select_client conn c) (\<lambda>client.
     guardE (ch_state (chan_end chan) = CHAN_OPEN) ''channel state is not OPEN'' (
     guardE (pkt_source_port packet = cc_port_id (ch_counterparty (chan_end chan)))
       ''packet source port doesn't match the counterparty's port'' (
     guardE (pkt_source_channel packet = cc_channel_id (ch_counterparty (chan_end chan)))
       ''packet source channel doesn't match the counterparty's channel'' (
     guardE (ce_state (conn_end conn) = CONN_OPEN) ''connection state is not OPEN'' (
     guardE (before_timeout_height (get_current_height host) packet)
       ''block height >= packet timeout height'' (
     guardE (before_timeout_timestamp (current_timestamp host) packet)
       ''block timestamp >= packet timeout timestamp'' (
     bindE (mk_identifier (pkt_source_port packet)) (\<lambda>source_port.
     bindE (mk_identifier (pkt_source_channel packet)) (\<lambda>source_channel.
     bindE (verify_packet_commitment E (cl_impl client) proof_height
              (ce_delay_period (conn_end conn)) 0 (cp_prefix (ce_counterparty (conn_end conn)))
              prf source_port source_channel (pkt_sequence packet)
              (packet_to_commitment (env_sha256 E) packet)) (\<lambda>_.
     let chan = chan\<lparr>acknowledgements :=
                       (acknowledgements chan)(pkt_sequence packet \<mapsto> acknowledgement)\<rparr> in
     bindE (case ch_ordering (chan_end chan) of
              ORDER_UNORDERED \<Rightarrow>
                guardE (pkt_sequence packet \<notin> receipts chan) ''packet sequence'' (
                  Inr (chan\<lparr>receipts := insert (pkt_sequence packet) (receipts chan)\<rparr>))
            | ORDER_ORDERED \<Rightarrow>
                guardE (pkt_sequence packet = next_sequence_recv chan)
                  ''packet sequence is not the next receive sequence'' (
                  Inr (chan\<lparr>next_sequence_recv := next_sequence_recv chan + 1\<rparr>))
            | ORDER_NONE_UNSPECIFIED \<Rightarrow> Inl (IllegalArgument None)) (\<lambda>chan.
       add_output (ChannelSt chan) c))))))))))))))"

section \<open>Acknowledging\<close>

definition acknowledge_packet ::
  "env \<Rightarrow> packet \<Rightarrow> acknowledgement \<Rightarrow> bytes \<Rightarrow> height \<Rightarrow> ctx \<Rightarrow> ctx outcome" where
  "acknowledge_packet E packet acknowledgement prf proof_height c =
     bindE (get_reference as_host c) (\<lambda>host.
     bindE (select_channel (pkt_source_port packet) (pkt_source_channel packet) c) (\<lambda>chan.
     bindE (select_connection (ch_connection_hops (chan_end chan)) c) (\<lambda>conn.
     bindE (select_client conn c) (\<lambda>client.
     guardE (ch_state (chan_end chan) = CHAN_OPEN) ''channel state is not OPEN'' (
     guardE (pkt_destination_port packet = cc_port_id (ch_counterparty (chan_end chan)))
       ''packet destination port doesn't match the counterparty's port'' (
     guardE (pkt_destination_channel packet = cc_channel_id (ch_counterparty (chan_end chan)))
       ''packet destination channel doesn't match the counterparty's channel'' (
     guardE (ce_state (conn_end conn) = CONN_OPEN) ''connection state is not OPEN'' (
     guardE (pkt_sequence packet \<in> dom (packets chan))
       ''packet has been acknowledged, or timed out'' (
     bindE (not_null (packets chan (pkt_sequence packet))) (\<lambda>expected_packet.
     guardE (expected_packet = packet) ''commitment bytes are not equal'' (
     bindE (mk_identifier (pkt_destination_port packet)) (\<lambda>destination_port.
     bindE (mk_identifier (pkt_destination_channel packet)) (\<lambda>destination_channel.
     bindE (verify_packet_acknowledgement E (cl_impl client) proof_height
              (ce_delay_period (conn_end conn)) 0 (cp_prefix (ce_counterparty (conn_end conn)))
              prf destination_port destination_channel (pkt_sequence packet)
              acknowledgement) (\<lambda>_.
     bindE (if ch_ordering (chan_end chan) = ORDER_ORDERED
            then guardE (pkt_sequence packet = next_sequence_ack chan)
                   ''packet sequence is not the next ack sequence''
                   (Inr (chan\<lparr>next_sequence_ack := next_sequence_ack chan + 1\<rparr>))
            else Inr chan) (\<lambda>chan.
       add_output (ChannelSt (chan\<lparr>packets := (packets chan)(pkt_sequence packet := None)\<rparr>))
         c)))))))))))))))"

section \<open>The update of the channel\<close>

definition sent :: "packet \<Rightarrow> ibc_channel \<Rightarrow> ibc_channel option" where
  "sent p chan =
     (if ch_state (chan_end chan) \<noteq> CHAN_CLOSED \<and> pkt_sequence p = next_sequence_send chan
      then Some (chan\<lparr>next_sequence_send := next_sequence_send chan + 1,
                      packets := (packets chan)(pkt_sequence p \<mapsto> p)\<rparr>)
      else None)"

definition received :: "packet \<Rightarrow> acknowledgement \<Rightarrow> ibc_channel \<Rightarrow> ibc_channel option" where
  "received p a chan =
     (if ch_state (chan_end chan) = CHAN_OPEN then
        (let chan = chan\<lparr>acknowledgements := (acknowledgements chan)(pkt_sequence p \<mapsto> a)\<rparr> in
         if ch_ordering (chan_end chan) = ORDER_UNORDERED \<and> pkt_sequence p \<notin> receipts chan then
           Some (chan\<lparr>receipts := insert (pkt_sequence p) (receipts chan)\<rparr>)
         else if ch_ordering (chan_end chan) = ORDER_ORDERED \<and>
                 pkt_sequence p = next_sequence_recv chan then
           Some (chan\<lparr>next_sequence_recv := next_sequence_recv chan + 1\<rparr>)
         else None)
      else None)"

definition acked :: "packet \<Rightarrow> ibc_channel \<Rightarrow> ibc_channel option" where
  "acked p chan =
     (if ch_state (chan_end chan) = CHAN_OPEN \<and> packets chan (pkt_sequence p) = Some p \<and>
         (ch_ordering (chan_end chan) = ORDER_ORDERED \<longrightarrow> pkt_sequence p = next_sequence_ack chan)
      then Some (chan\<lparr>packets := (packets chan)(pkt_sequence p := None),
                      next_sequence_ack :=
                        (if ch_ordering (chan_end chan) = ORDER_ORDERED
                         then next_sequence_ack chan + 1 else next_sequence_ack chan)\<rparr>)
      else None)"

lemma send_packet_Inr:
  assumes "send_packet E p c = Inr c'"
  shows "\<exists>chan chan'. select_channel (pkt_source_port p) (pkt_source_channel p) c = Inr chan \<and>
    sent p chan = Some chan' \<and>
    pkt_destination_port p = cc_port_id (ch_counterparty (chan_end chan)) \<and>
    pkt_destination_channel p = cc_channel_id (ch_counterparty (chan_end chan)) \<and>
    (\<forall>t \<in> set (out_states c). kind_of t \<noteq> KChannel) \<and>
    c' = c\<lparr>out_states := out_states c @ [ChannelSt chan']\<rparr>"
  using assms unfolding send_packet_def sent_def by (auto simp: handler_inversion)

lemma order_case_Inr:
  "(case order of ORDER_UNORDERED \<Rightarrow> a | ORDER_ORDERED \<Rightarrow> b | ORDER_NONE_UNSPECIFIED \<Rightarrow> Inl e) = Inr x \<longleftrightarrow>
     order = ORDER_UNORDERED \<and> a = Inr x \<or> order = ORDER_ORDERED \<and> b = Inr x"
  by (cases order) auto

text \<open>What \<open>recvPacket\<close> and \<open>acknowledgePacket\<close> verify of the counterparty's channel.\<close>

definition verified_commitment ::
  "env \<Rightarrow> ctx \<Rightarrow> ibc_channel \<Rightarrow> height \<Rightarrow> bytes \<Rightarrow> packet \<Rightarrow> bool" where
  "verified_commitment E c chan h prf p \<longleftrightarrow>
     (\<exists>conn client.
        select_connection (ch_connection_hops (chan_end chan)) c = Inr conn \<and>
        ce_state (conn_end conn) = CONN_OPEN \<and>
        select_client conn c = Inr client \<and>
        verify_packet_commitment E (cl_impl client) h (ce_delay_period (conn_end conn)) 0
          (cp_prefix (ce_counterparty (conn_end conn))) prf
          (Identifier (pkt_source_port p)) (Identifier (pkt_source_channel p)) (pkt_sequence p)
          (packet_to_commitment (env_sha256 E) p) = Inr ())"

definition verified_ack ::
  "env \<Rightarrow> ctx \<Rightarrow> ibc_channel \<Rightarrow> height \<Rightarrow> bytes \<Rightarrow> packet \<Rightarrow> acknowledgement \<Rightarrow> bool" where
  "verified_ack E c chan h prf p a \<longleftrightarrow>
     (\<exists>conn client.
        select_connection (ch_connection_hops (chan_end chan)) c = Inr conn \<and>
        ce_state (conn_end conn) = CONN_OPEN \<and>
        select_client conn c = Inr client \<and>
        verify_packet_acknowledgement E (cl_impl client) h (ce_delay_period (conn_end conn)) 0
          (cp_prefix (ce_counterparty (conn_end conn))) prf
          (Identifier (pkt_destination_port p)) (Identifier (pkt_destination_channel p))
          (pkt_sequence p) a = Inr ())"

lemma recv_packet_Inr:
  assumes "recv_packet E p prf h a c = Inr c'"
  shows "\<exists>chan chan'.
    select_channel (pkt_destination_port p) (pkt_destination_channel p) c = Inr chan \<and>
    received p a chan = Some chan' \<and>
    pkt_source_port p = cc_port_id (ch_counterparty (chan_end chan)) \<and>
    pkt_source_channel p = cc_channel_id (ch_counterparty (chan_end chan)) \<and>
    verified_commitment E c chan h prf p \<and>
    before_timeout_height corda_HEIGHT p \<and> before_timeout_timestamp 0 p \<and>
    (\<forall>t \<in> set (out_states c). kind_of t \<noteq> KChannel) \<and>
    c' = c\<lparr>out_states := out_states c @ [ChannelSt chan']\<rparr>"
  using assms unfolding recv_packet_def received_def verified_commitment_def
  by (auto simp: handler_inversion order_case_Inr mk_identifier_Inr_iff get_current_height_def
      current_timestamp_def)

lemma guarded_if_Inr:
  "(if b then guardE g msg (Inr x) else Inr y) = Inr z \<longleftrightarrow> (b \<longrightarrow> g) \<and> z = (if b then x else y)"
  by (auto simp: guardE_Inr_iff)

lemma acknowledge_packet_Inr:
  assumes "acknowledge_packet E p a prf h c = Inr c'"
  shows "\<exists>chan chan'.
    select_channel (pkt_source_port p) (pkt_source_channel p) c = Inr chan \<and>
    acked p chan = Some chan' \<and>
    pkt_destination_port p = cc_port_id (ch_counterparty (chan_end chan)) \<and>
    pkt_destination_channel p = cc_channel_id (ch_counterparty (chan_end chan)) \<and>
    verified_ack E c chan h prf p a \<and>
    (\<forall>t \<in> set (out_states c). kind_of t \<noteq> KChannel) \<and>
    c' = c\<lparr>out_states := out_states c @ [ChannelSt chan']\<rparr>"
  using assms unfolding acknowledge_packet_def acked_def verified_ack_def
  by (cases "ch_ordering (chan_end (projr (get_input as_channel c))) = ORDER_ORDERED")
    (auto simp: handler_inversion mk_identifier_Inr_iff not_null_Inr_iff guarded_if_Inr)

end
