(* ===== verification/Ics20_Module.thy ===== *)
theory Ics20_Module
  imports Handler_Packet
begin

text \<open>
  The plain ICS-20 application (\<open>ics20/Module.kt\<close>, \<open>ics20/ModuleCallbacks.kt\<close>): sending tokens
  locks or burns them in the bank before the packet is sent; receiving unlocks or mints them,
  and a bank that refuses turns into an error acknowledgement; a failed transfer is refunded
  when its acknowledgement arrives. The JSON form of packet data and the packing of messages
  are library code in the record \<open>env\<close>. The lemmas reduce each callback to the change it makes
  to the bank.
\<close>

section \<open>Sending\<close>

text \<open>The packet that carries a transfer, over the channel it leaves by.\<close>

definition transfer_packet :: "env \<Rightarrow> msg_transfer \<Rightarrow> denom \<Rightarrow> ibc_channel \<Rightarrow> packet" where
  "transfer_packet E msg denom channel =
     \<lparr>pkt_sequence = next_sequence_send channel,
      pkt_source_port = mt_source_port msg,
      pkt_source_channel = mt_source_channel msg,
      pkt_destination_port = cc_port_id (ch_counterparty (chan_end channel)),
      pkt_destination_channel = cc_channel_id (ch_counterparty (chan_end channel)),
      pkt_data = env_print_packet_data E
        \<lparr>pd_denom = denom_to_string denom, pd_amount = mt_token_amount msg,
         pd_sender = mt_sender msg, pd_receiver = mt_receiver msg\<rparr>,
      pkt_timeout_height = mt_timeout_height msg,
      pkt_timeout_timestamp = mt_timeout_timestamp msg\<rparr>"

definition read_address :: "env \<Rightarrow> string \<Rightarrow> address outcome" where
  "read_address E s = address_from_bech32 (env_opaque_bytes E) (env_bech32_decode E) s"

text \<open>The denomination a transfer names, either directly or by its \<open>ibc/\<close> hash, and the debit of
  the sender: tokens of this chain are locked, vouchers are burnt.\<close>

definition transfer_denom :: "msg_transfer \<Rightarrow> bank \<Rightarrow> denom outcome" where
  "transfer_denom msg bank =
     (if path_has_prefixes (mt_token_denom msg) [''ibc'']
      then bank_resolve_denom (mt_token_denom msg) bank
      else Inr (denom_from_string (mt_token_denom msg)))"

definition debit_sender :: "bool \<Rightarrow> address \<Rightarrow> denom \<Rightarrow> int \<Rightarrow> bank \<Rightarrow> bank outcome" where
  "debit_sender source sender denom amount bank =
     (if source then bank_lock sender denom amount bank else bank_burn sender denom amount bank)"

definition ics20_create_outgoing_packet :: "env \<Rightarrow> public_key list \<Rightarrow> any \<Rightarrow> ctx \<Rightarrow> ctx outcome" where
  "ics20_create_outgoing_packet E signers any_msg c =
     bindE (env_unpack_transfer E any_msg) (\<lambda>msg.
     bindE (amount_from_string (mt_token_amount msg)) (\<lambda>amount.
     bindE (read_address E (mt_sender msg)) (\<lambda>sender.
     bindE (mk_identifier (mt_source_port msg)) (\<lambda>source_port.
     bindE (mk_identifier (mt_source_channel msg)) (\<lambda>source_channel.
     bindE (get_input as_bank c) (\<lambda>bank.
     bindE (transfer_denom msg bank) (\<lambda>denom.
     let source = \<not> denom_has_prefix denom source_port source_channel in
     bindE (debit_sender source sender denom amount bank) (\<lambda>bank'.
     bindE (add_output (BankState bank') c) (\<lambda>c.
     bindE (get_input as_channel c) (\<lambda>channel.
       send_packet E (transfer_packet E msg denom channel) c))))))))))"

section \<open>Receiving\<close>

definition success_ack :: acknowledgement where
  "success_ack = AckResult [1]"

text \<open>The body of either \<open>try\<close> block, and the handler that outputs the unchanged bank and the
  message of the exception.\<close>

definition credit_receiver :: "env \<Rightarrow> packet \<Rightarrow> denom \<Rightarrow> int \<Rightarrow> address \<Rightarrow> bool \<Rightarrow> bank \<Rightarrow> bank outcome" where
  "credit_receiver E p denom amount receiver source bank =
     (if source then
        bindE (denom_remove_prefix denom) (\<lambda>unprefixed.
          bank_unlock receiver unprefixed amount bank)
      else
        bindE (mk_identifier (pkt_destination_port p)) (\<lambda>port.
        bindE (mk_identifier (pkt_destination_channel p)) (\<lambda>chan.
          let prefixed = denom_add_path denom port chan in
          Inr (bank_mint receiver prefixed amount
                 (bank_record_denom (to_ibc_denom (env_sha256 E) (env_to_hex E)) prefixed bank)))))"

definition ics20_on_recv_packet :: "env \<Rightarrow> packet \<Rightarrow> ctx \<Rightarrow> (ctx \<times> acknowledgement) outcome" where
  "ics20_on_recv_packet E p c =
     bindE (env_parse_packet_data E (pkt_data p)) (\<lambda>data.
     let denom = denom_from_string (pd_denom data) in
     bindE (amount_from_string (pd_amount data)) (\<lambda>amount.
     bindE (read_address E (pd_receiver data)) (\<lambda>receiver.
     bindE (mk_identifier (pkt_source_port p)) (\<lambda>source_port.
     bindE (mk_identifier (pkt_source_channel p)) (\<lambda>source_channel.
     let source = denom_has_prefix denom source_port source_channel in
     bindE (get_input as_bank c) (\<lambda>bank.
       catch_illegal_argument
         (bindE (credit_receiver E p denom amount receiver source bank) (\<lambda>bank'.
          bindE (add_output (BankState bank') c) (\<lambda>c. Inr (c, success_ack))))
         (\<lambda>message.
            bindE (add_output (BankState bank) c) (\<lambda>c.
            bindE (not_null message) (\<lambda>text. Inr (c, AckError text))))))))))"

section \<open>Acknowledgement\<close>

definition ics20_refund_tokens :: "env \<Rightarrow> packet \<Rightarrow> ctx \<Rightarrow> ctx outcome" where
  "ics20_refund_tokens E p c =
     bindE (env_parse_packet_data E (pkt_data p)) (\<lambda>data.
     let denom = denom_from_string (pd_denom data) in
     bindE (amount_from_string (pd_amount data)) (\<lambda>amount.
     bindE (read_address E (pd_sender data)) (\<lambda>sender.
     bindE (mk_identifier (pkt_source_port p)) (\<lambda>source_port.
     bindE (mk_identifier (pkt_source_channel p)) (\<lambda>source_channel.
     let source = \<not> denom_has_prefix denom source_port source_channel in
     bindE (get_input as_bank c) (\<lambda>bank.
     if source then
       bindE (bank_unlock sender denom amount bank) (\<lambda>bank'. add_output (BankState bank') c)
     else add_output (BankState (bank_mint sender denom amount bank)) c))))))"

definition ics20_on_acknowledge_packet :: "env \<Rightarrow> packet \<Rightarrow> acknowledgement \<Rightarrow> ctx \<Rightarrow> ctx outcome" where
  "ics20_on_acknowledge_packet E p a c =
     (case a of
        AckResult r \<Rightarrow> bindE (get_input as_bank c) (\<lambda>bank. add_output (BankState bank) c)
      | AckError e \<Rightarrow> ics20_refund_tokens E p c
      | AckNotSet \<Rightarrow> Inl (IllegalArgument None))"

section \<open>Lemmas\<close>

lemma catch_illegal_argument_Inr:
  "catch_illegal_argument r handler = Inr x \<longleftrightarrow>
     r = Inr x \<or> (\<exists>msg. r = Inl (IllegalArgument msg) \<and> handler msg = Inr x)"
  by (cases "(r, handler)" rule: catch_illegal_argument.cases) auto

lemma credit_receiver_refusal:
  "credit_receiver E p denom amount receiver source bank = Inl e \<Longrightarrow>
     \<exists>msg. e = IllegalArgument (Some msg)"
  by (auto simp: credit_receiver_def bindE_Inl_iff denom_remove_prefix_def path_remove_prefix_def
      bank_unlock_def mk_identifier_def guardE_def Let_def
      dest!: balances_down_only_IllegalArgument split: if_splits)

text \<open>When the data is readable and the context has one bank, the callback succeeds: either the
  bank credits the receiver, or it is output unchanged under an error acknowledgement.\<close>

lemma ics20_on_recv_packet_eq:
  assumes "env_parse_packet_data E (pkt_data p) = Inr data"
    and "amount_from_string (pd_amount data) = Inr amount"
    and "read_address E (pd_receiver data) = Inr receiver"
    and "mk_identifier (pkt_source_port p) = Inr port" "mk_identifier (pkt_source_channel p) = Inr chan"
    and "get_input as_bank c = Inr bank" "\<forall>t \<in> set (out_states c). kind_of t \<noteq> KBank"
  defines "source \<equiv> denom_has_prefix (denom_from_string (pd_denom data)) port chan"
  shows "ics20_on_recv_packet E p c =
    Inr (case credit_receiver E p (denom_from_string (pd_denom data)) amount receiver source bank of
           Inr bank' \<Rightarrow> (c\<lparr>out_states := out_states c @ [BankState bank']\<rparr>, success_ack)
         | Inl e \<Rightarrow> (c\<lparr>out_states := out_states c @ [BankState bank]\<rparr>,
                     AckError (case e of IllegalArgument (Some msg) \<Rightarrow> msg | _ \<Rightarrow> [])))"
proof -
  have add: "add_output (BankState b) c = Inr (c\<lparr>out_states := out_states c @ [BankState b]\<rparr>)" for b
    using assms(7) by (auto simp: add_output_fresh is_ibc_state_def)
  show ?thesis
  proof (cases "credit_receiver E p (denom_from_string (pd_denom data)) amount receiver source bank")
    case (Inl e)
    with credit_receiver_refusal obtain msg where "e = IllegalArgument (Some msg)" by blast
    with Inl show ?thesis
      using assms(1-6) by (simp add: ics20_on_recv_packet_def source_def add)
  next
    case (Inr bank')
    then show ?thesis
      using assms(1-6) by (simp add: ics20_on_recv_packet_def source_def add)
  qed
qed

lemma get_input_output [simp]: "get_input sel (c\<lparr>out_states := os\<rparr>) = get_input sel c"
  by (simp add: get_input_def get_inputs_def)

lemma ics20_create_outgoing_packet_Inr:
  assumes "ics20_create_outgoing_packet E signers any_msg c = Inr c'"
  shows "\<exists>msg amount sender port chan bank denom bank' channel.
    env_unpack_transfer E any_msg = Inr msg \<and>
    amount_from_string (mt_token_amount msg) = Inr amount \<and>
    read_address E (mt_sender msg) = Inr sender \<and>
    mk_identifier (mt_source_port msg) = Inr port \<and>
    mk_identifier (mt_source_channel msg) = Inr chan \<and>
    get_input as_bank c = Inr bank \<and>
    transfer_denom msg bank = Inr denom \<and>
    debit_sender (\<not> denom_has_prefix denom port chan) sender denom amount bank = Inr bank' \<and>
    (\<forall>t \<in> set (out_states c). kind_of t \<noteq> KBank) \<and>
    get_input as_channel c = Inr channel \<and>
    send_packet E (transfer_packet E msg denom channel)
      (c\<lparr>out_states := out_states c @ [BankState bank']\<rparr>) = Inr c'"
  using assms unfolding ics20_create_outgoing_packet_def
  by (auto simp: bindE_Inr_iff add_output_fresh is_ibc_state_def Let_def
      simp del: mk_identifier_Inr_iff get_input_Inr)

end
