(* ===== verification/Ics20_Cash_Module.thy ===== *)
theory Ics20_Cash_Module
  imports Ics20_Module
begin

text \<open>
  The Cash-based ICS-20 application (\<open>ics20cash/Module.kt\<close>, \<open>ics20cash/ModuleCallbacks.kt\<close>):
  Corda Cash is locked by moving it to the owner of the \<open>CashBank\<close> and unlocked by moving it
  back; foreign tokens are vouchers, minted and burnt against the supply the bank records. The
  lemmas give the outputs of a receipt and of a refund; the refund of Cash outputs no bank.
\<close>

section \<open>Shared steps\<close>

text \<open>\<open>denom.issuerKey\<close> and \<open>denom.currency\<close>.\<close>

definition issuer_key_of :: "env \<Rightarrow> denom \<Rightarrow> bytes outcome" where
  "issuer_key_of E d = denom_issuer_key (env_from_hex E) (env_decode_key E) (env_currency_of E) d"

definition currency_of :: "env \<Rightarrow> denom \<Rightarrow> string outcome" where
  "currency_of E d = denom_currency (env_from_hex E) (env_decode_key E) (env_currency_of E) d"

definition public_key_of :: "env \<Rightarrow> address \<Rightarrow> public_key outcome" where
  "public_key_of E a = address_to_public_key (env_decode_key E) a"

text \<open>The single owner of the inputs and the sum of their amounts.\<close>

definition single_owner :: "party list \<Rightarrow> party outcome" where
  "single_owner owners = singleE (remdups owners)"

text \<open>The amount to move, checked with the sum of the Cash inputs against the denomination. The
  messages are those of the sender's side; the callbacks use the default text, and the receipt
  makes one check more (\<open>native_check\<close>).\<close>

definition check_cash ::
  "env \<Rightarrow> issued_currency corda_amount \<Rightarrow> denom \<Rightarrow> decimal outcome \<Rightarrow> unit outcome \<Rightarrow>
   string \<Rightarrow> string \<Rightarrow> string \<Rightarrow> issued_currency corda_amount outcome" where
  "check_cash E cash_sum denom decimal native_check issuer_msg currency_msg amount_msg =
     bindE decimal (\<lambda>d.
     bindE (ao_from_decimal (env_cash_ops E) d (token cash_sum)) (\<lambda>amount.
     bindE native_check (\<lambda>_.
     bindE (issuer_key_of E denom) (\<lambda>key.
     guardE (owning_key (issuer (token cash_sum)) = key) issuer_msg (
     bindE (currency_of E denom) (\<lambda>currency.
     guardE (product (token cash_sum) = currency) currency_msg (
     bindE (ao_compare (env_cash_ops E) cash_sum amount) (\<lambda>cmp.
     guardE (0 \<le> cmp) amount_msg (Inr amount)))))))))"

abbreviation default_message :: string where
  "default_message \<equiv> ''Failed requirement.''"

text \<open>Output the amount for the new owner and, when something is left, the change for the old.\<close>

definition pay_cash ::
  "env \<Rightarrow> issued_currency corda_amount \<Rightarrow> issued_currency corda_amount \<Rightarrow> party \<Rightarrow> party \<Rightarrow> ctx \<Rightarrow>
   ctx outcome" where
  "pay_cash E cash_sum amount new_owner old_owner c =
     bindE (add_output (CashState \<lparr>cash_amount = amount, cash_owner = new_owner\<rparr>) c) (\<lambda>c.
     bindE (ao_compare (env_cash_ops E) cash_sum amount) (\<lambda>cmp.
     if 0 < cmp then
       bindE (ao_minus (env_cash_ops E) cash_sum amount) (\<lambda>change.
         add_output (CashState \<lparr>cash_amount = change, cash_owner = old_owner\<rparr>) c)
     else Inr c))"

section \<open>Sending\<close>

definition lock_cash :: "env \<Rightarrow> msg_transfer \<Rightarrow> long \<Rightarrow> address \<Rightarrow> denom \<Rightarrow> cash_bank \<Rightarrow> ctx \<Rightarrow> ctx outcome" where
  "lock_cash E msg amount_long sender denom bank c =
     guardE (\<not> is_voucher denom) ''Vouchers cannot be transferred to yet another blockchain'' (
     let cashes = get_inputs as_cash c in
     bindE (single_owner (map cash_owner cashes)) (\<lambda>cash_owner1.
     bindE (public_key_of E sender) (\<lambda>key.
     guardE (owning_key cash_owner1 = key) ''A sender's cashes must be consumed'' (
     bindE (ao_sum (env_cash_ops E) (map cash_amount cashes)) (\<lambda>cash_sum.
     bindE (check_cash E cash_sum denom (Inr (sint amount_long, 0)) (Inr ())
              ''Issuers specified by Denom and Cash must be equal''
              ''Currencies specified by Denom and Cash must be equal''
              ''Cash amount must be greater than or equal to an amount to be transferred'') (\<lambda>amount.
     bindE (add_output (CashBankState bank) c) (\<lambda>c.
       pay_cash E cash_sum amount (cb_owner bank) cash_owner1 c)))))))"

definition burn_vouchers :: "env \<Rightarrow> long \<Rightarrow> address \<Rightarrow> denom \<Rightarrow> cash_bank \<Rightarrow> ctx \<Rightarrow> ctx outcome" where
  "burn_vouchers E amount_long sender denom bank c =
     (let vouchers = get_inputs as_voucher c; ops = env_voucher_ops E in
     bindE (single_owner (map voucher_owner vouchers)) (\<lambda>voucher_owner1.
     bindE (public_key_of E sender) (\<lambda>key.
     guardE (owning_key voucher_owner1 = key) ''A sender's vouchers must be consumed'' (
     bindE (ao_sum ops (map voucher_amount vouchers)) (\<lambda>voucher_sum.
     bindE (ao_from_decimal ops (sint amount_long, 0) (token voucher_sum)) (\<lambda>amount.
     guardE (token voucher_sum = denom)
       ''Denominations specified by Denom and Voucher must be equal'' (
     bindE (ao_compare ops voucher_sum amount) (\<lambda>cmp.
     guardE (0 \<le> cmp)
       ''Voucher amount must be greater than or equal to an amount to be transferred'' (
     bindE (cb_burn denom (amount_from_long amount_long) bank) (\<lambda>bank'.
     bindE (add_output (CashBankState bank') c) (\<lambda>c.
     bindE (ao_compare ops voucher_sum amount) (\<lambda>cmp.
     if 0 < cmp then
       bindE (ao_minus ops voucher_sum amount) (\<lambda>change.
         add_output (VoucherState \<lparr>voucher_base_id = cb_base_id bank, voucher_amount = change,
                                   voucher_owner = voucher_owner1\<rparr>) c)
     else Inr c))))))))))))"

definition debit_assets ::
  "env \<Rightarrow> msg_transfer \<Rightarrow> bool \<Rightarrow> long \<Rightarrow> address \<Rightarrow> denom \<Rightarrow> cash_bank \<Rightarrow> ctx \<Rightarrow> ctx outcome" where
  "debit_assets E msg source amount_long sender denom bank c =
     (if source then lock_cash E msg amount_long sender denom bank c
      else burn_vouchers E amount_long sender denom bank c)"

definition cash_transfer_denom :: "msg_transfer \<Rightarrow> cash_bank \<Rightarrow> denom outcome" where
  "cash_transfer_denom msg bank =
     (if path_has_prefixes (mt_token_denom msg) [''ibc'']
      then cb_resolve_denom (mt_token_denom msg) bank
      else Inr (denom_from_string (mt_token_denom msg)))"

definition ics20cash_create_outgoing_packet ::
  "env \<Rightarrow> public_key list \<Rightarrow> any \<Rightarrow> ctx \<Rightarrow> ctx outcome" where
  "ics20cash_create_outgoing_packet E signers any_msg c =
     bindE (env_unpack_transfer E any_msg) (\<lambda>msg.
     bindE (to_long (mt_token_amount msg)) (\<lambda>amount_long.
     bindE (read_address E (mt_sender msg)) (\<lambda>sender.
     bindE (mk_identifier (mt_source_port msg)) (\<lambda>source_port.
     bindE (mk_identifier (mt_source_channel msg)) (\<lambda>source_channel.
     bindE (get_input as_cash_bank c) (\<lambda>bank.
     bindE (cash_transfer_denom msg bank) (\<lambda>denom.
     let source = \<not> denom_has_prefix denom source_port source_channel in
     bindE (debit_assets E msg source amount_long sender denom bank c) (\<lambda>c.
     bindE (get_input as_channel c) (\<lambda>channel.
     bindE (send_packet E (transfer_packet E msg denom channel) c) (\<lambda>c.
     bindE (public_key_of E sender) (\<lambda>key.
     guardE (key \<in> set signers) ''A sender must sign on this tx'' (Inr c))))))))))))"

section \<open>Receiving\<close>

text \<open>Minting a voucher for an address, with the bank and the voucher as outputs.\<close>

definition mint_voucher :: "env \<Rightarrow> address \<Rightarrow> denom \<Rightarrow> string \<Rightarrow> cash_bank \<Rightarrow> ctx \<Rightarrow> ctx outcome" where
  "mint_voucher E owner denom amount_text bank c =
     bindE (amount_from_string amount_text) (\<lambda>amount.
     bindE (cb_mint (env_voucher_ops E) (env_decode_key E) owner denom amount bank) (\<lambda>(bank', voucher).
     bindE (add_output (CashBankState bank') c) (\<lambda>c.
       add_output (VoucherState voucher) c)))"

definition ics20cash_on_recv_packet :: "env \<Rightarrow> packet \<Rightarrow> ctx \<Rightarrow> (ctx \<times> acknowledgement) outcome" where
  "ics20cash_on_recv_packet E p c =
     bindE (env_parse_packet_data E (pkt_data p)) (\<lambda>data.
     let denom = denom_from_string (pd_denom data) in
     bindE (read_address E (pd_receiver data)) (\<lambda>receiver.
     bindE (get_input as_cash_bank c) (\<lambda>bank.
     bindE (mk_identifier (pkt_source_port p)) (\<lambda>source_port.
     bindE (mk_identifier (pkt_source_channel p)) (\<lambda>source_channel.
     bindE (if denom_has_prefix denom source_port source_channel then
              let cashes = get_inputs as_cash c in
              bindE (single_owner (map cash_owner cashes)) (\<lambda>cash_owner1.
              requireE (cash_owner1 = cb_owner bank) (
              bindE (ao_sum (env_cash_ops E) (map cash_amount cashes)) (\<lambda>cash_sum.
              bindE (denom_remove_prefix denom) (\<lambda>denom'.
              bindE (check_cash E cash_sum denom' (to_big_decimal (pd_amount data))
                       (requireE (\<not> is_voucher denom') (Inr ()))
                       default_message default_message default_message) (\<lambda>amount.
              bindE (add_output (CashBankState bank) c) (\<lambda>c.
              bindE (public_key_of E receiver) (\<lambda>key.
                pay_cash E cash_sum amount (Party key) (cb_owner bank) c)))))))
            else
              requireE (\<not> is_voucher denom) (
              bindE (mk_identifier (pkt_destination_port p)) (\<lambda>port.
              bindE (mk_identifier (pkt_destination_channel p)) (\<lambda>chan.
              let denom' = denom_add_path denom port chan in
              mint_voucher E receiver denom' (pd_amount data)
                (cb_record_denom (to_ibc_denom (env_sha256 E) (env_to_hex E)) denom' bank) c))))
       (\<lambda>c. Inr (c, success_ack)))))))"

section \<open>Acknowledgement\<close>

text \<open>The source branch outputs the refunded Cash but, unlike the receipt, not the bank.\<close>

definition ics20cash_refund_tokens :: "env \<Rightarrow> packet \<Rightarrow> ctx \<Rightarrow> ctx outcome" where
  "ics20cash_refund_tokens E p c =
     bindE (env_parse_packet_data E (pkt_data p)) (\<lambda>data.
     let denom = denom_from_string (pd_denom data) in
     bindE (read_address E (pd_sender data)) (\<lambda>sender.
     bindE (get_input as_cash_bank c) (\<lambda>bank.
     bindE (mk_identifier (pkt_source_port p)) (\<lambda>source_port.
     bindE (mk_identifier (pkt_source_channel p)) (\<lambda>source_channel.
     let source = \<not> denom_has_prefix denom source_port source_channel in
     if source then
       requireE (\<not> is_voucher denom) (
       let cashes = get_inputs as_cash c in
       bindE (single_owner (map cash_owner cashes)) (\<lambda>cash_owner1.
       requireE (cash_owner1 = cb_owner bank) (
       bindE (ao_sum (env_cash_ops E) (map cash_amount cashes)) (\<lambda>cash_sum.
       bindE (check_cash E cash_sum denom (to_big_decimal (pd_amount data)) (Inr ())
                default_message default_message default_message) (\<lambda>amount.
       bindE (public_key_of E sender) (\<lambda>key.
         pay_cash E cash_sum amount (Party key) (cb_owner bank) c))))))
     else
       requireE (is_voucher denom)
         (mint_voucher E sender denom (pd_amount data) bank c))))))"

definition ics20cash_on_acknowledge_packet ::
  "env \<Rightarrow> packet \<Rightarrow> acknowledgement \<Rightarrow> ctx \<Rightarrow> ctx outcome" where
  "ics20cash_on_acknowledge_packet E p a c =
     (case a of
        AckResult r \<Rightarrow> bindE (get_input as_cash_bank c) (\<lambda>bank. add_output (CashBankState bank) c)
      | AckError e \<Rightarrow> ics20cash_refund_tokens E p c
      | AckNotSet \<Rightarrow> Inl (IllegalArgument None))"

section \<open>Lemmas\<close>

lemma pay_cash_outputs:
  assumes "pay_cash E cash_sum amount new_owner old_owner c = Inr c'"
  shows "in_states c' = in_states c \<and> ref_states c' = ref_states c \<and>
    set (out_states c) \<subseteq> set (out_states c') \<and>
    CashState \<lparr>cash_amount = amount, cash_owner = new_owner\<rparr> \<in> set (out_states c') \<and>
    (\<forall>s \<in> set (out_states c') - set (out_states c). kind_of s = KCash)"
  using assms
  by (auto simp: pay_cash_def bindE_Inr_iff add_output_Inr is_ibc_state_def split: if_splits)

lemma mint_voucher_Inr:
  assumes "mint_voucher E owner denom amount_text bank c = Inr c'"
  shows "\<exists>amount bank' voucher. amount_from_string amount_text = Inr amount \<and>
    cb_mint (env_voucher_ops E) (env_decode_key E) owner denom amount bank = Inr (bank', voucher) \<and>
    c' = c\<lparr>out_states := out_states c @ [CashBankState bank', VoucherState voucher]\<rparr>"
  using assms
  by (auto simp: mint_voucher_def bindE_Inr_iff add_output_fresh is_ibc_state_def)

text \<open>Refunding Cash of this chain adds only Cash states to the outputs, so an input bank has no
  successor among them.\<close>

lemma refund_cash_outputs:
  assumes "ics20cash_refund_tokens E p c = Inr c'" "env_parse_packet_data E (pkt_data p) = Inr data"
    and "mk_identifier (pkt_source_port p) = Inr port" "mk_identifier (pkt_source_channel p) = Inr chan"
    and "\<not> denom_has_prefix (denom_from_string (pd_denom data)) port chan"
  shows "\<forall>s \<in> set (out_states c') - set (out_states c). kind_of s = KCash"
proof -
  obtain cash_sum amount new_owner old_owner where
    "pay_cash E cash_sum amount new_owner old_owner c = Inr c'"
    using assms unfolding ics20cash_refund_tokens_def
    by (auto simp: bindE_Inr_iff guardE_Inr_iff Let_def simp del: mk_identifier_Inr_iff)
  then show ?thesis using pay_cash_outputs by blast
qed

end
