(* ===== verification/Machines.thy ===== *)
theory Machines
  imports Prelude
begin

text \<open>
  Runs of a step relation labelled with messages, and the interface of a machine whose states
  carry a rank that no step lowers and that only bookkeeping steps keep. Connections and
  channels provide it with the order of their handshake states. \<open>counted\<close> is the shape of the
  sequence numbers 1, 2, 3, ... a channel hands out.
\<close>

section \<open>Runs\<close>

inductive run :: "('m \<Rightarrow> 's \<Rightarrow> 's \<Rightarrow> bool) \<Rightarrow> 'm list \<Rightarrow> 's \<Rightarrow> 's \<Rightarrow> bool"
  for step :: "'m \<Rightarrow> 's \<Rightarrow> 's \<Rightarrow> bool"
where
  run_start: "run step [] s s"
| run_snoc: "run step ms s s1 \<Longrightarrow> step m s1 s2 \<Longrightarrow> run step (ms @ [m]) s s2"

inductive_cases run_NilE: "run step [] s s'"
inductive_cases run_snocE: "run step (ms @ [m]) s s'"

inductive_simps run_Nil [simp]: "run step [] s s'"

lemma run_snoc_iff: "run step (ms @ [m]) s s2 \<longleftrightarrow> (\<exists>s1. run step ms s s1 \<and> step m s1 s2)"
  by (auto elim: run_snocE intro: run_snoc)

lemma run_append: "run step (ms @ ns) s s2 \<longleftrightarrow> (\<exists>s1. run step ms s s1 \<and> run step ns s1 s2)"
proof (induction ns arbitrary: s2 rule: rev_induct)
  case Nil
  show ?case by simp
next
  case (snoc n ns)
  show ?case
    using snoc.IH by (simp add: append_assoc [symmetric] run_snoc_iff del: append_assoc) blast
qed

lemma run_single [simp]: "run step [m] s s' \<longleftrightarrow> step m s s'"
  using run_snoc_iff [of step "[]" m s s'] by simp

lemma run_invariant:
  assumes "run step ms s s'" "P s" "\<And>m s1 s2. step m s1 s2 \<Longrightarrow> P s1 \<Longrightarrow> P s2"
  shows "P s'"
  using assms by (induction) blast+

section \<open>Ranked machines\<close>

locale ranked_machine =
  fixes step :: "'m \<Rightarrow> 's \<Rightarrow> 's \<Rightarrow> bool"
    and rank :: "'s \<Rightarrow> nat"
    and advances :: "'m \<Rightarrow> bool"
  assumes rank_step: "step m s s' \<Longrightarrow> if advances m then rank s < rank s' else rank s = rank s'"
begin

lemma rank_step_le: "step m s s' \<Longrightarrow> rank s \<le> rank s'"
  using rank_step [of m s s'] by (simp split: if_splits)

lemma run_rank: "run step ms s s' \<Longrightarrow> rank s + length (filter advances ms) \<le> rank s'"
proof (induction rule: run.induct)
  case (run_snoc ms s s1 m s2)
  with rank_step [OF run_snoc.hyps(2)] show ?case by (simp split: if_splits)
qed simp

lemma run_rank_le: "run step ms s s' \<Longrightarrow> rank s \<le> rank s'"
  using run_rank by fastforce

text \<open>A handshake ends: a run has at most as many advancing messages as there are ranks.\<close>

lemma advancing_bounded:
  "run step ms s s' \<Longrightarrow> rank s' \<le> n \<Longrightarrow> length (filter advances ms) \<le> n - rank s"
  using run_rank by fastforce

end

section \<open>Consecutive numbers\<close>

definition counted :: "long list \<Rightarrow> bool" where
  "counted ns \<longleftrightarrow> ns = map of_nat [1..<Suc (length ns)]"

lemma counted_Nil [simp]: "counted []"
  by (simp add: counted_def)

lemma counted_snoc: "counted (ns @ [n]) \<longleftrightarrow> counted ns \<and> n = of_nat (Suc (length ns))"
  by (auto simp: counted_def)

lemma counted_distinct:
  assumes "counted ns" "length ns < 2 ^ 64"
  shows "distinct ns"
proof -
  have "inj_on (of_nat :: nat \<Rightarrow> long) {1..<Suc (length ns)}"
  proof (rule inj_onI)
    fix i j :: nat
    assume "i \<in> {1..<Suc (length ns)}" "j \<in> {1..<Suc (length ns)}" "(of_nat i :: long) = of_nat j"
    with assms(2) show "i = j"
      by (auto dest!: arg_cong [of _ _ unat] simp: unat_of_nat)
  qed
  then have "distinct (map (of_nat :: nat \<Rightarrow> long) [1..<Suc (length ns)])"
    by (simp add: distinct_map del: upt_Suc)
  with assms(1) show ?thesis by (simp add: counted_def)
qed

end
