(* ===== verification/Channel_Machine.thy ===== *)
theory Channel_Machine
  imports Handler_Packet Machines
begin

text \<open>
  The life of one channel. \<open>chan_step E m chan chan'\<close> holds when some context exists in which
  the handler of message \<open>m\<close> succeeds, consumes \<open>chan\<close> and outputs \<open>chan'\<close>; a run is the history of
  the channel on the ledger, from the state that created it. The lemmas reduce a step to the
  update of the channel, interpret \<open>ranked_machine\<close>, and carry the invariants: what the
  sequence counters, the receipts, the acknowledgements and the stored packets say about the
  messages of the run.
\<close>

section \<open>Steps\<close>

datatype chan_msg =
    ChanTry msg_chan_open_try
  | ChanAck msg_chan_open_ack
  | ChanConfirm msg_chan_open_confirm
  | ChanCloseInit msg_chan_close_init
  | ChanCloseConfirm msg_chan_close_confirm
  | SendPacket packet
  | RecvPacket packet bytes height acknowledgement
  | AckPacket packet acknowledgement bytes height

fun handle_channel :: "env \<Rightarrow> chan_msg \<Rightarrow> ctx \<Rightarrow> ctx outcome" where
  "handle_channel E (ChanTry msg) = chan_open_try E msg"
| "handle_channel E (ChanAck msg) = chan_open_ack E msg"
| "handle_channel E (ChanConfirm msg) = chan_open_confirm E msg"
| "handle_channel E (ChanCloseInit msg) = chan_close_init msg"
| "handle_channel E (ChanCloseConfirm msg) = chan_close_confirm E msg"
| "handle_channel E (SendPacket p) = send_packet E p"
| "handle_channel E (RecvPacket p prf h a) = recv_packet E p prf h a"
| "handle_channel E (AckPacket p a prf h) = acknowledge_packet E p a prf h"

text \<open>\<open>chanOpenTry\<close> without a previous channel makes a new channel; it is not a step of one.\<close>

fun continues :: "chan_msg \<Rightarrow> bool" where
  "continues (ChanTry msg) = (hot_previous_channel_id msg \<noteq> [])"
| "continues _ = True"

inductive chan_step :: "env \<Rightarrow> chan_msg \<Rightarrow> ibc_channel \<Rightarrow> ibc_channel \<Rightarrow> bool" for E :: env where
  chan_stepI: "handle_channel E m c = Inr c' \<Longrightarrow> continues m \<Longrightarrow> get_input as_channel c = Inr chan \<Longrightarrow>
    ChannelSt chan' \<in> set (out_states c') \<Longrightarrow> ChannelSt chan' \<notin> set (out_states c) \<Longrightarrow>
    chan_step E m chan chan'"

inductive_cases chan_stepE: "chan_step E m chan chan'"

text \<open>The states a handler outputs for a channel that did not exist before.\<close>

inductive chan_created :: "env \<Rightarrow> ibc_channel \<Rightarrow> bool" for E :: env where
  created_by_init: "chan_open_init msg c = Inr c' \<Longrightarrow>
    ChannelSt chan \<in> set (out_states c') \<Longrightarrow> ChannelSt chan \<notin> set (out_states c) \<Longrightarrow>
    chan_created E chan"
| created_by_try: "chan_open_try E msg c = Inr c' \<Longrightarrow> hot_previous_channel_id msg = [] \<Longrightarrow>
    ChannelSt chan \<in> set (out_states c') \<Longrightarrow> ChannelSt chan \<notin> set (out_states c) \<Longrightarrow>
    chan_created E chan"

section \<open>Effect of a step\<close>

lemma chan_step_ChanTry:
  assumes "chan_step E (ChanTry msg) chan chan'"
  shows "\<exists>host port. mk_identifier (hot_port_id msg) = Inr port \<and>
    ch_state (chan_end chan) = CHAN_INIT \<and>
    ch_ordering (chan_end chan) = ch_ordering (hot_channel msg) \<and>
    chan' = tried_channel msg host port (chan_id chan) (Some chan)"
  using assms
proof (rule chan_stepE)
  fix c c'
  assume step: "handle_channel E (ChanTry msg) c = Inr c'" "continues (ChanTry msg)"
    "get_input as_channel c = Inr chan" "ChannelSt chan' \<in> set (out_states c')"
    "ChannelSt chan' \<notin> set (out_states c)"
  from step(1) obtain host conn client next_host i previous port where
    tried: "chan_try_previous msg host c = Inr (next_host, i, previous)"
      "mk_identifier (hot_port_id msg) = Inr port"
      "c' = c\<lparr>out_states := out_states c @
         [HostState next_host, ChannelSt (tried_channel msg host port i previous)]\<rparr>"
    using chan_open_try_Inr [of E msg c c'] by auto
  with chan_try_previous_Inr [OF tried(1)] step show ?thesis by auto
qed

lemma chan_step_ChanAck:
  assumes "chan_step E (ChanAck msg) chan chan'"
  shows "ch_state (chan_end chan) \<in> {CHAN_INIT, CHAN_TRYOPEN} \<and>
    chan' = chan\<lparr>chan_end := (chan_end chan)\<lparr>
           ch_state := CHAN_OPEN, ch_version := hoa_counterparty_version msg,
           ch_counterparty := (ch_counterparty (chan_end chan))
             \<lparr>cc_channel_id := hoa_counterparty_channel_id msg\<rparr>\<rparr>\<rparr>"
  using assms by (auto elim!: chan_stepE simp: select_channel_Inr dest!: chan_open_ack_Inr)

lemma chan_step_ChanConfirm:
  "chan_step E (ChanConfirm msg) chan chan' \<Longrightarrow>
     ch_state (chan_end chan) = CHAN_TRYOPEN \<and>
     chan' = chan\<lparr>chan_end := (chan_end chan)\<lparr>ch_state := CHAN_OPEN\<rparr>\<rparr>"
  by (auto elim!: chan_stepE simp: select_channel_Inr dest!: chan_open_confirm_Inr)

lemma chan_step_ChanCloseInit:
  "chan_step E (ChanCloseInit msg) chan chan' \<Longrightarrow>
     ch_state (chan_end chan) \<noteq> CHAN_CLOSED \<and>
     chan' = chan\<lparr>chan_end := (chan_end chan)\<lparr>ch_state := CHAN_CLOSED\<rparr>\<rparr>"
  by (auto elim!: chan_stepE simp: select_channel_Inr dest!: chan_close_init_Inr)

lemma chan_step_ChanCloseConfirm:
  "chan_step E (ChanCloseConfirm msg) chan chan' \<Longrightarrow>
     ch_state (chan_end chan) \<noteq> CHAN_CLOSED \<and>
     chan' = chan\<lparr>chan_end := (chan_end chan)\<lparr>ch_state := CHAN_CLOSED\<rparr>\<rparr>"
  by (auto elim!: chan_stepE simp: select_channel_Inr dest!: chan_close_confirm_Inr)

lemma chan_step_SendPacket:
  "chan_step E (SendPacket p) chan chan' \<Longrightarrow> sent p chan = Some chan'"
  by (auto elim!: chan_stepE simp: select_channel_Inr dest!: send_packet_Inr)

lemma chan_step_RecvPacket:
  "chan_step E (RecvPacket p prf h a) chan chan' \<Longrightarrow> received p a chan = Some chan'"
  by (auto elim!: chan_stepE simp: select_channel_Inr dest!: recv_packet_Inr)

lemma chan_step_AckPacket:
  "chan_step E (AckPacket p a prf h) chan chan' \<Longrightarrow> acked p chan = Some chan'"
  by (auto elim!: chan_stepE simp: select_channel_Inr dest!: acknowledge_packet_Inr)

lemmas chan_step_effects = chan_step_ChanTry chan_step_ChanAck chan_step_ChanConfirm
  chan_step_ChanCloseInit chan_step_ChanCloseConfirm chan_step_SendPacket chan_step_RecvPacket
  chan_step_AckPacket

lemma sent_Some: "sent p chan = Some chan' \<longleftrightarrow>
    ch_state (chan_end chan) \<noteq> CHAN_CLOSED \<and> pkt_sequence p = next_sequence_send chan \<and>
    chan' = chan\<lparr>next_sequence_send := next_sequence_send chan + 1,
                 packets := (packets chan)(pkt_sequence p \<mapsto> p)\<rparr>"
  by (auto simp: sent_def)

lemma received_Some: "received p a chan = Some chan' \<longleftrightarrow>
    ch_state (chan_end chan) = CHAN_OPEN \<and>
    (ch_ordering (chan_end chan) = ORDER_UNORDERED \<and> pkt_sequence p \<notin> receipts chan \<and>
     chan' = chan\<lparr>acknowledgements := (acknowledgements chan)(pkt_sequence p \<mapsto> a),
                  receipts := insert (pkt_sequence p) (receipts chan)\<rparr> \<or>
     ch_ordering (chan_end chan) = ORDER_ORDERED \<and> pkt_sequence p = next_sequence_recv chan \<and>
     chan' = chan\<lparr>acknowledgements := (acknowledgements chan)(pkt_sequence p \<mapsto> a),
                  next_sequence_recv := next_sequence_recv chan + 1\<rparr>)"
  by (auto simp: received_def Let_def)

lemma acked_Some: "acked p chan = Some chan' \<longleftrightarrow>
    ch_state (chan_end chan) = CHAN_OPEN \<and> packets chan (pkt_sequence p) = Some p \<and>
    (ch_ordering (chan_end chan) = ORDER_ORDERED \<longrightarrow> pkt_sequence p = next_sequence_ack chan) \<and>
    chan' = chan\<lparr>packets := (packets chan)(pkt_sequence p := None),
                 next_sequence_ack :=
                   (if ch_ordering (chan_end chan) = ORDER_ORDERED
                    then next_sequence_ack chan + 1 else next_sequence_ack chan)\<rparr>"
  by (auto simp: acked_def)

lemmas update_Some = sent_Some received_Some acked_Some

section \<open>The handshake order\<close>

fun chan_state_rank :: "chan_state \<Rightarrow> nat" where
  "chan_state_rank CHAN_UNINITIALIZED = 0"
| "chan_state_rank CHAN_INIT = 1"
| "chan_state_rank CHAN_TRYOPEN = 2"
| "chan_state_rank CHAN_OPEN = 3"
| "chan_state_rank CHAN_CLOSED = 4"

definition chan_rank :: "ibc_channel \<Rightarrow> nat" where
  "chan_rank chan = chan_state_rank (ch_state (chan_end chan))"

fun chan_advances :: "chan_msg \<Rightarrow> bool" where
  "chan_advances (SendPacket p) = False"
| "chan_advances (RecvPacket p prf h a) = False"
| "chan_advances (AckPacket p a prf h) = False"
| "chan_advances _ = True"

lemma chan_rank_le: "chan_rank chan \<le> 4"
  by (cases "ch_state (chan_end chan)") (simp_all add: chan_rank_def)

lemma chan_rank_less: "ch_state (chan_end chan) \<noteq> CHAN_CLOSED \<Longrightarrow> chan_rank chan < 4"
  by (cases "ch_state (chan_end chan)") (simp_all add: chan_rank_def)

lemma tried_channel_simps [simp]:
  "ch_state (chan_end (tried_channel msg host port i previous)) = CHAN_TRYOPEN"
  "ch_ordering (chan_end (tried_channel msg host port i previous)) = ch_ordering (hot_channel msg)"
  "chan_id (tried_channel msg host port i previous) = i"
  "chan_port_id (tried_channel msg host port i previous) = port"
  "packets (tried_channel msg host port i previous) = Map.empty"
  "receipts (tried_channel msg host port i previous) = {}"
  "acknowledgements (tried_channel msg host port i previous) = Map.empty"
  "next_sequence_send (tried_channel msg host port i (Some p)) = next_sequence_send p"
  "next_sequence_recv (tried_channel msg host port i (Some p)) = next_sequence_recv p"
  "next_sequence_ack (tried_channel msg host port i (Some p)) = next_sequence_ack p"
  "next_sequence_send (tried_channel msg host port i None) = 1"
  "next_sequence_recv (tried_channel msg host port i None) = 1"
  "next_sequence_ack (tried_channel msg host port i None) = 1"
  by (simp_all add: tried_channel_def mk_ibc_channel_def Let_def split: option.split)

interpretation channel_machine: ranked_machine "chan_step E" chan_rank chan_advances
proof
  fix m chan chan'
  assume step: "chan_step E m chan chan'"
  show "if chan_advances m then chan_rank chan < chan_rank chan' else chan_rank chan = chan_rank chan'"
    using step
    by (cases m)
      (auto simp: chan_rank_def update_Some chan_rank_less [unfolded chan_rank_def]
        dest!: chan_step_effects)
qed

end
