(* ===== verification/Connection_Machine.thy ===== *)
theory Connection_Machine
  imports Handler_Connection Machines
begin

text \<open>
  The life of one connection, in the same form as that of a channel: \<open>conn_step\<close> relates the
  connection a successful handler consumes to the one it outputs, \<open>conn_created\<close> describes new
  connections. Every step advances the handshake, so \<open>OPEN\<close> is final and a connection makes at
  most two steps; the negotiated version is single once the connection left \<open>INIT\<close>.
\<close>

datatype conn_msg =
    ConnTry msg_conn_open_try
  | ConnAck msg_conn_open_ack
  | ConnConfirm msg_conn_open_confirm

fun handle_connection :: "env \<Rightarrow> conn_msg \<Rightarrow> ctx \<Rightarrow> ctx outcome" where
  "handle_connection E (ConnTry msg) = conn_open_try E msg"
| "handle_connection E (ConnAck msg) = conn_open_ack E msg"
| "handle_connection E (ConnConfirm msg) = conn_open_confirm E msg"

fun conn_continues :: "conn_msg \<Rightarrow> bool" where
  "conn_continues (ConnTry msg) = (cot_previous_connection_id msg \<noteq> [])"
| "conn_continues _ = True"

inductive conn_step :: "env \<Rightarrow> conn_msg \<Rightarrow> ibc_connection \<Rightarrow> ibc_connection \<Rightarrow> bool" for E :: env where
  conn_stepI: "handle_connection E m c = Inr c' \<Longrightarrow> conn_continues m \<Longrightarrow>
    get_input as_connection c = Inr conn \<Longrightarrow>
    ConnectionSt conn' \<in> set (out_states c') \<Longrightarrow> ConnectionSt conn' \<notin> set (out_states c) \<Longrightarrow>
    conn_step E m conn conn'"

inductive_cases conn_stepE: "conn_step E m conn conn'"

inductive conn_created :: "env \<Rightarrow> ibc_connection \<Rightarrow> bool" for E :: env where
  conn_created_by_init: "conn_open_init msg c = Inr c' \<Longrightarrow>
    ConnectionSt conn \<in> set (out_states c') \<Longrightarrow> ConnectionSt conn \<notin> set (out_states c) \<Longrightarrow>
    conn_created E conn"
| conn_created_by_try: "conn_open_try E msg c = Inr c' \<Longrightarrow> cot_previous_connection_id msg = [] \<Longrightarrow>
    ConnectionSt conn \<in> set (out_states c') \<Longrightarrow> ConnectionSt conn \<notin> set (out_states c) \<Longrightarrow>
    conn_created E conn"

section \<open>Effect of a step\<close>

lemma pick_version_member:
  "pick_version vs ws = Inr v \<Longrightarrow> v \<in> set vs \<and> v \<in> set ws"
proof -
  assume "pick_version vs ws = Inr v"
  then obtain ys where "filter (\<lambda>v. v \<in> set ws) vs = v # ys"
    by (auto simp: pick_version_def firstE_Inr_iff)
  then have "v \<in> set (filter (\<lambda>v. v \<in> set ws) vs)" by simp
  then show ?thesis by simp
qed

lemma conn_open_try_output:
  assumes "conn_open_try E msg c = Inr c'" "ConnectionSt conn \<in> set (out_states c')"
    "ConnectionSt conn \<notin> set (out_states c)"
  shows "\<exists>host next_host versions v. conn_try_previous msg host c = Inr (next_host, conn_id conn, versions) \<and>
    v \<in> set (if versions = [] then [corda_VERSION] else versions) \<and>
    v \<in> set (cot_counterparty_versions msg) \<and>
    conn = mk_ibc_connection host (conn_id conn)
             \<lparr>ce_client_id = cot_client_id msg, ce_versions = [v], ce_state = CONN_TRYOPEN,
              ce_counterparty = cot_counterparty msg,
              ce_delay_period = cot_delay_period msg\<rparr>"
proof -
  from conn_open_try_Inr [OF assms(1)] obtain host next_host i versions v where
    try1: "conn_try_previous msg host c = Inr (next_host, i, versions)"
      "pick_version (if versions = [] then get_compatible_versions host else versions)
         (cot_counterparty_versions msg) = Inr v"
    and "c' = c\<lparr>out_states := out_states c @
           [HostState next_host, ConnectionSt (mk_ibc_connection host i
             \<lparr>ce_client_id = cot_client_id msg, ce_versions = [v], ce_state = CONN_TRYOPEN,
              ce_counterparty = cot_counterparty msg,
              ce_delay_period = cot_delay_period msg\<rparr>)]\<rparr>"
    by blast
  with assms(2,3) have "conn = mk_ibc_connection host i
             \<lparr>ce_client_id = cot_client_id msg, ce_versions = [v], ce_state = CONN_TRYOPEN,
              ce_counterparty = cot_counterparty msg,
              ce_delay_period = cot_delay_period msg\<rparr>"
    by auto
  then show ?thesis
    using try1(1) pick_version_member [OF try1(2)]
    by - (rule exI [of _ host], rule exI [of _ next_host], rule exI [of _ versions],
        rule exI [of _ v],
        simp add: mk_ibc_connection_def get_compatible_versions_def split: if_split_asm)
qed

lemma conn_step_ConnTry:
  assumes "conn_step E (ConnTry msg) conn conn'"
  shows "ce_state (conn_end conn) = CONN_INIT \<and> ce_state (conn_end conn') = CONN_TRYOPEN \<and>
    conn_id conn' = conn_id conn \<and>
    ce_client_id (conn_end conn') = ce_client_id (conn_end conn) \<and>
    ce_delay_period (conn_end conn') = ce_delay_period (conn_end conn) \<and>
    (\<exists>v. ce_versions (conn_end conn') = [v] \<and>
       v \<in> set (if ce_versions (conn_end conn) = [] then [corda_VERSION]
                else ce_versions (conn_end conn)))"
  using assms
proof (rule conn_stepE)
  fix c c'
  assume step: "handle_connection E (ConnTry msg) c = Inr c'" "conn_continues (ConnTry msg)"
    "get_input as_connection c = Inr conn" "ConnectionSt conn' \<in> set (out_states c')"
    "ConnectionSt conn' \<notin> set (out_states c)"
  from step(1,4,5) obtain host next_host versions v where
    out: "conn_try_previous msg host c = Inr (next_host, conn_id conn', versions)"
      "v \<in> set (if versions = [] then [corda_VERSION] else versions)"
      "conn' = mk_ibc_connection host (conn_id conn')
             \<lparr>ce_client_id = cot_client_id msg, ce_versions = [v], ce_state = CONN_TRYOPEN,
              ce_counterparty = cot_counterparty msg,
              ce_delay_period = cot_delay_period msg\<rparr>"
    using conn_open_try_output [of E msg c c' conn'] by auto
  have "ce_state (conn_end conn') = CONN_TRYOPEN" "ce_versions (conn_end conn') = [v]"
    "ce_client_id (conn_end conn') = cot_client_id msg"
    "ce_delay_period (conn_end conn') = cot_delay_period msg"
    by (subst out(3), simp add: mk_ibc_connection_def)+
  with conn_try_previous_Inr [OF out(1)] step(2,3) out(2) show ?thesis
    by auto
qed

lemma conn_step_ConnAck:
  assumes "conn_step E (ConnAck msg) conn conn'"
  shows "(ce_state (conn_end conn) = CONN_INIT \<and> coa_version msg = corda_VERSION \<or>
     ce_state (conn_end conn) = CONN_TRYOPEN \<and> ce_versions (conn_end conn) = [coa_version msg]) \<and>
    conn' = conn\<lparr>conn_end := (conn_end conn)\<lparr>
           ce_state := CONN_OPEN, ce_versions := [coa_version msg],
           ce_counterparty := (ce_counterparty (conn_end conn))
             \<lparr>cp_connection_id := coa_counterparty_connection_id msg\<rparr>\<rparr>\<rparr>"
  using assms by (fastforce elim!: conn_stepE dest!: conn_open_ack_Inr)

lemma conn_step_ConnConfirm:
  "conn_step E (ConnConfirm msg) conn conn' \<Longrightarrow>
     ce_state (conn_end conn) = CONN_TRYOPEN \<and>
     conn' = conn\<lparr>conn_end := (conn_end conn)\<lparr>ce_state := CONN_OPEN\<rparr>\<rparr>"
  by (fastforce elim!: conn_stepE dest!: conn_open_confirm_Inr)

lemmas conn_step_effects = conn_step_ConnTry conn_step_ConnAck conn_step_ConnConfirm

section \<open>The handshake order\<close>

fun conn_state_rank :: "conn_state \<Rightarrow> nat" where
  "conn_state_rank CONN_UNINITIALIZED = 0"
| "conn_state_rank CONN_INIT = 1"
| "conn_state_rank CONN_TRYOPEN = 2"
| "conn_state_rank CONN_OPEN = 3"

definition conn_rank :: "ibc_connection \<Rightarrow> nat" where
  "conn_rank conn = conn_state_rank (ce_state (conn_end conn))"

lemma conn_rank_le: "conn_rank conn \<le> 3"
  by (cases "ce_state (conn_end conn)") (simp_all add: conn_rank_def)

interpretation connection_machine: ranked_machine "conn_step E" conn_rank "\<lambda>m. True"
proof
  fix m conn conn'
  assume "conn_step E m conn conn'"
  then show "if True then conn_rank conn < conn_rank conn' else conn_rank conn = conn_rank conn'"
    by (cases m) (auto simp: conn_rank_def dest!: conn_step_effects)
qed

section \<open>New connections and the negotiated version\<close>

lemma conn_created_fresh:
  assumes "conn_created E conn"
  shows "ce_state (conn_end conn) \<in> {CONN_INIT, CONN_TRYOPEN} \<and> ce_versions (conn_end conn) = [corda_VERSION]"
  using assms
proof cases
  case (conn_created_by_init msg c c')
  then show ?thesis by (auto simp: mk_ibc_connection_def dest!: conn_open_init_Inr)
next
  case (conn_created_by_try msg c c')
  from conn_open_try_output [OF conn_created_by_try(1,3,4)]
  obtain host next_host versions v where
    out: "conn_try_previous msg host c = Inr (next_host, conn_id conn, versions)"
      "v \<in> set (if versions = [] then [corda_VERSION] else versions)"
      "conn = mk_ibc_connection host (conn_id conn)
             \<lparr>ce_client_id = cot_client_id msg, ce_versions = [v], ce_state = CONN_TRYOPEN,
              ce_counterparty = cot_counterparty msg,
              ce_delay_period = cot_delay_period msg\<rparr>"
    by blast
  have "ce_state (conn_end conn) = CONN_TRYOPEN" "ce_versions (conn_end conn) = [v]"
    by (subst out(3), simp add: mk_ibc_connection_def)+
  with conn_try_previous_Inr [OF out(1)] conn_created_by_try(2) out(2) show ?thesis by auto
qed

lemma conn_step_version:
  "conn_step E m conn conn' \<Longrightarrow> ce_versions (conn_end conn) = [corda_VERSION] \<Longrightarrow>
     ce_versions (conn_end conn') = [corda_VERSION]"
  by (cases m) (auto dest!: conn_step_effects)

lemma conn_run_version:
  assumes "conn_created E conn0" "run (conn_step E) ms conn0 conn"
  shows "ce_versions (conn_end conn) = [corda_VERSION]"
  using run_invariant [OF assms(2), of "\<lambda>conn. ce_versions (conn_end conn) = [corda_VERSION]"]
    conn_step_version conn_created_fresh [OF assms(1)] by blast

end
