(* ===== verification/Datagram_Handlers.thy ===== *)
theory Datagram_Handlers
  imports Ics20_Cash_Module Channel_Machine Connection_Machine
begin

text \<open>
  ICS-26 (\<open>ics26/*.kt\<close>): the application modules behind their common interface and the
  datagram handlers, one per command of the contract. Most handlers call the function of
  \<open>ics25/Handler.kt\<close> with their message; the two packet handlers first run the callback of the
  module bound to the packet's destination port, and \<open>CreateOutgoingPacket\<close> hands the message to
  the module bound to the channel's port. The lemmas show that no module touches channels, so
  that a successful datagram of a channel is one step of the channel machine.
\<close>

section \<open>Modules\<close>

text \<open>The callbacks of the handshake and of timeouts. No handler calls them; the default
  implementation throws, and the \<open>Nop\<close> module overrides all of them with an empty body.\<close>

datatype callback =
    OnChanOpenInit | OnChanOpenTry | OnChanOpenAck | OnChanOpenConfirm
  | OnChanCloseInit | OnChanCloseConfirm | OnTimeoutPacket | OnTimeoutPacketClose

fun other_callback :: "module_class \<Rightarrow> callback \<Rightarrow> ctx \<Rightarrow> ctx outcome" where
  "other_callback NopModule cb c = Inr c"
| "other_callback _ cb c = Inl NotImplemented"

fun on_recv_packet :: "env \<Rightarrow> module_class \<Rightarrow> packet \<Rightarrow> ctx \<Rightarrow> (ctx \<times> acknowledgement) outcome" where
  "on_recv_packet E NopModule p c = Inr (c, AckNotSet)"
| "on_recv_packet E Ics20Module p c = ics20_on_recv_packet E p c"
| "on_recv_packet E Ics20CashModule p c = ics20cash_on_recv_packet E p c"

fun on_acknowledge_packet ::
  "env \<Rightarrow> module_class \<Rightarrow> packet \<Rightarrow> acknowledgement \<Rightarrow> ctx \<Rightarrow> ctx outcome" where
  "on_acknowledge_packet E NopModule p a c = Inr c"
| "on_acknowledge_packet E Ics20Module p a c = ics20_on_acknowledge_packet E p a c"
| "on_acknowledge_packet E Ics20CashModule p a c = ics20cash_on_acknowledge_packet E p a c"

fun create_outgoing_packet ::
  "env \<Rightarrow> module_class \<Rightarrow> public_key list \<Rightarrow> any \<Rightarrow> ctx \<Rightarrow> ctx outcome" where
  "create_outgoing_packet E NopModule signers msg c =
     bindE (env_unpack_packet E msg) (\<lambda>p. send_packet E p c)"
| "create_outgoing_packet E Ics20Module signers msg c = ics20_create_outgoing_packet E signers msg c"
| "create_outgoing_packet E Ics20CashModule signers msg c =
     ics20cash_create_outgoing_packet E signers msg c"

section \<open>Datagrams\<close>

datatype datagram =
    HandleClientCreate msg_create_client
  | HandleClientUpdate ident header
  | HandleClientMisbehaviour ident any
  | HandleConnOpenInit msg_conn_open_init
  | HandleConnOpenTry msg_conn_open_try
  | HandleConnOpenAck msg_conn_open_ack
  | HandleConnOpenConfirm msg_conn_open_confirm
  | HandleChanOpenInit msg_chan_open_init
  | HandleChanOpenTry msg_chan_open_try
  | HandleChanOpenAck msg_chan_open_ack
  | HandleChanOpenConfirm msg_chan_open_confirm
  | HandleChanCloseInit msg_chan_close_init
  | HandleChanCloseConfirm msg_chan_close_confirm
  | HandlePacketRecv msg_recv_packet
  | HandlePacketAcknowledgement msg_acknowledgement
  | CreateOutgoingPacket any

definition handle_client_update :: "env \<Rightarrow> ident \<Rightarrow> header \<Rightarrow> ctx \<Rightarrow> ctx outcome" where
  "handle_client_update E identifier hdr c =
     bindE (get_input as_client c) (\<lambda>client.
     requireE (cl_id client = identifier) (
     bindE (check_header_and_update_state E (cl_impl client) hdr) (\<lambda>result.
       add_output (ClientSt (update_client client (fst result))) c)))"

definition handle_client_misbehaviour :: "ident \<Rightarrow> any \<Rightarrow> ctx \<Rightarrow> ctx outcome" where
  "handle_client_misbehaviour identifier misbehaviour c =
     bindE (get_input as_client c) (\<lambda>client.
     requireE (cl_id client = identifier) (
     bindE (check_misbehaviour_and_update_state (cl_impl client) misbehaviour) (\<lambda>result.
       add_output (ClientSt (update_client client result)) c)))"

definition handle_packet_recv :: "env \<Rightarrow> msg_recv_packet \<Rightarrow> ctx \<Rightarrow> ctx outcome" where
  "handle_packet_recv E msg c =
     bindE (get_reference as_host c) (\<lambda>host.
     bindE (mk_identifier (pkt_destination_port (mrp_packet msg))) (\<lambda>port.
     bindE (lookup_module host port) (\<lambda>module_cls.
     bindE (on_recv_packet E module_cls (mrp_packet msg) c) (\<lambda>(c, acknowledgement).
     bindE (mk_proof E (mrp_proof_commitment msg)) (\<lambda>proof_commitment.
       recv_packet E (mrp_packet msg) proof_commitment (mrp_proof_height msg) acknowledgement c)))))"

text \<open>The module is the one bound to the destination port, as for a receipt.\<close>

definition handle_packet_acknowledgement :: "env \<Rightarrow> msg_acknowledgement \<Rightarrow> ctx \<Rightarrow> ctx outcome" where
  "handle_packet_acknowledgement E msg c =
     bindE (get_reference as_host c) (\<lambda>host.
     bindE (mk_identifier (pkt_destination_port (mak_packet msg))) (\<lambda>port.
     bindE (lookup_module host port) (\<lambda>module_cls.
     bindE (env_parse_ack E (mak_acknowledgement msg)) (\<lambda>ack.
     bindE (on_acknowledge_packet E module_cls (mak_packet msg) ack c) (\<lambda>c.
     bindE (mk_proof E (mak_proof_acked msg)) (\<lambda>proof_acked.
       acknowledge_packet E (mak_packet msg) ack proof_acked (mak_proof_height msg) c))))))"

definition handle_create_outgoing_packet ::
  "env \<Rightarrow> any \<Rightarrow> public_key list \<Rightarrow> ctx \<Rightarrow> ctx outcome" where
  "handle_create_outgoing_packet E msg signers c =
     bindE (get_reference as_host c) (\<lambda>host.
     bindE (get_input as_channel c) (\<lambda>chan.
     bindE (lookup_module host (chan_port_id chan)) (\<lambda>module_cls.
       create_outgoing_packet E module_cls signers msg c)))"

fun execute :: "env \<Rightarrow> datagram \<Rightarrow> public_key list \<Rightarrow> ctx \<Rightarrow> ctx outcome" where
  "execute E (HandleClientCreate msg) signers c = create_client E msg c"
| "execute E (HandleClientUpdate i hdr) signers c = handle_client_update E i hdr c"
| "execute E (HandleClientMisbehaviour i m) signers c = handle_client_misbehaviour i m c"
| "execute E (HandleConnOpenInit msg) signers c = conn_open_init msg c"
| "execute E (HandleConnOpenTry msg) signers c = conn_open_try E msg c"
| "execute E (HandleConnOpenAck msg) signers c = conn_open_ack E msg c"
| "execute E (HandleConnOpenConfirm msg) signers c = conn_open_confirm E msg c"
| "execute E (HandleChanOpenInit msg) signers c = chan_open_init msg c"
| "execute E (HandleChanOpenTry msg) signers c = chan_open_try E msg c"
| "execute E (HandleChanOpenAck msg) signers c = chan_open_ack E msg c"
| "execute E (HandleChanOpenConfirm msg) signers c = chan_open_confirm E msg c"
| "execute E (HandleChanCloseInit msg) signers c = chan_close_init msg c"
| "execute E (HandleChanCloseConfirm msg) signers c = chan_close_confirm E msg c"
| "execute E (HandlePacketRecv msg) signers c = handle_packet_recv E msg c"
| "execute E (HandlePacketAcknowledgement msg) signers c = handle_packet_acknowledgement E msg c"
| "execute E (CreateOutgoingPacket msg) signers c = handle_create_outgoing_packet E msg signers c"

section \<open>Modules leave channels alone\<close>

text \<open>\<open>app_extends c c'\<close>: only outputs have been added, and none of them is a channel.\<close>

definition app_extends :: "ctx \<Rightarrow> ctx \<Rightarrow> bool" where
  "app_extends c c' \<longleftrightarrow>
     in_states c' = in_states c \<and> ref_states c' = ref_states c \<and>
     (\<exists>new. out_states c' = out_states c @ new \<and> (\<forall>s \<in> set new. kind_of s \<noteq> KChannel))"

lemma app_extends_refl [simp]: "app_extends c c"
  by (simp add: app_extends_def)

lemma app_extends_trans: "app_extends c c' \<Longrightarrow> app_extends c' c'' \<Longrightarrow> app_extends c c''"
  by (auto simp: app_extends_def)

lemma app_extends_output: "add_output s c = Inr c' \<Longrightarrow> kind_of s \<noteq> KChannel \<Longrightarrow> app_extends c c'"
  by (auto simp: app_extends_def add_output_Inr)

lemma app_extends_pay: "pay_cash E cash_sum amount p q c = Inr c' \<Longrightarrow> app_extends c c'"
  unfolding pay_cash_def
  by (auto simp del: add_output_Inr simp: bindE_Inr_iff split: if_splits
      intro: app_extends_trans dest!: app_extends_output)

lemma app_extends_mint: "mint_voucher E owner d text bank c = Inr c' \<Longrightarrow> app_extends c c'"
  by (auto simp: app_extends_def dest!: mint_voucher_Inr)

lemma app_extends_ics20_recv: "ics20_on_recv_packet E p c = Inr (c', a) \<Longrightarrow> app_extends c c'"
  unfolding ics20_on_recv_packet_def
  by (auto simp: bindE_Inr_iff catch_illegal_argument_Inr Let_def dest!: app_extends_output)

lemma app_extends_ics20_refund: "ics20_refund_tokens E p c = Inr c' \<Longrightarrow> app_extends c c'"
  unfolding ics20_refund_tokens_def
  by (auto simp: bindE_Inr_iff Let_def split: if_splits dest!: app_extends_output)

lemma app_extends_ics20_ack: "ics20_on_acknowledge_packet E p a c = Inr c' \<Longrightarrow> app_extends c c'"
  unfolding ics20_on_acknowledge_packet_def
  by (auto simp: bindE_Inr_iff split: acknowledgement.splits
      dest!: app_extends_output app_extends_ics20_refund)

lemma app_extends_cash_recv: "ics20cash_on_recv_packet E p c = Inr (c', a) \<Longrightarrow> app_extends c c'"
  unfolding ics20cash_on_recv_packet_def
  by (auto simp: bindE_Inr_iff guardE_Inr_iff Let_def split: if_splits
      dest!: app_extends_pay app_extends_mint app_extends_output intro: app_extends_trans)

lemma app_extends_cash_refund: "ics20cash_refund_tokens E p c = Inr c' \<Longrightarrow> app_extends c c'"
  unfolding ics20cash_refund_tokens_def
  by (auto simp: bindE_Inr_iff guardE_Inr_iff Let_def split: if_splits
      dest!: app_extends_pay app_extends_mint)

lemma app_extends_cash_ack: "ics20cash_on_acknowledge_packet E p a c = Inr c' \<Longrightarrow> app_extends c c'"
  unfolding ics20cash_on_acknowledge_packet_def
  by (auto simp: bindE_Inr_iff split: acknowledgement.splits
      dest!: app_extends_output app_extends_cash_refund)

lemma app_extends_lock_cash: "lock_cash E msg n sender d bank c = Inr c' \<Longrightarrow> app_extends c c'"
  unfolding lock_cash_def
  by (auto simp: bindE_Inr_iff guardE_Inr_iff Let_def
      dest!: app_extends_pay app_extends_output intro: app_extends_trans)

lemma app_extends_burn_vouchers: "burn_vouchers E n sender d bank c = Inr c' \<Longrightarrow> app_extends c c'"
  unfolding burn_vouchers_def
  by (auto simp: bindE_Inr_iff guardE_Inr_iff Let_def split: if_splits
      dest!: app_extends_output intro: app_extends_trans)

lemma app_extends_debit: "debit_assets E msg source n sender d bank c = Inr c' \<Longrightarrow> app_extends c c'"
  by (auto simp: debit_assets_def split: if_splits
      dest: app_extends_lock_cash app_extends_burn_vouchers)

lemma app_extends_recv: "on_recv_packet E k p c = Inr (c', a) \<Longrightarrow> app_extends c c'"
  by (cases k) (auto dest: app_extends_ics20_recv app_extends_cash_recv)

lemma app_extends_ack: "on_acknowledge_packet E k p a c = Inr c' \<Longrightarrow> app_extends c c'"
  by (cases k) (auto dest: app_extends_ics20_ack app_extends_cash_ack)

lemma create_outgoing_sends:
  assumes "create_outgoing_packet E k signers msg c = Inr c'"
  shows "\<exists>p c1. app_extends c c1 \<and> send_packet E p c1 = Inr c'"
proof (cases k)
  case NopModule
  with assms obtain p where "send_packet E p c = Inr c'" by (auto simp: bindE_Inr_iff)
  then show ?thesis using app_extends_refl by blast
next
  case Ics20Module
  with assms have "ics20_create_outgoing_packet E signers msg c = Inr c'" by simp
  from ics20_create_outgoing_packet_Inr [OF this] obtain p bank where
    "send_packet E p (c\<lparr>out_states := out_states c @ [BankState bank]\<rparr>) = Inr c'"
    by blast
  moreover have "app_extends c (c\<lparr>out_states := out_states c @ [BankState bank]\<rparr>)"
    by (simp add: app_extends_def)
  ultimately show ?thesis by blast
next
  case Ics20CashModule
  with assms have "ics20cash_create_outgoing_packet E signers msg c = Inr c'" by simp
  then obtain msg1 source n sender d bank c1 p where
    "debit_assets E msg1 source n sender d bank c = Inr c1" "send_packet E p c1 = Inr c'"
    unfolding ics20cash_create_outgoing_packet_def
    by (auto simp: bindE_Inr_iff guardE_Inr_iff Let_def simp del: mk_identifier_Inr_iff get_input_Inr)
  with app_extends_debit show ?thesis by blast
qed

section \<open>A channel datagram is one step of the channel\<close>

fun carries :: "datagram \<Rightarrow> chan_msg \<Rightarrow> bool" where
  "carries (HandleChanOpenTry msg) m \<longleftrightarrow> m = ChanTry msg \<and> hot_previous_channel_id msg \<noteq> []"
| "carries (HandleChanOpenAck msg) m \<longleftrightarrow> m = ChanAck msg"
| "carries (HandleChanOpenConfirm msg) m \<longleftrightarrow> m = ChanConfirm msg"
| "carries (HandleChanCloseInit msg) m \<longleftrightarrow> m = ChanCloseInit msg"
| "carries (HandleChanCloseConfirm msg) m \<longleftrightarrow> m = ChanCloseConfirm msg"
| "carries (HandlePacketRecv msg) m \<longleftrightarrow>
     (\<exists>a. m = RecvPacket (mrp_packet msg) (mrp_proof_commitment msg) (mrp_proof_height msg) a)"
| "carries (HandlePacketAcknowledgement msg) m \<longleftrightarrow>
     (\<exists>a. m = AckPacket (mak_packet msg) a (mak_proof_acked msg) (mak_proof_height msg))"
| "carries (CreateOutgoingPacket msg) m \<longleftrightarrow> (\<exists>p. m = SendPacket p)"
| "carries _ m \<longleftrightarrow> False"

lemma carries_continues: "carries d m \<Longrightarrow> continues m"
  by (cases d) auto

lemma one_channel_output:
  "\<exists>chan' new. c\<lparr>out_states := out_states c @ [ChannelSt x]\<rparr> = c\<lparr>out_states := out_states c @ new\<rparr> \<and>
     List.map_filter as_channel new = [chan']"
  by (rule exI [of _ x], rule exI [of _ "[ChannelSt x]"]) (simp add: map_filter_simps)

lemma handle_channel_output:
  assumes "handle_channel E m c = Inr c'" "continues m"
  shows "\<exists>chan chan' new. get_input as_channel c = Inr chan \<and>
    (\<forall>t \<in> set (out_states c). kind_of t \<noteq> KChannel) \<and>
    c' = c\<lparr>out_states := out_states c @ new\<rparr> \<and> List.map_filter as_channel new = [chan']"
proof (cases m)
  case (ChanTry msg)
  with assms obtain host conn client next_host i previous port where
    "chan_try_previous msg host c = Inr (next_host, i, previous)"
    "\<forall>t \<in> set (out_states c). kind_of t \<noteq> KHost \<and> kind_of t \<noteq> KChannel"
    "c' = c\<lparr>out_states := out_states c @
       [HostState next_host, ChannelSt (tried_channel msg host port i previous)]\<rparr>"
    using chan_open_try_Inr [of E msg c c'] by auto
  with chan_try_previous_Inr [OF this(1)] ChanTry assms(2) show ?thesis
    by (fastforce simp: map_filter_simps)
qed (use assms in \<open>auto simp: select_channel_Inr intro!: one_channel_output
    dest!: chan_open_ack_Inr chan_open_confirm_Inr chan_close_init_Inr chan_close_confirm_Inr
      send_packet_Inr recv_packet_Inr acknowledge_packet_Inr\<close>)

lemma execute_handle_channel:
  assumes "execute E d signers c = Inr c'" "carries d m0"
  shows "\<exists>m c1. carries d m \<and> app_extends c c1 \<and> handle_channel E m c1 = Inr c'"
proof (cases d)
  case (HandlePacketRecv msg)
  with assms show ?thesis
    by (fastforce simp: handle_packet_recv_def bindE_Inr_iff mk_proof_def dest: app_extends_recv)
next
  case (HandlePacketAcknowledgement msg)
  with assms show ?thesis
    by (fastforce simp: handle_packet_acknowledgement_def bindE_Inr_iff mk_proof_def
        dest: app_extends_ack)
next
  case (CreateOutgoingPacket msg)
  with assms obtain k where "create_outgoing_packet E k signers msg c = Inr c'"
    by (auto simp: handle_create_outgoing_packet_def bindE_Inr_iff)
  from create_outgoing_sends [OF this] CreateOutgoingPacket show ?thesis by fastforce
qed (use assms in \<open>auto intro: exI [of _ c]\<close>)

lemma map_filter_append [simp]:
  "List.map_filter f (xs @ ys) = List.map_filter f xs @ List.map_filter f ys"
  by (simp add: List.map_filter_def)

lemma as_channel_Some: "as_channel s = Some x \<longleftrightarrow> s = ChannelSt x"
  by (cases s) auto

lemma map_filter_no_channel:
  "(\<forall>t \<in> set ss. kind_of t \<noteq> KChannel) \<Longrightarrow> List.map_filter as_channel ss = []"
proof (induction ss)
  case (Cons s ss)
  then show ?case by (cases s) (simp_all add: List.map_filter_simps)
qed (simp add: List.map_filter_simps)

lemma execute_channel_step:
  assumes "execute E d signers c = Inr c'" "carries d m0" "out_states c = []"
  shows "\<exists>m chan chan'. carries d m \<and> List.map_filter as_channel (in_states c) = [chan] \<and>
    List.map_filter as_channel (out_states c') = [chan'] \<and> chan_step E m chan chan'"
proof -
  obtain m c1 where m: "carries d m" and app: "app_extends c c1" and step: "handle_channel E m c1 = Inr c'"
    using execute_handle_channel [OF assms(1,2)] by blast
  from handle_channel_output [OF step carries_continues [OF m]] obtain chan chan' new where
    out: "get_input as_channel c1 = Inr chan" "\<forall>t \<in> set (out_states c1). kind_of t \<noteq> KChannel"
      "c' = c1\<lparr>out_states := out_states c1 @ new\<rparr>" "List.map_filter as_channel new = [chan']"
    by blast
  have none: "List.map_filter as_channel (out_states c1) = []"
    using out(2) by (rule map_filter_no_channel)
  have "ChannelSt chan' \<in> set new"
    using map_filter_member [OF out(4)] by (auto simp: as_channel_Some)
  moreover have "ChannelSt chan' \<notin> set (out_states c1)" using out(2) by auto
  ultimately have "chan_step E m chan chan'"
    using step m out by (intro chan_stepI [of E m c1 c']) (auto dest: carries_continues)
  with m out none app show ?thesis
    by (auto simp: app_extends_def get_input_Inr)
qed

text \<open>Every message but \<open>chanOpenTry\<close> outputs just the channel, with its identity.\<close>

lemma handle_channel_single:
  assumes "handle_channel E m c = Inr c'" "out_states c = []" "\<And>msg. m \<noteq> ChanTry msg"
  shows "\<exists>chan chan'. get_input as_channel c = Inr chan \<and> chan_step E m chan chan' \<and>
    c' = c\<lparr>out_states := [ChannelSt chan']\<rparr>"
proof -
  have "\<exists>new. c' = c\<lparr>out_states := [ChannelSt new]\<rparr>"
    using assms
    by (cases m) (auto dest!: chan_open_ack_Inr chan_open_confirm_Inr chan_close_init_Inr
      chan_close_confirm_Inr send_packet_Inr recv_packet_Inr acknowledge_packet_Inr)
  then obtain chan' where out: "c' = c\<lparr>out_states := [ChannelSt chan']\<rparr>" by blast
  have cont: "continues m" using assms(3) by (cases m) auto
  obtain chan where chan: "get_input as_channel c = Inr chan"
    using handle_channel_output [OF assms(1) cont] by blast
  have "chan_step E m chan chan'"
    using out assms(2) by (intro chan_stepI [OF assms(1) cont chan]) auto
  with out chan show ?thesis by blast
qed

lemma chan_step_identity:
  assumes "chan_step E m chan chan'" "\<And>msg. m \<noteq> ChanTry msg"
  shows "chan_id chan' = chan_id chan \<and> chan_base_id chan' = chan_base_id chan \<and>
    chan_port_id chan' = chan_port_id chan"
  using assms by (cases m) (auto simp: update_Some dest!: chan_step_effects)

section \<open>Frame\<close>

text \<open>No datagram changes the inputs or references of its context.\<close>

definition same_inputs :: "ctx \<Rightarrow> ctx \<Rightarrow> bool" where
  "same_inputs c c' \<longleftrightarrow> in_states c' = in_states c \<and> ref_states c' = ref_states c"

lemma same_inputs_output: "add_output s c = Inr c' \<Longrightarrow> same_inputs c c'"
  by (auto simp: same_inputs_def dest: add_output_frame)

lemma same_inputs_app: "app_extends c c' \<Longrightarrow> same_inputs c c'"
  by (simp add: app_extends_def same_inputs_def)

lemma same_inputs_channel: "handle_channel E m c = Inr c' \<Longrightarrow> same_inputs c c'"
  by (cases m) (auto simp: same_inputs_def dest!: chan_open_try_Inr chan_open_ack_Inr
      chan_open_confirm_Inr chan_close_init_Inr chan_close_confirm_Inr send_packet_Inr
      recv_packet_Inr acknowledge_packet_Inr)

lemma execute_frame:
  assumes "execute E d signers c = Inr c'"
  shows "in_states c' = in_states c \<and> ref_states c' = ref_states c"
proof -
  have "same_inputs c c'"
  proof (cases "\<exists>m. carries d m")
    case True
    then obtain m0 where "carries d m0" by blast
    from execute_handle_channel [OF assms this] obtain m c1 where
      "app_extends c c1" "handle_channel E m c1 = Inr c'" by blast
    then show ?thesis
      using same_inputs_app same_inputs_channel by (auto simp: same_inputs_def)
  next
    case False
    show ?thesis
    proof (cases d)
      case (HandleChanOpenTry msg)
      with assms same_inputs_channel [of E "ChanTry msg" c c'] show ?thesis by simp
    qed (use assms False in \<open>auto simp: same_inputs_def handle_client_update_def
        handle_client_misbehaviour_def bindE_Inr_iff guardE_Inr_iff
        dest!: create_client_Inr conn_open_init_Inr conn_open_try_Inr conn_open_ack_Inr
          conn_open_confirm_Inr chan_open_init_Inr dest: add_output_frame\<close>)
  qed
  then show ?thesis by (simp add: same_inputs_def)
qed

end
