(* ===== verification/Packet_Flow.thy ===== *)
theory Packet_Flow
  imports Channel_Machine
begin

text \<open>
  What the state of a channel says about its past. \<open>chan_history E ms chan\<close> holds when \<open>chan\<close> has
  been reached from its creation by the messages \<open>ms\<close>, in order. The lemmas show, by rule
  induction, that the sequence counters count the packets sent, received and acknowledged,
  that the receipts and the stored packets are the right sets, and that acknowledgements are
  written once. Sequence numbers are 64-bit words, so the statements about sent packets carry
  the bound \<open>2 ^ 64\<close> on their number.
\<close>

section \<open>Histories\<close>

inductive chan_history :: "env \<Rightarrow> chan_msg list \<Rightarrow> ibc_channel \<Rightarrow> bool" for E :: env where
  history_start: "chan_created E chan \<Longrightarrow> chan_history E [] chan"
| history_step: "chan_history E ms chan \<Longrightarrow> chan_step E m chan chan' \<Longrightarrow>
    chan_history E (ms @ [m]) chan'"

lemma chan_history_run:
  "chan_history E ms chan \<longleftrightarrow> (\<exists>chan0. chan_created E chan0 \<and> run (chan_step E) ms chan0 chan)"
proof
  show "chan_history E ms chan \<Longrightarrow> \<exists>chan0. chan_created E chan0 \<and> run (chan_step E) ms chan0 chan"
    by (induction rule: chan_history.induct) (auto intro: run_start run_snoc)
next
  assume "\<exists>chan0. chan_created E chan0 \<and> run (chan_step E) ms chan0 chan"
  then obtain chan0 where "run (chan_step E) ms chan0 chan" "chan_created E chan0" by blast
  then show "chan_history E ms chan"
    by (induction rule: run.induct) (auto intro: chan_history.intros)
qed

fun sent_by :: "chan_msg \<Rightarrow> packet list" where
  "sent_by (SendPacket p) = [p]"
| "sent_by _ = []"

fun received_by :: "chan_msg \<Rightarrow> (packet \<times> acknowledgement) list" where
  "received_by (RecvPacket p prf h a) = [(p, a)]"
| "received_by _ = []"

fun acked_by :: "chan_msg \<Rightarrow> packet list" where
  "acked_by (AckPacket p a prf h) = [p]"
| "acked_by _ = []"

definition sent_packets :: "chan_msg list \<Rightarrow> packet list" where
  "sent_packets ms = concat (map sent_by ms)"

definition received_packets :: "chan_msg list \<Rightarrow> (packet \<times> acknowledgement) list" where
  "received_packets ms = concat (map received_by ms)"

definition acked_packets :: "chan_msg list \<Rightarrow> packet list" where
  "acked_packets ms = concat (map acked_by ms)"

definition received_sequences :: "chan_msg list \<Rightarrow> long list" where
  "received_sequences ms = map (pkt_sequence \<circ> fst) (received_packets ms)"

lemma packets_of_Nil [simp]:
  "sent_packets [] = []" "received_packets [] = []" "acked_packets [] = []"
  "received_sequences [] = []"
  by (simp_all add: sent_packets_def received_packets_def acked_packets_def received_sequences_def)

lemma packets_of_snoc [simp]:
  "sent_packets (ms @ [m]) = sent_packets ms @ sent_by m"
  "received_packets (ms @ [m]) = received_packets ms @ received_by m"
  "acked_packets (ms @ [m]) = acked_packets ms @ acked_by m"
  "received_sequences (ms @ [m]) = received_sequences ms @ map (pkt_sequence \<circ> fst) (received_by m)"
  by (simp_all add: sent_packets_def received_packets_def acked_packets_def received_sequences_def)

section \<open>A new channel\<close>

lemma chan_created_fresh:
  assumes "chan_created E chan"
  shows "ch_state (chan_end chan) \<in> {CHAN_INIT, CHAN_TRYOPEN} \<and>
    next_sequence_send chan = 1 \<and> next_sequence_recv chan = 1 \<and> next_sequence_ack chan = 1 \<and>
    packets chan = Map.empty \<and> receipts chan = {} \<and> acknowledgements chan = Map.empty"
  using assms
proof cases
  case (created_by_init msg c c')
  then show ?thesis by (auto simp: mk_ibc_channel_def dest!: chan_open_init_Inr)
next
  case (created_by_try msg c c')
  from chan_open_try_Inr [OF created_by_try(1)] obtain host conn client next_host i previous port
    where "chan_try_previous msg host c = Inr (next_host, i, previous)"
      and "c' = c\<lparr>out_states := out_states c @
        [HostState next_host, ChannelSt (tried_channel msg host port i previous)]\<rparr>"
    by blast
  with chan_try_previous_Inr [OF this(1)] created_by_try show ?thesis by auto
qed

section \<open>Before the channel opens\<close>

text \<open>No packet is received or acknowledged before the channel is open, so the re-creation of a
  channel in \<open>chanOpenTry\<close> loses no receipt.\<close>

lemma before_open:
  "chan_history E ms chan \<Longrightarrow> ch_state (chan_end chan) \<in> {CHAN_UNINITIALIZED, CHAN_INIT, CHAN_TRYOPEN} \<Longrightarrow>
     received_packets ms = [] \<and> acked_packets ms = []"
proof (induction rule: chan_history.induct)
  case (history_step ms chan m chan')
  then show ?case
    by (cases m) (auto simp: update_Some dest!: chan_step_effects)
qed simp

section \<open>Sending\<close>

lemma send_counter:
  "chan_history E ms chan \<Longrightarrow>
     next_sequence_send chan = of_nat (Suc (length (sent_packets ms))) \<and>
     counted (map pkt_sequence (sent_packets ms))"
proof (induction rule: chan_history.induct)
  case (history_start chan)
  then show ?case by (simp add: chan_created_fresh)
next
  case (history_step ms chan m chan')
  then show ?case
    by (cases m) (auto simp: update_Some counted_snoc split: if_splits dest!: chan_step_effects)
qed

lemma sent_sequences_distinct:
  "chan_history E ms chan \<Longrightarrow> length (sent_packets ms) < 2 ^ 64 \<Longrightarrow>
     distinct (map pkt_sequence (sent_packets ms))"
  using send_counter [of E ms chan] counted_distinct [of "map pkt_sequence (sent_packets ms)"] by simp

lemma next_sequence_unused:
  assumes "chan_history E ms chan" "Suc (length (sent_packets ms)) < 2 ^ 64" "p \<in> set (sent_packets ms)"
  shows "pkt_sequence p \<noteq> next_sequence_send chan"
proof -
  have "counted (map pkt_sequence (sent_packets ms) @ [next_sequence_send chan])"
    using send_counter [OF assms(1)] by (simp add: counted_snoc)
  from counted_distinct [OF this] assms(2,3) show ?thesis by force
qed

text \<open>The stored packets: sent, not yet acknowledged, under their own sequence.\<close>

lemma chan_step_packets:
  assumes "chan_step E m chan chan'" "packets chan' s = Some p"
  shows "packets chan s = Some p \<or> m = SendPacket p \<and> pkt_sequence p = s"
  using assms
  by (cases m) (auto simp: update_Some fun_upd_apply split: if_split_asm dest!: chan_step_effects)

lemma stored_packets:
  "chan_history E ms chan \<Longrightarrow> packets chan s = Some p \<Longrightarrow> p \<in> set (sent_packets ms) \<and> pkt_sequence p = s"
proof (induction arbitrary: s p rule: chan_history.induct)
  case (history_start chan)
  then show ?case by (simp add: chan_created_fresh)
next
  case (history_step ms chan m chan')
  from chan_step_packets [OF history_step.hyps(2) history_step.prems]
  show ?case using history_step.IH [of s p] by auto
qed

lemma acked_was_sent:
  "chan_history E ms chan \<Longrightarrow> set (acked_packets ms) \<subseteq> set (sent_packets ms)"
proof (induction rule: chan_history.induct)
  case (history_step ms chan m chan')
  then show ?case
    by (cases m) (auto simp: acked_Some dest!: chan_step_effects dest: stored_packets)
qed simp

lemma acked_removed:
  "chan_history E ms chan \<Longrightarrow> length (sent_packets ms) < 2 ^ 64 \<Longrightarrow>
     distinct (map pkt_sequence (acked_packets ms)) \<and>
     (\<forall>p \<in> set (acked_packets ms). packets chan (pkt_sequence p) = None)"
proof (induction rule: chan_history.induct)
  case (history_step ms chan m chan')
  then have IH: "distinct (map pkt_sequence (acked_packets ms))"
    "\<forall>p \<in> set (acked_packets ms). packets chan (pkt_sequence p) = None"
    by auto
  show ?case
    using IH history_step.hyps(2)
  proof (cases m)
    case (SendPacket p)
    with history_step have "sent p chan = Some chan'" by (auto dest: chan_step_effects)
    moreover have "\<forall>q \<in> set (acked_packets ms). pkt_sequence q \<noteq> next_sequence_send chan"
      using next_sequence_unused [OF history_step.hyps(1)] acked_was_sent [OF history_step.hyps(1)]
        history_step.prems SendPacket by auto
    ultimately show ?thesis using IH SendPacket by (auto simp: sent_Some)
  next
    case (AckPacket p a w h)
    with history_step have "acked p chan = Some chan'" by (auto dest: chan_step_effects)
    with IH AckPacket show ?thesis by (fastforce simp: acked_Some)
  qed (auto simp: update_Some dest!: chan_step_effects)
qed simp

section \<open>Receiving\<close>

lemma chan_step_ordering:
  "chan_step E m chan chan' \<Longrightarrow> ch_ordering (chan_end chan') = ch_ordering (chan_end chan)"
  by (cases m) (auto simp: update_Some dest!: chan_step_effects)

lemma chan_step_receive_cases:
  assumes "chan_step E m chan chan'"
  obtains (recreated) msg where "m = ChanTry msg" "ch_state (chan_end chan) = CHAN_INIT"
      "receipts chan' = {}" "acknowledgements chan' = Map.empty"
  | (received) p w h a where "m = RecvPacket p w h a" "received p a chan = Some chan'"
  | (unchanged) "received_by m = []" "receipts chan' = receipts chan"
      "acknowledgements chan' = acknowledgements chan"
  using assms by (cases m) (auto simp: sent_Some acked_Some dest!: chan_step_effects)

lemma receive_unordered:
  "chan_history E ms chan \<Longrightarrow> ch_ordering (chan_end chan) = ORDER_UNORDERED \<Longrightarrow>
     distinct (received_sequences ms) \<and> receipts chan = set (received_sequences ms)"
proof (induction rule: chan_history.induct)
  case (history_start chan)
  then show ?case by (simp add: chan_created_fresh)
next
  case (history_step ms chan m chan')
  then have IH: "distinct (received_sequences ms)" "receipts chan = set (received_sequences ms)"
    and ordering: "ch_ordering (chan_end chan) = ORDER_UNORDERED"
    using chan_step_ordering by auto
  from history_step.hyps(2) show ?case
  proof (cases rule: chan_step_receive_cases)
    case (recreated msg)
    with before_open [OF history_step.hyps(1)] show ?thesis by (simp add: received_sequences_def)
  qed (use IH ordering in \<open>auto simp: received_Some\<close>)
qed

lemma receive_ordered:
  "chan_history E ms chan \<Longrightarrow> ch_ordering (chan_end chan) = ORDER_ORDERED \<Longrightarrow>
     counted (received_sequences ms) \<and>
     next_sequence_recv chan = of_nat (Suc (length (received_sequences ms)))"
proof (induction rule: chan_history.induct)
  case (history_start chan)
  then show ?case by (simp add: chan_created_fresh)
next
  case (history_step ms chan m chan')
  then have "counted (received_sequences ms)"
    "next_sequence_recv chan = of_nat (Suc (length (received_sequences ms)))"
    "ch_ordering (chan_end chan) = ORDER_ORDERED"
    using chan_step_ordering by auto
  with history_step.hyps(2) show ?case
    by (cases m) (auto simp: update_Some counted_snoc dest!: chan_step_effects)
qed

lemma acks_ordered:
  "chan_history E ms chan \<Longrightarrow> ch_ordering (chan_end chan) = ORDER_ORDERED \<Longrightarrow>
     counted (map pkt_sequence (acked_packets ms)) \<and>
     next_sequence_ack chan = of_nat (Suc (length (acked_packets ms)))"
proof (induction rule: chan_history.induct)
  case (history_start chan)
  then show ?case by (simp add: chan_created_fresh)
next
  case (history_step ms chan m chan')
  then have "counted (map pkt_sequence (acked_packets ms))"
    "next_sequence_ack chan = of_nat (Suc (length (acked_packets ms)))"
    "ch_ordering (chan_end chan) = ORDER_ORDERED"
    using chan_step_ordering by auto
  with history_step.hyps(2) show ?case
    by (cases m) (auto simp: update_Some counted_snoc dest!: chan_step_effects)
qed

text \<open>Packets are received only on channels with an order.\<close>

lemma receive_needs_order:
  "chan_history E ms chan \<Longrightarrow> received_packets ms \<noteq> [] \<Longrightarrow>
     ch_ordering (chan_end chan) \<in> {ORDER_UNORDERED, ORDER_ORDERED}"
proof (induction rule: chan_history.induct)
  case (history_step ms chan m chan')
  then show ?case
    using chan_step_ordering [OF history_step.hyps(2)]
    by (cases m) (auto simp: update_Some dest!: chan_step_effects)
qed simp

lemma received_distinct:
  assumes "chan_history E ms chan" "length (received_packets ms) < 2 ^ 64"
  shows "distinct (received_sequences ms)"
proof (cases "received_packets ms = []")
  case True
  then show ?thesis by (simp add: received_sequences_def)
next
  case False
  have len: "length (received_sequences ms) = length (received_packets ms)"
    by (simp add: received_sequences_def)
  from receive_needs_order [OF assms(1) False] show ?thesis
    using receive_unordered [OF assms(1)] receive_ordered [OF assms(1)]
      counted_distinct [of "received_sequences ms"] assms(2) len by auto
qed

lemma received_acks:
  "chan_history E ms chan \<Longrightarrow>
     acknowledgements chan = map_of (rev (map (\<lambda>(p, a). (pkt_sequence p, a)) (received_packets ms)))"
proof (induction rule: chan_history.induct)
  case (history_start chan)
  then show ?case by (simp add: chan_created_fresh)
next
  case (history_step ms chan m chan')
  from history_step.hyps(2) show ?case
  proof (cases rule: chan_step_receive_cases)
    case (recreated msg)
    with before_open [OF history_step.hyps(1)] show ?thesis by simp
  qed (use history_step.IH in \<open>auto simp: received_Some\<close>)
qed

lemma received_ack_stored:
  assumes "chan_history E ms chan" "length (received_packets ms) < 2 ^ 64"
    and "(p, a) \<in> set (received_packets ms)"
  shows "acknowledgements chan (pkt_sequence p) = Some a"
proof -
  let ?acks = "rev (map (\<lambda>(p, a). (pkt_sequence p, a)) (received_packets ms))"
  have "map fst ?acks = rev (received_sequences ms)"
    by (simp add: received_sequences_def rev_map [symmetric] comp_def split_beta)
  with received_distinct [OF assms(1,2)] have "distinct (map fst ?acks)" by simp
  moreover have "(pkt_sequence p, a) \<in> set ?acks" using assms(3) by force
  ultimately show ?thesis using received_acks [OF assms(1)] by (metis map_of_is_SomeI)
qed

end
