(* ===== verification/Ibc_Contract.thy ===== *)
theory Ibc_Contract
  imports Datagram_Handlers Packet_Flow "HOL-Library.Multiset"
begin

text \<open>
  The contract \<open>contracts/Ibc.kt\<close>: \<open>verify\<close> accepts a ledger transaction when it carries exactly
  one command of the contract, and that command's check passes. The five miscellaneous
  commands create the genesis, host and bank states and allocate funds; a datagram command
  runs its handler on the inputs and references and compares the outputs. The lemmas lift
  what the handlers guarantee to accepted transactions, and \<open>ledger_history\<close> follows one
  channel through a chain of accepted transactions.
\<close>

section \<open>Transactions\<close>

record state_and_ref =
  sr_state :: contract_state
  sr_ref :: state_ref
  sr_notary :: party

datatype misc_command =
    GenesisCreate
  | HostCreate "(ident \<times> string) list" "(string \<times> string) list"
  | BankCreate
  | CashBankCreate party
  | FundAllocate address denom int

text \<open>\<open>OtherCommand\<close> stands for a command of another contract.\<close>

datatype command_data =
    Misc misc_command
  | Datagram datagram
  | OtherCommand nat

record command =
  cmd_value :: command_data
  cmd_signers :: "public_key list"

record ledger_tx =
  tx_inputs :: "state_and_ref list"
  tx_references :: "contract_state list"
  tx_outputs :: "contract_state list"
  tx_commands :: "command list"

fun as_misc :: "command \<Rightarrow> misc_command option" where
  "as_misc c = (case cmd_value c of Misc m \<Rightarrow> Some m | _ \<Rightarrow> None)"

fun as_datagram :: "command \<Rightarrow> (datagram \<times> public_key list) option" where
  "as_datagram c = (case cmd_value c of Datagram d \<Rightarrow> Some (d, cmd_signers c) | _ \<Rightarrow> None)"

definition tx_input_states :: "ledger_tx \<Rightarrow> contract_state list" where
  "tx_input_states tx = map sr_state (tx_inputs tx)"

text \<open>\<open>inRefsOfType<T>()\<close>.\<close>

definition in_refs :: "(contract_state \<Rightarrow> 'a option) \<Rightarrow> ledger_tx \<Rightarrow> ('a \<times> state_and_ref) list" where
  "in_refs sel tx =
     List.map_filter (\<lambda>s. case sel (sr_state s) of None \<Rightarrow> None | Some x \<Rightarrow> Some (x, s)) (tx_inputs tx)"

section \<open>Miscellaneous commands\<close>

definition verify_genesis_create :: "ledger_tx \<Rightarrow> unit outcome" where
  "verify_genesis_create tx =
     guardE (tx_inputs tx = []) ''No state should be consumed'' (
     guardE (length (tx_outputs tx) = 1) ''Exactly one state should be created'' (
     bindE (singleE (tx_outputs tx)) (\<lambda>s.
     guardE (kind_of s = KGenesis) ''Output type should be HostIdentifier'' (Inr ()))))"

definition verify_host_create ::
  "env \<Rightarrow> (ident \<times> string) list \<Rightarrow> (string \<times> string) list \<Rightarrow> ledger_tx \<Rightarrow> unit outcome" where
  "verify_host_create E module_names factory_names tx =
     guardE (length (tx_inputs tx) = 1) ''Exactly one state should be consumed'' (
     guardE (length (tx_outputs tx) = 1) ''Exactly one state should be created'' (
     bindE (singleE (in_refs as_genesis tx)) (\<lambda>(genesis, sr).
     bindE (singleE (List.map_filter as_host (tx_outputs tx))) (\<lambda>new_host.
     bindE (host_of_genesis (env_load_module E) (env_load_factory E) genesis (sr_ref sr) (sr_notary sr)
              module_names factory_names) (\<lambda>expected_host.
     guardE (new_host = expected_host) ''Output should be expected states'' (Inr ()))))))"

definition verify_bank_create :: "ledger_tx \<Rightarrow> unit outcome" where
  "verify_bank_create tx =
     guardE (length (tx_inputs tx) = 1) ''Exactly one state should be consumed'' (
     guardE (length (tx_outputs tx) = 2) ''Exactly two states should be created'' (
     bindE (singleE (in_refs as_host tx)) (\<lambda>(host, sr).
     bindE (singleE (List.map_filter as_host (tx_outputs tx))) (\<lambda>new_host.
     bindE (singleE (List.map_filter as_bank (tx_outputs tx))) (\<lambda>new_bank.
     let expected_bank = bank_of_host host in
     bindE (add_bank host bank_id) (\<lambda>expected_host.
     guardE ((new_host, new_bank) = (expected_host, expected_bank))
       ''Output should be expected states'' (Inr ())))))))"

text \<open>\<open>requireSingleCommand<CashBankCreate>\<close>.\<close>

definition cash_bank_signers :: "ledger_tx \<Rightarrow> public_key list outcome" where
  "cash_bank_signers tx =
     singleE (List.map_filter
       (\<lambda>c. case cmd_value c of Misc (CashBankCreate owner) \<Rightarrow> Some (cmd_signers c) | _ \<Rightarrow> None)
       (tx_commands tx))"

definition verify_cash_bank_create :: "party \<Rightarrow> ledger_tx \<Rightarrow> unit outcome" where
  "verify_cash_bank_create owner tx =
     guardE (length (tx_inputs tx) = 1) ''Exactly one state should be consumed'' (
     guardE (length (tx_outputs tx) = 2) ''Exactly two states should be created'' (
     bindE (cash_bank_signers tx) (\<lambda>signers.
     bindE (singleE (in_refs as_host tx)) (\<lambda>(host, sr).
     bindE (singleE (List.map_filter as_host (tx_outputs tx))) (\<lambda>new_host.
     bindE (singleE (List.map_filter as_cash_bank (tx_outputs tx))) (\<lambda>new_bank.
     let expected_bank = cash_bank_of_host host owner in
     bindE (add_bank host bank_id) (\<lambda>expected_host.
     guardE (owning_key owner \<in> set signers) ''Signed by bank owner'' (
     guardE ((new_host, new_bank) = (expected_host, expected_bank))
       ''Output should be expected states'' (Inr ())))))))))"

definition verify_fund_allocate :: "address \<Rightarrow> denom \<Rightarrow> int \<Rightarrow> ledger_tx \<Rightarrow> unit outcome" where
  "verify_fund_allocate owner d amount tx =
     guardE (length (tx_inputs tx) = 1) ''Exactly one state should be consumed'' (
     guardE (length (tx_outputs tx) = 1) ''Exactly one state should be created'' (
     bindE (singleE (List.map_filter as_bank (tx_input_states tx))) (\<lambda>bank.
     bindE (singleE (List.map_filter as_bank (tx_outputs tx))) (\<lambda>new_bank.
     guardE (new_bank = bank_allocate owner d amount bank) ''Output should be expected state''
       (Inr ())))))"

fun verify_misc :: "env \<Rightarrow> misc_command \<Rightarrow> ledger_tx \<Rightarrow> unit outcome" where
  "verify_misc E GenesisCreate tx = verify_genesis_create tx"
| "verify_misc E (HostCreate ms fs) tx = verify_host_create E ms fs tx"
| "verify_misc E BankCreate tx = verify_bank_create tx"
| "verify_misc E (CashBankCreate owner) tx = verify_cash_bank_create owner tx"
| "verify_misc E (FundAllocate owner d amount) tx = verify_fund_allocate owner d amount tx"

section \<open>verify\<close>

definition verify_datagram :: "env \<Rightarrow> datagram \<Rightarrow> public_key list \<Rightarrow> ledger_tx \<Rightarrow> unit outcome" where
  "verify_datagram E d signers tx =
     bindE (execute E d signers (mk_context (tx_input_states tx) (tx_references tx))) (\<lambda>c.
       verify_results (env_uid E) (tx_outputs tx) c)"

definition ibc_verify :: "env \<Rightarrow> ledger_tx \<Rightarrow> unit outcome" where
  "ibc_verify E tx =
     (case (List.map_filter as_misc (tx_commands tx), List.map_filter as_datagram (tx_commands tx)) of
        ([m], []) \<Rightarrow> verify_misc E m tx
      | ([], [(d, signers)]) \<Rightarrow> verify_datagram E d signers tx
      | _ \<Rightarrow> Inl (IllegalArgument (Some ''unacceptable number of commands'')))"

definition accepted :: "env \<Rightarrow> ledger_tx \<Rightarrow> bool" where
  "accepted E tx \<longleftrightarrow> is_ok (ibc_verify E tx)"

definition tx_datagrams :: "ledger_tx \<Rightarrow> datagram list" where
  "tx_datagrams tx = map fst (List.map_filter as_datagram (tx_commands tx))"

section \<open>Accepted transactions\<close>

lemma accepted_datagram:
  "accepted E tx \<Longrightarrow> tx_datagrams tx = [d] \<Longrightarrow>
     \<exists>signers c. execute E d signers (mk_context (tx_input_states tx) (tx_references tx)) = Inr c \<and>
       verify_results (env_uid E) (tx_outputs tx) c = Inr ()"
  by (auto simp: accepted_def is_ok_def ibc_verify_def tx_datagrams_def verify_datagram_def
      bindE_Inr_iff split: list.splits)

lemma accepted_one_datagram:
  "accepted E tx \<Longrightarrow> d \<in> set (tx_datagrams tx) \<Longrightarrow> tx_datagrams tx = [d]"
  by (auto simp: accepted_def is_ok_def ibc_verify_def tx_datagrams_def split: list.splits)

lemma map_filter_channel_member:
  "ChannelSt chan \<in> set ss \<longleftrightarrow> chan \<in> set (List.map_filter as_channel ss)"
  by (induction ss) (auto simp: List.map_filter_simps as_channel_Some split: option.splits)

lemma verify_results_channel:
  assumes "verify_results uid outs c = Inr ()" "distinct outs"
  shows "mset outs = mset (out_states c)"
    and "set (List.map_filter as_channel outs) = set (List.map_filter as_channel (out_states c))"
proof -
  from verify_results_distinct [OF assms]
  have eq: "set outs = set (out_states c)" and "distinct (out_states c)" by simp_all
  with assms(2) show "mset outs = mset (out_states c)" by (simp add: set_eq_iff_mset_eq_distinct)
  show "set (List.map_filter as_channel outs) = set (List.map_filter as_channel (out_states c))"
    using eq map_filter_channel_member by blast
qed

text \<open>A transaction that carries a message of a channel consumes exactly one channel and, when
  its outputs are distinct, outputs the one a step of the channel machine leads to.\<close>

lemma accepted_channel_step:
  assumes "accepted E tx" "distinct (tx_outputs tx)" "tx_datagrams tx = [d]" "carries d m0"
  shows "\<exists>m chan chan'. carries d m \<and> List.map_filter as_channel (tx_input_states tx) = [chan] \<and>
    set (List.map_filter as_channel (tx_outputs tx)) = {chan'} \<and> chan_step E m chan chan'"
proof -
  obtain signers c where run: "execute E d signers (mk_context (tx_input_states tx) (tx_references tx)) = Inr c"
    and results: "verify_results (env_uid E) (tx_outputs tx) c = Inr ()"
    using accepted_datagram [OF assms(1,3)] by blast
  from execute_channel_step [OF run assms(4)] obtain m chan chan' where
    "carries d m" "List.map_filter as_channel (tx_input_states tx) = [chan]"
    "List.map_filter as_channel (out_states c) = [chan']" "chan_step E m chan chan'"
    by (auto simp: mk_context_def)
  with verify_results_channel(2) [OF results assms(2)] show ?thesis by auto
qed

lemma accepted_channel_created:
  assumes "accepted E tx" "distinct (tx_outputs tx)" "ChannelSt chan \<in> set (tx_outputs tx)"
    and "tx_datagrams tx = [HandleChanOpenInit msg1] \<or>
      tx_datagrams tx = [HandleChanOpenTry msg2] \<and> hot_previous_channel_id msg2 = []"
  shows "chan_created E chan"
proof -
  obtain d where d: "tx_datagrams tx = [d]"
    "d = HandleChanOpenInit msg1 \<or> d = HandleChanOpenTry msg2 \<and> hot_previous_channel_id msg2 = []"
    using assms(4) by blast
  obtain signers c where run: "execute E d signers (mk_context (tx_input_states tx) (tx_references tx)) = Inr c"
    and results: "verify_results (env_uid E) (tx_outputs tx) c = Inr ()"
    using accepted_datagram [OF assms(1) d(1)] by blast
  have "ChannelSt chan \<in> set (out_states c)"
    using verify_results_distinct(1) [OF results assms(2)] assms(3) by simp
  with run d(2) show ?thesis
    by (auto intro: chan_created.intros simp: mk_context_def)
qed

section \<open>One channel through a chain of transactions\<close>

text \<open>The first transaction creates the channel; every further one consumes the channel the one
  before produced and carries a message of it.\<close>

inductive ledger_history :: "env \<Rightarrow> ledger_tx list \<Rightarrow> ibc_channel \<Rightarrow> bool" for E :: env where
  ledger_start: "accepted E tx \<Longrightarrow> distinct (tx_outputs tx) \<Longrightarrow> ChannelSt chan \<in> set (tx_outputs tx) \<Longrightarrow>
    tx_datagrams tx = [HandleChanOpenInit msg1] \<or>
    tx_datagrams tx = [HandleChanOpenTry msg2] \<and> hot_previous_channel_id msg2 = [] \<Longrightarrow>
    ledger_history E [tx] chan"
| ledger_next: "ledger_history E txs chan \<Longrightarrow> accepted E tx \<Longrightarrow> distinct (tx_outputs tx) \<Longrightarrow>
    tx_datagrams tx = [d] \<Longrightarrow> carries d m \<Longrightarrow> ChannelSt chan \<in> set (tx_input_states tx) \<Longrightarrow>
    ChannelSt chan' \<in> set (tx_outputs tx) \<Longrightarrow>
    ledger_history E (txs @ [tx]) chan'"

definition tx_carries :: "ledger_tx \<Rightarrow> chan_msg \<Rightarrow> bool" where
  "tx_carries tx m \<longleftrightarrow> (\<exists>d. tx_datagrams tx = [d] \<and> carries d m)"

lemma ledger_history_messages:
  "ledger_history E txs chan \<Longrightarrow>
     \<exists>ms. chan_history E ms chan \<and> list_all2 tx_carries (tl txs) ms \<and> txs \<noteq> []"
proof (induction rule: ledger_history.induct)
  case (ledger_start tx chan msg1 msg2)
  then have "chan_history E [] chan"
    by (intro history_start accepted_channel_created)
  then show ?case by auto
next
  case (ledger_next txs chan tx d m chan')
  from ledger_next.IH obtain ms where
    IH: "chan_history E ms chan" "list_all2 tx_carries (tl txs) ms" "txs \<noteq> []" by blast
  from accepted_channel_step [OF ledger_next.hyps(2-5)] obtain m' ch ch' where
    "carries d m'" "List.map_filter as_channel (tx_input_states tx) = [ch]"
    "set (List.map_filter as_channel (tx_outputs tx)) = {ch'}" "chan_step E m' ch ch'" by blast
  with ledger_next.hyps map_filter_channel_member have "carries d m'" "chan_step E m' chan chan'"
    by (metis list.set(1) list.set(2) singletonD)+
  moreover from this(1) ledger_next.hyps(4) have "list_all2 tx_carries (tl txs @ [tx]) (ms @ [m'])"
    by (intro list_all2_appendI IH(2)) (auto simp: tx_carries_def)
  ultimately show ?case
    using IH by (intro exI [of _ "ms @ [m']"]) (auto intro: history_step)
qed

text \<open>The sequences of the packets a chain of transactions receives.\<close>

fun datagram_recv :: "datagram \<Rightarrow> long list" where
  "datagram_recv (HandlePacketRecv msg) = [pkt_sequence (mrp_packet msg)]"
| "datagram_recv _ = []"

definition ledger_received :: "ledger_tx list \<Rightarrow> long list" where
  "ledger_received txs = concat (map (\<lambda>tx. concat (map datagram_recv (tx_datagrams tx))) txs)"

lemma carries_recv: "carries d m \<Longrightarrow> datagram_recv d = map (pkt_sequence \<circ> fst) (received_by m)"
  by (cases d) auto

lemma ledger_received_sequences:
  "list_all2 tx_carries txs ms \<Longrightarrow> ledger_received txs = received_sequences ms"
  by (induction rule: list_all2_induct)
    (auto simp: ledger_received_def received_sequences_def received_packets_def tx_carries_def
      carries_recv)

lemma ledger_history_received:
  assumes "ledger_history E txs chan"
  shows "\<exists>ms. chan_history E ms chan \<and> ledger_received txs = received_sequences ms"
proof -
  from ledger_history_messages [OF assms] obtain ms where
    ms: "chan_history E ms chan" "list_all2 tx_carries (tl txs) ms" "txs \<noteq> []" by blast
  have "txs \<noteq> [] \<and> concat (map datagram_recv (tx_datagrams (hd txs))) = []"
    using assms by (induction rule: ledger_history.induct) auto
  then have first: "concat (map datagram_recv (tx_datagrams (hd txs))) = []" by blast
  have "ledger_received (hd txs # tl txs) = ledger_received (tl txs)"
    using first by (simp add: ledger_received_def)
  with ms(3) have "ledger_received txs = ledger_received (tl txs)" by simp
  also have "\<dots> = received_sequences ms" by (rule ledger_received_sequences [OF ms(2)])
  finally show ?thesis using ms(1) by blast
qed

end
