(* ===== verification/Commitments.thy ===== *)
theory Commitments
  imports Handler_Packet
begin

text \<open>
  What a packet commitment (\<open>toCommitment\<close>) binds. The numbers are written with a fixed width,
  so the preimage determines them, and an injective hash makes the commitment determine the
  timeouts and the data; the sequence and the route of the packet are not part of it. Together
  with the Corda client's soundness this says what \<open>recvPacket\<close> and \<open>acknowledgePacket\<close> know
  about the counterparty.
\<close>

section \<open>Bytes of a number\<close>

lemma length_long_bytes [simp]: "length (long_bytes n) = 8"
  by (simp add: long_bytes_def)

lemma long_bytes_inject [simp]: "long_bytes m = long_bytes n \<longleftrightarrow> m = n"
proof
  assume eq: "long_bytes m = long_bytes n"
  show "m = n"
  proof (rule bit_word_eqI)
    fix k assume "k < LENGTH(64)"
    then have i: "k div 8 \<in> set (rev [0..<8])" by auto
    from eq i have "ucast (drop_bit (8 * (k div 8)) m) = (ucast (drop_bit (8 * (k div 8)) n) :: byte)"
      unfolding long_bytes_def map_eq_conv by blast
    then have "bit (ucast (drop_bit (8 * (k div 8)) m) :: byte) (k mod 8) =
        bit (ucast (drop_bit (8 * (k div 8)) n) :: byte) (k mod 8)"
      by simp
    then show "bit m k = bit n k"
      by (simp add: bit_ucast_iff bit_drop_bit_eq)
  qed
qed simp

lemma packet_to_commitment_inject:
  assumes "inj sha256" "packet_to_commitment sha256 p = packet_to_commitment sha256 q"
  shows "pkt_data p = pkt_data q \<and> pkt_timeout_height p = pkt_timeout_height q \<and>
    pkt_timeout_timestamp p = pkt_timeout_timestamp q"
  using assms(2)
  by (auto simp: packet_to_commitment_def inj_eq [OF assms(1)] intro: height.expand)

lemma packet_to_commitment_route:
  "packet_to_commitment sha256 (p\<lparr>pkt_sequence := s, pkt_source_port := sp,
     pkt_source_channel := sc, pkt_destination_port := dp, pkt_destination_channel := dc\<rparr>) =
   packet_to_commitment sha256 p"
  by (simp add: packet_to_commitment_def)

section \<open>What the handlers know of a Corda counterparty\<close>

text \<open>The context refers to exactly one client, the client of a Corda counterparty.\<close>

definition corda_client_of :: "ctx \<Rightarrow> corda_client \<Rightarrow> bool" where
  "corda_client_of c k \<longleftrightarrow>
     (case get_reference as_client c of
        Inl e \<Rightarrow> False
      | Inr client \<Rightarrow> cl_impl client = CordaClientState k)"

lemma corda_client_of_select:
  "corda_client_of c k \<Longrightarrow> select_client conn c = Inr client \<Longrightarrow> cl_impl client = CordaClientState k"
  by (simp add: corda_client_of_def select_client_Inr split: sum.splits)

lemma corda_client_of_get:
  "corda_client_of c k \<Longrightarrow> get_reference as_client c = Inr client \<Longrightarrow>
     cl_impl client = CordaClientState k"
  by (simp add: corda_client_of_def split: sum.splits)

lemma verified_commitment_corda:
  assumes "verified_commitment E c chan h w p" "corda_client_of c k"
  shows "\<exists>st q. corda_attests E k w (ChannelSt st) \<and>
    chan_port_id st = Identifier (pkt_source_port p) \<and>
    chan_id st = Identifier (pkt_source_channel p) \<and>
    packets st (pkt_sequence p) = Some q \<and>
    packet_to_commitment (env_sha256 E) q = packet_to_commitment (env_sha256 E) p"
  using assms
  by (auto simp: verified_commitment_def corda_client_of_select
      dest!: corda_light.commitment_sound) blast

lemma verified_ack_corda:
  assumes "verified_ack E c chan h w p a" "corda_client_of c k"
  shows "\<exists>st. corda_attests E k w (ChannelSt st) \<and>
    chan_port_id st = Identifier (pkt_destination_port p) \<and>
    chan_id st = Identifier (pkt_destination_channel p) \<and>
    acknowledgements st (pkt_sequence p) = Some a"
  using assms
  by (auto simp: verified_ack_def corda_client_of_select dest!: corda_light.ack_sound)

lemma verified_end_corda:
  assumes "verified_end E c chan h w i state v" "corda_client_of c k"
  shows "\<exists>st. corda_attests E k w (ChannelSt st) \<and>
    chan_port_id st = Identifier (cc_port_id (ch_counterparty (chan_end chan))) \<and>
    chan_id st = Identifier i \<and>
    ch_state (chan_end st) = state \<and>
    ch_ordering (chan_end st) = ch_ordering (chan_end chan) \<and>
    ch_counterparty (chan_end st) = \<lparr>cc_port_id = ident_string (chan_port_id chan),
                                     cc_channel_id = ident_string (chan_id chan)\<rparr> \<and>
    ch_version (chan_end st) = v"
proof -
  obtain conn client port j where
    "select_client conn c = Inr client"
    and ids: "mk_identifier (cc_port_id (ch_counterparty (chan_end chan))) = Inr port"
      "mk_identifier i = Inr j"
    and verified: "verify_channel_state E (cl_impl client) h (cp_prefix (ce_counterparty (conn_end conn)))
          w port j
          \<lparr>ch_state = state, ch_ordering = ch_ordering (chan_end chan),
           ch_counterparty = \<lparr>cc_port_id = ident_string (chan_port_id chan),
                              cc_channel_id = ident_string (chan_id chan)\<rparr>,
           ch_connection_hops = [cp_connection_id (ce_counterparty (conn_end conn))],
           ch_version = v\<rparr> = Inr ()"
    using assms(1) by (auto simp: verified_end_def)
  then have "cl_impl client = CordaClientState k"
    using assms(2) by (blast intro: corda_client_of_select)
  with verified corda_light.channel_sound obtain st where
    "corda_attests E k w (ChannelSt st)" "chan_port_id st = port" "chan_id st = j"
    "chan_end st = \<lparr>ch_state = state, ch_ordering = ch_ordering (chan_end chan),
           ch_counterparty = \<lparr>cc_port_id = ident_string (chan_port_id chan),
                              cc_channel_id = ident_string (chan_id chan)\<rparr>,
           ch_connection_hops = [cp_connection_id (ce_counterparty (conn_end conn))],
           ch_version = v\<rparr>"
    by fastforce
  with ids show ?thesis by (intro exI [of _ st]) (auto simp: mk_identifier_Inr_iff)
qed

end
