(* ===== verification/Demo.thy ===== *)
theory Demo
  imports Ibc_Contract Commitments
begin

text \<open>
  A concrete instance of the model, on which the properties with hypotheses are exercised: an
  environment with simple total functions for the external code, a host, a client of a Corda
  counterparty, an open connection and two channels, one unordered and one ordered, taken
  through a handshake and packets. The last parameter of the environment says which
  transaction each proof stands for.
\<close>

section \<open>The environment\<close>

definition demo_amount_ops :: "'t \<Rightarrow> 't amount_ops" where
  "demo_amount_ops t =
     \<lparr>ao_make = (\<lambda>q t. Inr \<lparr>quantity = q, token = t\<rparr>),
      ao_sum = (\<lambda>xs. if xs = [] then Inl NoSuchElement
        else Inr \<lparr>quantity = sum_list (map quantity xs), token = token (hd xs)\<rparr>),
      ao_minus = (\<lambda>a b. Inr \<lparr>quantity = quantity a - quantity b, token = token a\<rparr>),
      ao_compare = (\<lambda>a b. Inr (long_compare (quantity a) (quantity b))),
      ao_from_decimal = (\<lambda>d t. Inr \<lparr>quantity = word_of_int (fst d), token = t\<rparr>)\<rparr>"

definition demo_packet_data :: packet_data where
  "demo_packet_data =
     \<lparr>pd_denom = ''coin'', pd_amount = ''5'', pd_sender = ''alice'', pd_receiver = ''bob''\<rparr>"

definition demo_transfer :: msg_transfer where
  "demo_transfer =
     \<lparr>mt_source_port = ''nop'', mt_source_channel = ''channel-0'', mt_token_denom = ''coin'',
      mt_token_amount = ''5'', mt_sender = ''alice'', mt_receiver = ''bob'',
      mt_timeout_height = Height 0 0, mt_timeout_timestamp = 0\<rparr>"

text \<open>In five-bit groups, the addresses of Alice and Bob are the bytes 1 and 2.\<close>

definition demo_bech32_decode :: "string \<Rightarrow> (string \<times> bytes) outcome" where
  "demo_bech32_decode s = Inr (bech32_prefix, if s = ''alice'' then [0, 4] else [0, 8])"

definition demo_outgoing :: packet where
  "demo_outgoing =
     \<lparr>pkt_sequence = 1, pkt_source_port = ''nop'', pkt_source_channel = ''channel-0'',
      pkt_destination_port = ''nop'', pkt_destination_channel = ''channel-3'', pkt_data = [43],
      pkt_timeout_height = Height 0 0, pkt_timeout_timestamp = 0\<rparr>"

definition demo_trace :: denom_trace where
  "demo_trace = \<lparr>trace_path = [], trace_base_denom = ''coin''\<rparr>"

definition demo_currency :: issued_currency where
  "demo_currency = \<lparr>issuer = Party [7], issuer_reference = [], product = ''USD''\<rparr>"

definition demo_any :: any where
  "demo_any = \<lparr>type_url = ''/ibc.lightclients.corda.v1.ClientState'', any_value = []\<rparr>"

definition demo_env :: "(bytes \<Rightarrow> signed_tx outcome) \<Rightarrow> env" where
  "demo_env proofs =
     \<lparr>env_sha256 = (\<lambda>bs. bs), env_to_hex = map (\<lambda>b. char_of (unat b)), env_from_hex = (\<lambda>s. Inr (map of_char s)),
      env_decode_key = Inr, env_currency_of = Inr,
      env_bech32_encode = (\<lambda>hrp bs. map (\<lambda>b. char_of (unat b)) bs),
      env_bech32_decode = demo_bech32_decode,
      env_uid = (\<lambda>b s. sr_txhash b @ ascii_bytes s),
      env_parse_packet_data = (\<lambda>bs. Inr demo_packet_data),
      env_print_packet_data = (\<lambda>d. []),
      env_parse_ack = (\<lambda>bs. Inr (if bs = [] then AckError [] else AckResult bs)),
      env_unpack_transfer = (\<lambda>a. Inr demo_transfer),
      env_unpack_packet = (\<lambda>a. Inr demo_outgoing),
      env_unpack_corda_client = (\<lambda>a. Inr (StateRef [1] 0, [9])),
      env_unpack_corda_consensus = (\<lambda>a. Inr ()),
      env_default_corda_consensus = demo_any,
      env_deserialize_proof = proofs,
      env_filtered_verify = (\<lambda>stx. Inr ()),
      env_load_module = (\<lambda>s. Inr NopModule),
      env_load_factory = (\<lambda>s. Inr CordaClientStateFactory),
      env_opaque_bytes = (\<lambda>bs. if bs = [] then Inl (IllegalArgument None) else Inr ()),
      env_cash_ops = demo_amount_ops demo_currency,
      env_voucher_ops = demo_amount_ops demo_trace,
      env_fabric_client_type = (\<lambda>c. Inr ''fabric''),
      env_fabric_latest_height = (\<lambda>c. Inr (Height 0 1)),
      env_fabric_timestamp = (\<lambda>a. Inr 1),
      env_fabric_last_sequence = (\<lambda>a. Inr 1),
      env_fabric_check_header = (\<lambda>c a. Inl NotImplemented),
      env_fabric_verify_client = (\<lambda>c h p i prf a. Inr ()),
      env_fabric_verify_consensus = (\<lambda>c h i ch p prf a. Inr ()),
      env_fabric_verify_connection = (\<lambda>c h p prf i e. Inr ()),
      env_fabric_verify_channel = (\<lambda>c h p prf port i e. Inr ()),
      env_fabric_verify_commitment = (\<lambda>c h dt db p prf port i s bs. Inr ()),
      env_fabric_verify_ack = (\<lambda>c h dt db p prf port i s a. Inr ()),
      env_fabric_verify_next_recv = (\<lambda>c h dt db p prf port i s. Inr ()),
      env_fabric_verify_receipt_absence = (\<lambda>c h dt db p prf port i s. Inr ())\<rparr>"

section \<open>Host, client and connection\<close>

definition demo_host :: host where
  "demo_host =
     \<lparr>host_participants = [Party [1]], host_base_id = StateRef [5] 0, host_notary = Party [2],
      next_client_sequence = 1, next_connection_sequence = 1, next_channel_sequence = 0,
      host_modules = (\<lambda>i. if i = Identifier ''transfer'' then Some Ics20Module
        else if i = Identifier ''cash'' then Some Ics20CashModule else Some NopModule),
      host_factories = (\<lambda>s. Some CordaClientStateFactory), host_bank_ids = [bank_id]\<rparr>"

definition demo_corda_client :: corda_client where
  "demo_corda_client =
     \<lparr>ccl_any_client_state = demo_any, ccl_any_consensus_states = [corda_HEIGHT \<mapsto> demo_any],
      ccl_base_id = StateRef [1] 0, ccl_notary_key = [9]\<rparr>"

definition demo_client :: ibc_client_state where
  "demo_client =
     mk_ibc_client_state demo_host (Identifier ''corda-ibc-0'') (CordaClientState demo_corda_client)"

definition demo_connection :: ibc_connection where
  "demo_connection = mk_ibc_connection demo_host (Identifier ''connection-0'')
     \<lparr>ce_client_id = ''corda-ibc-0'', ce_versions = [corda_VERSION], ce_state = CONN_OPEN,
      ce_counterparty = \<lparr>cp_client_id = ''corda-ibc-0'', cp_connection_id = ''connection-7'',
                         cp_prefix = corda_PREFIX\<rparr>,
      ce_delay_period = 0\<rparr>"

definition demo_refs :: "contract_state list" where
  "demo_refs = [HostState demo_host, ConnectionSt demo_connection, ClientSt demo_client]"

section \<open>A channel end and its counterparty\<close>

definition demo_end :: "chan_state \<Rightarrow> order \<Rightarrow> channel_end" where
  "demo_end st ord =
     \<lparr>ch_state = st, ch_ordering = ord,
      ch_counterparty = \<lparr>cc_port_id = ''nop'', cc_channel_id = []\<rparr>,
      ch_connection_hops = [''connection-0''], ch_version = ''v''\<rparr>"

text \<open>The counterparty's channel, in a given state of its handshake, with one packet stored and
  one acknowledgement written.\<close>

definition demo_packet :: packet where
  "demo_packet =
     \<lparr>pkt_sequence = 1, pkt_source_port = ''nop'', pkt_source_channel = ''channel-3'',
      pkt_destination_port = ''nop'', pkt_destination_channel = ''channel-0'', pkt_data = [42],
      pkt_timeout_height = Height 0 0, pkt_timeout_timestamp = 0\<rparr>"

definition demo_counterparty :: "chan_state \<Rightarrow> order \<Rightarrow> ibc_channel" where
  "demo_counterparty st ord =
     \<lparr>chan_participants = [], chan_base_id = StateRef [1] 0, chan_id = Identifier ''channel-3'',
      chan_port_id = Identifier ''nop'',
      chan_end = \<lparr>ch_state = st, ch_ordering = ord,
        ch_counterparty = \<lparr>cc_port_id = ''nop'', cc_channel_id = ''channel-0''\<rparr>,
        ch_connection_hops = [''connection-7''], ch_version = ''v''\<rparr>,
      next_sequence_send = 2, next_sequence_recv = 2, next_sequence_ack = 1,
      packets = [1 \<mapsto> demo_packet], receipts = {1}, acknowledgements = [1 \<mapsto> AckResult [1]]\<rparr>"

definition demo_proofs :: "order \<Rightarrow> bytes \<Rightarrow> signed_tx outcome" where
  "demo_proofs ord bs =
     Inr \<lparr>stx_outputs = [ChannelSt (demo_counterparty (if bs = [1] then CHAN_TRYOPEN
            else if bs = [3] then CHAN_CLOSED else CHAN_OPEN) ord)],
          stx_notary = Some (Party [9]), stx_signers = [[9]]\<rparr>"

section \<open>Steps by execution\<close>

text \<open>Running a handler on a context yields a step; the new channel is the one it outputs.\<close>

definition output_channel :: "ctx outcome \<Rightarrow> ibc_channel" where
  "output_channel r = hd (List.map_filter as_channel (out_states (projr r)))"

lemma is_ok_code [code]: "is_ok r = (case r of Inl e \<Rightarrow> False | Inr x \<Rightarrow> True)"
  by (cases r) auto

definition demo_ctx :: "contract_state list \<Rightarrow> ctx" where
  "demo_ctx ins = mk_context ins demo_refs"

lemma demo_ctx_simps [simp]:
  "in_states (demo_ctx ins) = ins" "out_states (demo_ctx ins) = []"
  by (simp_all add: demo_ctx_def mk_context_def)

lemma chan_step_execution:
  assumes "is_ok (handle_channel E m (demo_ctx [ChannelSt chan]))" "continues m"
  shows "chan_step E m chan (output_channel (handle_channel E m (demo_ctx [ChannelSt chan])))"
proof -
  obtain c' where run: "handle_channel E m (demo_ctx [ChannelSt chan]) = Inr c'"
    using assms(1) by (auto simp: is_ok_def)
  from handle_channel_output [OF run assms(2)] obtain chan' where
    "List.map_filter as_channel (out_states c') = [chan']"
    by auto
  with map_filter_channel_member [of chan' "out_states c'"] run show ?thesis
    by (intro chan_stepI [OF run assms(2)])
      (simp_all add: output_channel_def get_input_Inr map_filter_simps)
qed

definition demo_ack_msg :: msg_chan_open_ack where
  "demo_ack_msg = \<lparr>hoa_port_id = ''nop'', hoa_channel_id = ''channel-0'',
     hoa_counterparty_channel_id = ''channel-3'', hoa_counterparty_version = ''v'',
     hoa_proof_try = [1], hoa_proof_height = corda_HEIGHT\<rparr>"

lemma add_output_ok:
  "is_ibc_state s \<Longrightarrow> \<forall>t \<in> set (out_states c). kind_of t \<noteq> kind_of s \<Longrightarrow>
     add_output s c = Inr (c\<lparr>out_states := out_states c @ [s]\<rparr>)"
  by (auto simp: add_output_fresh)

lemma demo_env_simps [simp]:
  "env_sha256 (demo_env proofs) = (\<lambda>bs. bs)"
  "env_deserialize_proof (demo_env proofs) = proofs"
  "env_filtered_verify (demo_env proofs) = (\<lambda>stx. Inr ())"
  "env_bech32_decode (demo_env proofs) = demo_bech32_decode"
  "env_unpack_transfer (demo_env proofs) = (\<lambda>a. Inr demo_transfer)"
  "env_unpack_packet (demo_env proofs) = (\<lambda>a. Inr demo_outgoing)"
  "env_parse_packet_data (demo_env proofs) = (\<lambda>bs. Inr demo_packet_data)"
  "env_parse_ack (demo_env proofs) = (\<lambda>bs. Inr (if bs = [] then AckError [] else AckResult bs))"
  "env_uid (demo_env proofs) = (\<lambda>b s. sr_txhash b @ ascii_bytes s)"
  "env_opaque_bytes (demo_env proofs) =
     (\<lambda>bs. if bs = [] then Inl (IllegalArgument None) else Inr ())"
  by (simp_all add: demo_env_def)

lemmas demo_states = demo_host_def demo_client_def demo_connection_def demo_refs_def demo_ctx_def
  mk_context_def mk_ibc_client_state_def mk_ibc_connection_def mk_ibc_channel_def

lemmas demo_eval = demo_states get_input_def get_inputs_def get_reference_def get_references_def
  List.map_filter_simps select_channel_def select_connection_def select_client_def Let_def
  add_output_ok is_ibc_state_def

lemma demo_identifier [simp]:
  "mk_identifier ''nop'' = Inr (Identifier ''nop'')"
  "mk_identifier ''channel-0'' = Inr (Identifier ''channel-0'')"
  "mk_identifier ''channel-3'' = Inr (Identifier ''channel-3'')"
  "mk_identifier ''connection-0'' = Inr (Identifier ''connection-0'')"
  "mk_identifier ''connection-7'' = Inr (Identifier ''connection-7'')"
  "mk_identifier ''corda-ibc-0'' = Inr (Identifier ''corda-ibc-0'')"
  "mk_identifier ''transfer'' = Inr (Identifier ''transfer'')"
  "mk_identifier ''cash'' = Inr (Identifier ''cash'')"
  by (simp_all add: mk_identifier_def identifier_char_def)

lemma demo_generate: "generate_channel_identifier demo_host =
    Inr (demo_host\<lparr>next_channel_sequence := 1\<rparr>, Identifier ''channel-0'')"
proof -
  have "nat_to_string 0 = ''0''" by code_simp
  then show ?thesis
    by (simp add: generate_channel_identifier_eq demo_host_def int_to_string_def)
qed

section \<open>A history\<close>

definition demo_chan0 :: "order \<Rightarrow> ibc_channel" where
  "demo_chan0 ord = mk_ibc_channel demo_host (Identifier ''nop'') (Identifier ''channel-0'')
     (demo_end CHAN_INIT ord)"

lemma demo_open_init: "ord \<in> {ORDER_UNORDERED, ORDER_ORDERED} \<Longrightarrow>
   chan_open_init \<lparr>hoi_port_id = ''nop'', hoi_channel = demo_end CHAN_UNINITIALIZED ord\<rparr>
     (demo_ctx [HostState demo_host]) =
   Inr ((demo_ctx [HostState demo_host])\<lparr>out_states :=
     [HostState (demo_host\<lparr>next_channel_sequence := 1\<rparr>), ChannelSt (demo_chan0 ord)]\<rparr>)"
  by (cases ord)
    (auto simp: chan_open_init_def demo_chan0_def demo_end_def demo_refs_def demo_ctx_def
      demo_connection_def mk_ibc_connection_def mk_context_def get_input_def get_inputs_def
      get_reference_def get_references_def List.map_filter_simps select_connection_def
      add_output_ok is_ibc_state_def corda_VERSION_def demo_generate)

definition demo_chan1 :: "order \<Rightarrow> ibc_channel" where
  "demo_chan1 ord = (demo_chan0 ord)\<lparr>chan_end := (demo_end CHAN_OPEN ord)\<lparr>
     ch_counterparty := \<lparr>cc_port_id = ''nop'', cc_channel_id = ''channel-3''\<rparr>\<rparr>\<rparr>"

definition demo_chan2 :: "order \<Rightarrow> ibc_channel" where
  "demo_chan2 ord = (demo_chan1 ord)\<lparr>next_sequence_send := 2, packets := [1 \<mapsto> demo_outgoing]\<rparr>"

definition demo_chan3 :: "order \<Rightarrow> ibc_channel" where
  "demo_chan3 ord = the (received demo_packet AckNotSet (demo_chan2 ord))"

definition demo_chan4 :: "order \<Rightarrow> ibc_channel" where
  "demo_chan4 ord = the (acked demo_outgoing (demo_chan3 ord))"

lemmas demo_channels = demo_chan0_def demo_chan1_def demo_chan2_def demo_chan3_def demo_chan4_def
  demo_end_def mk_ibc_channel_def demo_packet_def demo_outgoing_def

lemma demo_selects [simp]:
  "get_reference as_host (demo_ctx ins) = Inr demo_host"
  "get_reference as_connection (demo_ctx ins) = Inr demo_connection"
  "get_reference as_client (demo_ctx ins) = Inr demo_client"
  "get_input as_channel (demo_ctx [ChannelSt chan]) = Inr chan"
  "select_connection [''connection-0''] (demo_ctx ins) = Inr demo_connection"
  "select_client demo_connection (demo_ctx ins) = Inr demo_client"
  by (simp_all add: get_reference_def get_references_def get_input_def get_inputs_def demo_ctx_def
      mk_context_def demo_refs_def List.map_filter_simps select_connection_def select_client_def
      demo_connection_def mk_ibc_connection_def demo_client_def mk_ibc_client_state_def)

lemma demo_parts [simp]:
  "ce_state (conn_end demo_connection) = CONN_OPEN"
  "ce_delay_period (conn_end demo_connection) = 0"
  "ce_client_id (conn_end demo_connection) = ''corda-ibc-0''"
  "cp_connection_id (ce_counterparty (conn_end demo_connection)) = ''connection-7''"
  "cp_prefix (ce_counterparty (conn_end demo_connection)) = corda_PREFIX"
  "cl_impl demo_client = CordaClientState demo_corda_client"
  "ccl_base_id demo_corda_client = StateRef [1] 0" "ccl_notary_key demo_corda_client = [9]"
  by (simp_all add: demo_connection_def mk_ibc_connection_def demo_client_def
      mk_ibc_client_state_def demo_corda_client_def)

lemma demo_proof [simp]:
  "w \<noteq> [] \<Longrightarrow> mk_proof (demo_env proofs) w = Inr w"
  by (simp add: mk_proof_def)

lemma demo_attests: "corda_attests (demo_env (demo_proofs ord)) demo_corda_client w
    (ChannelSt (demo_counterparty (if w = [1] then CHAN_TRYOPEN
       else if w = [3] then CHAN_CLOSED else CHAN_OPEN) ord))"
  by (simp add: corda_attests_iff to_signed_transaction_def demo_proofs_def demo_counterparty_def)

lemma demo_verify_channel:
  assumes "e = chan_end (demo_counterparty (if w = [1] then CHAN_TRYOPEN
    else if w = [3] then CHAN_CLOSED else CHAN_OPEN) ord)"
  shows "corda_verify_channel_state (demo_env (demo_proofs ord)) demo_corda_client corda_HEIGHT
    prefix w (Identifier ''nop'') (Identifier ''channel-3'') e = Inr ()"
  using demo_attests [of ord w] assms
  by (auto simp: corda_verify_iff demo_counterparty_def simp del: demo_proof)

lemma demo_step1: "chan_step (demo_env (demo_proofs ord)) (ChanAck demo_ack_msg)
    (demo_chan0 ord) (demo_chan1 ord)"
proof -
  let ?E = "demo_env (demo_proofs ord)"
  let ?r = "handle_channel ?E (ChanAck demo_ack_msg) (demo_ctx [ChannelSt (demo_chan0 ord)])"
  have "is_ok ?r"
    by (simp add: chan_open_ack_def select_channel_def demo_ack_msg_def demo_chan0_def
        mk_ibc_channel_def demo_end_def add_output_ok is_ibc_state_def
        demo_verify_channel demo_counterparty_def)
  from chan_step_execution [OF this] have "chan_step ?E (ChanAck demo_ack_msg) (demo_chan0 ord)
    (output_channel ?r)" by simp
  with chan_step_ChanAck [OF this] show ?thesis
    by (simp add: demo_chan1_def demo_chan0_def demo_end_def mk_ibc_channel_def demo_ack_msg_def)
qed

lemma demo_parse_client: "parse_client_identifier (Identifier ''corda-ibc-0'') = Inr (CordaClient, 0)"
  by code_simp

lemma demo_step2: "chan_step (demo_env (demo_proofs ord)) (SendPacket demo_outgoing)
    (demo_chan1 ord) (demo_chan2 ord)"
proof -
  let ?E = "demo_env (demo_proofs ord)"
  let ?r = "handle_channel ?E (SendPacket demo_outgoing) (demo_ctx [ChannelSt (demo_chan1 ord)])"
  have "is_ok ?r"
    by (simp add: send_packet_def select_channel_def demo_channels add_output_ok is_ibc_state_def
        check_counterparty_timestamp_def demo_parse_client before_timeout_height_def
        height_is_zero_def)
  from chan_step_execution [OF this] have "chan_step ?E (SendPacket demo_outgoing) (demo_chan1 ord)
    (output_channel ?r)" by simp
  with chan_step_SendPacket [OF this] show ?thesis
    by (simp add: sent_Some demo_chan2_def demo_chan1_def demo_chan0_def mk_ibc_channel_def
        demo_outgoing_def)
qed

lemma demo_verify_commitment:
  "w \<noteq> [1] \<Longrightarrow> corda_verify_packet_commitment (demo_env (demo_proofs ord)) demo_corda_client corda_HEIGHT
    0 0 prefix w (Identifier ''nop'') (Identifier ''channel-3'') 1
    (packet_to_commitment (\<lambda>bs. bs) demo_packet) = Inr ()"
  using demo_attests [of ord w]
  by (auto simp: corda_verify_iff demo_counterparty_def intro!: exI)

lemma demo_verify_ack:
  "corda_verify_packet_acknowledgement (demo_env (demo_proofs ord)) demo_corda_client corda_HEIGHT
    0 0 prefix w (Identifier ''nop'') (Identifier ''channel-3'') 1 (AckResult [1]) = Inr ()"
  using demo_attests [of ord w]
  by (auto simp: corda_verify_iff demo_counterparty_def intro!: exI split: if_splits)

lemma demo_step3:
  assumes "ord \<in> {ORDER_UNORDERED, ORDER_ORDERED}"
  shows "chan_step (demo_env (demo_proofs ord)) (RecvPacket demo_packet [2] corda_HEIGHT AckNotSet)
    (demo_chan2 ord) (demo_chan3 ord)"
proof -
  let ?E = "demo_env (demo_proofs ord)" and ?m = "RecvPacket demo_packet [2] corda_HEIGHT AckNotSet"
  let ?r = "handle_channel ?E ?m (demo_ctx [ChannelSt (demo_chan2 ord)])"
  have "is_ok ?r"
    using assms demo_verify_commitment [of "[2]" ord]
    by (auto simp: recv_packet_def select_channel_def demo_channels add_output_ok is_ibc_state_def
        before_timeout_height_def height_is_zero_def before_timeout_timestamp_def)
  from chan_step_execution [OF this] have "chan_step ?E ?m (demo_chan2 ord) (output_channel ?r)"
    by simp
  with chan_step_RecvPacket [OF this] show ?thesis by (simp add: demo_chan3_def)
qed

lemma demo_step4:
  assumes "ord \<in> {ORDER_UNORDERED, ORDER_ORDERED}"
  shows "chan_step (demo_env (demo_proofs ord)) (AckPacket demo_outgoing (AckResult [1]) [2] corda_HEIGHT)
    (demo_chan3 ord) (demo_chan4 ord)"
proof -
  let ?E = "demo_env (demo_proofs ord)"
    and ?m = "AckPacket demo_outgoing (AckResult [1]) [2] corda_HEIGHT"
  let ?r = "handle_channel ?E ?m (demo_ctx [ChannelSt (demo_chan3 ord)])"
  have "is_ok ?r"
    using assms demo_verify_ack [of ord]
    by (auto simp: acknowledge_packet_def select_channel_def demo_channels received_def
        add_output_ok is_ibc_state_def)
  from chan_step_execution [OF this] have "chan_step ?E ?m (demo_chan3 ord) (output_channel ?r)"
    by simp
  with chan_step_AckPacket [OF this] show ?thesis by (simp add: demo_chan4_def)
qed

definition demo_messages :: "chan_msg list" where
  "demo_messages = [ChanAck demo_ack_msg, SendPacket demo_outgoing,
     RecvPacket demo_packet [2] corda_HEIGHT AckNotSet,
     AckPacket demo_outgoing (AckResult [1]) [2] corda_HEIGHT]"

lemma demo_created: "ord \<in> {ORDER_UNORDERED, ORDER_ORDERED} \<Longrightarrow>
    chan_created (demo_env (demo_proofs ord)) (demo_chan0 ord)"
  using demo_open_init [of ord] by (auto intro!: created_by_init)

lemma demo_history:
  assumes "ord \<in> {ORDER_UNORDERED, ORDER_ORDERED}"
  shows "chan_history (demo_env (demo_proofs ord)) demo_messages (demo_chan4 ord)"
proof -
  have "run (chan_step (demo_env (demo_proofs ord)))
      ((([] @ [ChanAck demo_ack_msg]) @ [SendPacket demo_outgoing]) @
        [RecvPacket demo_packet [2] corda_HEIGHT AckNotSet] @
        [AckPacket demo_outgoing (AckResult [1]) [2] corda_HEIGHT])
      (demo_chan0 ord) (demo_chan4 ord)"
    using demo_step1 [of ord] demo_step2 [of ord] demo_step3 [OF assms] demo_step4 [OF assms]
    unfolding run_append by (auto simp: run_single)
  with demo_created [OF assms] show ?thesis
    by (auto simp: chan_history_run demo_messages_def)
qed

lemma demo_ordering [simp]:
  "ord \<in> {ORDER_UNORDERED, ORDER_ORDERED} \<Longrightarrow> ch_ordering (chan_end (demo_chan4 ord)) = ord"
  by (auto simp: demo_channels received_def acked_def)

end
