(* ===== verification/Channel_Properties.thy ===== *)
theory Channel_Properties
  imports Demo
begin

text \<open>
  Properties of channels and packets: each is stated over the handlers, the step relation or a
  history, follows from the lemmas of \<open>Packet_Flow\<close>, \<open>Channel_Machine\<close> and \<open>Commitments\<close>, and is
  applied to the demonstration history by its witness.
\<close>

section \<open>Receiving\<close>

text \<open>C2: on an unordered channel every sequence is received at most once, whatever datagrams the
  channel has seen since its creation, and the receipts are exactly the sequences received.\<close>

theorem unordered_exactly_once:
  assumes "chan_history E ms chan" "ch_ordering (chan_end chan) = ORDER_UNORDERED"
  shows "distinct (received_sequences ms) \<and> receipts chan = set (received_sequences ms)"
  using receive_unordered [OF assms] by simp

theorem unordered_exactly_once_witness:
  "receipts (demo_chan4 ORDER_UNORDERED) = set (received_sequences demo_messages)"
  using unordered_exactly_once [OF demo_history [of ORDER_UNORDERED]] by simp

text \<open>C3: on an ordered channel packets are received in the order 1, 2, 3, ... without gaps, and
  the counter is the next one (as 64-bit numbers).\<close>

theorem ordered_in_sequence:
  assumes "chan_history E ms chan" "ch_ordering (chan_end chan) = ORDER_ORDERED"
  shows "received_sequences ms = map of_nat [1..<Suc (length (received_sequences ms))] \<and>
    next_sequence_recv chan = of_nat (Suc (length (received_sequences ms)))"
  using receive_ordered [OF assms] by (simp add: counted_def)

theorem ordered_in_sequence_witness:
  "next_sequence_recv (demo_chan4 ORDER_ORDERED) = of_nat (Suc (length (received_sequences demo_messages)))"
  using ordered_in_sequence [OF demo_history [of ORDER_ORDERED]] by simp

text \<open>A packet whose sequence was received before is refused, whoever relays it and whatever
  proof and acknowledgement come with it: \<open>recvPacket\<close> fails on every context whose channel has
  that history.\<close>

theorem replay_refused:
  assumes "chan_history E ms chan" "length (received_packets ms) < 2 ^ 64 - 1"
    and "pkt_sequence p \<in> set (received_sequences ms)"
    and "get_input as_channel c = Inr chan"
  shows "\<not> is_ok (recv_packet E p w h a c)"
proof
  assume "is_ok (recv_packet E p w h a c)"
  then obtain c' where "recv_packet E p w h a c = Inr c'" by (auto simp: is_ok_def)
  from recv_packet_Inr [OF this] assms(4) obtain chan' where step: "received p a chan = Some chan'"
    and out: "c' = c\<lparr>out_states := out_states c @ [ChannelSt chan']\<rparr>"
      "\<forall>t \<in> set (out_states c). kind_of t \<noteq> KChannel"
    by (auto simp: select_channel_Inr)
  have "chan_step E (RecvPacket p w h a) chan chan'"
    using out assms(4) \<open>recv_packet E p w h a c = Inr c'\<close>
    by (intro chan_stepI [of E _ c c']) auto
  with assms(1) have "chan_history E (ms @ [RecvPacket p w h a]) chan'" by (rule history_step)
  from received_distinct [OF this] assms(2,3) show False
    by simp
qed

theorem replay_refused_witness:
  "\<not> is_ok (recv_packet (demo_env (demo_proofs ORDER_ORDERED)) demo_packet [2] corda_HEIGHT AckNotSet
     (demo_ctx [ChannelSt (demo_chan4 ORDER_ORDERED)]))"
  by (rule replay_refused [OF demo_history [of ORDER_ORDERED]])
    (simp_all add: demo_messages_def received_packets_def received_sequences_def)

text \<open>C5: the acknowledgement stored for a received packet is the one its datagram wrote: it is
  there and is never overwritten by later messages.\<close>

theorem acknowledgement_stable:
  assumes "chan_history E ms chan" "length (received_packets ms) < 2 ^ 64"
    and "(p, a) \<in> set (received_packets ms)"
  shows "acknowledgements chan (pkt_sequence p) = Some a"
  using assms by (rule received_ack_stored)

theorem acknowledgement_stable_witness:
  "acknowledgements (demo_chan4 ORDER_ORDERED) (pkt_sequence demo_packet) = Some AckNotSet"
  by (rule acknowledgement_stable [OF demo_history [of ORDER_ORDERED]])
    (simp_all add: demo_messages_def received_packets_def)

section \<open>Sending and acknowledging\<close>

text \<open>The packets sent on a channel carry the sequences 1, 2, 3, ... in the order they were
  sent, and the counter is the next one (as 64-bit numbers).\<close>

theorem sends_numbered:
  assumes "chan_history E ms chan"
  shows "map pkt_sequence (sent_packets ms) = map of_nat [1..<Suc (length (sent_packets ms))] \<and>
    next_sequence_send chan = of_nat (Suc (length (sent_packets ms)))"
  using send_counter [OF assms] by (simp add: counted_def)

theorem sends_numbered_witness:
  "next_sequence_send (demo_chan4 ORDER_ORDERED) = of_nat (Suc (length (sent_packets demo_messages)))"
  using sends_numbered [OF demo_history [of ORDER_ORDERED]] by simp

text \<open>C6: as long as fewer than \<open>2 ^ 64\<close> packets have been sent, a packet is acknowledged at most
  once, only packets sent on the channel are, and the commitment of an acknowledged packet is
  gone for good.\<close>

theorem acknowledged_once:
  assumes "chan_history E ms chan" "length (sent_packets ms) < 2 ^ 64"
  shows "distinct (map pkt_sequence (acked_packets ms)) \<and>
    set (acked_packets ms) \<subseteq> set (sent_packets ms) \<and>
    (\<forall>p \<in> set (acked_packets ms). packets chan (pkt_sequence p) = None)"
  using acked_removed [OF assms] acked_was_sent [OF assms(1)] by blast

theorem acknowledged_once_witness:
  "packets (demo_chan4 ORDER_ORDERED) 1 = None"
proof -
  have "\<forall>p \<in> set (acked_packets demo_messages).
      packets (demo_chan4 ORDER_ORDERED) (pkt_sequence p) = None"
    using acknowledged_once [OF demo_history [of ORDER_ORDERED]]
    by (simp add: demo_messages_def sent_packets_def)
  then show ?thesis by (simp add: demo_messages_def acked_packets_def demo_outgoing_def)
qed


lemma demo_history3:
  "chan_history (demo_env (demo_proofs ORDER_UNORDERED))
     [ChanAck demo_ack_msg, SendPacket demo_outgoing] (demo_chan2 ORDER_UNORDERED)"
proof -
  have "run (chan_step (demo_env (demo_proofs ORDER_UNORDERED)))
      ([ChanAck demo_ack_msg] @ [SendPacket demo_outgoing])
      (demo_chan0 ORDER_UNORDERED) (demo_chan2 ORDER_UNORDERED)"
    using demo_step1 demo_step2 unfolding run_append by auto
  with demo_created [of ORDER_UNORDERED] show ?thesis by (auto simp: chan_history_run)
qed


text \<open>C8: on an ordered channel packets are also acknowledged in the order they were sent.\<close>

theorem acknowledged_in_sequence:
  assumes "chan_history E ms chan" "ch_ordering (chan_end chan) = ORDER_ORDERED"
  shows "map pkt_sequence (acked_packets ms) = map of_nat [1..<Suc (length (acked_packets ms))]"
  using acks_ordered [OF assms] by (simp add: counted_def)

theorem acknowledged_in_sequence_witness:
  "map pkt_sequence (acked_packets demo_messages) = [1]"
  using acknowledged_in_sequence [OF demo_history [of ORDER_ORDERED]]
  by (simp add: demo_messages_def acked_packets_def)

section \<open>Handshake\<close>

text \<open>C9: \<open>CLOSED\<close> is final: no message is accepted on a closed channel.\<close>

theorem closed_is_final:
  assumes "ch_state (chan_end chan) = CHAN_CLOSED"
  shows "\<not> chan_step E m chan chan'"
proof
  assume step: "chan_step E m chan chan'"
  with assms show False
    by (cases m) (auto simp: update_Some dest!: chan_step_effects)
qed

theorem closed_is_final_witness:
  "\<not> chan_step (demo_env (demo_proofs ORDER_ORDERED)) (SendPacket demo_packet)
     (demo_counterparty CHAN_CLOSED ORDER_ORDERED) (demo_counterparty CHAN_OPEN ORDER_ORDERED)"
  by (rule closed_is_final) (simp add: demo_counterparty_def)

text \<open>C10: the handshake only moves forward, \<open>INIT\<close>, \<open>TRYOPEN\<close>, \<open>OPEN\<close>, \<open>CLOSED\<close>, and packets do
  not move it: a channel accepts at most three handshake or closing messages after its creation.\<close>

theorem handshake_moves_forward:
  assumes "chan_history E ms chan"
  shows "length (filter chan_advances ms) \<le> 3 \<and> Suc (length (filter chan_advances ms)) \<le> chan_rank chan"
proof -
  obtain chan0 where created: "chan_created E chan0" and r: "run (chan_step E) ms chan0 chan"
    using assms by (auto simp: chan_history_run)
  have "1 \<le> chan_rank chan0"
    using chan_created_fresh [OF created] by (auto simp: chan_rank_def)
  with channel_machine.run_rank [OF r] chan_rank_le [of chan] show ?thesis by simp
qed

theorem handshake_moves_forward_witness:
  "length (filter chan_advances demo_messages) \<le> 3"
  using handshake_moves_forward [OF demo_history [of ORDER_ORDERED]] by simp

section \<open>What the counterparty attests\<close>

text \<open>The counterparty state and the proof a handshake message stands on.\<close>

fun chan_expects :: "chan_msg \<Rightarrow> (chan_state \<times> bytes) option" where
  "chan_expects (ChanAck msg) = Some (CHAN_TRYOPEN, hoa_proof_try msg)"
| "chan_expects (ChanConfirm msg) = Some (CHAN_OPEN, hoc_proof_ack msg)"
| "chan_expects (ChanCloseConfirm msg) = Some (CHAN_CLOSED, hcc_proof_init msg)"
| "chan_expects _ = None"

text \<open>C11: with the client of a Corda counterparty, \<open>chanOpenAck\<close>, \<open>chanOpenConfirm\<close> and
  \<open>chanCloseConfirm\<close> succeed only when the proof's transaction holds a channel of the
  counterparty in the state before (\<open>TRYOPEN\<close>, \<open>OPEN\<close>, \<open>CLOSED\<close>), of the same ordering, whose
  counterparty is this very channel.\<close>

theorem channel_handshake_attested:
  assumes "handle_channel E m c = Inr c'" "corda_client_of c k" "chan_expects m = Some (state, w)"
  shows "\<exists>chan st. get_input as_channel c = Inr chan \<and> corda_attests E k w (ChannelSt st) \<and>
    ch_state (chan_end st) = state \<and>
    ch_ordering (chan_end st) = ch_ordering (chan_end chan) \<and>
    ch_counterparty (chan_end st) = \<lparr>cc_port_id = ident_string (chan_port_id chan),
                                     cc_channel_id = ident_string (chan_id chan)\<rparr>"
proof -
  have "\<exists>chan h i v port channel. select_channel port channel c = Inr chan \<and>
      verified_end E c chan h w i state v"
  proof (cases m)
    case (ChanAck msg)
    with assms(1) have "chan_open_ack E msg c = Inr c'" by simp
    from chan_open_ack_Inr [OF this] ChanAck assms(3) show ?thesis by fastforce
  next
    case (ChanConfirm msg)
    with assms(1) have "chan_open_confirm E msg c = Inr c'" by simp
    from chan_open_confirm_Inr [OF this] ChanConfirm assms(3) show ?thesis by fastforce
  next
    case (ChanCloseConfirm msg)
    with assms(1) have "chan_close_confirm E msg c = Inr c'" by simp
    from chan_close_confirm_Inr [OF this] ChanCloseConfirm assms(3) show ?thesis by fastforce
  qed (use assms(3) in auto)
  then have "\<exists>chan h i v. get_input as_channel c = Inr chan \<and> verified_end E c chan h w i state v"
    unfolding select_channel_Inr by blast
  with verified_end_corda [OF _ assms(2)] show ?thesis by metis
qed

lemma demo_client_of [simp]: "corda_client_of (demo_ctx ins) demo_corda_client"
  by (simp add: corda_client_of_def)

lemma demo_ack_ok: "\<exists>c'. handle_channel (demo_env (demo_proofs ORDER_ORDERED)) (ChanAck demo_ack_msg)
    (demo_ctx [ChannelSt (demo_chan0 ORDER_ORDERED)]) = Inr c'"
  by (simp add: chan_open_ack_def select_channel_def demo_ack_msg_def demo_chan0_def
        mk_ibc_channel_def demo_end_def add_output_ok is_ibc_state_def
        demo_verify_channel demo_counterparty_def)

theorem channel_handshake_attested_witness:
  "\<exists>st. corda_attests (demo_env (demo_proofs ORDER_ORDERED)) demo_corda_client [1] (ChannelSt st) \<and>
    ch_state (chan_end st) = CHAN_TRYOPEN"
proof -
  obtain c' where "handle_channel (demo_env (demo_proofs ORDER_ORDERED)) (ChanAck demo_ack_msg)
    (demo_ctx [ChannelSt (demo_chan0 ORDER_ORDERED)]) = Inr c'" using demo_ack_ok by blast
  from channel_handshake_attested [OF this demo_client_of, of CHAN_TRYOPEN "[1]"] show ?thesis
    by (auto simp: demo_ack_msg_def)
qed

text \<open>C4: every packet a chain accepts over the client of a Corda counterparty was sent by that
  counterparty: if the channel states its proofs attest have a history there, the packet's
  sequence, data and timeouts are those of a packet sent in that history, by the channel the
  packet names as its source. The hash is assumed to be collision free.\<close>

theorem delivered_was_sent:
  assumes recv: "recv_packet E p w h a c = Inr c'"
    and client: "corda_client_of c k" and "inj (env_sha256 E)"
    and remote: "\<And>st. corda_attests E k w (ChannelSt st) \<Longrightarrow> \<exists>ms. chan_history F ms st"
  shows "\<exists>st ms q. corda_attests E k w (ChannelSt st) \<and> chan_history F ms st \<and>
    chan_port_id st = Identifier (pkt_source_port p) \<and>
    chan_id st = Identifier (pkt_source_channel p) \<and>
    q \<in> set (sent_packets ms) \<and> pkt_sequence q = pkt_sequence p \<and> pkt_data q = pkt_data p \<and>
    pkt_timeout_height q = pkt_timeout_height p \<and>
    pkt_timeout_timestamp q = pkt_timeout_timestamp p"
proof -
  obtain chan where "verified_commitment E c chan h w p" using recv_packet_Inr [OF recv] by blast
  from verified_commitment_corda [OF this client] obtain st q where
    st: "corda_attests E k w (ChannelSt st)" "chan_port_id st = Identifier (pkt_source_port p)"
      "chan_id st = Identifier (pkt_source_channel p)"
    and q: "packets st (pkt_sequence p) = Some q"
      "packet_to_commitment (env_sha256 E) q = packet_to_commitment (env_sha256 E) p" by blast
  obtain ms where ms: "chan_history F ms st" using remote [OF st(1)] by blast
  show ?thesis
    using st ms stored_packets [OF ms q(1)] packet_to_commitment_inject [OF assms(3) q(2)] by blast
qed

definition demo_loop_client :: corda_client where
  "demo_loop_client = demo_corda_client\<lparr>ccl_base_id := StateRef [5] 0\<rparr>"

definition demo_loop_ctx :: ctx where
  "demo_loop_ctx = mk_context
     [ChannelSt ((demo_chan1 ORDER_UNORDERED)\<lparr>chan_end := (demo_end CHAN_OPEN ORDER_UNORDERED)\<lparr>
        ch_counterparty := \<lparr>cc_port_id = ''nop'', cc_channel_id = ''channel-0''\<rparr>\<rparr>\<rparr>)]
     [HostState demo_host, ConnectionSt demo_connection,
      ClientSt (demo_client\<lparr>cl_impl := CordaClientState demo_loop_client\<rparr>)]"

definition demo_loop_env :: env where
  "demo_loop_env = demo_env (\<lambda>bs. Inr \<lparr>stx_outputs = [ChannelSt (demo_chan2 ORDER_UNORDERED)],
     stx_notary = Some (Party [9]), stx_signers = []\<rparr>)"

definition demo_loop_packet :: packet where
  "demo_loop_packet = demo_outgoing\<lparr>pkt_destination_channel := ''channel-0''\<rparr>"

lemma demo_loop_attests:
  "corda_attests demo_loop_env demo_loop_client w (ChannelSt st) \<longleftrightarrow> st = demo_chan2 ORDER_UNORDERED"
  by (auto simp: corda_attests_iff to_signed_transaction_def demo_loop_env_def demo_loop_client_def
      demo_corda_client_def demo_channels demo_host_def)

lemma demo_loop_sha: "env_sha256 demo_loop_env = (\<lambda>bs. bs)"
  by (simp add: demo_loop_env_def)

lemma demo_loop_recv: "\<exists>c'. recv_packet demo_loop_env demo_loop_packet [5] corda_HEIGHT AckNotSet
    demo_loop_ctx = Inr c'"
proof -
  have "corda_verify_packet_commitment demo_loop_env demo_loop_client corda_HEIGHT 0 0 corda_PREFIX [5]
      (Identifier ''nop'') (Identifier ''channel-0'') 1 (packet_to_commitment (\<lambda>bs. bs) demo_loop_packet)
      = Inr ()"
    by (auto simp: corda_verify_iff demo_loop_attests demo_loop_sha demo_loop_packet_def
        demo_channels packet_to_commitment_def)
  then show ?thesis
    by (simp add: recv_packet_def demo_loop_ctx_def demo_loop_env_def demo_loop_packet_def
        get_reference_def get_references_def get_input_def get_inputs_def mk_context_def
        List.map_filter_simps select_channel_def select_connection_def select_client_def
        demo_channels demo_connection_def mk_ibc_connection_def demo_client_def
        mk_ibc_client_state_def before_timeout_height_def before_timeout_timestamp_def
        height_is_zero_def add_output_ok is_ibc_state_def)
qed

theorem delivered_was_sent_witness:
  "\<exists>ms q. chan_history (demo_env (demo_proofs ORDER_UNORDERED)) ms (demo_chan2 ORDER_UNORDERED) \<and>
     q \<in> set (sent_packets ms) \<and> pkt_data q = [43]"
proof -
  obtain c' where "recv_packet demo_loop_env demo_loop_packet [5] corda_HEIGHT AckNotSet
    demo_loop_ctx = Inr c'" using demo_loop_recv by blast
  moreover have "corda_client_of demo_loop_ctx demo_loop_client"
    by (simp add: corda_client_of_def demo_loop_ctx_def get_reference_def get_references_def
        mk_context_def List.map_filter_simps)
  moreover have "inj (env_sha256 demo_loop_env)" by (simp add: demo_loop_env_def)
  moreover have "\<exists>ms. chan_history (demo_env (demo_proofs ORDER_UNORDERED)) ms st"
    if "corda_attests demo_loop_env demo_loop_client [5] (ChannelSt st)" for st
    using that demo_history3 by (auto simp: demo_loop_attests)
  ultimately show ?thesis
    using delivered_was_sent [of demo_loop_env demo_loop_packet "[5]" corda_HEIGHT AckNotSet
        demo_loop_ctx c' demo_loop_client "demo_env (demo_proofs ORDER_UNORDERED)"]
    by (auto simp: demo_loop_attests demo_loop_packet_def demo_outgoing_def)
qed

end
