(* ===== verification/Connection_Properties.thy ===== *)
theory Connection_Properties
  imports Demo
begin

text \<open>
  Properties of connections: the handshake advances at every message and ends in \<open>OPEN\<close>, the
  version it agrees on is the one version this side supports, and with the client of a Corda
  counterparty each message stands on the counterparty's own end. The witnesses run
  \<open>connOpenInit\<close> and \<open>connOpenAck\<close> on a concrete connection.
\<close>

section \<open>A connection\<close>

definition demo_init_msg :: msg_conn_open_init where
  "demo_init_msg = \<lparr>coi_client_id = ''corda-ibc-0'',
     coi_counterparty = \<lparr>cp_client_id = ''corda-ibc-0'', cp_connection_id = [], cp_prefix = corda_PREFIX\<rparr>,
     coi_version = None, coi_delay_period = 0\<rparr>"

definition demo_conn0 :: ibc_connection where
  "demo_conn0 = mk_ibc_connection demo_host (Identifier ''connection-1'')
     \<lparr>ce_client_id = ''corda-ibc-0'', ce_versions = [corda_VERSION], ce_state = CONN_INIT,
      ce_counterparty = coi_counterparty demo_init_msg, ce_delay_period = 0\<rparr>"

definition demo_conn_ack :: msg_conn_open_ack where
  "demo_conn_ack = \<lparr>coa_connection_id = ''connection-1'',
     coa_counterparty_connection_id = ''connection-7'', coa_version = corda_VERSION,
     coa_client_state = demo_any, coa_proof_height = corda_HEIGHT, coa_proof_try = [1],
     coa_proof_client = [1], coa_proof_consensus = [1], coa_consensus_height = corda_HEIGHT\<rparr>"

definition demo_remote_conn :: ibc_connection where
  "demo_remote_conn = \<lparr>conn_participants = [], conn_base_id = StateRef [1] 0,
     conn_id = Identifier ''connection-7'',
     conn_end = \<lparr>ce_client_id = ''corda-ibc-0'', ce_versions = [corda_VERSION],
       ce_state = CONN_TRYOPEN,
       ce_counterparty = \<lparr>cp_client_id = ''corda-ibc-0'', cp_connection_id = ''connection-1'',
                          cp_prefix = corda_PREFIX\<rparr>,
       ce_delay_period = 0\<rparr>\<rparr>"

definition demo_remote_client :: ibc_client_state where
  "demo_remote_client = demo_client\<lparr>cl_base_id := StateRef [1] 0,
     cl_any_client_state := demo_any, cl_any_consensus_states := [corda_HEIGHT \<mapsto> demo_any]\<rparr>"

definition demo_conn_env :: env where
  "demo_conn_env = demo_env (\<lambda>bs. Inr
     \<lparr>stx_outputs = [ConnectionSt demo_remote_conn, ClientSt demo_remote_client],
      stx_notary = Some (Party [9]), stx_signers = []\<rparr>)"

lemma demo_generate_connection: "generate_connection_identifier demo_host =
    Inr (demo_host\<lparr>next_connection_sequence := 2\<rparr>, Identifier ''connection-1'')"
proof -
  have "nat_to_string 1 = ''1''" by code_simp
  then show ?thesis
    by (simp add: generate_connection_identifier_eq demo_host_def int_to_string_def)
qed

lemma demo_conn_identifier [simp]: "mk_identifier ''connection-1'' = Inr (Identifier ''connection-1'')"
  by (simp add: mk_identifier_def identifier_char_def)

lemma demo_conn_init: "conn_open_init demo_init_msg (demo_ctx [HostState demo_host]) =
   Inr ((demo_ctx [HostState demo_host])\<lparr>out_states :=
     [HostState (demo_host\<lparr>next_connection_sequence := 2\<rparr>), ConnectionSt demo_conn0]\<rparr>)"
  by (simp add: conn_open_init_def demo_init_msg_def demo_generate_connection add_output_ok
      is_ibc_state_def demo_conn0_def get_compatible_versions_def get_input_def get_inputs_def
      List.map_filter_simps demo_client_def mk_ibc_client_state_def)

lemma demo_conn_attests:
  "corda_attests demo_conn_env demo_corda_client w (ConnectionSt st) \<longleftrightarrow> st = demo_remote_conn"
  "corda_attests demo_conn_env demo_corda_client w (ClientSt cl) \<longleftrightarrow> cl = demo_remote_client"
  by (auto simp: corda_attests_iff to_signed_transaction_def demo_conn_env_def
      demo_remote_conn_def demo_remote_client_def)

lemma demo_conn_env_simps [simp]:
  "env_default_corda_consensus demo_conn_env = demo_any"
  "w \<noteq> [] \<Longrightarrow> mk_proof demo_conn_env w = Inr w"
  by (simp_all add: demo_conn_env_def) (simp add: demo_env_def)

lemma demo_conn_verified:
  "corda_verify_connection_state demo_conn_env demo_corda_client corda_HEIGHT prefix w
     (Identifier ''connection-7'') (conn_end demo_remote_conn) = Inr ()"
  "corda_verify_client_state demo_conn_env demo_corda_client corda_HEIGHT prefix
     (Identifier ''corda-ibc-0'') w demo_any = Inr ()"
  "corda_verify_client_consensus_state demo_conn_env demo_corda_client corda_HEIGHT
     (Identifier ''corda-ibc-0'') corda_HEIGHT prefix w demo_any = Inr ()"
  by (auto simp: corda_verify_iff demo_conn_attests demo_remote_conn_def demo_remote_client_def
      demo_client_def mk_ibc_client_state_def)

lemma demo_get_connection [simp]: "get_input as_connection (demo_ctx [ConnectionSt conn]) = Inr conn"
  by (simp add: get_input_def get_inputs_def List.map_filter_simps)

lemma demo_conn_ack_ok: "\<exists>c'. conn_open_ack demo_conn_env demo_conn_ack (demo_ctx [ConnectionSt demo_conn0]) = Inr c'"
  using demo_conn_verified [unfolded demo_remote_conn_def]
  by (simp add: conn_open_ack_def demo_conn_ack_def demo_conn0_def mk_ibc_connection_def
      get_input_def get_inputs_def List.map_filter_simps demo_init_msg_def get_current_height_def
      get_compatible_versions_def get_consensus_state_def get_commitment_prefix_def
      add_output_ok is_ibc_state_def demo_client_def mk_ibc_client_state_def)

definition demo_conn1 :: ibc_connection where
  "demo_conn1 = demo_conn0\<lparr>conn_end := (conn_end demo_conn0)\<lparr>
     ce_state := CONN_OPEN, ce_versions := [corda_VERSION],
     ce_counterparty := (ce_counterparty (conn_end demo_conn0))
       \<lparr>cp_connection_id := ''connection-7''\<rparr>\<rparr>\<rparr>"

lemma demo_conn_step: "conn_step demo_conn_env (ConnAck demo_conn_ack) demo_conn0 demo_conn1"
proof -
  obtain c' where ack: "conn_open_ack demo_conn_env demo_conn_ack (demo_ctx [ConnectionSt demo_conn0]) = Inr c'"
    using demo_conn_ack_ok by blast
  from conn_open_ack_Inr [OF ack] have "ConnectionSt demo_conn1 \<in> set (out_states c')"
    by (auto simp: demo_conn1_def demo_conn_ack_def simp del: get_input_Inr)
  with ack show ?thesis
    by (intro conn_stepI [of demo_conn_env _ "demo_ctx [ConnectionSt demo_conn0]" c'])
      (auto simp del: get_input_Inr)
qed

lemma demo_conn_created: "conn_created demo_conn_env demo_conn0"
  using demo_conn_init by (auto intro!: conn_created_by_init)

section \<open>Properties\<close>

text \<open>C12: a connection accepts at most two messages after its creation, and whatever its history
  the version it carries is the single version this side supports.\<close>

theorem connection_handshake_ends:
  assumes "conn_created E conn0" "run (conn_step E) ms conn0 conn"
  shows "length ms \<le> 2 \<and> ce_versions (conn_end conn) = [corda_VERSION]"
proof -
  have "1 \<le> conn_rank conn0"
    using conn_created_fresh [OF assms(1)] by (auto simp: conn_rank_def)
  with connection_machine.run_rank [OF assms(2)] conn_rank_le [of conn]
  show ?thesis using conn_run_version [OF assms] by simp
qed

theorem connection_handshake_ends_witness: "ce_versions (conn_end demo_conn1) = [corda_VERSION]"
  using connection_handshake_ends [OF demo_conn_created, of "[ConnAck demo_conn_ack]" demo_conn1]
    demo_conn_step by simp

text \<open>\<open>OPEN\<close> is final for a connection: no message is accepted any more.\<close>

theorem open_connection_is_final:
  assumes "ce_state (conn_end conn) = CONN_OPEN"
  shows "\<not> conn_step E m conn conn'"
proof
  assume "conn_step E m conn conn'"
  with assms show False by (cases m) (auto dest!: conn_step_effects)
qed

theorem open_connection_is_final_witness:
  "\<not> conn_step demo_conn_env (ConnAck demo_conn_ack) demo_connection demo_conn1"
  by (rule open_connection_is_final) simp

text \<open>With the client of a Corda counterparty, \<open>connOpenAck\<close> succeeds only when the proof's
  transaction holds the counterparty's end in \<open>TRYOPEN\<close>, pointing back at this very connection
  and client under Corda's prefix, with the version being agreed and the same delay.\<close>

theorem connection_ack_attested:
  assumes "conn_open_ack E msg c = Inr c'" "corda_client_of c k"
  shows "\<exists>conn st. get_input as_connection c = Inr conn \<and>
    corda_attests E k (coa_proof_try msg) (ConnectionSt st) \<and>
    conn_id st = Identifier (coa_counterparty_connection_id msg) \<and>
    conn_end st = \<lparr>ce_client_id = cp_client_id (ce_counterparty (conn_end conn)),
       ce_versions = [coa_version msg], ce_state = CONN_TRYOPEN,
       ce_counterparty = \<lparr>cp_client_id = ce_client_id (conn_end conn),
                          cp_connection_id = ident_string (conn_id conn), cp_prefix = corda_PREFIX\<rparr>,
       ce_delay_period = ce_delay_period (conn_end conn)\<rparr>"
proof -
  from conn_open_ack_Inr [OF assms(1)] obtain conn client counterparty_id where
    conn: "get_input as_connection c = Inr conn" "mk_identifier (coa_connection_id msg) = Inr (conn_id conn)"
    and client: "get_reference as_client c = Inr client"
    and i: "mk_identifier (coa_counterparty_connection_id msg) = Inr counterparty_id"
    and verified: "verify_connection_state E (cl_impl client) (coa_proof_height msg)
      (cp_prefix (ce_counterparty (conn_end conn))) (coa_proof_try msg) counterparty_id
      \<lparr>ce_client_id = cp_client_id (ce_counterparty (conn_end conn)),
       ce_versions = [coa_version msg], ce_state = CONN_TRYOPEN,
       ce_counterparty = \<lparr>cp_client_id = ce_client_id (conn_end conn),
                          cp_connection_id = coa_connection_id msg, cp_prefix = corda_PREFIX\<rparr>,
       ce_delay_period = ce_delay_period (conn_end conn)\<rparr> = Inr ()"
    by blast
  have "cl_impl client = CordaClientState k" using assms(2) client by (rule corda_client_of_get)
  with verified corda_light.connection_sound show ?thesis
    using conn i by (fastforce simp: mk_identifier_Inr_iff)
qed

theorem connection_ack_attested_witness:
  "\<exists>st. corda_attests demo_conn_env demo_corda_client [1] (ConnectionSt st) \<and>
    ce_state (conn_end st) = CONN_TRYOPEN"
proof -
  obtain c' where "conn_open_ack demo_conn_env demo_conn_ack (demo_ctx [ConnectionSt demo_conn0]) = Inr c'"
    using demo_conn_ack_ok by blast
  from connection_ack_attested [OF this, of demo_corda_client] show ?thesis
    by (auto simp: demo_conn_ack_def corda_client_of_def)
qed

text \<open>Whatever delay period the two ends agreed on, \<open>connOpenConfirm\<close> only accepts a
  counterparty end with delay period 0: with a Corda counterparty no other connection can leave
  \<open>TRYOPEN\<close> this way.\<close>

theorem connection_confirm_needs_no_delay:
  assumes "conn_open_confirm E msg c = Inr c'" "corda_client_of c k"
  shows "\<exists>st. corda_attests E k (coc_proof_ack msg) (ConnectionSt st) \<and>
    ce_state (conn_end st) = CONN_OPEN \<and> ce_delay_period (conn_end st) = 0"
proof -
  from conn_open_confirm_Inr [OF assms(1)] obtain host conn client counterparty_id where
    "get_reference as_host c = Inr host" "get_input as_connection c = Inr conn"
    and client: "get_reference as_client c = Inr client"
    and verified: "verify_connection_state E (cl_impl client) (coc_proof_height msg)
      (cp_prefix (ce_counterparty (conn_end conn))) (coc_proof_ack msg) counterparty_id
      (conn_confirm_expected host (conn_end conn) (coc_connection_id msg)) = Inr ()"
    by blast
  have "cl_impl client = CordaClientState k" using assms(2) client by (rule corda_client_of_get)
  with verified corda_light.connection_sound show ?thesis
    by (fastforce simp: conn_confirm_expected_def)
qed

definition demo_conn_tried :: ibc_connection where
  "demo_conn_tried = demo_conn0\<lparr>conn_end := (conn_end demo_conn0)\<lparr>ce_state := CONN_TRYOPEN,
     ce_counterparty := \<lparr>cp_client_id = ''corda-ibc-0'', cp_connection_id = ''connection-7'',
                         cp_prefix = corda_PREFIX\<rparr>,
     ce_delay_period := 5\<rparr>\<rparr>"

definition demo_confirm_env :: env where
  "demo_confirm_env = demo_env (\<lambda>bs. Inr
     \<lparr>stx_outputs = [ConnectionSt (demo_remote_conn\<lparr>conn_end :=
        (conn_end demo_remote_conn)\<lparr>ce_state := CONN_OPEN\<rparr>\<rparr>)],
      stx_notary = Some (Party [9]), stx_signers = []\<rparr>)"

theorem connection_confirm_needs_no_delay_witness:
  "\<exists>st. corda_attests demo_confirm_env demo_corda_client [1] (ConnectionSt st) \<and>
    ce_delay_period (conn_end st) = 0"
proof -
  let ?msg = "\<lparr>coc_connection_id = ''connection-1'', coc_proof_ack = [1], coc_proof_height = corda_HEIGHT\<rparr>"
  have attests: "corda_attests demo_confirm_env demo_corda_client [1] (ConnectionSt (demo_remote_conn\<lparr>conn_end :=
        (conn_end demo_remote_conn)\<lparr>ce_state := CONN_OPEN\<rparr>\<rparr>))"
    by (simp add: corda_attests_iff to_signed_transaction_def demo_confirm_env_def demo_remote_conn_def)
  have "corda_verify_connection_state demo_confirm_env demo_corda_client corda_HEIGHT corda_PREFIX [1]
      (Identifier ''connection-7'')
      (conn_confirm_expected demo_host (conn_end demo_conn_tried) ''connection-1'') = Inr ()"
    unfolding corda_verify_iff
    by (rule conjI [OF refl], rule exI, rule conjI [OF attests])
      (simp add: demo_remote_conn_def conn_confirm_expected_def demo_conn_tried_def demo_conn0_def
        mk_ibc_connection_def demo_init_msg_def get_commitment_prefix_def)
  then have "\<exists>c'. conn_open_confirm demo_confirm_env ?msg (demo_ctx [ConnectionSt demo_conn_tried]) = Inr c'"
    by (simp add: conn_open_confirm_def get_input_def get_inputs_def List.map_filter_simps
        demo_conn_tried_def demo_conn0_def mk_ibc_connection_def demo_client_def
        mk_ibc_client_state_def add_output_ok is_ibc_state_def demo_confirm_env_def)
  then obtain c' where
    "conn_open_confirm demo_confirm_env ?msg (demo_ctx [ConnectionSt demo_conn_tried]) = Inr c'"
    by blast
  from connection_confirm_needs_no_delay [OF this, of demo_corda_client] show ?thesis
    by (auto simp: corda_client_of_def)
qed

end
