(* ===== verification/Contract_Properties.thy ===== *)
theory Contract_Properties
  imports Demo
begin

text \<open>
  Properties of the contract: what an accepted transaction looks like, what chains of accepted
  transactions guarantee, and where the acceptance test is weaker than it means to be. The
  witnesses are concrete transactions, built by running a datagram and taking its outputs.
\<close>

section \<open>Concrete transactions\<close>

definition plain_ref :: "contract_state \<Rightarrow> state_and_ref" where
  "plain_ref s = \<lparr>sr_state = s, sr_ref = StateRef [0] 0, sr_notary = Party [2]\<rparr>"

definition datagram_tx :: "contract_state list \<Rightarrow> contract_state list \<Rightarrow> datagram \<Rightarrow> ledger_tx" where
  "datagram_tx ins outs d =
     \<lparr>tx_inputs = map plain_ref ins, tx_references = demo_refs, tx_outputs = outs,
      tx_commands = [\<lparr>cmd_value = Datagram d, cmd_signers = []\<rparr>]\<rparr>"

lemma datagram_tx_simps [simp]:
  "tx_input_states (datagram_tx ins outs d) = ins" "tx_outputs (datagram_tx ins outs d) = outs"
  "tx_datagrams (datagram_tx ins outs d) = [d]"
  by (simp_all add: tx_input_states_def datagram_tx_def plain_ref_def o_def tx_datagrams_def
      List.map_filter_simps)

lemma datagram_tx_accepted:
  assumes "execute E d [] (demo_ctx ins) = Inr c" "verify_results (env_uid E) outs c = Inr ()"
  shows "accepted E (datagram_tx ins outs d)"
  using assms
  by (simp add: accepted_def ibc_verify_def datagram_tx_def List.map_filter_simps verify_datagram_def
      demo_ctx_def tx_input_states_def plain_ref_def o_def)

lemma demo_refs_base: "s \<in> set (ibc_states demo_refs) \<Longrightarrow> state_base_id s = Some (StateRef [5] 0)"
  by (auto simp: ibc_states_def is_ibc_state_def demo_refs_def demo_host_def demo_connection_def
      demo_client_def mk_ibc_connection_def mk_ibc_client_state_def)

text \<open>A datagram that replaces one channel by another of the same identity is accepted.\<close>

lemma channel_tx_accepted:
  assumes "execute E d [] (demo_ctx [ChannelSt chan]) =
      Inr ((demo_ctx [ChannelSt chan])\<lparr>out_states := [ChannelSt chan']\<rparr>)"
    and "chan_id chan' = chan_id chan" "chan_base_id chan = StateRef [5] 0"
    and "chan_base_id chan' = StateRef [5] 0"
  shows "accepted E (datagram_tx [ChannelSt chan] [ChannelSt chan'] d)"
proof (rule datagram_tx_accepted [OF assms(1)])
  have "ibc_states (in_states (demo_ctx [ChannelSt chan])) = [ChannelSt chan]"
    "ref_states (demo_ctx [ChannelSt chan]) = demo_refs"
    by (simp_all add: ibc_states_def is_ibc_state_def demo_ctx_def mk_context_def)
  then show "verify_results (env_uid E) [ChannelSt chan']
      ((demo_ctx [ChannelSt chan])\<lparr>out_states := [ChannelSt chan']\<rparr>) = Inr ()"
    using assms(2-4) demo_refs_base
    by (auto simp: verify_results_Inr linear_ids_def ibc_states_def is_ibc_state_def
        is_fungible_state_def linear_id_def)
qed

lemma demo_channel_identity:
  "chan_id (demo_chan0 ord) = Identifier ''channel-0''" "chan_base_id (demo_chan0 ord) = StateRef [5] 0"
  "chan_port_id (demo_chan0 ord) = Identifier ''nop''"
  by (simp_all add: demo_chan0_def mk_ibc_channel_def demo_host_def)

text \<open>A step of the demonstration, as an execution with the single output.\<close>

lemma demo_step_execution:
  assumes "is_ok (handle_channel E m (demo_ctx [ChannelSt chan]))" "\<And>msg. m \<noteq> ChanTry msg"
  shows "\<exists>chan'. handle_channel E m (demo_ctx [ChannelSt chan]) =
      Inr ((demo_ctx [ChannelSt chan])\<lparr>out_states := [ChannelSt chan']\<rparr>) \<and>
    chan_step E m chan chan'"
proof -
  obtain c' where run: "handle_channel E m (demo_ctx [ChannelSt chan]) = Inr c'"
    using assms(1) by (auto simp: is_ok_def)
  from handle_channel_single [OF run _ assms(2)] obtain ch chan' where
    "get_input as_channel (demo_ctx [ChannelSt chan]) = Inr ch" "chan_step E m ch chan'"
    "c' = (demo_ctx [ChannelSt chan])\<lparr>out_states := [ChannelSt chan']\<rparr>" by auto
  with run show ?thesis by (auto simp del: get_input_Inr)
qed

definition demo_ack_tx :: "order \<Rightarrow> ledger_tx" where
  "demo_ack_tx ord = datagram_tx [ChannelSt (demo_chan0 ord)] [ChannelSt (demo_chan1 ord)]
     (HandleChanOpenAck demo_ack_msg)"

definition demo_init_tx :: "order \<Rightarrow> ledger_tx" where
  "demo_init_tx ord = datagram_tx [HostState demo_host]
     [HostState (demo_host\<lparr>next_channel_sequence := 1\<rparr>), ChannelSt (demo_chan0 ord)]
     (HandleChanOpenInit \<lparr>hoi_port_id = ''nop'', hoi_channel = demo_end CHAN_UNINITIALIZED ord\<rparr>)"

lemma demo_init_accepted:
  assumes "ord \<in> {ORDER_UNORDERED, ORDER_ORDERED}"
  shows "accepted (demo_env (demo_proofs ord)) (demo_init_tx ord)"
  unfolding demo_init_tx_def
proof (rule datagram_tx_accepted)
  show "execute (demo_env (demo_proofs ord))
      (HandleChanOpenInit \<lparr>hoi_port_id = ''nop'', hoi_channel = demo_end CHAN_UNINITIALIZED ord\<rparr>) []
      (demo_ctx [HostState demo_host]) =
    Inr ((demo_ctx [HostState demo_host])\<lparr>out_states :=
     [HostState (demo_host\<lparr>next_channel_sequence := 1\<rparr>), ChannelSt (demo_chan0 ord)]\<rparr>)"
    using demo_open_init [OF assms] by simp
  have "ref_states (demo_ctx [HostState demo_host]) = demo_refs"
    by (simp add: demo_ctx_def mk_context_def)
  then show "verify_results (env_uid (demo_env (demo_proofs ord)))
     [HostState (demo_host\<lparr>next_channel_sequence := 1\<rparr>), ChannelSt (demo_chan0 ord)]
     ((demo_ctx [HostState demo_host])\<lparr>out_states :=
       [HostState (demo_host\<lparr>next_channel_sequence := 1\<rparr>), ChannelSt (demo_chan0 ord)]\<rparr>) = Inr ()"
    using demo_refs_base
    by (auto simp: verify_results_Inr linear_ids_def ibc_states_def is_ibc_state_def
        is_fungible_state_def linear_id_def demo_channel_identity demo_host_def)
qed

lemma demo_ack_executes:
  "execute (demo_env (demo_proofs ord)) (HandleChanOpenAck demo_ack_msg) []
      (demo_ctx [ChannelSt (demo_chan0 ord)]) =
    Inr ((demo_ctx [ChannelSt (demo_chan0 ord)])\<lparr>out_states := [ChannelSt (demo_chan1 ord)]\<rparr>)"
proof -
  let ?m = "ChanAck demo_ack_msg"
  have "is_ok (handle_channel (demo_env (demo_proofs ord)) ?m (demo_ctx [ChannelSt (demo_chan0 ord)]))"
    by (simp add: chan_open_ack_def select_channel_def demo_ack_msg_def demo_chan0_def
        mk_ibc_channel_def demo_end_def add_output_ok is_ibc_state_def
        demo_verify_channel demo_counterparty_def)
  from demo_step_execution [OF this] obtain chan' where
    "handle_channel (demo_env (demo_proofs ord)) ?m (demo_ctx [ChannelSt (demo_chan0 ord)]) =
      Inr ((demo_ctx [ChannelSt (demo_chan0 ord)])\<lparr>out_states := [ChannelSt chan']\<rparr>)"
    "chan_step (demo_env (demo_proofs ord)) ?m (demo_chan0 ord) chan'" by auto
  moreover from this(2) chan_step_ChanAck demo_step1 [of ord] have "chan' = demo_chan1 ord" by metis
  ultimately show ?thesis by simp
qed

lemma demo_ack_accepted: "accepted (demo_env (demo_proofs ord)) (demo_ack_tx ord)"
  unfolding demo_ack_tx_def
  by (rule channel_tx_accepted [OF demo_ack_executes])
    (simp_all add: demo_channel_identity demo_chan1_def)




section \<open>Chains of transactions\<close>



section \<open>One transaction\<close>



text \<open>Without distinct outputs the acceptance test proves less: from every accepted
  transaction with a datagram and distinct outputs one gets another accepted one by replacing
  all outputs by copies of any one of them, so the other computed states are not created.\<close>

theorem duplicate_outputs_accepted:
  assumes "accepted E tx" "distinct (tx_outputs tx)" "tx_datagrams tx = [d]" "s \<in> set (tx_outputs tx)"
  shows "accepted E (tx\<lparr>tx_outputs := replicate (length (tx_outputs tx)) s\<rparr>)"
proof -
  let ?tx = "tx\<lparr>tx_outputs := replicate (length (tx_outputs tx)) s\<rparr>"
  have commands: "List.map_filter as_misc (tx_commands tx) = []"
    "\<exists>signers. List.map_filter as_datagram (tx_commands tx) = [(d, signers)]"
    using assms(1,3)
    by (auto simp: accepted_def is_ok_def ibc_verify_def tx_datagrams_def split: list.splits)
  then obtain signers where signers: "List.map_filter as_datagram (tx_commands tx) = [(d, signers)]"
    by blast
  then have "verify_datagram E d signers tx = Inr ()"
    using assms(1) commands(1) by (auto simp: accepted_def is_ok_def ibc_verify_def)
  then obtain c where run: "execute E d signers (mk_context (tx_input_states tx) (tx_references tx)) = Inr c"
    and results: "verify_results (env_uid E) (tx_outputs tx) c = Inr ()"
    by (auto simp: verify_datagram_def bindE_Inr_iff)
  have "verify_results (env_uid E) (tx_outputs ?tx) c = Inr ()"
    using results assms(4) by (auto simp: verify_results_Inr)
  with run signers commands(1) show ?thesis
    by (simp add: accepted_def ibc_verify_def verify_datagram_def tx_input_states_def)
qed

theorem duplicate_outputs_accepted_witness:
  "accepted (demo_env (demo_proofs ORDER_ORDERED))
     ((demo_init_tx ORDER_ORDERED)\<lparr>tx_outputs :=
        [ChannelSt (demo_chan0 ORDER_ORDERED), ChannelSt (demo_chan0 ORDER_ORDERED)]\<rparr>)"
  using duplicate_outputs_accepted [OF demo_init_accepted [of ORDER_ORDERED],
      of "HandleChanOpenInit \<lparr>hoi_port_id = ''nop'', hoi_channel = demo_end CHAN_UNINITIALIZED ORDER_ORDERED\<rparr>"
        "ChannelSt (demo_chan0 ORDER_ORDERED)"]
  by (simp add: demo_init_tx_def numeral_2_eq_2)

text \<open>C14: an accepted datagram never mixes the states of two hosts: all IBC states it consumes,
  reads and creates carry one base id.\<close>

theorem accepted_one_host:
  assumes "accepted E tx" "tx_datagrams tx = [d]"
  shows "\<exists>b. \<forall>s \<in> set (ibc_states (tx_input_states tx @ tx_references tx @ tx_outputs tx)).
    state_base_id s = Some b"
proof -
  obtain signers c where run: "execute E d signers (mk_context (tx_input_states tx) (tx_references tx)) = Inr c"
    and results: "verify_results (env_uid E) (tx_outputs tx) c = Inr ()"
    using accepted_datagram [OF assms] by blast
  from execute_frame [OF run] have "in_states c = tx_input_states tx" "ref_states c = tx_references tx"
    by (simp_all add: mk_context_def)
  with results obtain s ss where s: "ibc_states (out_states c) = s # ss"
    and same: "\<forall>t \<in> set (ibc_states (tx_input_states tx @ tx_references tx @ out_states c)).
      state_base_id t = state_base_id s"
    unfolding verify_results_Inr by auto
  have "set (tx_outputs tx) \<subseteq> set (out_states c)"
    using results by (simp add: verify_results_Inr)
  with same have same: "\<forall>t \<in> set (ibc_states (tx_input_states tx @ tx_references tx @ tx_outputs tx)).
      state_base_id t = state_base_id s"
    by (auto simp: ibc_states_def)
  from s have "s \<in> set (ibc_states (out_states c))" by simp
  then have "is_ibc_state s" by (simp add: ibc_states_def)
  then obtain b where "state_base_id s = Some b" by (cases s) (auto simp: is_ibc_state_def)
  with same show ?thesis by auto
qed

theorem accepted_one_host_witness:
  "\<exists>b. \<forall>s \<in> set (ibc_states (demo_refs @ tx_outputs (demo_ack_tx ORDER_ORDERED))).
     state_base_id s = Some b"
proof -
  have "tx_references (demo_ack_tx ORDER_ORDERED) = demo_refs"
    by (simp add: demo_ack_tx_def datagram_tx_def)
  with accepted_one_host [OF demo_ack_accepted [of ORDER_ORDERED], of "HandleChanOpenAck demo_ack_msg"]
  show ?thesis by (fastforce simp: demo_ack_tx_def ibc_states_def is_ibc_state_def)
qed

section \<open>Banks\<close>

definition creates_bank :: "ledger_tx \<Rightarrow> bool" where
  "creates_bank tx \<longleftrightarrow>
     List.map_filter as_misc (tx_commands tx) = [BankCreate] \<or>
     (\<exists>owner. List.map_filter as_misc (tx_commands tx) = [CashBankCreate owner])"

text \<open>A host gets at most one bank of either kind: a transaction that creates a \<open>Bank\<close> or a
  \<open>CashBank\<close> is refused when the host it consumes already has one, and otherwise outputs a host
  that has.\<close>

theorem one_bank_per_host:
  assumes "accepted E tx" "creates_bank tx" "tx_input_states tx = [HostState h]"
  shows "bank_id \<notin> set (host_bank_ids h) \<and>
    (\<exists>h'. HostState h' \<in> set (tx_outputs tx) \<and> host_bank_ids h' = host_bank_ids h @ [bank_id])"
proof -
  obtain r n where ins: "tx_inputs tx = [\<lparr>sr_state = HostState h, sr_ref = r, sr_notary = n\<rparr>]"
    using assms(3) by (cases "hd (tx_inputs tx)") (auto simp: tx_input_states_def map_eq_Cons_conv)
  have "verify_bank_create tx = Inr () \<or> (\<exists>owner. verify_cash_bank_create owner tx = Inr ())"
    using assms(1,2)
    by (auto simp: accepted_def is_ok_def ibc_verify_def creates_bank_def split: list.splits)
  then have "\<exists>h'. List.map_filter as_host (tx_outputs tx) = [h'] \<and> add_bank h bank_id = Inr h'"
    using ins
    by (auto simp: verify_bank_create_def verify_cash_bank_create_def bindE_Inr_iff guardE_Inr_iff
        singleE_Inr_iff in_refs_def List.map_filter_simps Let_def)
  then obtain h' where h': "List.map_filter as_host (tx_outputs tx) = [h']" "add_bank h bank_id = Inr h'"
    by blast
  from map_filter_member [OF h'(1)] obtain s where s: "s \<in> set (tx_outputs tx)" "as_host s = Some h'" by blast
  from s(2) have "s = HostState h'" by (cases s) auto
  with s(1) have "HostState h' \<in> set (tx_outputs tx)" by simp
  with h'(2) show ?thesis by (auto simp: add_bank_def guardE_Inr_iff)
qed

definition demo_new_host :: host where
  "demo_new_host = demo_host\<lparr>host_bank_ids := []\<rparr>"

definition demo_bank_tx :: ledger_tx where
  "demo_bank_tx = \<lparr>tx_inputs = [plain_ref (HostState demo_new_host)], tx_references = [],
     tx_outputs = [HostState (demo_new_host\<lparr>host_bank_ids := [bank_id]\<rparr>), BankState (bank_of_host demo_new_host)],
     tx_commands = [\<lparr>cmd_value = Misc BankCreate, cmd_signers = []\<rparr>]\<rparr>"

theorem one_bank_per_host_witness:
  "\<exists>h'. HostState h' \<in> set (tx_outputs demo_bank_tx) \<and> host_bank_ids h' = [bank_id]"
proof -
  have "accepted (demo_env (demo_proofs ORDER_ORDERED)) demo_bank_tx"
    by (simp add: accepted_def ibc_verify_def demo_bank_tx_def List.map_filter_simps
        verify_bank_create_def in_refs_def plain_ref_def add_bank_def demo_new_host_def)
  from one_bank_per_host [OF this, of demo_new_host] show ?thesis
    by (auto simp: creates_bank_def demo_bank_tx_def List.map_filter_simps tx_input_states_def
        plain_ref_def demo_new_host_def)
qed

section \<open>Datagrams that are never accepted\<close>

text \<open>C15: no transaction reports misbehaviour successfully: \<open>checkMisbehaviourAndUpdateState\<close> is
  not implemented for any client, so a misbehaving counterparty cannot be frozen, whatever the
  evidence.\<close>

theorem misbehaviour_never_accepted:
  "HandleClientMisbehaviour i m \<in> set (tx_datagrams tx) \<longrightarrow> \<not> accepted E tx"
proof
  assume d: "HandleClientMisbehaviour i m \<in> set (tx_datagrams tx)"
  have "\<not> is_ok (handle_client_misbehaviour i m c)" for c
  proof -
    have "check_misbehaviour_and_update_state cl m = Inl NotImplemented" for cl
      by (cases cl) simp_all
    then show ?thesis by (simp add: handle_client_misbehaviour_def is_ok_bindE is_ok_guardE)
  qed
  then show "\<not> accepted E tx"
    using accepted_one_datagram [OF _ d] accepted_datagram [of E tx "HandleClientMisbehaviour i m"]
    by (auto simp: is_ok_def)
qed

definition demo_misbehaviour_tx :: ledger_tx where
  "demo_misbehaviour_tx = datagram_tx [ClientSt demo_client] [ClientSt demo_client]
     (HandleClientMisbehaviour (Identifier ''corda-ibc-0'') demo_any)"

theorem misbehaviour_never_accepted_witness:
  "\<not> accepted (demo_env (demo_proofs ORDER_ORDERED)) demo_misbehaviour_tx"
  using misbehaviour_never_accepted [of "Identifier ''corda-ibc-0''" demo_any demo_misbehaviour_tx]
  by (simp add: demo_misbehaviour_tx_def)

end
