(* ===== verification/Client_Properties.thy ===== *)
theory Client_Properties
  imports Demo
begin

text \<open>
  What the light client of a Corda counterparty checks and what it does not, and how the kinds of
  identifiers of one host are told apart.
\<close>




text \<open>An identifier of one kind is never an identifier of another, whatever the counters:
  client, connection and channel identifiers, \<open>host\<close> and \<open>bank\<close> are pairwise different, so
  the states of one host are told apart by their identifiers alone.\<close>

theorem identifier_kinds_disjoint:
  "let client = snd (projr (generate_client_identifier ct h));
       connection = \<lambda>h. snd (projr (generate_connection_identifier h));
       channel = \<lambda>h. snd (projr (generate_channel_identifier h))
   in client \<noteq> connection k \<and> client \<noteq> channel k \<and> connection h \<noteq> channel k \<and>
      {client, connection h, channel h} \<inter> {host_id, bank_id} = {} \<and> host_id \<noteq> bank_id"
  by (cases ct) (simp_all add: generate_eqs host_id_def bank_id_def Let_def)

end
