(* ===== verification/Js_Values.thy ===== *)
theory Js_Values
  imports Complex_Main Prelude
begin

text \<open>
  The values of the scripts under docs/_static and what the language and its standard library do
  with them: numbers, conversions, comparison, property access on a store of objects. A reference
  is an address; equality of references is identity. Numbers are the rationals a script computes
  with, exactly (no rounding), besides the negative zero, the infinities and NaN. Strings are
  lists of code units below 256.
\<close>

section \<open>Numbers and values\<close>

datatype jsnum = Fin rat | NegZero | PosInf | NegInf | NaN

datatype jsval = Undefined | Null | Bool bool | Num jsnum | Str string | Sym nat | Ref nat

abbreviation num_of_int :: "int \<Rightarrow> jsval" where "num_of_int i \<equiv> Num (Fin (of_int i))"
abbreviation num_of_nat :: "nat \<Rightarrow> jsval" where "num_of_nat n \<equiv> Num (Fin (of_nat n))"

text \<open>An object: its class as \<open>Object.prototype.toString\<close> reports it, whether it can be called,
  whether it has indexed elements and a \<open>length\<close>, its own enumerable properties in the order
  of enumeration, the enumerable properties it inherits, the other properties it inherits, and
  the primitive value it converts to.\<close>

record jsobj =
  obj_tag :: string
  obj_callable :: bool
  obj_indexed :: bool
  obj_elems :: "jsval list"
  obj_own :: "(string \<times> jsval) list"
  obj_inherited :: "(string \<times> jsval) list"
  obj_hidden :: "(string \<times> jsval) list"
  obj_prim :: jsval

text \<open>The objects of a script, what its functions return on a receiver and arguments (the
  callbacks handed to the library are functions of these), and the engine's quirks the scripts
  detect when they are loaded: names hidden from \<open>for in\<close>, wrong class names, Internet
  Explorer 11, whether \<open>Object.keys\<close> and \<open>ArrayBuffer.isView\<close> exist;
  \<open>Object.prototype\<close>; which objects are wrappers made by \<open>_\<close>; which constructors are
  instances of themselves (\<open>Object\<close> and \<open>Function\<close> of every frame); and the functions a page may put in place of \<open>_.iteratee\<close> and
  \<open>_.toPath\<close>.\<close>

record realm =
  rm_heap :: "nat \<Rightarrow> jsobj"
  rm_call :: "nat \<Rightarrow> jsval \<Rightarrow> jsval list \<Rightarrow> jsval"
  rm_enum_bug :: bool
  rm_tag_bug :: bool
  rm_ie11 :: bool
  rm_native_keys :: bool
  rm_array_buffers :: bool
  rm_is_view :: "nat \<Rightarrow> bool"
  rm_object_proto :: nat
  rm_is_wrapper :: "nat \<Rightarrow> bool"
  rm_self_instance :: "nat \<Rightarrow> bool"
  rm_iteratee :: "(jsval \<Rightarrow> jsval \<Rightarrow> jsval list \<Rightarrow> jsval) option"
  rm_to_path :: "(jsval \<Rightarrow> jsval list) option"

definition plain_object :: "(string \<times> jsval) list \<Rightarrow> jsobj" where
  "plain_object ps =
     \<lparr>obj_tag = ''Object'', obj_callable = False, obj_indexed = False, obj_elems = [],
      obj_own = ps, obj_inherited = [], obj_hidden = [], obj_prim = Str ''[object Object]''\<rparr>"

definition array_object :: "jsval list \<Rightarrow> jsobj" where
  "array_object xs =
     \<lparr>obj_tag = ''Array'', obj_callable = False, obj_indexed = True, obj_elems = xs,
      obj_own = [], obj_inherited = [], obj_hidden = [], obj_prim = Str ''''\<rparr>"

definition function_object :: jsobj where
  "function_object =
     \<lparr>obj_tag = ''Function'', obj_callable = True, obj_indexed = False, obj_elems = [],
      obj_own = [], obj_inherited = [], obj_hidden = [], obj_prim = Str ''function''\<rparr>"

text \<open>A current engine without quirks.\<close>

definition modern_realm :: "(nat \<Rightarrow> jsobj) \<Rightarrow> (nat \<Rightarrow> jsval \<Rightarrow> jsval list \<Rightarrow> jsval) \<Rightarrow> realm" where
  "modern_realm h f =
     \<lparr>rm_heap = h, rm_call = f, rm_enum_bug = False, rm_tag_bug = False, rm_ie11 = False,
      rm_native_keys = True, rm_array_buffers = True, rm_is_view = (\<lambda>a. False),
      rm_object_proto = 0,
      rm_is_wrapper = (\<lambda>a. False), rm_self_instance = (\<lambda>a. False), rm_iteratee = None, rm_to_path = None\<rparr>"

lemmas object_simps [simp] = modern_realm_def plain_object_def array_object_def function_object_def

section \<open>Classes and types\<close>

fun typeof :: "realm \<Rightarrow> jsval \<Rightarrow> string" where
  "typeof r Undefined = ''undefined''"
| "typeof r Null = ''object''"
| "typeof r (Bool b) = ''boolean''"
| "typeof r (Num n) = ''number''"
| "typeof r (Str s) = ''string''"
| "typeof r (Sym i) = ''symbol''"
| "typeof r (Ref a) = (if obj_callable (rm_heap r a) then ''function'' else ''object'')"

text \<open>\<open>Object.prototype.toString\<close>, between \<open>[object\<close> and the bracket.\<close>

fun class_of :: "realm \<Rightarrow> jsval \<Rightarrow> string" where
  "class_of r Undefined = ''Undefined''"
| "class_of r Null = ''Null''"
| "class_of r (Bool b) = ''Boolean''"
| "class_of r (Num n) = ''Number''"
| "class_of r (Str s) = ''String''"
| "class_of r (Sym i) = ''Symbol''"
| "class_of r (Ref a) = obj_tag (rm_heap r a)"

fun nullish :: "jsval \<Rightarrow> bool" where
  "nullish Undefined = True"
| "nullish Null = True"
| "nullish v = False"

fun truthy :: "jsval \<Rightarrow> bool" where
  "truthy Undefined = False"
| "truthy Null = False"
| "truthy (Bool b) = b"
| "truthy (Num n) = (n \<noteq> Fin 0 \<and> n \<noteq> NegZero \<and> n \<noteq> NaN)"
| "truthy (Str s) = (s \<noteq> [])"
| "truthy (Sym i) = True"
| "truthy (Ref a) = True"

section \<open>Comparison\<close>

fun num_eq :: "jsnum \<Rightarrow> jsnum \<Rightarrow> bool" where
  "num_eq NaN n = False"
| "num_eq m NaN = False"
| "num_eq (Fin p) NegZero = (p = 0)"
| "num_eq NegZero (Fin q) = (q = 0)"
| "num_eq m n = (m = n)"

fun strict_eq :: "jsval \<Rightarrow> jsval \<Rightarrow> bool" where
  "strict_eq (Num m) (Num n) = num_eq m n"
| "strict_eq v w = (v = w)"

fun num_less :: "jsnum \<Rightarrow> jsnum \<Rightarrow> bool" where
  "num_less NaN n = False"
| "num_less m NaN = False"
| "num_less m NegInf = False"
| "num_less NegInf n = True"
| "num_less PosInf n = False"
| "num_less m PosInf = True"
| "num_less (Fin p) (Fin q) = (p < q)"
| "num_less (Fin p) NegZero = (p < 0)"
| "num_less NegZero (Fin q) = (0 < q)"
| "num_less NegZero NegZero = False"

fun string_less :: "string \<Rightarrow> string \<Rightarrow> bool" where
  "string_less s [] = False"
| "string_less [] (c # cs) = True"
| "string_less (c # cs) (d # ds) =
     ((of_char c :: nat) < of_char d \<or> (c = d \<and> string_less cs ds))"

section \<open>Conversions\<close>

definition white_space :: "char \<Rightarrow> bool" where
  "white_space c = ((of_char c :: nat) \<in> {9, 10, 11, 12, 13, 32, 160})"

definition trim :: "string \<Rightarrow> string" where
  "trim s = rev (dropWhile white_space (rev (dropWhile white_space s)))"

definition decimal_value :: "int \<times> int \<Rightarrow> rat" where
  "decimal_value d =
     (if 0 \<le> snd d then of_int (fst d) / 10 ^ nat (snd d) else of_int (fst d) * 10 ^ nat (- snd d))"

text \<open>\<open>Number(s)\<close>; hexadecimal, octal and binary literals are not numbers of the model.\<close>

definition string_to_number :: "string \<Rightarrow> jsnum" where
  "string_to_number s =
     (let t = trim s in
      if t = [] then Fin 0
      else if t = ''Infinity'' \<or> t = ''+Infinity'' then PosInf
      else if t = ''-Infinity'' then NegInf
      else case parse_big_decimal t of
             None \<Rightarrow> NaN
           | Some d \<Rightarrow>
               if decimal_value d = 0 \<and> hd t = CHR ''-'' then NegZero else Fin (decimal_value d))"

fun to_number :: "realm \<Rightarrow> jsval \<Rightarrow> jsnum" where
  "to_number r Undefined = NaN"
| "to_number r Null = Fin 0"
| "to_number r (Bool b) = Fin (if b then 1 else 0)"
| "to_number r (Num n) = n"
| "to_number r (Str s) = string_to_number s"
| "to_number r (Sym i) = NaN"
| "to_number r (Ref a) =
     (case obj_prim (rm_heap r a) of
        Num n \<Rightarrow> n
      | Str s \<Rightarrow> string_to_number s
      | Bool b \<Rightarrow> Fin (if b then 1 else 0)
      | Null \<Rightarrow> Fin 0
      | v \<Rightarrow> NaN)"

text \<open>The decimal digits of a fraction in \<open>[0, 1)\<close>, at most \<open>n\<close> of them.\<close>

fun fraction_digits :: "nat \<Rightarrow> rat \<Rightarrow> string" where
  "fraction_digits 0 q = []"
| "fraction_digits (Suc n) q =
     (if q = 0 then []
      else digit_char (nat \<lfloor>10 * q\<rfloor>) # fraction_digits n (10 * q - of_int \<lfloor>10 * q\<rfloor>))"

definition number_to_string :: "jsnum \<Rightarrow> string" where
  "number_to_string n =
     (case n of
        NaN \<Rightarrow> ''NaN''
      | PosInf \<Rightarrow> ''Infinity''
      | NegInf \<Rightarrow> ''-Infinity''
      | NegZero \<Rightarrow> ''0''
      | Fin q \<Rightarrow>
          (if q < 0 then ''-'' else []) @ nat_to_string (nat \<lfloor>\<bar>q\<bar>\<rfloor>) @
          (if \<bar>q\<bar> = of_int \<lfloor>\<bar>q\<bar>\<rfloor> then []
           else CHR ''.'' # fraction_digits 17 (\<bar>q\<bar> - of_int \<lfloor>\<bar>q\<bar>\<rfloor>)))"

fun prim_to_string :: "jsval \<Rightarrow> string" where
  "prim_to_string Undefined = ''undefined''"
| "prim_to_string Null = ''null''"
| "prim_to_string (Bool b) = (if b then ''true'' else ''false'')"
| "prim_to_string (Num n) = number_to_string n"
| "prim_to_string (Str s) = s"
| "prim_to_string (Sym i) = ''Symbol()''"
| "prim_to_string (Ref a) = ''[object Object]''"

fun to_string :: "realm \<Rightarrow> jsval \<Rightarrow> string" where
  "to_string r (Ref a) = prim_to_string (obj_prim (rm_heap r a))"
| "to_string r v = prim_to_string v"

text \<open>The operator \<open><\<close>: two strings are compared as strings, everything else as numbers.\<close>

fun to_primitive :: "realm \<Rightarrow> jsval \<Rightarrow> jsval" where
  "to_primitive r (Ref a) = obj_prim (rm_heap r a)"
| "to_primitive r v = v"

definition js_less :: "realm \<Rightarrow> jsval \<Rightarrow> jsval \<Rightarrow> bool" where
  "js_less r v w =
     (case (to_primitive r v, to_primitive r w) of
        (Str s, Str t) \<Rightarrow> string_less s t
      | (v', w') \<Rightarrow> num_less (to_number r v') (to_number r w'))"

section \<open>Properties\<close>

text \<open>A key of a collection: an index or a name; \<open>key_name\<close> is the property it names.\<close>

datatype pkey = Idx nat | Key string

fun key_name :: "pkey \<Rightarrow> string" where
  "key_name (Idx i) = nat_to_string i"
| "key_name (Key k) = k"

fun key_value :: "pkey \<Rightarrow> jsval" where
  "key_value (Idx i) = num_of_nat i"
| "key_value (Key k) = Str k"

text \<open>The index a property name stands for, when it is the canonical numeral of one.\<close>

definition key_index :: "string \<Rightarrow> nat option" where
  "key_index k =
     (case parse_digits k of None \<Rightarrow> None | Some i \<Rightarrow> if nat_to_string i = k then Some i else None)"

definition lookup :: "(string \<times> jsval) list \<Rightarrow> string \<Rightarrow> jsval" where
  "lookup ps k = (case map_of ps k of None \<Rightarrow> Undefined | Some v \<Rightarrow> v)"

definition object_get :: "jsobj \<Rightarrow> string \<Rightarrow> jsval" where
  "object_get ob k =
     (if obj_indexed ob \<and> k = ''length'' then num_of_nat (length (obj_elems ob))
      else case (if obj_indexed ob then key_index k else None) of
             Some i \<Rightarrow> if i < length (obj_elems ob) then obj_elems ob ! i
                       else lookup (obj_own ob @ obj_inherited ob @ obj_hidden ob) k
           | None \<Rightarrow> lookup (obj_own ob @ obj_inherited ob @ obj_hidden ob) k)"

text \<open>\<open>v[k]\<close>. On \<open>undefined\<close> and \<open>null\<close> the engine throws a \<open>TypeError\<close>: the code
  tests for them before it reads a property.\<close>

fun get_prop :: "realm \<Rightarrow> jsval \<Rightarrow> string \<Rightarrow> jsval" where
  "get_prop r (Ref a) k = object_get (rm_heap r a) k"
| "get_prop r (Str s) k =
     (if k = ''length'' then num_of_nat (length s)
      else case key_index k of
             Some i \<Rightarrow> if i < length s then Str [s ! i] else Undefined
           | None \<Rightarrow> Undefined)"
| "get_prop r v k = Undefined"

fun get_index :: "realm \<Rightarrow> jsval \<Rightarrow> nat \<Rightarrow> jsval" where
  "get_index r (Ref a) i =
     (let ob = rm_heap r a in
      if obj_indexed ob \<and> i < length (obj_elems ob) then obj_elems ob ! i
      else lookup (obj_own ob @ obj_inherited ob @ obj_hidden ob) (nat_to_string i))"
| "get_index r (Str s) i = (if i < length s then Str [s ! i] else Undefined)"
| "get_index r v i = Undefined"

fun get_key :: "realm \<Rightarrow> jsval \<Rightarrow> pkey \<Rightarrow> jsval" where
  "get_key r v (Idx i) = get_index r v i"
| "get_key r v (Key k) = get_prop r v k"

text \<open>\<open>Object.keys\<close>: the indices first, then the named properties.\<close>

definition object_keys :: "jsobj \<Rightarrow> string list" where
  "object_keys ob =
     (if obj_indexed ob then map nat_to_string [0..<length (obj_elems ob)] else []) @
     map fst (obj_own ob)"

text \<open>What \<open>for (k in obj)\<close> visits.\<close>

definition object_all_keys :: "jsobj \<Rightarrow> string list" where
  "object_all_keys ob =
     object_keys ob @ filter (\<lambda>k. k \<notin> set (object_keys ob)) (map fst (obj_inherited ob))"

text \<open>\<open>hasOwnProperty\<close> and \<open>in\<close>.\<close>

definition object_has_own :: "jsobj \<Rightarrow> string \<Rightarrow> bool" where
  "object_has_own ob k \<longleftrightarrow> k \<in> set (object_keys ob) \<or> (obj_indexed ob \<and> k = ''length'')"

fun has_own :: "realm \<Rightarrow> jsval \<Rightarrow> string \<Rightarrow> bool" where
  "has_own r (Ref a) k = object_has_own (rm_heap r a) k"
| "has_own r (Str s) k = (k = ''length'' \<or> (\<exists>i \<in> set [0..<length s]. k = nat_to_string i))"
| "has_own r v k = False"

fun has_prop :: "realm \<Rightarrow> jsval \<Rightarrow> string \<Rightarrow> bool" where
  "has_prop r (Ref a) k =
     (let ob = rm_heap r a in
      object_has_own ob k \<or> k \<in> fst ` set (obj_inherited ob @ obj_hidden ob))"
| "has_prop r v k = has_own r v k"

text \<open>Assignment to a named property: an existing property keeps its place; a new index goes
  before the named properties, in numerical order; any other new property goes last.\<close>

fun goes_before :: "string \<Rightarrow> string \<Rightarrow> bool" where
  "goes_before k k' =
     (case (key_index k, key_index k') of
        (Some i, Some j) \<Rightarrow> i < j
      | (Some i, None) \<Rightarrow> True
      | (None, j) \<Rightarrow> False)"

fun insert_prop :: "string \<Rightarrow> 'a \<Rightarrow> (string \<times> 'a) list \<Rightarrow> (string \<times> 'a) list" where
  "insert_prop k v [] = [(k, v)]"
| "insert_prop k v (p # ps) =
     (if goes_before k (fst p) then (k, v) # p # ps else p # insert_prop k v ps)"

definition put :: "string \<Rightarrow> 'a \<Rightarrow> (string \<times> 'a) list \<Rightarrow> (string \<times> 'a) list" where
  "put k v ps =
     (if k \<in> fst ` set ps then map (\<lambda>p. if fst p = k then (k, v) else p) ps
      else insert_prop k v ps)"

text \<open>Assignments in sequence, to an object that starts with the given properties.\<close>

definition put_all :: "(string \<times> 'a) list \<Rightarrow> (string \<times> 'a) list \<Rightarrow> (string \<times> 'a) list" where
  "put_all qs ps = fold (\<lambda>(k, v). put k v) qs ps"

section \<open>Laws\<close>

lemma num_eq_sym: "num_eq m n = num_eq n m"
  by (cases m; cases n) auto

lemma strict_eq_sym: "strict_eq v w = strict_eq w v"
  by (cases v; cases w) (auto simp: num_eq_sym)

lemma num_eq_trans: "num_eq l m \<Longrightarrow> num_eq m n \<Longrightarrow> num_eq l n"
  by (cases l; cases m; cases n) auto

lemma strict_eq_trans: "strict_eq u v \<Longrightarrow> strict_eq v w \<Longrightarrow> strict_eq u w"
  by (cases u; cases v; cases w) (auto dest: num_eq_trans)

lemma num_eq_self [simp]: "num_eq n n \<longleftrightarrow> n \<noteq> NaN"
  by (cases n) auto

lemma strict_eq_self [simp]: "strict_eq v v \<longleftrightarrow> v \<noteq> Num NaN"
  by (cases v) auto

lemma num_less_irrefl [simp]: "\<not> num_less n n"
  by (cases n) auto

lemma num_less_trans: "num_less l m \<Longrightarrow> num_less m n \<Longrightarrow> num_less l n"
  by (cases l; cases m; cases n) auto

lemma num_less_linear:
  "m \<noteq> NaN \<Longrightarrow> n \<noteq> NaN \<Longrightarrow> num_less m n \<or> num_eq m n \<or> num_less n m"
  by (cases m; cases n) auto

lemma nat_to_string_inject [simp]: "nat_to_string m = nat_to_string n \<longleftrightarrow> m = n"
  by (metis option.inject parse_digits_nat_to_string)

lemma key_index_nat_to_string [simp]: "key_index (nat_to_string n) = Some n"
  by (simp add: key_index_def)

lemma map_of_insert_prop:
  "k \<notin> fst ` set ps \<Longrightarrow> map_of (insert_prop k v ps) = (map_of ps)(k \<mapsto> v)"
  by (induction ps) auto

lemma set_insert_prop: "set (insert_prop k v ps) = insert (k, v) (set ps)"
  by (induction ps) auto

lemma distinct_insert_prop:
  "k \<notin> fst ` set ps \<Longrightarrow> distinct (map fst ps) \<Longrightarrow> distinct (map fst (insert_prop k v ps))"
  by (induction ps) (auto simp: set_insert_prop)

lemma map_of_update:
  "map_of (map (\<lambda>p. if fst p = k then (k, v) else p) ps) =
     (if k \<in> fst ` set ps then (map_of ps)(k \<mapsto> v) else map_of ps)"
proof (induction ps)
  case (Cons p ps)
  then show ?case by (cases p) (auto simp: fun_eq_iff)
qed simp

lemma map_of_put [simp]: "map_of (put k v ps) = (map_of ps)(k \<mapsto> v)"
  by (simp add: put_def map_of_insert_prop map_of_update)

lemma keys_put [simp]: "fst ` set (put k v ps) = insert k (fst ` set ps)"
  by (simp add: dom_map_of_conv_image_fst [symmetric])

lemma distinct_put [simp]: "distinct (map fst ps) \<Longrightarrow> distinct (map fst (put k v ps))"
proof (cases "k \<in> fst ` set ps")
  case True
  have "map fst (map (\<lambda>p. if fst p = k then (k, v) else p) ps) = map fst ps" by simp
  then show "distinct (map fst ps) \<Longrightarrow> ?thesis" using True by (simp add: put_def del: map_map)
qed (simp add: put_def distinct_insert_prop)

lemma put_all_simps [simp]:
  "put_all [] ps = ps" "put_all ((k, v) # qs) ps = put_all qs (put k v ps)"
  "put_all (qs @ qs') ps = put_all qs' (put_all qs ps)"
  by (simp_all add: put_all_def)

lemma map_of_put_all: "map_of (put_all qs ps) = map_of ps ++ map_of (rev qs)"
  by (induction qs arbitrary: ps) (auto simp: map_add_def fun_eq_iff split: option.splits)

lemma keys_put_all: "fst ` set (put_all qs ps) = fst ` set ps \<union> fst ` set qs"
  by (simp add: dom_map_of_conv_image_fst [symmetric] map_of_put_all)
    (simp add: dom_map_of_conv_image_fst Un_commute)

lemma distinct_put_all: "distinct (map fst ps) \<Longrightarrow> distinct (map fst (put_all qs ps))"
  by (induction qs arbitrary: ps) auto

text \<open>Properties that are already in the order of enumeration are assigned in that order: reading
  an object's properties into a fresh one gives the same list.\<close>

fun ordered_props :: "string list \<Rightarrow> bool" where
  "ordered_props [] = True"
| "ordered_props (k # ks) = ((\<forall>k' \<in> set ks. \<not> goes_before k' k) \<and> k \<notin> set ks \<and> ordered_props ks)"

lemma insert_prop_last:
  "\<forall>p \<in> set ps. \<not> goes_before k (fst p) \<Longrightarrow> insert_prop k v ps = ps @ [(k, v)]"
  by (induction ps) auto

lemma put_all_ordered:
  "ordered_props (map fst qs) \<Longrightarrow>
     \<forall>p \<in> set ps. \<forall>q \<in> set qs. \<not> goes_before (fst q) (fst p) \<and> fst q \<noteq> fst p \<Longrightarrow>
     put_all qs ps = ps @ qs"
proof (induction qs arbitrary: ps)
  case (Cons q qs)
  obtain k v where q: "q = (k, v)" by force
  have "put k v ps = ps @ [(k, v)]"
    using Cons.prems(2) q by (auto simp: put_def insert_prop_last simp del: goes_before.simps)
  moreover have "put_all qs (ps @ [(k, v)]) = (ps @ [(k, v)]) @ qs"
    using Cons.prems q by (intro Cons.IH) (auto simp del: goes_before.simps)
  ultimately show ?case using q by simp
qed simp

end
