(* ===== verification/Underscore_Types.thy ===== *)
theory Underscore_Types
  imports Js_Values
begin

text \<open>
  The type tests and property helpers of docs/_static/underscore-1.12.0.js: the helper for rest
  arguments, the tests on types and classes, array-likeness, and the names of an object's
  properties, with the fallbacks for engines that lack a feature. A definition that is built from
  a generator in the source (\<open>tagTester\<close>, \<open>createSizePropertyCheck\<close>, \<open>shallowProperty\<close>) is
  built from its model here.
\<close>

section \<open>Arguments\<close>

definition arg :: "jsval list \<Rightarrow> nat \<Rightarrow> jsval" where
  "arg args i = (if i < length args then args ! i else Undefined)"

text \<open>The function receives its declared parameters before \<open>startIndex\<close> and the array of the
  remaining arguments.\<close>

definition restArguments :: "(jsval list \<Rightarrow> jsval list \<Rightarrow> 'a) \<Rightarrow> nat \<Rightarrow> jsval list \<Rightarrow> 'a" where
  "restArguments func startIndex args =
     (let n = length args - startIndex;
          rest = map (\<lambda>index. args ! (index + startIndex)) [0..<n]
      in func (map (arg args) [0..<startIndex]) rest)"

section \<open>Tests on values\<close>

definition isObject :: "realm \<Rightarrow> jsval \<Rightarrow> bool" where
  "isObject r obj =
     (let type = typeof r obj in type = ''function'' \<or> (type = ''object'' \<and> truthy obj))"

definition isNull :: "jsval \<Rightarrow> bool" where
  "isNull obj = strict_eq obj Null"

definition isUndefined :: "jsval \<Rightarrow> bool" where
  "isUndefined obj = strict_eq obj Undefined"

definition isBoolean :: "realm \<Rightarrow> jsval \<Rightarrow> bool" where
  "isBoolean r obj =
     (strict_eq obj (Bool True) \<or> strict_eq obj (Bool False) \<or> class_of r obj = ''Boolean'')"

definition isElement :: "realm \<Rightarrow> jsval \<Rightarrow> bool" where
  "isElement r obj = (truthy obj \<and> strict_eq (get_prop r obj ''nodeType'') (num_of_nat 1))"

definition tagTester :: "string \<Rightarrow> realm \<Rightarrow> jsval \<Rightarrow> bool" where
  "tagTester name r obj = (class_of r obj = name)"

definition isString :: "realm \<Rightarrow> jsval \<Rightarrow> bool" where "isString = tagTester ''String''"
definition isNumber :: "realm \<Rightarrow> jsval \<Rightarrow> bool" where "isNumber = tagTester ''Number''"
definition isDate :: "realm \<Rightarrow> jsval \<Rightarrow> bool" where "isDate = tagTester ''Date''"
definition isRegExp :: "realm \<Rightarrow> jsval \<Rightarrow> bool" where "isRegExp = tagTester ''RegExp''"
definition isError :: "realm \<Rightarrow> jsval \<Rightarrow> bool" where "isError = tagTester ''Error''"
definition isSymbol :: "realm \<Rightarrow> jsval \<Rightarrow> bool" where "isSymbol = tagTester ''Symbol''"
definition isArrayBuffer :: "realm \<Rightarrow> jsval \<Rightarrow> bool" where "isArrayBuffer = tagTester ''ArrayBuffer''"

text \<open>In the engines the code detects (\<open>typeof\<close> of a regular expression, of \<open>Int8Array\<close> and of
  a node list are sane, which is all engines in use) the \<open>typeof\<close> test replaces the class.\<close>

definition isFunction :: "realm \<Rightarrow> jsval \<Rightarrow> bool" where
  "isFunction r obj = (typeof r obj = ''function'')"

definition hasObjectTag :: "realm \<Rightarrow> jsval \<Rightarrow> bool" where "hasObjectTag = tagTester ''Object''"

definition ie10IsDataView :: "realm \<Rightarrow> jsval \<Rightarrow> bool" where
  "ie10IsDataView r obj =
     (\<not> nullish obj \<and> isFunction r (get_prop r obj ''getInt8'') \<and>
      isArrayBuffer r (get_prop r obj ''buffer''))"

definition isDataView :: "realm \<Rightarrow> jsval \<Rightarrow> bool" where
  "isDataView r = (if rm_tag_bug r then ie10IsDataView r else tagTester ''DataView'' r)"

definition isArray :: "realm \<Rightarrow> jsval \<Rightarrow> bool" where
  "isArray r obj = (class_of r obj = ''Array'')"

definition has :: "realm \<Rightarrow> jsval \<Rightarrow> string \<Rightarrow> bool" where
  "has r obj key = (\<not> nullish obj \<and> has_own r obj key)"

definition isArguments :: "realm \<Rightarrow> jsval \<Rightarrow> bool" where
  "isArguments = tagTester ''Arguments''"

text \<open>\<open>parseFloat\<close>: the longest prefix that is a number, leading white space apart.\<close>

definition parse_float :: "string \<Rightarrow> jsnum" where
  "parse_float s =
     (let t = dropWhile white_space s;
          candidates = filter (\<lambda>p. string_to_number p \<noteq> NaN)
            (map (\<lambda>n. take n t) (rev [1..<Suc (length t)]))
      in case candidates of [] \<Rightarrow> NaN | p # ps \<Rightarrow> string_to_number p)"

fun is_finite :: "jsnum \<Rightarrow> bool" where
  "is_finite NaN = False"
| "is_finite PosInf = False"
| "is_finite NegInf = False"
| "is_finite n = True"

definition isFinite :: "realm \<Rightarrow> jsval \<Rightarrow> bool" where
  "isFinite r obj =
     (\<not> isSymbol r obj \<and> is_finite (to_number r obj) \<and> parse_float (to_string r obj) \<noteq> NaN)"

definition isNaN :: "realm \<Rightarrow> jsval \<Rightarrow> bool" where
  "isNaN r obj = (isNumber r obj \<and> to_number r obj = NaN)"

definition constant_js :: "'a \<Rightarrow> jsval list \<Rightarrow> 'a" where
  "constant_js v = (\<lambda>args. v)"

section \<open>Array-likeness\<close>

definition max_array_index :: rat where
  "max_array_index = 2 ^ 53 - 1"

definition createSizePropertyCheck :: "(realm \<Rightarrow> jsval \<Rightarrow> jsval) \<Rightarrow> realm \<Rightarrow> jsval \<Rightarrow> bool" where
  "createSizePropertyCheck getSizeProperty r collection =
     (case getSizeProperty r collection of
        Num n \<Rightarrow> \<not> num_less n (Fin 0) \<and> n \<noteq> NaN \<and> \<not> num_less (Fin max_array_index) n
      | v \<Rightarrow> False)"

definition shallowProperty :: "string \<Rightarrow> realm \<Rightarrow> jsval \<Rightarrow> jsval" where
  "shallowProperty key r obj = (if nullish obj then Undefined else get_prop r obj key)"

definition getByteLength :: "realm \<Rightarrow> jsval \<Rightarrow> jsval" where
  "getByteLength = shallowProperty ''byteLength''"

definition isBufferLike :: "realm \<Rightarrow> jsval \<Rightarrow> bool" where
  "isBufferLike = createSizePropertyCheck getByteLength"

definition typed_array_tags :: "string list" where
  "typed_array_tags =
     [''Int8Array'', ''Int16Array'', ''Int32Array'', ''Uint8Array'', ''Uint16Array'', ''Uint32Array'',
      ''Float32Array'', ''Float64Array'', ''Uint8ClampedArray'', ''BigInt64Array'', ''BigUint64Array'']"

definition is_view :: "realm \<Rightarrow> jsval \<Rightarrow> bool" where
  "is_view r obj = (case obj of Ref a \<Rightarrow> rm_is_view r a | v \<Rightarrow> False)"

definition isTypedArray :: "realm \<Rightarrow> jsval \<Rightarrow> bool" where
  "isTypedArray r obj = (rm_array_buffers r \<and> is_view r obj \<and> \<not> isDataView r obj)"

text \<open>The test by class for engines with typed arrays and without \<open>ArrayBuffer.isView\<close>.\<close>

definition isTypedArray_fallback :: "realm \<Rightarrow> jsval \<Rightarrow> bool" where
  "isTypedArray_fallback r obj = (isBufferLike r obj \<and> class_of r obj \<in> set typed_array_tags)"

definition getLength :: "realm \<Rightarrow> jsval \<Rightarrow> jsval" where
  "getLength = shallowProperty ''length''"

definition isArrayLike :: "realm \<Rightarrow> jsval \<Rightarrow> bool" where
  "isArrayLike = createSizePropertyCheck getLength"

text \<open>How often a loop \<open>for (i = 0; i < length; i++)\<close> runs.\<close>

fun loop_bound :: "jsval \<Rightarrow> nat" where
  "loop_bound (Num (Fin q)) = nat \<lceil>q\<rceil>"
| "loop_bound v = 0"

section \<open>Names of properties\<close>

text \<open>\<open>emulatedSet\<close> keeps the names as properties of a fresh object; \<open>contains\<close> reads such a
  property, and so also finds what a fresh object inherits.\<close>

definition object_prototype_names :: "string list" where
  "object_prototype_names =
     [''constructor'', ''hasOwnProperty'', ''isPrototypeOf'', ''propertyIsEnumerable'',
      ''toLocaleString'', ''toString'', ''valueOf'']"

definition emulatedSet_contains :: "string list \<Rightarrow> string \<Rightarrow> bool" where
  "emulatedSet_contains hash key =
     (key \<in> set hash \<or> key \<in> set object_prototype_names)"

definition emulatedSet_push :: "string \<Rightarrow> string list \<Rightarrow> string list" where
  "emulatedSet_push key ks = ks @ [key]"

definition nonEnumerableProps :: "string list" where
  "nonEnumerableProps = [''valueOf'', ''isPrototypeOf'', ''toString'', ''propertyIsEnumerable'',
     ''hasOwnProperty'', ''toLocaleString'']"

definition collectNonEnumProps :: "realm \<Rightarrow> jsval \<Rightarrow> string list \<Rightarrow> string list" where
  "collectNonEnumProps r obj ks =
     (let constructor = get_prop r obj ''constructor'';
          prototype = (if isFunction r constructor then get_prop r constructor ''prototype''
                       else Bool False);
          proto = (if truthy prototype then prototype else Ref (rm_object_proto r));
          ks1 = (if has r obj ''constructor'' \<and> \<not> emulatedSet_contains ks ''constructor''
                 then emulatedSet_push ''constructor'' ks else ks)
      in fold (\<lambda>prop ks. if has_prop r obj prop \<and>
                           \<not> strict_eq (get_prop r obj prop) (get_prop r proto prop) \<and>
                           \<not> emulatedSet_contains ks prop
                         then emulatedSet_push prop ks else ks)
           (rev nonEnumerableProps) ks1)"

definition own_keys :: "realm \<Rightarrow> jsval \<Rightarrow> string list" where
  "own_keys r obj = (case obj of Ref a \<Rightarrow> object_keys (rm_heap r a) | v \<Rightarrow> [])"

definition for_in_keys :: "realm \<Rightarrow> jsval \<Rightarrow> string list" where
  "for_in_keys r obj = (case obj of Ref a \<Rightarrow> object_all_keys (rm_heap r a) | v \<Rightarrow> [])"

definition keys :: "realm \<Rightarrow> jsval \<Rightarrow> string list" where
  "keys r obj =
     (if \<not> isObject r obj then []
      else if rm_native_keys r then own_keys r obj
      else let ks = filter (has r obj) (for_in_keys r obj)
           in if rm_enum_bug r then collectNonEnumProps r obj ks else ks)"

definition allKeys :: "realm \<Rightarrow> jsval \<Rightarrow> string list" where
  "allKeys r obj =
     (if \<not> isObject r obj then []
      else let ks = for_in_keys r obj
           in if rm_enum_bug r then collectNonEnumProps r obj ks else ks)"

section \<open>Laws\<close>

lemma isObject_iff: "isObject r v \<longleftrightarrow> (\<exists>a. v = Ref a)"
  by (cases v) (auto simp: isObject_def)

lemma isObject_simps [simp]:
  "isObject r (Ref a)" "\<not> isObject r Undefined" "\<not> isObject r Null" "\<not> isObject r (Bool b)"
  "\<not> isObject r (Num n)" "\<not> isObject r (Str s)" "\<not> isObject r (Sym i)"
  by (simp_all add: isObject_iff)

lemma isUndefined_iff [simp]: "isUndefined v \<longleftrightarrow> v = Undefined"
  by (cases v) (auto simp: isUndefined_def)

lemma isNull_iff [simp]: "isNull v \<longleftrightarrow> v = Null"
  by (cases v) (auto simp: isNull_def)

text \<open>Every name the fallback for old engines looks for is one a fresh object inherits, so the
  emulated set always claims to hold it.\<close>

lemma emulatedSet_contains_nonenum:
  "prop \<in> set (''constructor'' # nonEnumerableProps) \<Longrightarrow> emulatedSet_contains ks prop"
  by (auto simp: nonEnumerableProps_def emulatedSet_contains_def object_prototype_names_def)

lemma fold_no_change: "\<forall>x \<in> set xs. f x s = s \<Longrightarrow> fold f xs s = s"
  by (induction xs) auto

lemma collectNonEnumProps_nothing: "collectNonEnumProps r obj ks = ks"
  unfolding collectNonEnumProps_def Let_def
  by (simp add: emulatedSet_contains_nonenum fold_no_change)

lemma keys_native:
  "keys r obj = (if rm_native_keys r then own_keys r obj else filter (has r obj) (for_in_keys r obj))"
  by (cases obj)
    (simp_all add: keys_def collectNonEnumProps_nothing Let_def own_keys_def for_in_keys_def)

lemma restArguments_eq:
  "restArguments func n args = func (map (arg args) [0..<n]) (drop n args)"
proof -
  have "map (\<lambda>i. args ! (i + n)) [0..<length args - n] = drop n args"
    by (rule nth_equalityI) (auto simp: add.commute)
  then show ?thesis by (simp add: restArguments_def Let_def)
qed

end
