(* ===== verification/Underscore_Objects.thy ===== *)
theory Underscore_Objects
  imports Underscore_Types
begin

text \<open>
  The functions of docs/_static/underscore-1.12.0.js on objects and the callbacks made from values:
  copies and assignments of properties, deep paths, property matchers, and \<open>cb\<close>, which turns the
  second argument of a collection function into a function. A fresh object is its property list, a
  fresh array its list of elements; assignments to an existing object update the realm.
\<close>

section \<open>Calls and assignments\<close>

text \<open>\<open>f.apply(this, args)\<close>; the engine throws when \<open>f\<close> is not a function, which the code
  tests before.\<close>

definition apply_fn :: "realm \<Rightarrow> jsval \<Rightarrow> jsval \<Rightarrow> jsval list \<Rightarrow> jsval" where
  "apply_fn r f this args = (case f of Ref a \<Rightarrow> rm_call r a this args | v \<Rightarrow> Undefined)"

definition object_set :: "string \<Rightarrow> jsval \<Rightarrow> jsobj \<Rightarrow> jsobj" where
  "object_set k v ob =
     (case (if obj_indexed ob then key_index k else None) of
        Some i \<Rightarrow>
          if i < length (obj_elems ob) then ob\<lparr>obj_elems := (obj_elems ob)[i := v]\<rparr>
          else ob\<lparr>obj_elems := obj_elems ob @ replicate (i - length (obj_elems ob)) Undefined @ [v]\<rparr>
      | None \<Rightarrow> ob\<lparr>obj_own := put k v (obj_own ob)\<rparr>)"

definition set_prop :: "jsval \<Rightarrow> string \<Rightarrow> jsval \<Rightarrow> realm \<Rightarrow> realm" where
  "set_prop obj k v r =
     (case obj of
        Ref a \<Rightarrow> r\<lparr>rm_heap := (rm_heap r)(a := object_set k v (rm_heap r a))\<rparr>
      | w \<Rightarrow> r)"

definition own_props :: "realm \<Rightarrow> jsval \<Rightarrow> (string \<times> jsval) list" where
  "own_props r obj = map (\<lambda>k. (k, get_prop r obj k)) (keys r obj)"

section \<open>Emptiness, matching and class tests\<close>

definition isEmpty :: "realm \<Rightarrow> jsval \<Rightarrow> bool" where
  "isEmpty r obj =
     (nullish obj \<or>
      (let n = getLength r obj in
       if typeof r n = ''number'' \<and> (isArray r obj \<or> isString r obj \<or> isArguments r obj)
       then strict_eq n (num_of_nat 0)
       else keys r obj = []))"

definition isMatch_props :: "realm \<Rightarrow> jsval \<Rightarrow> (string \<times> jsval) list \<Rightarrow> bool" where
  "isMatch_props r object attrs =
     (if nullish object then attrs = []
      else \<forall>(key, v) \<in> set attrs. strict_eq v (get_prop r object key) \<and> has_prop r object key)"

definition isMatch :: "realm \<Rightarrow> jsval \<Rightarrow> jsval \<Rightarrow> bool" where
  "isMatch r object attrs = isMatch_props r object (own_props r attrs)"

definition commonInit :: "string list" where "commonInit = [''clear'', ''delete'']"
definition mapTail :: "string list" where "mapTail = [''get'', ''has'', ''set'']"
definition mapMethods :: "string list" where "mapMethods = commonInit @ [''forEach''] @ mapTail"
definition weakMapMethods :: "string list" where "weakMapMethods = commonInit @ mapTail"
definition setMethods :: "string list" where
  "setMethods = [''add''] @ commonInit @ [''forEach''] @ [''has'']"

definition ie11fingerprint :: "string list \<Rightarrow> realm \<Rightarrow> jsval \<Rightarrow> bool" where
  "ie11fingerprint methods r obj =
     (\<not> nullish obj \<and> allKeys r obj = [] \<and>
      (\<forall>m \<in> set methods. isFunction r (get_prop r obj m)) \<and>
      (methods \<noteq> weakMapMethods \<or> \<not> isFunction r (get_prop r obj ''forEach'')))"

definition isMap :: "realm \<Rightarrow> jsval \<Rightarrow> bool" where
  "isMap r = (if rm_ie11 r then ie11fingerprint mapMethods r else tagTester ''Map'' r)"
definition isWeakMap :: "realm \<Rightarrow> jsval \<Rightarrow> bool" where
  "isWeakMap r = (if rm_ie11 r then ie11fingerprint weakMapMethods r else tagTester ''WeakMap'' r)"
definition isSet :: "realm \<Rightarrow> jsval \<Rightarrow> bool" where
  "isSet r = (if rm_ie11 r then ie11fingerprint setMethods r else tagTester ''Set'' r)"
definition isWeakSet :: "realm \<Rightarrow> jsval \<Rightarrow> bool" where
  "isWeakSet = tagTester ''WeakSet''"

section \<open>Properties as lists\<close>

definition values_js :: "realm \<Rightarrow> jsval \<Rightarrow> jsval list" where
  "values_js r obj = map (get_prop r obj) (keys r obj)"

definition pairs :: "realm \<Rightarrow> jsval \<Rightarrow> (jsval \<times> jsval) list" where
  "pairs r obj = map (\<lambda>k. (Str k, get_prop r obj k)) (keys r obj)"

definition invert :: "realm \<Rightarrow> jsval \<Rightarrow> (string \<times> jsval) list" where
  "invert r obj =
     fold (\<lambda>k result. put (to_string r (get_prop r obj k)) (Str k) result) (keys r obj) []"

text \<open>\<open>Array.prototype.sort\<close> with a test whether the first argument must come after the second:
  a stable sort.\<close>

fun insert_sorted :: "('a \<Rightarrow> 'a \<Rightarrow> bool) \<Rightarrow> 'a \<Rightarrow> 'a list \<Rightarrow> 'a list" where
  "insert_sorted after x [] = [x]"
| "insert_sorted after x (y # ys) =
     (if after x y then y # insert_sorted after x ys else x # y # ys)"

definition array_sort :: "('a \<Rightarrow> 'a \<Rightarrow> bool) \<Rightarrow> 'a list \<Rightarrow> 'a list" where
  "array_sort after xs = foldr (insert_sorted after) xs []"

definition functions_js :: "realm \<Rightarrow> jsval \<Rightarrow> string list" where
  "functions_js r obj =
     array_sort (\<lambda>s t. string_less t s)
       (filter (\<lambda>key. isFunction r (get_prop r obj key)) (for_in_keys r obj))"

section \<open>Assigning properties\<close>

text \<open>The object passed first keeps its address; a primitive first argument of \<open>defaults\<close> is
  boxed into an object nobody else holds, so that the realm does not change.\<close>

definition createAssigner ::
    "(realm \<Rightarrow> jsval \<Rightarrow> string list) \<Rightarrow> bool \<Rightarrow> jsval \<Rightarrow> jsval list \<Rightarrow> realm \<Rightarrow> realm" where
  "createAssigner keysFunc dflts obj sources r =
     (if sources = [] \<or> nullish obj then r
      else fold (\<lambda>source r.
             fold (\<lambda>key r. if \<not> dflts \<or> strict_eq (get_prop r obj key) Undefined
                           then set_prop obj key (get_prop r source key) r else r)
               (keysFunc r source) r) sources r)"

definition extend :: "jsval \<Rightarrow> jsval list \<Rightarrow> realm \<Rightarrow> realm" where
  "extend = createAssigner allKeys False"
definition extendOwn :: "jsval \<Rightarrow> jsval list \<Rightarrow> realm \<Rightarrow> realm" where
  "extendOwn = createAssigner keys False"
definition defaults :: "jsval \<Rightarrow> jsval list \<Rightarrow> realm \<Rightarrow> realm" where
  "defaults = createAssigner allKeys True"

text \<open>A fresh object that inherits the prototype's properties; \<open>props\<close> are then assigned.\<close>

definition baseCreate :: "realm \<Rightarrow> jsval \<Rightarrow> jsobj" where
  "baseCreate r prototype =
     (case prototype of
        Ref a \<Rightarrow>
          (let ob = rm_heap r a in
           (plain_object [])\<lparr>obj_inherited := map (\<lambda>k. (k, object_get ob k)) (object_all_keys ob),
                            obj_hidden := obj_hidden ob\<rparr>)
      | v \<Rightarrow> plain_object [])"

definition create :: "realm \<Rightarrow> jsval \<Rightarrow> jsval \<Rightarrow> jsobj" where
  "create r prototype props =
     (let result = baseCreate r prototype in
      if truthy props then fold (\<lambda>(k, v). object_set k v) (own_props r props) result else result)"

datatype cloned = Same jsval | FreshArray "jsval list" | FreshObject "(string \<times> jsval) list"

definition array_elems :: "realm \<Rightarrow> jsval \<Rightarrow> jsval list" where
  "array_elems r obj = map (get_index r obj) [0..<loop_bound (getLength r obj)]"

definition clone :: "realm \<Rightarrow> jsval \<Rightarrow> cloned" where
  "clone r obj =
     (if \<not> isObject r obj then Same obj
      else if isArray r obj then FreshArray (array_elems r obj)
      else FreshObject (put_all (map (\<lambda>k. (k, get_prop r obj k)) (allKeys r obj)) []))"

text \<open>The interceptor runs for its effect on a state of the caller.\<close>

definition tap :: "jsval \<Rightarrow> (jsval \<Rightarrow> 's \<Rightarrow> 's) \<Rightarrow> 's \<Rightarrow> jsval \<times> 's" where
  "tap obj interceptor s = (obj, interceptor obj s)"

section \<open>Deep paths\<close>

definition toPath :: "realm \<Rightarrow> jsval \<Rightarrow> jsval list" where
  "toPath r path = (if isArray r path then array_elems r path else [path])"

definition toPath_hook :: "realm \<Rightarrow> jsval \<Rightarrow> jsval list" where
  "toPath_hook r path = (case rm_to_path r of None \<Rightarrow> toPath r path | Some f \<Rightarrow> f path)"

definition get_at :: "realm \<Rightarrow> jsval \<Rightarrow> jsval \<Rightarrow> jsval" where
  "get_at r obj k = get_prop r obj (to_string r k)"

fun deepGet_loop :: "realm \<Rightarrow> jsval \<Rightarrow> jsval list \<Rightarrow> jsval" where
  "deepGet_loop r obj [] = obj"
| "deepGet_loop r obj (k # ks) =
     (if nullish obj then Undefined else deepGet_loop r (get_at r obj k) ks)"

definition deepGet :: "realm \<Rightarrow> jsval \<Rightarrow> jsval list \<Rightarrow> jsval" where
  "deepGet r obj path = (if path = [] then Undefined else deepGet_loop r obj path)"

definition get_deep :: "realm \<Rightarrow> jsval \<Rightarrow> jsval \<Rightarrow> jsval \<Rightarrow> jsval" where
  "get_deep r object path defaultValue =
     (let v = deepGet r object (toPath_hook r path) in if isUndefined v then defaultValue else v)"

fun has_path :: "realm \<Rightarrow> jsval \<Rightarrow> jsval list \<Rightarrow> bool" where
  "has_path r obj [] = True"
| "has_path r obj (k # ks) = (has r obj (to_string r k) \<and> has_path r (get_at r obj k) ks)"

definition has_deep :: "realm \<Rightarrow> jsval \<Rightarrow> jsval \<Rightarrow> bool" where
  "has_deep r obj path =
     (let p = toPath_hook r path in has_path r obj p \<and> p \<noteq> [])"

text \<open>A child that is a function is called on its parent.\<close>

fun result_loop :: "realm \<Rightarrow> jsval \<Rightarrow> jsval list \<Rightarrow> jsval \<Rightarrow> jsval" where
  "result_loop r obj [] fallback = obj"
| "result_loop r obj (k # ks) fallback =
     (let prop = (if nullish obj then Undefined else get_at r obj k) in
      if strict_eq prop Undefined
      then (if isFunction r fallback then apply_fn r fallback obj [] else fallback)
      else result_loop r (if isFunction r prop then apply_fn r prop obj [] else prop) ks fallback)"

definition result_js :: "realm \<Rightarrow> jsval \<Rightarrow> jsval \<Rightarrow> jsval \<Rightarrow> jsval" where
  "result_js r obj path fallback =
     (let p = toPath_hook r path in
      if p = [] then (if isFunction r fallback then apply_fn r fallback obj [] else fallback)
      else result_loop r obj p fallback)"

section \<open>Callbacks\<close>

definition identity :: "jsval list \<Rightarrow> jsval" where
  "identity args = arg args 0"

definition matcher :: "realm \<Rightarrow> jsval \<Rightarrow> jsval list \<Rightarrow> jsval" where
  "matcher r attrs =
     (let copy = put_all (own_props r attrs) []
      in (\<lambda>args. Bool (isMatch_props r (arg args 0) copy)))"

definition property :: "realm \<Rightarrow> jsval \<Rightarrow> jsval list \<Rightarrow> jsval" where
  "property r path = (let p = toPath_hook r path in (\<lambda>args. deepGet r (arg args 0) p))"

datatype arg_count = Unspecified | Count nat | Unlimited

definition optimizeCb :: "realm \<Rightarrow> jsval \<Rightarrow> jsval \<Rightarrow> arg_count \<Rightarrow> jsval list \<Rightarrow> jsval" where
  "optimizeCb r func context argCount =
     (if strict_eq context Undefined then apply_fn r func Undefined
      else (let n = (case argCount of Unspecified \<Rightarrow> Count 3 | c \<Rightarrow> c) in
            if n = Count 1 then (\<lambda>args. apply_fn r func context [arg args 0])
            else if n = Count 3 then
              (\<lambda>args. apply_fn r func context [arg args 0, arg args 1, arg args 2])
            else if n = Count 4 then
              (\<lambda>args. apply_fn r func context [arg args 0, arg args 1, arg args 2, arg args 3])
            else apply_fn r func context))"

definition baseIteratee :: "realm \<Rightarrow> jsval \<Rightarrow> jsval \<Rightarrow> arg_count \<Rightarrow> jsval list \<Rightarrow> jsval" where
  "baseIteratee r v context argCount =
     (if nullish v then identity
      else if isFunction r v then optimizeCb r v context argCount
      else if isObject r v \<and> \<not> isArray r v then matcher r v
      else property r v)"

definition iteratee_js :: "realm \<Rightarrow> jsval \<Rightarrow> jsval \<Rightarrow> jsval list \<Rightarrow> jsval" where
  "iteratee_js r v context = baseIteratee r v context Unlimited"

definition cb :: "realm \<Rightarrow> jsval \<Rightarrow> jsval \<Rightarrow> arg_count \<Rightarrow> jsval list \<Rightarrow> jsval" where
  "cb r v context argCount =
     (case rm_iteratee r of Some custom \<Rightarrow> custom v context | None \<Rightarrow> baseIteratee r v context argCount)"

definition mapObject :: "realm \<Rightarrow> jsval \<Rightarrow> jsval \<Rightarrow> jsval \<Rightarrow> (string \<times> jsval) list" where
  "mapObject r obj it context =
     (let f = cb r it context Unspecified in
      fold (\<lambda>k results. put k (f [get_prop r obj k, Str k, obj]) results) (keys r obj) [])"

definition noop :: "jsval list \<Rightarrow> jsval" where
  "noop args = Undefined"

definition propertyOf :: "realm \<Rightarrow> jsval \<Rightarrow> jsval list \<Rightarrow> jsval" where
  "propertyOf r obj =
     (if nullish obj then noop else (\<lambda>args. get_deep r obj (arg args 0) Undefined))"

section \<open>Numbers\<close>

definition times_js :: "realm \<Rightarrow> jsval \<Rightarrow> jsval \<Rightarrow> jsval \<Rightarrow> jsval list" where
  "times_js r n it context =
     (let f = optimizeCb r it context (Count 1) in map (\<lambda>i. f [num_of_nat i]) [0..<loop_bound n])"

text \<open>\<open>u\<close> is what \<open>Math.random\<close> returned.\<close>

definition random_js :: "rat \<Rightarrow> int \<Rightarrow> int option \<Rightarrow> int" where
  "random_js u mn mx =
     (case mx of
        None \<Rightarrow> 0 + \<lfloor>u * of_int (mn - 0 + 1)\<rfloor>
      | Some m \<Rightarrow> mn + \<lfloor>u * of_int (m - mn + 1)\<rfloor>)"

text \<open>The counter of \<open>uniqueId\<close> is part of the library's state.\<close>

definition uniqueId :: "realm \<Rightarrow> jsval \<Rightarrow> nat \<Rightarrow> string \<times> nat" where
  "uniqueId r prefix idCounter =
     (let n = Suc idCounter; i = nat_to_string n
      in (if truthy prefix then to_string r prefix @ i else i, n))"

end
