(* ===== verification/Underscore_Equal.thy ===== *)
theory Underscore_Equal
  imports Underscore_Objects
begin

text \<open>
  Deep comparison, from docs/_static/underscore-1.12.0.js: \<open>eq\<close>, \<open>deepEq\<close> and \<open>isEqual\<close>. The
  objects being compared may form cycles; the code carries two stacks of the objects it is
  inside of, here one list of pairs with the innermost first. \<open>deepEq\<close> has fuel for its depth,
  and the first theorem says which fuel is enough.
\<close>

section \<open>Results\<close>

datatype eq_result = OutOfFuel | Throws | Answer bool

fun all_results :: "('a \<Rightarrow> eq_result) \<Rightarrow> 'a list \<Rightarrow> eq_result" where
  "all_results f [] = Answer True"
| "all_results f (x # xs) = (if f x = Answer True then all_results f xs else f x)"

section \<open>Shallow comparison\<close>

definition is_zero :: "jsval \<Rightarrow> bool" where
  "is_zero v = (v = Num (Fin 0) \<or> v = Num NegZero)"

text \<open>\<open>1 / a === 1 / b\<close> of two zeros holds when they have the same sign.\<close>

definition eq_with :: "(jsval \<Rightarrow> jsval \<Rightarrow> eq_result) \<Rightarrow> realm \<Rightarrow> jsval \<Rightarrow> jsval \<Rightarrow> eq_result" where
  "eq_with deep r a b =
     (if strict_eq a b then Answer (\<not> is_zero a \<or> a = b)
      else if nullish a \<or> nullish b then Answer False
      else if \<not> strict_eq a a then Answer (\<not> strict_eq b b)
      else if typeof r a \<noteq> ''function'' \<and> typeof r a \<noteq> ''object'' \<and> typeof r b \<noteq> ''object''
      then Answer False
      else deep a b)"

section \<open>Comparison by class\<close>

definition unwrap :: "realm \<Rightarrow> jsval \<Rightarrow> jsval" where
  "unwrap r v =
     (case v of
        Ref a \<Rightarrow> if rm_is_wrapper r a then get_prop r v ''_wrapped'' else v
      | w \<Rightarrow> w)"

definition num_egal :: "jsnum \<Rightarrow> jsnum \<Rightarrow> bool" where
  "num_egal m n = (m = n)"

definition sym_value :: "realm \<Rightarrow> jsval \<Rightarrow> jsval" where
  "sym_value r v = to_primitive r v"

text \<open>The bytes of a buffer, or of the part of a buffer a view shows.\<close>

definition toBufferView :: "realm \<Rightarrow> jsval \<Rightarrow> jsval list" where
  "toBufferView r v =
     (let b = get_prop r v ''buffer'';
          source = (if truthy b then b else v);
          offset = loop_bound (get_prop r v ''byteOffset'')
      in take (loop_bound (getByteLength r v)) (drop offset
           (case source of Ref a \<Rightarrow> obj_elems (rm_heap r a) | w \<Rightarrow> [])))"

definition same_bytes :: "realm \<Rightarrow> jsval \<Rightarrow> jsval \<Rightarrow> bool" where
  "same_bytes r a b =
     (let xs = toBufferView r a; ys = toBufferView r b
      in length xs = length ys \<and> list_all2 strict_eq xs ys)"

text \<open>The classes compared by value.\<close>

definition compare_by_value :: "realm \<Rightarrow> string \<Rightarrow> jsval \<Rightarrow> jsval \<Rightarrow> bool option" where
  "compare_by_value r className a b =
     (if className \<in> {''RegExp'', ''String''} then Some (to_string r a = to_string r b)
      else if className = ''Number'' then
        (let m = to_number r a; n = to_number r b in
         Some (if m = NaN then n = NaN
               else if num_eq m (Fin 0) then num_egal m n
               else num_eq m n))
      else if className \<in> {''Date'', ''Boolean''} then Some (num_eq (to_number r a) (to_number r b))
      else if className = ''Symbol'' then Some (strict_eq (sym_value r a) (sym_value r b))
      else if className \<in> {''ArrayBuffer'', ''DataView''} then Some (same_bytes r a b)
      else None)"

definition self_instance :: "realm \<Rightarrow> jsval \<Rightarrow> bool" where
  "self_instance r v = (case v of Ref a \<Rightarrow> rm_self_instance r a | w \<Rightarrow> False)"

definition different_constructors :: "realm \<Rightarrow> jsval \<Rightarrow> jsval \<Rightarrow> bool" where
  "different_constructors r a b =
     (let aCtor = get_prop r a ''constructor''; bCtor = get_prop r b ''constructor''
      in \<not> strict_eq aCtor bCtor \<and>
         \<not> (isFunction r aCtor \<and> self_instance r aCtor \<and> isFunction r bCtor \<and> self_instance r bCtor) \<and>
         has_prop r a ''constructor'' \<and> has_prop r b ''constructor'')"

section \<open>Deep comparison\<close>

text \<open>The children to compare, the last first, or \<open>None\<close> when the shapes differ.\<close>

definition array_children :: "realm \<Rightarrow> jsval \<Rightarrow> jsval \<Rightarrow> (jsval \<times> jsval) list option" where
  "array_children r a b =
     (if \<not> strict_eq (get_prop r a ''length'') (get_prop r b ''length'') then None
      else Some (map (\<lambda>i. (get_index r a i, get_index r b i))
             (rev [0..<loop_bound (get_prop r a ''length'')])))"

definition object_children :: "realm \<Rightarrow> jsval \<Rightarrow> jsval \<Rightarrow> string list option" where
  "object_children r a b =
     (if length (keys r b) \<noteq> length (keys r a) then None else Some (rev (keys r a)))"

definition is_view_bug :: "realm \<Rightarrow> jsval \<Rightarrow> bool" where
  "is_view_bug r a = (rm_tag_bug r \<and> class_of r a = ''Object'' \<and> isDataView r a)"

definition class_name :: "realm \<Rightarrow> jsval \<Rightarrow> string" where
  "class_name r a = (if is_view_bug r a then ''DataView'' else class_of r a)"

definition is_typed :: "realm \<Rightarrow> jsval \<Rightarrow> bool" where
  "is_typed r a = (class_name r a \<noteq> ''Array'' \<and> isTypedArray r a)"

definition areArrays :: "realm \<Rightarrow> jsval \<Rightarrow> bool" where
  "areArrays r a = (class_name r a = ''Array'' \<or> is_typed r a)"

text \<open>Everything that is decided before the pair is pushed on the stacks.\<close>

definition deepEq_early :: "realm \<Rightarrow> (jsval \<times> jsval) list \<Rightarrow> jsval \<Rightarrow> jsval \<Rightarrow> eq_result option" where
  "deepEq_early r stack a b =
     (if class_of r a \<noteq> class_of r b \<or> (is_view_bug r a \<and> \<not> isDataView r b) then Some (Answer False)
      else case compare_by_value r (class_name r a) a b of
        Some verdict \<Rightarrow> Some (Answer verdict)
      | None \<Rightarrow>
          if is_typed r a \<and> \<not> strict_eq (getByteLength r a) (getByteLength r b)
          then Some (Answer False)
          else if is_typed r a \<and> strict_eq (get_prop r a ''buffer'') (get_prop r b ''buffer'') \<and>
                  strict_eq (get_prop r a ''byteOffset'') (get_prop r b ''byteOffset'')
          then Some (Answer True)
          else if \<not> areArrays r a \<and> (typeof r a \<noteq> ''object'' \<or> typeof r b \<noteq> ''object'')
          then Some (Answer False)
          else if \<not> areArrays r a \<and> (nullish a \<or> nullish b) then Some Throws
          else if \<not> areArrays r a \<and> different_constructors r a b then Some (Answer False)
          else map_option (\<lambda>(x, y). Answer (strict_eq y b))
                 (List.find (\<lambda>(x, y). strict_eq x a) stack))"

text \<open>The recursive comparison of the children, with the pair on the stacks.\<close>

definition compare_children ::
    "(jsval \<Rightarrow> jsval \<Rightarrow> eq_result) \<Rightarrow> realm \<Rightarrow> jsval \<Rightarrow> jsval \<Rightarrow> eq_result" where
  "compare_children deeper r a b =
     (if areArrays r a then
        (case array_children r a b of
           None \<Rightarrow> Answer False
         | Some ps \<Rightarrow> all_results (\<lambda>(x, y). deeper x y) ps)
      else
        (case object_children r a b of
           None \<Rightarrow> Answer False
         | Some ks \<Rightarrow> all_results (\<lambda>k.
             if has r b k then deeper (get_prop r a k) (get_prop r b k) else Answer False) ks))"

fun deepEq :: "nat \<Rightarrow> realm \<Rightarrow> (jsval \<times> jsval) list \<Rightarrow> jsval \<Rightarrow> jsval \<Rightarrow> eq_result" where
  "deepEq 0 r stack a0 b0 = OutOfFuel"
| "deepEq (Suc n) r stack a0 b0 =
     (let a = unwrap r a0; b = unwrap r b0 in
      case deepEq_early r stack a b of
        Some verdict \<Rightarrow> verdict
      | None \<Rightarrow> compare_children (eq_with (deepEq n r ((a, b) # stack)) r) r a b)"

definition eq_js :: "nat \<Rightarrow> realm \<Rightarrow> (jsval \<times> jsval) list \<Rightarrow> jsval \<Rightarrow> jsval \<Rightarrow> eq_result" where
  "eq_js n r stack = eq_with (deepEq n r stack) r"

definition isEqual :: "nat \<Rightarrow> realm \<Rightarrow> jsval \<Rightarrow> jsval \<Rightarrow> eq_result" where
  "isEqual n r a b = eq_js n r [] a b"

section \<open>Enough fuel\<close>

text \<open>A set of addresses that contains everything its objects refer to.\<close>

definition closed_under_get :: "realm \<Rightarrow> nat set \<Rightarrow> bool" where
  "closed_under_get r A \<longleftrightarrow>
     (\<forall>a \<in> A. (\<forall>k c. get_prop r (Ref a) k = Ref c \<longrightarrow> c \<in> A) \<and>
              (\<forall>i c. get_index r (Ref a) i = Ref c \<longrightarrow> c \<in> A))"

definition refs_in :: "nat set \<Rightarrow> jsval \<Rightarrow> bool" where
  "refs_in A v \<longleftrightarrow> (\<forall>a. v = Ref a \<longrightarrow> a \<in> A)"

lemma all_results_fuel: "(\<And>x. x \<in> set xs \<Longrightarrow> f x \<noteq> OutOfFuel) \<Longrightarrow> all_results f xs \<noteq> OutOfFuel"
  by (induction xs) auto

lemma eq_with_fuel: "deep a b \<noteq> OutOfFuel \<Longrightarrow> eq_with deep r a b \<noteq> OutOfFuel"
  by (simp add: eq_with_def)

lemma refs_in_get_prop:
  assumes "closed_under_get r A" "refs_in A v"
  shows "refs_in A (get_prop r v k)"
proof (cases v)
  case (Ref x)
  with assms show ?thesis unfolding refs_in_def closed_under_get_def by blast
qed (simp_all add: refs_in_def split: option.splits)

lemma refs_in_get_index:
  assumes "closed_under_get r A" "refs_in A v"
  shows "refs_in A (get_index r v i)"
proof (cases v)
  case (Ref x)
  with assms show ?thesis unfolding refs_in_def closed_under_get_def by blast
qed (simp_all add: refs_in_def)

lemma refs_in_unwrap: "closed_under_get r A \<Longrightarrow> refs_in A v \<Longrightarrow> refs_in A (unwrap r v)"
  using refs_in_get_prop [of r A v "''_wrapped''"] by (cases v) (simp_all add: unwrap_def)

lemma find_None_firsts:
  "List.find (\<lambda>(x, y). strict_eq x (Ref c)) stack = None \<Longrightarrow> Ref c \<notin> fst ` set stack"
  by (auto simp: find_None_iff)

lemma object_typeof: "typeof r v = ''object'' \<Longrightarrow> \<not> nullish v \<Longrightarrow> \<exists>c. v = Ref c"
  by (cases v) auto

lemma areArrays_ref: "areArrays r v \<Longrightarrow> \<exists>c. v = Ref c"
  by (cases v) (auto simp: areArrays_def is_typed_def class_name_def isTypedArray_def is_view_def
      split: if_splits)

lemma deepEq_early_fuel: "deepEq_early r stack a b \<noteq> Some OutOfFuel"
  by (simp add: deepEq_early_def split: option.splits)

lemma deepEq_early_None:
  assumes "deepEq_early r stack a b = None"
  shows "\<exists>c. a = Ref c" and "List.find (\<lambda>(x, y). strict_eq x a) stack = None"
  using assms object_typeof [of r a] areArrays_ref [of r a]
  by (auto simp: deepEq_early_def split: option.splits if_splits)

lemma compare_children_fuel:
  assumes "\<And>k y. deeper (get_prop r a k) y \<noteq> OutOfFuel"
    and "\<And>i y. deeper (get_index r a i) y \<noteq> OutOfFuel"
  shows "compare_children deeper r a b \<noteq> OutOfFuel"
  using assms
  by (auto simp: compare_children_def array_children_def split: option.splits if_splits
      intro!: all_results_fuel)

lemma deepEq_fuel:
  assumes closed: "closed_under_get r A" and fin: "finite A"
  shows "refs_in A a0 \<Longrightarrow> fst ` set stack \<subseteq> Ref ` A \<Longrightarrow> distinct (map fst stack) \<Longrightarrow>
     card A < n + length stack \<Longrightarrow> deepEq n r stack a0 b0 \<noteq> OutOfFuel"
proof (induction n arbitrary: stack a0 b0)
  case 0
  have "length stack = card (fst ` set stack)"
    using 0(3) by (metis distinct_card length_map set_map)
  also have "\<dots> \<le> card (Ref ` A)"
    using 0(2) fin by (intro card_mono) auto
  also have "\<dots> \<le> card A" using fin by (rule card_image_le)
  finally show ?case using 0(4) by simp
next
  case (Suc n)
  define a b where "a = unwrap r a0" and "b = unwrap r b0"
  have refs_in_a: "refs_in A a" using closed Suc.prems(1) by (simp add: a_def refs_in_unwrap)
  show ?case
  proof (cases "deepEq_early r stack a b")
    case (Some verdict)
    with deepEq_early_fuel [of r stack a b] show ?thesis by (simp add: a_def b_def)
  next
    case None
    from deepEq_early_None(1) [OF None] obtain c where c: "a = Ref c" by blast
    have deeper: "eq_with (deepEq n r ((a, b) # stack)) r x y \<noteq> OutOfFuel" if "refs_in A x" for x y
    proof (intro eq_with_fuel Suc.IH)
      from c refs_in_a have "c \<in> A" by (simp add: refs_in_def)
      with c Suc.prems(2) show "fst ` set ((a, b) # stack) \<subseteq> Ref ` A" by auto
      show "distinct (map fst ((a, b) # stack))"
        using find_None_firsts [of c stack] deepEq_early_None(2) [OF None] c Suc.prems(3) by simp
    qed (use that Suc.prems(4) in simp_all)
    have "compare_children (eq_with (deepEq n r ((a, b) # stack)) r) r a b \<noteq> OutOfFuel"
      using deeper refs_in_get_prop [OF closed refs_in_a] refs_in_get_index [OF closed refs_in_a]
      by (intro compare_children_fuel) auto
    with None show ?thesis by (simp add: a_def b_def Let_def)
  qed
qed

text \<open>For two values whose objects, and the objects these refer to, are among finitely many, one
  more unit of fuel than there are objects is enough.\<close>

lemma isEqual_fuel:
  "closed_under_get r A \<Longrightarrow> finite A \<Longrightarrow> refs_in A a \<Longrightarrow> card A < n \<Longrightarrow> isEqual n r a b \<noteq> OutOfFuel"
  by (simp add: isEqual_def eq_js_def eq_with_fuel deepEq_fuel)

end
