(* ===== verification/Underscore_Strings.thy ===== *)
theory Underscore_Strings
  imports Underscore_Objects
begin

text \<open>
  Escaping and templates, from docs/_static/underscore-1.12.0.js. The regular expression of an
  escaper is an alternative of literal keys: \<open>replace_keys\<close> replaces, from the left, the first key
  of the map that matches. Templates are modelled up to the source text they are compiled to, with
  the default delimiters; running that text is the engine's.
\<close>

section \<open>Escapers\<close>

definition starts_with :: "string \<Rightarrow> string \<Rightarrow> bool" where
  "starts_with k s = (take (length k) s = k)"

function replace_keys :: "(string \<times> string) list \<Rightarrow> string \<Rightarrow> string" where
  "replace_keys ps [] = []"
| "replace_keys ps (c # cs) =
     (case List.find (\<lambda>(k, v). k \<noteq> [] \<and> starts_with k (c # cs)) ps of
        Some (k, v) \<Rightarrow> v @ replace_keys ps (drop (length k - 1) cs)
      | None \<Rightarrow> c # replace_keys ps cs)"
  by pat_completeness auto
termination
  by (relation "measure (\<lambda>(ps, s). length s)") auto

definition createEscaper :: "(string \<times> string) list \<Rightarrow> realm \<Rightarrow> jsval \<Rightarrow> string" where
  "createEscaper ps r v =
     (let s = (if nullish v then [] else to_string r v);
          matches = list_ex (\<lambda>i. list_ex (\<lambda>(k, w). starts_with k (drop i s)) ps) [0..<length s]
      in if matches then replace_keys ps s else s)"

definition escapeMap :: "(string \<times> string) list" where
  "escapeMap =
     [(''&'', ''&amp;''), (''<'', ''&lt;''), (''>'', ''&gt;''), ([CHR 0x22], ''&quot;''),
      ([CHR 0x27], ''&#x27;''), ([CHR 0x60], ''&#x60;'')]"

definition unescapeMap :: "(string \<times> string) list" where
  "unescapeMap = put_all (map (\<lambda>(k, v). (v, k)) escapeMap) []"

definition escape_html :: "realm \<Rightarrow> jsval \<Rightarrow> string" where
  "escape_html = createEscaper escapeMap"

definition unescape_html :: "realm \<Rightarrow> jsval \<Rightarrow> string" where
  "unescape_html = createEscaper unescapeMap"

section \<open>Templates\<close>

text \<open>The escapes of a string literal; the two line separators above U+2000 are not strings of the
  model.\<close>

definition escapes :: "(char \<times> string) list" where
  "escapes = [(CHR 0x27, [CHR 0x27]), (CHR 0x5C, [CHR 0x5C]), (CHR 0x0D, ''r''), (CHR 0x0A, ''n'')]"

definition escapeChar :: "char \<Rightarrow> string" where
  "escapeChar c = (case map_of escapes c of None \<Rightarrow> [c] | Some s \<Rightarrow> CHR 0x5C # s)"

definition escape_literal :: "string \<Rightarrow> string" where
  "escape_literal s = concat (map escapeChar s)"

datatype template_tag = EscapeTag string | InterpolateTag string | EvaluateTag string

text \<open>The shortest code, of at least one character, before a closing delimiter.\<close>

definition code_until_close :: "string \<Rightarrow> string option" where
  "code_until_close s =
     map_option (\<lambda>n. take n s)
       (List.find (\<lambda>n. starts_with ''%>'' (drop n s)) [1..<length s])"

text \<open>A tag at the start of the text, and how much of the text it takes: \<open>escape\<close> is tried
  first, then \<open>interpolate\<close>, then \<open>evaluate\<close>.\<close>

definition tag_with :: "string \<Rightarrow> (string \<Rightarrow> template_tag) \<Rightarrow> string \<Rightarrow> (template_tag \<times> nat) option" where
  "tag_with opening tag s =
     (if starts_with opening s
      then map_option (\<lambda>code. (tag code, length opening + length code + 2))
             (code_until_close (drop (length opening) s))
      else None)"

definition match_tag :: "string \<Rightarrow> (template_tag \<times> nat) option" where
  "match_tag s =
     (case tag_with ''<%-'' EscapeTag s of
        Some t \<Rightarrow> Some t
      | None \<Rightarrow>
          (case tag_with ''<%='' InterpolateTag s of
             Some t \<Rightarrow> Some t
           | None \<Rightarrow> tag_with ''<%'' EvaluateTag s))"

definition newline :: string where "newline = [CHR 0x0A]"
definition quote :: string where "quote = [CHR 0x27]"

definition tag_source :: "template_tag \<Rightarrow> string" where
  "tag_source t =
     (case t of
        EscapeTag code \<Rightarrow>
          quote @ ''+'' @ newline @ ''((__t=('' @ code @ ''))==null?'' @ quote @ quote @
          '':_.escape(__t))+'' @ newline @ quote
      | InterpolateTag code \<Rightarrow>
          quote @ ''+'' @ newline @ ''((__t=('' @ code @ ''))==null?'' @ quote @ quote @
          '':__t)+'' @ newline @ quote
      | EvaluateTag code \<Rightarrow>
          quote @ '';'' @ newline @ code @ newline @ ''__p+='' @ quote)"

text \<open>The pieces of the text: literals, character by character, and tags.\<close>

function template_body :: "string \<Rightarrow> string" where
  "template_body [] = []"
| "template_body (c # cs) =
     (case match_tag (c # cs) of
        Some (t, n) \<Rightarrow> tag_source t @ template_body (drop (n - 1) cs)
      | None \<Rightarrow> escapeChar c @ template_body cs)"
  by pat_completeness auto
termination
  by (relation "measure length") auto

definition template_program :: "string \<Rightarrow> string option \<Rightarrow> string" where
  "template_program text variable =
     (let body = ''__p+='' @ quote @ template_body text @ quote @ '';'' @ newline;
          scoped = (case variable of
             None \<Rightarrow> ''with(obj||{}){'' @ newline @ body @ ''}'' @ newline
           | Some v \<Rightarrow> if v = [] then ''with(obj||{}){'' @ newline @ body @ ''}'' @ newline else body)
      in ''var __t,__p='' @ quote @ quote @ '',__j=Array.prototype.join,'' @
         ''print=function(){__p+=__j.call(arguments,'' @ quote @ quote @ '');};'' @ newline @
         scoped @ ''return __p;'' @ newline)"

definition template :: "string \<Rightarrow> string option \<Rightarrow> string" where
  "template text variable =
     (let argument = (case variable of None \<Rightarrow> ''obj'' | Some v \<Rightarrow> if v = [] then ''obj'' else v)
      in ''function('' @ argument @ ''){'' @ newline @ template_program text variable @ ''}'')"

section \<open>Laws\<close>

lemma starts_with_append [simp]: "starts_with k (k @ s)"
  by (simp add: starts_with_def)

lemma starts_with_Cons [simp]: "starts_with (k # ks) (c # cs) \<longleftrightarrow> k = c \<and> starts_with ks cs"
  by (auto simp: starts_with_def)

lemma starts_with_Nil [simp]: "starts_with [] s" "\<not> starts_with (k # ks) []"
  by (simp_all add: starts_with_def)

lemma unescapeMap_eq: "unescapeMap =
    [(''&amp;'', ''&''), (''&lt;'', ''<''), (''&gt;'', ''>''), (''&quot;'', [CHR 0x22]),
     (''&#x27;'', [CHR 0x27]), (''&#x60;'', [CHR 0x60])]"
  by code_simp

text \<open>The test before the replacement only saves work.\<close>

definition key_free :: "(string \<times> string) list \<Rightarrow> string \<Rightarrow> bool" where
  "key_free ps s \<longleftrightarrow> (\<forall>i < length s. \<forall>(k, w) \<in> set ps. \<not> starts_with k (drop i s))"

lemma key_free_Cons:
  "key_free ps (c # cs) \<longleftrightarrow> (\<forall>(k, w) \<in> set ps. \<not> starts_with k (c # cs)) \<and> key_free ps cs"
  unfolding key_free_def by (simp add: All_less_Suc2)

lemma replace_keys_no_match: "key_free ps s \<Longrightarrow> replace_keys ps s = s"
proof (induction s)
  case (Cons c cs)
  then have "List.find (\<lambda>(k, v). k \<noteq> [] \<and> starts_with k (c # cs)) ps = None"
    unfolding key_free_Cons by (auto simp: find_None_iff)
  with Cons show ?case by (simp add: key_free_Cons)
qed simp

lemma createEscaper_eq:
  assumes "\<not> nullish v"
  shows "createEscaper ps r v = replace_keys ps (to_string r v)"
proof (cases "list_ex (\<lambda>i. list_ex (\<lambda>(k, w). starts_with k (drop i (to_string r v))) ps)
    [0..<length (to_string r v)]")
  case False
  then have "replace_keys ps (to_string r v) = to_string r v"
    by (intro replace_keys_no_match) (auto simp: list_ex_iff key_free_def)
  with False assms show ?thesis by (simp add: createEscaper_def)
qed (use assms in \<open>simp add: createEscaper_def\<close>)

definition escape_char_html :: "char \<Rightarrow> string" where
  "escape_char_html c = (case map_of escapeMap [c] of None \<Rightarrow> [c] | Some s \<Rightarrow> s)"

lemma find_escape: "List.find (\<lambda>(k, v). k \<noteq> [] \<and> starts_with k (c # cs)) escapeMap =
    map_option (\<lambda>v. ([c], v)) (map_of escapeMap [c])"
  by (simp add: escapeMap_def)

lemma replace_escape: "replace_keys escapeMap s = concat (map escape_char_html s)"
  by (induction s) (simp_all add: find_escape escape_char_html_def split: option.splits)

lemma unescape_char:
  "replace_keys unescapeMap (escape_char_html c @ s) = c # replace_keys unescapeMap s"
  unfolding unescapeMap_eq escape_char_html_def escapeMap_def by simp

lemma unescape_escape: "replace_keys unescapeMap (replace_keys escapeMap s) = s"
  unfolding replace_escape by (induction s) (simp_all add: unescape_char)

text \<open>Reading a literal back: a backslash and the character after it stand for one character; a
  quote or a line break ends the literal.\<close>

fun read_literal :: "string \<Rightarrow> string option" where
  "read_literal [] = Some []"
| "read_literal (c # cs) =
     (if c = CHR 0x27 \<or> c = CHR 0x0A \<or> c = CHR 0x0D then None
      else if c = CHR 0x5C then
        (case cs of
           [] \<Rightarrow> None
         | d # ds \<Rightarrow>
             map_option (Cons (if d = CHR ''r'' then CHR 0x0D else if d = CHR ''n'' then CHR 0x0A else d))
               (read_literal ds))
      else map_option (Cons c) (read_literal cs))"

lemma read_escape_literal: "read_literal (escape_literal s) = Some s"
proof (induction s)
  case (Cons c s)
  then show ?case by (auto simp: escape_literal_def escapeChar_def escapes_def)
qed (simp add: escape_literal_def)

lemma template_body_literal: "\<not> (\<exists>i < length s. starts_with ''<%'' (drop i s)) \<Longrightarrow>
    template_body s = escape_literal s"
proof (induction s)
  case (Cons c s)
  have "\<not> starts_with ''<%'' (c # s)" using Cons.prems by force
  then have "match_tag (c # s) = None"
    by (cases s) (auto simp: match_tag_def tag_with_def split: option.splits)
  moreover have "template_body s = escape_literal s"
    using Cons.prems by (intro Cons.IH) force
  ultimately show ?case by (simp add: escape_literal_def)
qed (simp add: escape_literal_def)

end
