(* ===== verification/Underscore_Search.thy ===== *)
theory Underscore_Search
  imports Underscore_Objects
begin

text \<open>
  Searching in arrays and collections, from docs/_static/underscore-1.12.0.js: the index finders and
  the binary search they share, \<open>find\<close> and \<open>contains\<close>. Positions are integers; \<open>-1\<close> means
  that nothing was found.
\<close>

section \<open>Collections\<close>

text \<open>The keys a collection is traversed by: indices when it has a numeric length, names
  otherwise. \<open>entry\<close> is the argument list the callbacks get.\<close>

definition coll_keys :: "realm \<Rightarrow> jsval \<Rightarrow> pkey list" where
  "coll_keys r obj =
     (if isArrayLike r obj then map Idx [0..<loop_bound (getLength r obj)]
      else map Key (keys r obj))"

definition entry :: "realm \<Rightarrow> jsval \<Rightarrow> pkey \<Rightarrow> jsval list" where
  "entry r obj k = [get_key r obj k, key_value k, obj]"

definition coll_values :: "realm \<Rightarrow> jsval \<Rightarrow> jsval list" where
  "coll_values r obj = (if isArrayLike r obj then array_elems r obj else values_js r obj)"

section \<open>Searching by a predicate\<close>

definition findKey :: "realm \<Rightarrow> jsval \<Rightarrow> (jsval list \<Rightarrow> jsval) \<Rightarrow> string option" where
  "findKey r obj f = List.find (\<lambda>k. truthy (f [get_prop r obj k, Str k, obj])) (keys r obj)"

definition index_order :: "bool \<Rightarrow> nat \<Rightarrow> nat list" where
  "index_order forward n = (if forward then [0..<n] else rev [0..<n])"

definition createPredicateIndexFinder :: "bool \<Rightarrow> realm \<Rightarrow> jsval \<Rightarrow> (jsval list \<Rightarrow> jsval) \<Rightarrow> int" where
  "createPredicateIndexFinder forward r array f =
     (case List.find (\<lambda>i. truthy (f [get_index r array i, num_of_nat i, array]))
             (index_order forward (loop_bound (getLength r array))) of
        None \<Rightarrow> -1
      | Some i \<Rightarrow> int i)"

definition findIndex :: "realm \<Rightarrow> jsval \<Rightarrow> (jsval list \<Rightarrow> jsval) \<Rightarrow> int" where
  "findIndex = createPredicateIndexFinder True"
definition findLastIndex :: "realm \<Rightarrow> jsval \<Rightarrow> (jsval list \<Rightarrow> jsval) \<Rightarrow> int" where
  "findLastIndex = createPredicateIndexFinder False"

section \<open>Binary search\<close>

function sortedIndex_loop ::
    "realm \<Rightarrow> (jsval list \<Rightarrow> jsval) \<Rightarrow> jsval list \<Rightarrow> jsval \<Rightarrow> nat \<Rightarrow> nat \<Rightarrow> nat" where
  "sortedIndex_loop r f xs v low high =
     (if low < high then
        (let mid = (low + high) div 2 in
         if js_less r (f [xs ! mid]) v then sortedIndex_loop r f xs v (mid + 1) high
         else sortedIndex_loop r f xs v low mid)
      else low)"
  by pat_completeness auto
termination
  by (relation "measure (\<lambda>(r, f, xs, v, low, high). high - low)") auto

declare sortedIndex_loop.simps [simp del]

definition sortedIndex :: "realm \<Rightarrow> jsval list \<Rightarrow> jsval \<Rightarrow> jsval \<Rightarrow> jsval \<Rightarrow> nat" where
  "sortedIndex r xs obj it context =
     (let f = cb r it context (Count 1) in sortedIndex_loop r f xs (f [obj]) 0 (length xs))"

section \<open>Searching for an item\<close>

text \<open>\<open>Array.prototype.slice\<close>: negative positions count from the end.\<close>

definition slice_pos :: "nat \<Rightarrow> int \<Rightarrow> nat" where
  "slice_pos n i = nat (if i < 0 then max (int n + i) 0 else min i (int n))"

definition array_slice :: "int \<Rightarrow> int \<Rightarrow> 'a list \<Rightarrow> 'a list" where
  "array_slice i j xs =
     drop (slice_pos (length xs) i) (take (slice_pos (length xs) j) xs)"

definition elem_at :: "jsval list \<Rightarrow> int \<Rightarrow> jsval" where
  "elem_at xs i = (if 0 \<le> i \<and> i < int (length xs) then xs ! nat i else Undefined)"

text \<open>The third argument: absent or falsy, a number, or any other value, which says that the
  array is sorted.\<close>

datatype search_hint = NoHint | From int | IsSorted

definition nan_position :: "bool \<Rightarrow> realm \<Rightarrow> jsval list \<Rightarrow> int" where
  "nan_position forward r xs =
     (case List.find (\<lambda>i. isNaN r (xs ! i)) (index_order forward (length xs)) of
        None \<Rightarrow> -1 | Some i \<Rightarrow> int i)"

definition scan_position :: "bool \<Rightarrow> jsval list \<Rightarrow> jsval \<Rightarrow> int \<Rightarrow> int \<Rightarrow> int" where
  "scan_position forward xs item i n =
     (case List.find (\<lambda>k. strict_eq (elem_at xs k) item)
             (if forward then [i..n - 1] else rev [0..n - 1]) of
        None \<Rightarrow> -1 | Some k \<Rightarrow> k)"

definition createIndexFinder ::
    "bool \<Rightarrow> (jsval list \<Rightarrow> jsval \<Rightarrow> nat) option \<Rightarrow> realm \<Rightarrow> jsval list \<Rightarrow> jsval \<Rightarrow> search_hint \<Rightarrow> int" where
  "createIndexFinder forward sorted_index r xs item hint =
     (let n = int (length xs);
          range = (case hint of
             From idx \<Rightarrow>
               if forward then (if 0 \<le> idx then idx else max (idx + n) 0, n)
               else (0, if 0 \<le> idx then min (idx + 1) n else idx + n + 1)
           | h \<Rightarrow> (0, n))
      in case (hint, sorted_index, xs) of
           (IsSorted, Some search, x # rest) \<Rightarrow>
             (let k = int (search xs item) in if strict_eq (elem_at xs k) item then k else -1)
         | h \<Rightarrow>
             if \<not> strict_eq item item then
               (let k = nan_position forward r (array_slice (fst range) (snd range) xs)
                in if 0 \<le> k then k + fst range else -1)
             else scan_position forward xs item (fst range) (snd range))"

definition indexOf :: "realm \<Rightarrow> jsval list \<Rightarrow> jsval \<Rightarrow> search_hint \<Rightarrow> int" where
  "indexOf r =
     createIndexFinder True (Some (\<lambda>xs item. sortedIndex r xs item Undefined Undefined)) r"

definition lastIndexOf :: "realm \<Rightarrow> jsval list \<Rightarrow> jsval \<Rightarrow> search_hint \<Rightarrow> int" where
  "lastIndexOf r = createIndexFinder False None r"

section \<open>Finding and containing\<close>

definition find_by :: "realm \<Rightarrow> jsval \<Rightarrow> (jsval list \<Rightarrow> jsval) \<Rightarrow> jsval" where
  "find_by r obj f =
     (if isArrayLike r obj
      then (let k = findIndex r obj f in if k \<noteq> -1 then get_index r obj (nat k) else Undefined)
      else (case findKey r obj f of None \<Rightarrow> Undefined | Some k \<Rightarrow> get_prop r obj k))"

definition find_js :: "realm \<Rightarrow> jsval \<Rightarrow> jsval \<Rightarrow> jsval \<Rightarrow> jsval" where
  "find_js r obj predicate context = find_by r obj (cb r predicate context Unspecified)"

definition findWhere :: "realm \<Rightarrow> jsval \<Rightarrow> jsval \<Rightarrow> jsval" where
  "findWhere r obj attrs = find_by r obj (matcher r attrs)"

text \<open>\<open>contains\<close> on the elements of a collection; a \<open>guard\<close>, or a \<open>fromIndex\<close> that is no
  number, means the start.\<close>

definition contains_elems :: "realm \<Rightarrow> jsval list \<Rightarrow> jsval \<Rightarrow> search_hint \<Rightarrow> bool" where
  "contains_elems r xs item hint =
     (let start = (case hint of From i \<Rightarrow> From i | h \<Rightarrow> From 0) in 0 \<le> indexOf r xs item start)"

definition contains :: "realm \<Rightarrow> jsval \<Rightarrow> jsval \<Rightarrow> search_hint \<Rightarrow> bool \<Rightarrow> bool" where
  "contains r obj item hint guard =
     contains_elems r (coll_values r obj) item (if guard then From 0 else hint)"

section \<open>Laws\<close>

lemma find_Some_iff: "List.find P xs = Some x \<longleftrightarrow>
    (\<exists>i < length xs. P (xs ! i) \<and> x = xs ! i \<and> (\<forall>j < i. \<not> P (xs ! j)))"
  by (rule List.find_Some_iff)

text \<open>\<open>same_value\<close>: the equality the index finders decide, which takes NaN for equal to itself.\<close>

definition same_value :: "jsval \<Rightarrow> jsval \<Rightarrow> bool" where
  "same_value v w = (strict_eq v w \<or> v = Num NaN \<and> w = Num NaN)"

lemma same_value_refl [simp]: "same_value v v"
  by (auto simp: same_value_def)

lemma same_value_sym: "same_value v w = same_value w v"
  by (auto simp: same_value_def strict_eq_sym)

lemma same_value_trans: "same_value u v \<Longrightarrow> same_value v w \<Longrightarrow> same_value u w"
  by (auto simp: same_value_def dest: strict_eq_trans)

lemma elem_at_nat [simp]: "i < length xs \<Longrightarrow> elem_at xs (int i) = xs ! i"
  by (simp add: elem_at_def)

lemma upto_map_int: "[0..int n - 1] = map int [0..<n]"
  by (induction n) (simp_all add: upto_rec2)

lemma indexOf_first:
  assumes "item \<noteq> Num NaN"
  shows "indexOf r xs item (From 0) =
     (case List.find (\<lambda>i. strict_eq (xs ! i) item) [0..<length xs] of None \<Rightarrow> -1 | Some i \<Rightarrow> int i)"
proof -
  have upt: "[0..int (length xs) - 1] = map int [0..<length xs]"
    by (rule upto_map_int)
  have find_map: "List.find P (map int is) = map_option int (List.find (P \<circ> int) is)" for P "is"
    by (induction "is") auto
  have cong: "List.find P is = List.find Q is" if "\<And>i. i \<in> set is \<Longrightarrow> P i = Q i" for P Q and "is" :: "nat list"
    using that by (induction "is") auto
  have "List.find (\<lambda>k. strict_eq (elem_at xs k) item) [0..int (length xs) - 1] =
     map_option int (List.find (\<lambda>i. strict_eq (xs ! i) item) [0..<length xs])"
    unfolding upt find_map by (intro arg_cong [where f = "map_option int"] cong) (simp add: o_def)
  then show ?thesis using assms
    by (simp add: indexOf_def createIndexFinder_def scan_position_def Let_def split: option.splits)
qed

end
