(* ===== verification/Underscore_Collections.thy ===== *)
theory Underscore_Collections
  imports Underscore_Search "HOL-Library.Multiset"
begin

text \<open>
  The collection functions of docs/_static/underscore-1.12.0.js, from \<open>each\<close> to \<open>size\<close>. A
  collection is any value: array-likes are traversed by index, everything else by its own
  enumerable names. \<open>each\<close> threads the state its callback changes; the other callbacks are
  functions of their arguments. Functions the library itself passes on (a matcher, a property
  reader) are passed as functions, under names ending in \<open>_by\<close>.
\<close>

section \<open>Traversal\<close>

definition each_js :: "realm \<Rightarrow> jsval \<Rightarrow> (jsval list \<Rightarrow> 's \<Rightarrow> 's) \<Rightarrow> 's \<Rightarrow> 's" where
  "each_js r obj f s = fold (\<lambda>k. f (entry r obj k)) (coll_keys r obj) s"

definition map_by :: "realm \<Rightarrow> jsval \<Rightarrow> (jsval list \<Rightarrow> 'a) \<Rightarrow> 'a list" where
  "map_by r obj f = map (\<lambda>k. f (entry r obj k)) (coll_keys r obj)"

definition map_js :: "realm \<Rightarrow> jsval \<Rightarrow> jsval \<Rightarrow> jsval \<Rightarrow> jsval list" where
  "map_js r obj it context = map_by r obj (cb r it context Unspecified)"

text \<open>Without a first memo the reduction starts with the first entry; on an empty collection it
  reads the property that is not there.\<close>

definition missing_entry :: "realm \<Rightarrow> bool \<Rightarrow> jsval \<Rightarrow> jsval" where
  "missing_entry r forward obj =
     get_prop r obj (if \<not> isArrayLike r obj then ''undefined'' else if forward then ''0'' else ''-1'')"

definition createReduce ::
    "bool \<Rightarrow> realm \<Rightarrow> jsval \<Rightarrow> (jsval list \<Rightarrow> jsval) \<Rightarrow> jsval option \<Rightarrow> jsval" where
  "createReduce forward r obj f memo =
     (let ks = (if forward then coll_keys r obj else rev (coll_keys r obj));
          step = (\<lambda>k memo. f (memo # entry r obj k))
      in case memo of
           Some m \<Rightarrow> fold step ks m
         | None \<Rightarrow>
             (case ks of
                [] \<Rightarrow> missing_entry r forward obj
              | k # ks' \<Rightarrow> fold step ks' (get_key r obj k)))"

definition reduce_js :: "realm \<Rightarrow> jsval \<Rightarrow> jsval \<Rightarrow> jsval option \<Rightarrow> jsval \<Rightarrow> jsval" where
  "reduce_js r obj it memo context =
     createReduce True r obj (optimizeCb r it context (Count 4)) memo"

definition reduceRight :: "realm \<Rightarrow> jsval \<Rightarrow> jsval \<Rightarrow> jsval option \<Rightarrow> jsval \<Rightarrow> jsval" where
  "reduceRight r obj it memo context =
     createReduce False r obj (optimizeCb r it context (Count 4)) memo"

section \<open>Selection\<close>

definition filter_by :: "realm \<Rightarrow> jsval \<Rightarrow> (jsval list \<Rightarrow> jsval) \<Rightarrow> jsval list" where
  "filter_by r obj f =
     each_js r obj (\<lambda>args results. if truthy (f args) then results @ [arg args 0] else results) []"

definition filter_js :: "realm \<Rightarrow> jsval \<Rightarrow> jsval \<Rightarrow> jsval \<Rightarrow> jsval list" where
  "filter_js r obj predicate context = filter_by r obj (cb r predicate context Unspecified)"

definition negate :: "(jsval list \<Rightarrow> jsval) \<Rightarrow> jsval list \<Rightarrow> jsval" where
  "negate predicate args = Bool (\<not> truthy (predicate args))"

text \<open>The negated predicate is called on the context \<open>filter\<close> is given and hands it on.\<close>

definition reject_js :: "realm \<Rightarrow> jsval \<Rightarrow> jsval \<Rightarrow> jsval \<Rightarrow> jsval list" where
  "reject_js r obj predicate context =
     filter_by r obj (negate (cb r predicate context Unspecified))"

definition every_js :: "realm \<Rightarrow> jsval \<Rightarrow> jsval \<Rightarrow> jsval \<Rightarrow> bool" where
  "every_js r obj predicate context =
     (let f = cb r predicate context Unspecified in
      list_all (\<lambda>k. truthy (f (entry r obj k))) (coll_keys r obj))"

definition some_js :: "realm \<Rightarrow> jsval \<Rightarrow> jsval \<Rightarrow> jsval \<Rightarrow> bool" where
  "some_js r obj predicate context =
     (let f = cb r predicate context Unspecified in
      list_ex (\<lambda>k. truthy (f (entry r obj k))) (coll_keys r obj))"

definition invoke_js :: "realm \<Rightarrow> jsval \<Rightarrow> jsval \<Rightarrow> jsval list \<Rightarrow> jsval list" where
  "invoke_js r obj path args =
     (let p = toPath_hook r path;
          contextPath = butlast p;
          lastKey = last p
      in map_by r obj (\<lambda>es.
           if isFunction r path then apply_fn r path (arg es 0) args
           else (let context = (if contextPath = [] then arg es 0 else deepGet r (arg es 0) contextPath) in
                 if nullish context then Undefined
                 else (let method = get_at r context lastKey in
                       if nullish method then method else apply_fn r method context args))))"

definition pluck :: "realm \<Rightarrow> jsval \<Rightarrow> jsval \<Rightarrow> jsval list" where
  "pluck r obj key = map_by r obj (property r key)"

definition where_js :: "realm \<Rightarrow> jsval \<Rightarrow> jsval \<Rightarrow> jsval list" where
  "where_js r obj attrs = filter_by r obj (matcher r attrs)"

section \<open>Extremes\<close>

text \<open>The shared body of \<open>max\<close> and \<open>min\<close>: \<open>better v w\<close> compares a value with the best so far
  and \<open>worst\<close> is the number to start from. The flag says that the third argument is a number,
  as when \<open>max\<close> is itself a callback of \<open>map\<close>.\<close>

definition plain_comparison :: "realm \<Rightarrow> jsval \<Rightarrow> jsval \<Rightarrow> bool" where
  "plain_comparison r obj it =
     (nullish it \<or>
      (typeof r it = ''number'' \<and> typeof r (get_prop r obj ''0'') \<noteq> ''object'' \<and> \<not> nullish obj))"

definition extreme_over ::
    "(jsval \<Rightarrow> jsval \<Rightarrow> bool) \<Rightarrow> jsval \<Rightarrow> (jsval \<times> jsval) list \<Rightarrow> jsval" where
  "extreme_over better worst vcs =
     fst (fold (\<lambda>(v, computed) (result, lastComputed).
            if better computed lastComputed \<or> (strict_eq computed worst \<and> strict_eq result worst)
            then (v, computed) else (result, lastComputed)) vcs (worst, worst))"

definition extreme_by ::
    "(jsval \<Rightarrow> jsval \<Rightarrow> bool) \<Rightarrow> jsval \<Rightarrow> realm \<Rightarrow> jsval \<Rightarrow> (jsval list \<Rightarrow> jsval) \<Rightarrow> jsval" where
  "extreme_by better worst r obj f =
     extreme_over better worst (map_by r obj (\<lambda>args. (arg args 0, f args)))"

definition extreme_plain :: "(jsval \<Rightarrow> jsval \<Rightarrow> bool) \<Rightarrow> jsval \<Rightarrow> jsval list \<Rightarrow> jsval" where
  "extreme_plain better worst vs =
     fold (\<lambda>v result. if \<not> nullish v \<and> better v result then v else result) vs worst"

definition max_js :: "realm \<Rightarrow> jsval \<Rightarrow> jsval \<Rightarrow> jsval \<Rightarrow> jsval" where
  "max_js r obj it context =
     (if plain_comparison r obj it
      then extreme_plain (\<lambda>v w. js_less r w v) (Num NegInf) (coll_values r obj)
      else extreme_by (\<lambda>v w. js_less r w v) (Num NegInf) r obj (cb r it context Unspecified))"

definition min_js :: "realm \<Rightarrow> jsval \<Rightarrow> jsval \<Rightarrow> jsval \<Rightarrow> jsval" where
  "min_js r obj it context =
     (if plain_comparison r obj it
      then extreme_plain (js_less r) (Num PosInf) (coll_values r obj)
      else extreme_by (js_less r) (Num PosInf) r obj (cb r it context Unspecified))"

section \<open>Random samples\<close>

text \<open>The swap at one position of the shuffle; \<open>u\<close> is what \<open>Math.random\<close> returned for it.\<close>

definition swap :: "nat \<Rightarrow> nat \<Rightarrow> 'a list \<Rightarrow> 'a list" where
  "swap i j xs = xs[i := xs ! j, j := xs ! i]"

definition shuffle_step :: "(nat \<Rightarrow> rat) \<Rightarrow> nat \<Rightarrow> jsval list \<Rightarrow> jsval list" where
  "shuffle_step u index xs =
     swap index (nat (random_js (u index) (int index) (Some (int (length xs) - 1)))) xs"

definition sample_elems :: "(nat \<Rightarrow> rat) \<Rightarrow> jsval list \<Rightarrow> int \<Rightarrow> jsval list" where
  "sample_elems u xs n =
     (let m = nat (max (min n (int (length xs))) 0)
      in take m (fold (shuffle_step u) [0..<m] xs))"

text \<open>With no size, or under a guard, one element is drawn, and none of an empty collection.\<close>

definition sample_one :: "rat \<Rightarrow> jsval list \<Rightarrow> jsval" where
  "sample_one u xs = elem_at xs (random_js u (int (length xs) - 1) None)"

definition sample_js :: "(nat \<Rightarrow> rat) \<Rightarrow> realm \<Rightarrow> jsval \<Rightarrow> int option \<Rightarrow> bool \<Rightarrow> jsval + jsval list" where
  "sample_js u r obj n guard =
     (case (n, guard) of
        (Some k, False) \<Rightarrow> Inr (sample_elems u (coll_values r obj) k)
      | m \<Rightarrow> Inl (sample_one (u 0) (coll_values r obj)))"

definition shuffle_js :: "(nat \<Rightarrow> rat) \<Rightarrow> realm \<Rightarrow> jsval \<Rightarrow> jsval list" where
  "shuffle_js u r obj =
     sample_elems u (coll_values r obj) (int (length (coll_values r obj)))"

section \<open>Sorting and grouping\<close>

record sort_item =
  si_value :: jsval
  si_index :: nat
  si_criteria :: jsval

definition compare_items :: "realm \<Rightarrow> sort_item \<Rightarrow> sort_item \<Rightarrow> int" where
  "compare_items r left right =
     (let a = si_criteria left; b = si_criteria right;
          tie = int (si_index left) - int (si_index right)
      in if \<not> strict_eq a b
         then (if js_less r b a \<or> strict_eq a Undefined then 1
               else if js_less r a b \<or> strict_eq b Undefined then -1
               else tie)
         else tie)"

definition sort_items :: "realm \<Rightarrow> jsval \<Rightarrow> (jsval list \<Rightarrow> jsval) \<Rightarrow> sort_item list" where
  "sort_items r obj f =
     map (\<lambda>(index, args). \<lparr>si_value = arg args 0, si_index = index, si_criteria = f args\<rparr>)
       (enumerate 0 (map_by r obj (\<lambda>args. args)))"

definition sortBy :: "realm \<Rightarrow> jsval \<Rightarrow> jsval \<Rightarrow> jsval \<Rightarrow> jsval list" where
  "sortBy r obj it context =
     map si_value (array_sort (\<lambda>x y. 0 < compare_items r x y)
       (sort_items r obj (cb r it context Unspecified)))"

text \<open>The aggregate is folded over the collection by \<open>behavior\<close>, with the callback's value as
  the key.\<close>

definition group_js ::
    "('s \<Rightarrow> jsval \<Rightarrow> jsval \<Rightarrow> 's) \<Rightarrow> 's \<Rightarrow> realm \<Rightarrow> jsval \<Rightarrow> jsval \<Rightarrow> jsval \<Rightarrow> 's" where
  "group_js behavior start r obj it context =
     (let f = cb r it context Unspecified in
      each_js r obj (\<lambda>args result. behavior result (arg args 0) (f args)) start)"

definition groupBy :: "realm \<Rightarrow> jsval \<Rightarrow> jsval \<Rightarrow> jsval \<Rightarrow> (string \<times> jsval list) list" where
  "groupBy r = group_js (\<lambda>result v key.
     let k = to_string r key in
     case map_of result k of
       Some vs \<Rightarrow> put k (vs @ [v]) result
     | None \<Rightarrow> put k [v] result) [] r"

definition indexBy :: "realm \<Rightarrow> jsval \<Rightarrow> jsval \<Rightarrow> jsval \<Rightarrow> (string \<times> jsval) list" where
  "indexBy r = group_js (\<lambda>result v key. put (to_string r key) v result) [] r"

definition countBy :: "realm \<Rightarrow> jsval \<Rightarrow> jsval \<Rightarrow> jsval \<Rightarrow> (string \<times> nat) list" where
  "countBy r = group_js (\<lambda>result v key.
     let k = to_string r key in
     case map_of result k of
       Some n \<Rightarrow> put k (n + 1) result
     | None \<Rightarrow> put k 1 result) [] r"

definition partition_js :: "realm \<Rightarrow> jsval \<Rightarrow> jsval \<Rightarrow> jsval \<Rightarrow> jsval list \<times> jsval list" where
  "partition_js r = group_js (\<lambda>(pass, fail) v p.
     if truthy p then (pass @ [v], fail) else (pass, fail @ [v])) ([], []) r"

section \<open>Conversion and size\<close>

definition toArray_js :: "realm \<Rightarrow> jsval \<Rightarrow> jsval list" where
  "toArray_js r obj =
     (if \<not> truthy obj then []
      else if isArray r obj then array_elems r obj
      else case obj of
             Str s \<Rightarrow> map (\<lambda>c. Str [c]) s
           | v \<Rightarrow> if isArrayLike r obj then map_by r obj identity else values_js r obj)"

definition size_js :: "realm \<Rightarrow> jsval \<Rightarrow> jsval" where
  "size_js r obj =
     (if nullish obj then num_of_nat 0
      else if isArrayLike r obj then getLength r obj
      else num_of_nat (length (keys r obj)))"

section \<open>Laws\<close>

lemma fold_append_filter:
  "fold (\<lambda>k results. if P k then results @ [g k] else results) ks acc =
     acc @ map g (filter P ks)"
  by (induction ks arbitrary: acc) auto

lemma arg_Cons [simp]: "arg (x # xs) 0 = x" "arg (x # xs) (Suc i) = arg xs i"
  by (simp_all add: arg_def)

lemma arg_entry [simp]: "arg (entry r obj k) 0 = get_key r obj k"
  by (simp add: entry_def)

lemma filter_by_eq:
  "filter_by r obj f =
     map (get_key r obj) (filter (\<lambda>k. truthy (f (entry r obj k))) (coll_keys r obj))"
  by (simp add: filter_by_def each_js_def fold_append_filter [where acc = "[]", simplified])

lemma coll_values_eq: "coll_values r obj = map (get_key r obj) (coll_keys r obj)"
  by (simp add: coll_values_def coll_keys_def array_elems_def values_js_def)

lemma set_insert_sorted [simp]: "set (insert_sorted after x xs) = insert x (set xs)"
  by (induction xs) auto

lemma mset_insert_sorted [simp]: "mset (insert_sorted after x xs) = add_mset x (mset xs)"
  by (induction xs) auto

lemma mset_array_sort [simp]: "mset (array_sort after xs) = mset xs"
  by (induction xs) (simp_all add: array_sort_def)

lemma array_sort_Cons: "array_sort after (x # xs) = insert_sorted after x (array_sort after xs)"
  by (simp add: array_sort_def)

lemma set_array_sort [simp]: "set (array_sort after xs) = set xs"
  by (metis mset_array_sort set_mset_mset)

text \<open>Sorting puts the elements in the order of a comparison that is total and transitive on
  them.\<close>

lemma sorted_insert_sorted:
  assumes "\<And>y z. y \<in> set ys \<Longrightarrow> z \<in> set ys \<Longrightarrow> \<not> after x y \<Longrightarrow> \<not> after y z \<Longrightarrow> \<not> after x z"
    and "\<And>y. y \<in> set ys \<Longrightarrow> after x y \<Longrightarrow> \<not> after y x"
    and "sorted_wrt (\<lambda>a b. \<not> after a b) ys"
  shows "sorted_wrt (\<lambda>a b. \<not> after a b) (insert_sorted after x ys)"
  using assms
proof (induction ys)
  case (Cons y ys)
  show ?case
  proof (cases "after x y")
    case True
    have "sorted_wrt (\<lambda>a b. \<not> after a b) (insert_sorted after x ys)"
    proof (rule Cons.IH)
      show "\<not> after x z" if "u \<in> set ys" "z \<in> set ys" "\<not> after x u" "\<not> after u z" for u z
        using Cons.prems(1) [of u z] that by simp
      show "\<not> after z x" if "z \<in> set ys" "after x z" for z
        using Cons.prems(2) [of z] that by simp
    qed (use Cons.prems(3) in simp)
    moreover have "\<not> after y x" using Cons.prems(2) [of y] True by simp
    ultimately show ?thesis using True Cons.prems(3) by simp
  next
    case False
    have "\<not> after x z" if "z \<in> set ys" for z
      using Cons.prems(1) [of y z] Cons.prems(3) that False by simp
    then show ?thesis using False Cons.prems(3) by simp
  qed
qed simp

lemma sorted_array_sort:
  assumes "\<And>x y z. x \<in> set xs \<Longrightarrow> y \<in> set xs \<Longrightarrow> z \<in> set xs \<Longrightarrow>
      \<not> after x y \<Longrightarrow> \<not> after y z \<Longrightarrow> \<not> after x z"
    and "\<And>x y. x \<in> set xs \<Longrightarrow> y \<in> set xs \<Longrightarrow> after x y \<Longrightarrow> \<not> after y x"
  shows "sorted_wrt (\<lambda>a b. \<not> after a b) (array_sort after xs)"
  using assms
proof (induction xs)
  case (Cons x xs)
  have "sorted_wrt (\<lambda>a b. \<not> after a b) (array_sort after xs)"
  proof (rule Cons.IH)
    fix a b c
    assume "a \<in> set xs" "b \<in> set xs" "c \<in> set xs" "\<not> after a b" "\<not> after b c"
    then show "\<not> after a c" using Cons.prems(1) [of a b c] by simp
  qed (use Cons.prems(2) in simp)
  moreover have "\<not> after x z" if "y \<in> set (array_sort after xs)" "z \<in> set (array_sort after xs)"
      "\<not> after x y" "\<not> after y z" for y z
    using Cons.prems(1) [of x y z] that by simp
  moreover have "\<not> after y x" if "y \<in> set (array_sort after xs)" "after x y" for y
    using Cons.prems(2) [of x y] that by simp
  ultimately show ?case
    unfolding array_sort_Cons by (blast intro: sorted_insert_sorted)
next
  case Nil
  show ?case by (simp add: array_sort_def)
qed

end
