(* ===== verification/Underscore_Arrays.thy ===== *)
theory Underscore_Arrays
  imports Underscore_Collections
begin

text \<open>
  The array functions of docs/_static/underscore-1.12.0.js. An array argument is the list of its
  elements, \<open>None\<close> standing for \<open>null\<close> where the code tests for it; nested arrays are values
  of the realm. \<open>flatten\<close> follows references, which may form cycles: it has fuel, and the lemma
  at the end says which fuel is enough.
\<close>

section \<open>Flattening\<close>

datatype depth = Infinite | Levels int

definition nested :: "realm \<Rightarrow> jsval \<Rightarrow> bool" where
  "nested r v = (isArrayLike r v \<and> (isArray r v \<or> isArguments r v))"

fun deeper :: "depth \<Rightarrow> bool" where
  "deeper Infinite = True"
| "deeper (Levels d) = (1 < d)"

fun one_less :: "depth \<Rightarrow> depth" where
  "one_less Infinite = Infinite"
| "one_less (Levels d) = Levels (d - 1)"

fun flatten_fuel :: "nat \<Rightarrow> realm \<Rightarrow> depth \<Rightarrow> bool \<Rightarrow> jsval list \<Rightarrow> jsval list option" where
  "flatten_fuel 0 r d strict input = None"
| "flatten_fuel (Suc n) r d strict input =
     map_option concat (those (map (\<lambda>v.
       if nested r v then
         (if deeper d then flatten_fuel n r (one_less d) strict (array_elems r v)
          else Some (array_elems r v))
       else Some (if strict then [] else [v])) input))"

definition flatten_js :: "nat \<Rightarrow> realm \<Rightarrow> depth \<Rightarrow> bool \<Rightarrow> jsval list \<Rightarrow> jsval list option" where
  "flatten_js n r d strict input =
     (case d of
        Levels k \<Rightarrow> if k \<le> 0 then Some input else flatten_fuel n r d strict input
      | Infinite \<Rightarrow> flatten_fuel n r d strict input)"

text \<open>The public \<open>flatten\<close>: \<open>undefined\<close> and \<open>false\<close> mean all levels, \<open>true\<close> means one.\<close>

definition depth_of :: "jsval \<Rightarrow> depth" where
  "depth_of v =
     (case v of
        Num (Fin q) \<Rightarrow> Levels \<lceil>q\<rceil>
      | Bool True \<Rightarrow> Levels 1
      | w \<Rightarrow> Infinite)"

definition flatten_public :: "nat \<Rightarrow> realm \<Rightarrow> jsval list \<Rightarrow> jsval \<Rightarrow> jsval list option" where
  "flatten_public n r array depth = flatten_js n r (depth_of depth) False array"

text \<open>One level, as \<open>flatten(_, true, _)\<close> computes it.\<close>

definition flatten_once :: "realm \<Rightarrow> bool \<Rightarrow> jsval list \<Rightarrow> jsval list" where
  "flatten_once r strict input =
     concat (map (\<lambda>v. if nested r v then array_elems r v else if strict then [] else [v]) input)"

section \<open>Choosing properties\<close>

definition pick_by :: "realm \<Rightarrow> jsval \<Rightarrow> (jsval list \<Rightarrow> jsval) \<Rightarrow> (string \<times> jsval) list" where
  "pick_by r obj f =
     (if nullish obj then []
      else fold (\<lambda>k result.
             let v = get_prop r obj k in if truthy (f [v, Str k, obj]) then put k v result else result)
           (allKeys r obj) [])"

definition keyInObj :: "realm \<Rightarrow> jsval \<Rightarrow> jsval \<Rightarrow> jsval \<Rightarrow> bool" where
  "keyInObj r v key obj = has_prop r obj (to_string r key)"

definition pick :: "nat \<Rightarrow> realm \<Rightarrow> jsval \<Rightarrow> jsval list \<Rightarrow> (string \<times> jsval) list option" where
  "pick n r obj ks =
     (let it = arg ks 0 in
      if nullish obj then Some []
      else if isFunction r it then
        Some (pick_by r obj
          (if 1 < length ks then optimizeCb r it (arg ks 1) Unspecified else apply_fn r it Undefined))
      else map_option
        (\<lambda>names. fold (\<lambda>k result.
           if keyInObj r (get_at r obj k) k obj
           then put (to_string r k) (get_at r obj k) result else result) names [])
        (flatten_js n r Infinite False ks))"

definition omit :: "nat \<Rightarrow> realm \<Rightarrow> jsval \<Rightarrow> jsval list \<Rightarrow> (string \<times> jsval) list option" where
  "omit n r obj ks =
     (let it = arg ks 0 in
      if isFunction r it then
        Some (pick_by r obj
          (negate (optimizeCb r it (if 1 < length ks then arg ks 1 else Undefined) Unspecified)))
      else map_option
        (\<lambda>names.
           let strings = map (\<lambda>k. Str (to_string r k)) names in
           pick_by r obj (\<lambda>args. Bool (\<not> contains_elems r strings (arg args 1) NoHint)))
        (flatten_js n r Infinite False ks))"

section \<open>Ends of an array\<close>

definition initial :: "'a list \<Rightarrow> int option \<Rightarrow> 'a list" where
  "initial xs n =
     array_slice 0 (max 0 (int (length xs) - (case n of None \<Rightarrow> 1 | Some k \<Rightarrow> k))) xs"

definition rest_js :: "'a list \<Rightarrow> int option \<Rightarrow> 'a list" where
  "rest_js xs n = array_slice (case n of None \<Rightarrow> 1 | Some k \<Rightarrow> k) (int (length xs)) xs"

definition first_js :: "jsval list option \<Rightarrow> int option \<Rightarrow> jsval + jsval list" where
  "first_js array n =
     (case array of
        Some (x # xs) \<Rightarrow>
          (case n of
             None \<Rightarrow> Inl x
           | Some k \<Rightarrow> Inr (initial (x # xs) (Some (int (length (x # xs)) - k))))
      | a \<Rightarrow> (case n of None \<Rightarrow> Inl Undefined | Some k \<Rightarrow> Inr []))"

definition last_js :: "jsval list option \<Rightarrow> int option \<Rightarrow> jsval + jsval list" where
  "last_js array n =
     (case array of
        Some (x # xs) \<Rightarrow>
          (case n of
             None \<Rightarrow> Inl (last (x # xs))
           | Some k \<Rightarrow> Inr (rest_js (x # xs) (Some (max 0 (int (length (x # xs)) - k)))))
      | a \<Rightarrow> (case n of None \<Rightarrow> Inl Undefined | Some k \<Rightarrow> Inr []))"

definition compact :: "realm \<Rightarrow> jsval \<Rightarrow> jsval list" where
  "compact r array = filter_by r array (\<lambda>args. Bool (truthy (arg args 0)))"

section \<open>Sets\<close>

definition difference :: "realm \<Rightarrow> jsval \<Rightarrow> jsval list \<Rightarrow> jsval list" where
  "difference r array others =
     (let rest = flatten_once r True others in
      filter_by r array (\<lambda>args. Bool (\<not> contains_elems r rest (arg args 0) NoHint)))"

text \<open>\<open>without\<close> hands the array of its arguments to \<open>difference\<close> as one array to exclude.\<close>

definition without :: "realm \<Rightarrow> jsval \<Rightarrow> jsval list \<Rightarrow> jsval list" where
  "without r array items =
     filter_by r array (\<lambda>args. Bool (\<not> contains_elems r items (arg args 0) NoHint))"

text \<open>The state of \<open>uniq\<close>: the result, the computed values seen, and the last of them.\<close>

definition uniq_step ::
    "realm \<Rightarrow> bool \<Rightarrow> (jsval list \<Rightarrow> jsval) option \<Rightarrow> jsval \<Rightarrow> nat \<times> jsval \<Rightarrow>
     jsval list \<times> jsval list \<times> jsval \<Rightarrow> jsval list \<times> jsval list \<times> jsval" where
  "uniq_step r isSorted f array iv st =
     (case (iv, st) of
        ((i, v), (result, seen, previous)) \<Rightarrow>
          (case f of
             None \<Rightarrow>
               if isSorted then
                 (if i = 0 \<or> \<not> strict_eq previous v then result @ [v] else result, seen, v)
               else (if \<not> contains_elems r result v NoHint then result @ [v] else result, seen, previous)
           | Some it \<Rightarrow>
               (let computed = it [v, num_of_nat i, array] in
                if \<not> contains_elems r seen computed NoHint
                then (result @ [v], seen @ [computed], previous)
                else (result, seen, previous))))"

definition uniq_elems ::
    "realm \<Rightarrow> bool \<Rightarrow> (jsval list \<Rightarrow> jsval) option \<Rightarrow> jsval \<Rightarrow> jsval list \<Rightarrow> jsval list" where
  "uniq_elems r isSorted f array xs =
     fst (fold (uniq_step r isSorted f array) (enumerate 0 xs) ([], [], Undefined))"

definition uniq :: "realm \<Rightarrow> jsval \<Rightarrow> jsval \<Rightarrow> jsval \<Rightarrow> jsval \<Rightarrow> jsval list" where
  "uniq r array isSorted it context =
     (let (srt, f, ctx) =
        (if isBoolean r isSorted then (truthy isSorted, it, context) else (False, isSorted, it))
      in uniq_elems r srt (if nullish f then None else Some (cb r f ctx Unspecified)) array
           (array_elems r array))"

definition union_js :: "realm \<Rightarrow> jsval list \<Rightarrow> jsval list" where
  "union_js r arrays = uniq_elems r False None Undefined (flatten_once r True arrays)"

definition intersection :: "realm \<Rightarrow> jsval list \<Rightarrow> jsval list \<Rightarrow> jsval list" where
  "intersection r xs others =
     fold (\<lambda>item result.
       if contains_elems r result item NoHint then result
       else if \<forall>other \<in> set others. contains r other item NoHint False then result @ [item]
       else result) xs []"

section \<open>Zipping\<close>

definition unzip_length :: "realm \<Rightarrow> jsval list \<Rightarrow> nat" where
  "unzip_length r rows =
     loop_bound (getLength r
       (extreme_over (\<lambda>v w. js_less r w v) (Num NegInf) (map (\<lambda>v. (v, getLength r v)) rows)))"

definition unzip :: "realm \<Rightarrow> jsval list \<Rightarrow> jsval list list" where
  "unzip r rows =
     map (\<lambda>index. map (\<lambda>row. deepGet r row [num_of_nat index]) rows) [0..<unzip_length r rows]"

definition zip_js :: "realm \<Rightarrow> jsval list \<Rightarrow> jsval list list" where
  "zip_js r = restArguments (\<lambda>params rest. unzip r rest) 0"

definition object_js :: "realm \<Rightarrow> jsval list \<Rightarrow> jsval list option \<Rightarrow> (string \<times> jsval) list" where
  "object_js r list vals =
     fold (\<lambda>(i, x) result.
       case vals of
         Some vs \<Rightarrow> put (to_string r x) (elem_at vs (int i)) result
       | None \<Rightarrow> put (to_string r (get_index r x 0)) (get_index r x 1) result)
     (enumerate 0 list) []"

section \<open>Ranges and chunks\<close>

definition range_js :: "rat \<Rightarrow> rat option \<Rightarrow> rat \<Rightarrow> rat list" where
  "range_js start stop step =
     (let (a, b) = (case stop of None \<Rightarrow> (0, start) | Some s \<Rightarrow> (start, s));
          d = (if step = 0 then (if b < a then -1 else 1) else step);
          n = nat (max \<lceil>(b - a) / d\<rceil> 0)
      in map (\<lambda>idx. a + of_nat idx * d) [0..<n])"

function chunk_loop :: "nat \<Rightarrow> 'a list \<Rightarrow> nat \<Rightarrow> 'a list list" where
  "chunk_loop cnt xs i =
     (if i < length xs \<and> 0 < cnt
      then take cnt (drop i xs) # chunk_loop cnt xs (i + cnt)
      else [])"
  by pat_completeness auto
termination
  by (relation "measure (\<lambda>(cnt, xs, i). length xs - i)") auto

declare chunk_loop.simps [simp del]

definition chunk :: "'a list \<Rightarrow> int option \<Rightarrow> 'a list list" where
  "chunk xs cnt =
     (case cnt of
        None \<Rightarrow> []
      | Some c \<Rightarrow> if c < 1 then [] else chunk_loop (nat c) xs 0)"

section \<open>Laws\<close>

lemma flatten_fuel_one: "flatten_fuel (Suc n) r (Levels 1) strict input = Some (flatten_once r strict input)"
proof -
  have those_Some: "those (map (\<lambda>v. Some (g v)) xs) = Some (map g xs)" for g :: "jsval \<Rightarrow> jsval list" and xs
    by (induction xs) auto
  have if_Some: "(\<lambda>v. if nested r v then Some (array_elems r v) else Some (if strict then [] else [v])) =
      (\<lambda>v. Some (if nested r v then array_elems r v else if strict then [] else [v]))"
    by auto
  have "flatten_fuel (Suc n) r (Levels 1) strict input =
      map_option concat (those (map (\<lambda>v. if nested r v then Some (array_elems r v)
        else Some (if strict then [] else [v])) input))"
    by (simp cong: if_cong)
  then show ?thesis unfolding if_Some those_Some by (simp add: flatten_once_def)
qed

lemma contains_elems_iff:
  assumes "item \<noteq> Num NaN"
  shows "contains_elems r xs item NoHint \<longleftrightarrow> (\<exists>x \<in> set xs. strict_eq x item)"
proof -
  have "contains_elems r xs item NoHint \<longleftrightarrow>
      List.find (\<lambda>i. strict_eq (xs ! i) item) [0..<length xs] \<noteq> None"
    using assms by (auto simp: contains_elems_def indexOf_first Let_def split: option.splits)
  also have "\<dots> \<longleftrightarrow> (\<exists>x \<in> set xs. strict_eq x item)"
    by (simp only: find_None_iff) (auto simp: in_set_conv_nth intro: bexI [OF _ nth_mem])
  finally show ?thesis .
qed

lemma concat_chunk_loop: "0 < cnt \<Longrightarrow> concat (chunk_loop cnt xs i) = drop i xs"
proof (induction cnt xs i rule: chunk_loop.induct)
  case (1 cnt xs i)
  show ?case
  proof (cases "i < length xs")
    case True
    with 1 have "concat (chunk_loop cnt xs i) = take cnt (drop i xs) @ drop (i + cnt) xs"
      by (simp add: chunk_loop.simps [of cnt xs i])
    then show ?thesis by (metis add.commute append_take_drop_id drop_drop)
  qed (simp add: chunk_loop.simps [of cnt xs i])
qed

lemma chunk_loop_lengths:
  "c \<in> set (chunk_loop cnt xs i) \<Longrightarrow> c \<noteq> [] \<and> length c \<le> cnt"
proof (induction cnt xs i rule: chunk_loop.induct)
  case (1 cnt xs i)
  then show ?case by (cases "i < length xs \<and> 0 < cnt") (auto simp: chunk_loop.simps [of cnt xs i])
qed

end
