(* ===== verification/Underscore_Wrapper.thy ===== *)
theory Underscore_Wrapper
  imports Underscore_Arrays
begin

text \<open>
  The wrapper object of docs/_static/underscore-1.12.0.js: \<open>_(obj)\<close>, chaining, the methods
  \<open>mixin\<close> adds, the array methods the wrapper has, and the table of exports the library is mixed
  in from.
\<close>

section \<open>Wrapping and chaining\<close>

text \<open>A value as the wrapper's methods see it: a plain one, or a wrapper with its \<open>_wrapped\<close>
  value and its \<open>_chain\<close> mark.\<close>

datatype 'v wobj = Plain 'v | Wrapper 'v bool

fun wrap_obj :: "'v wobj \<Rightarrow> 'v wobj" where
  "wrap_obj (Plain v) = Wrapper v False"
| "wrap_obj (Wrapper v c) = Wrapper v c"

fun wrapper_value :: "'v wobj \<Rightarrow> 'v" where
  "wrapper_value (Wrapper v c) = v"
| "wrapper_value (Plain v) = v"

fun chain :: "'v wobj \<Rightarrow> 'v wobj" where
  "chain obj = (case wrap_obj obj of Wrapper v c \<Rightarrow> Wrapper v True | w \<Rightarrow> w)"

fun is_chained :: "'v wobj \<Rightarrow> bool" where
  "is_chained (Wrapper v c) = c"
| "is_chained (Plain v) = False"

definition chainResult :: "'v wobj \<Rightarrow> 'v \<Rightarrow> 'v wobj" where
  "chainResult this obj = (if is_chained this then chain (Plain obj) else Plain obj)"

text \<open>A method \<open>mixin\<close> puts on the wrapper's prototype, from a function of the library.\<close>

definition mixin_method :: "('v list \<Rightarrow> 'v) \<Rightarrow> 'v wobj \<Rightarrow> 'v list \<Rightarrow> 'v wobj" where
  "mixin_method func this args = chainResult this (func (wrapper_value this # args))"

text \<open>\<open>mixin\<close> adds the functions of an object under their names: the table of the library's own
  functions and the table of the wrapper's methods.\<close>

definition mixin ::
    "(string \<times> ('v list \<Rightarrow> 'v)) list \<Rightarrow>
     (string \<times> ('v list \<Rightarrow> 'v)) list \<times> (string \<times> ('v wobj \<Rightarrow> 'v list \<Rightarrow> 'v wobj)) list \<Rightarrow>
     (string \<times> ('v list \<Rightarrow> 'v)) list \<times> (string \<times> ('v wobj \<Rightarrow> 'v list \<Rightarrow> 'v wobj)) list" where
  "mixin obj tables =
     (let names = array_sort (\<lambda>s t. string_less t s) (map fst obj) in
      fold (\<lambda>name (lib, proto).
        case map_of obj name of
          None \<Rightarrow> (lib, proto)
        | Some func \<Rightarrow> (put name func lib, put name (mixin_method func) proto)) names tables)"

section \<open>Array methods\<close>

datatype array_method = Pop | Push | Reverse | Shift | Sort "(jsval \<Rightarrow> jsval \<Rightarrow> bool) option"
  | Splice | Unshift

text \<open>\<open>splice(start, deleteCount, items...)\<close>, with the engine's clamping of the positions.\<close>

definition splice :: "int \<Rightarrow> int option \<Rightarrow> 'a list \<Rightarrow> 'a list \<Rightarrow> 'a list" where
  "splice start deleteCount items xs =
     (let i = slice_pos (length xs) start;
          d = (case deleteCount of None \<Rightarrow> length xs - i | Some k \<Rightarrow> min (nat k) (length xs - i))
      in take i xs @ items @ drop (i + d) xs)"

fun int_arg :: "jsval \<Rightarrow> int" where
  "int_arg (Num (Fin q)) = (if 0 \<le> q then \<lfloor>q\<rfloor> else \<lceil>q\<rceil>)"
| "int_arg v = 0"

definition array_mutator :: "realm \<Rightarrow> array_method \<Rightarrow> jsval list \<Rightarrow> jsval list \<Rightarrow> jsval list" where
  "array_mutator r m args xs =
     (case m of
        Pop \<Rightarrow> butlast xs
      | Push \<Rightarrow> xs @ args
      | Reverse \<Rightarrow> rev xs
      | Shift \<Rightarrow> tl xs
      | Sort after \<Rightarrow>
          array_sort (\<lambda>v w.
            if v = Undefined then w \<noteq> Undefined
            else if w = Undefined then False
            else (case after of
                    Some f \<Rightarrow> f v w
                  | None \<Rightarrow> string_less (to_string r w) (to_string r v))) xs
      | Splice \<Rightarrow>
          (case args of
             [] \<Rightarrow> xs
           | [s] \<Rightarrow> splice (int_arg s) None [] xs
           | s # d # items \<Rightarrow> splice (int_arg s) (Some (int_arg d)) items xs)
      | Unshift \<Rightarrow> args @ xs)"

text \<open>The wrapper's mutators change the wrapped array and return it, chained or not; \<open>None\<close> is a
  wrapped \<open>null\<close>. (The \<open>delete\<close> after \<open>shift\<close> and \<open>splice\<close> removes an element that is
  past the end of the array.)\<close>

definition mutator_method ::
    "realm \<Rightarrow> array_method \<Rightarrow> jsval list option wobj \<Rightarrow> jsval list \<Rightarrow> jsval list option wobj" where
  "mutator_method r m this args =
     chainResult this (map_option (array_mutator r m args) (wrapper_value this))"

datatype array_accessor = Concat "jsval list list" | Join string | Slice int "int option"

definition join_strings :: "string \<Rightarrow> string list \<Rightarrow> string" where
  "join_strings sep ss =
     (case ss of [] \<Rightarrow> [] | s # ts \<Rightarrow> s @ concat (map (\<lambda>t. sep @ t) ts))"

definition array_accessor_result :: "realm \<Rightarrow> array_accessor \<Rightarrow> jsval list \<Rightarrow> string + jsval list" where
  "array_accessor_result r m xs =
     (case m of
        Concat yss \<Rightarrow> Inr (xs @ concat yss)
      | Join sep \<Rightarrow> Inl (join_strings sep (map (\<lambda>v. if nullish v then [] else to_string r v) xs))
      | Slice i j \<Rightarrow> Inr (array_slice i (case j of None \<Rightarrow> int (length xs) | Some k \<Rightarrow> k) xs))"

definition accessor_method ::
    "realm \<Rightarrow> array_accessor \<Rightarrow> (string + jsval list) option wobj \<Rightarrow> (string + jsval list) option wobj" where
  "accessor_method r m this =
     chainResult this
       (case wrapper_value this of
          Some (Inr xs) \<Rightarrow> Some (array_accessor_result r m xs)
        | v \<Rightarrow> v)"

section \<open>The exports\<close>

text \<open>Each name with the function of the source it stands for.\<close>

definition allExports :: "(string \<times> string) list" where
  "allExports =
    [(''VERSION'', ''VERSION''), (''restArguments'', ''restArguments''),
     (''isObject'', ''isObject''), (''isNull'', ''isNull''), (''isUndefined'', ''isUndefined''),
     (''isBoolean'', ''isBoolean''), (''isElement'', ''isElement''), (''isString'', ''isString''),
     (''isNumber'', ''isNumber''), (''isDate'', ''isDate''), (''isRegExp'', ''isRegExp''),
     (''isError'', ''isError''), (''isSymbol'', ''isSymbol''),
     (''isArrayBuffer'', ''isArrayBuffer''), (''isDataView'', ''isDataView$1''),
     (''isArray'', ''isArray''), (''isFunction'', ''isFunction$1''),
     (''isArguments'', ''isArguments$1''), (''isFinite'', ''isFinite$1''),
     (''isNaN'', ''isNaN$1''), (''isTypedArray'', ''isTypedArray$1''), (''isEmpty'', ''isEmpty''),
     (''isMatch'', ''isMatch''), (''isEqual'', ''isEqual''), (''isMap'', ''isMap''),
     (''isWeakMap'', ''isWeakMap''), (''isSet'', ''isSet''), (''isWeakSet'', ''isWeakSet''),
     (''keys'', ''keys''), (''allKeys'', ''allKeys''), (''values'', ''values''),
     (''pairs'', ''pairs''), (''invert'', ''invert''), (''functions'', ''functions''),
     (''methods'', ''functions''), (''extend'', ''extend''), (''extendOwn'', ''extendOwn''),
     (''assign'', ''extendOwn''), (''defaults'', ''defaults''), (''create'', ''create''),
     (''clone'', ''clone''), (''tap'', ''tap''), (''get'', ''get''), (''has'', ''has$1''),
     (''mapObject'', ''mapObject''), (''identity'', ''identity''), (''constant'', ''constant''),
     (''noop'', ''noop''), (''toPath'', ''toPath''), (''property'', ''property''),
     (''propertyOf'', ''propertyOf''), (''matcher'', ''matcher''), (''matches'', ''matcher''),
     (''times'', ''times''), (''random'', ''random''), (''now'', ''now''),
     (''escape'', ''_escape''), (''unescape'', ''_unescape''),
     (''templateSettings'', ''templateSettings''), (''template'', ''template''),
     (''result'', ''result''), (''uniqueId'', ''uniqueId''), (''chain'', ''chain''),
     (''iteratee'', ''iteratee''), (''partial'', ''partial''), (''bind'', ''bind''),
     (''bindAll'', ''bindAll''), (''memoize'', ''memoize''), (''delay'', ''delay''),
     (''defer'', ''defer''), (''throttle'', ''throttle''), (''debounce'', ''debounce''),
     (''wrap'', ''wrap''), (''negate'', ''negate''), (''compose'', ''compose''),
     (''after'', ''after''), (''before'', ''before''), (''once'', ''once''),
     (''findKey'', ''findKey''), (''findIndex'', ''findIndex''),
     (''findLastIndex'', ''findLastIndex''), (''sortedIndex'', ''sortedIndex''),
     (''indexOf'', ''indexOf''), (''lastIndexOf'', ''lastIndexOf''), (''find'', ''find''),
     (''detect'', ''find''), (''findWhere'', ''findWhere''), (''each'', ''each''),
     (''forEach'', ''each''), (''map'', ''map''), (''collect'', ''map''),
     (''reduce'', ''reduce''), (''foldl'', ''reduce''), (''inject'', ''reduce''),
     (''reduceRight'', ''reduceRight''), (''foldr'', ''reduceRight''), (''filter'', ''filter''),
     (''select'', ''filter''), (''reject'', ''reject''), (''every'', ''every''),
     (''all'', ''every''), (''some'', ''some''), (''any'', ''some''),
     (''contains'', ''contains''), (''includes'', ''contains''), (''include'', ''contains''),
     (''invoke'', ''invoke''), (''pluck'', ''pluck''), (''where'', ''where''), (''max'', ''max''),
     (''min'', ''min''), (''shuffle'', ''shuffle''), (''sample'', ''sample''),
     (''sortBy'', ''sortBy''), (''groupBy'', ''groupBy''), (''indexBy'', ''indexBy''),
     (''countBy'', ''countBy''), (''partition'', ''partition''), (''toArray'', ''toArray''),
     (''size'', ''size''), (''pick'', ''pick''), (''omit'', ''omit''), (''first'', ''first''),
     (''head'', ''first''), (''take'', ''first''), (''initial'', ''initial''),
     (''last'', ''last''), (''rest'', ''rest''), (''tail'', ''rest''), (''drop'', ''rest''),
     (''compact'', ''compact''), (''flatten'', ''flatten$1''), (''without'', ''without''),
     (''uniq'', ''uniq''), (''unique'', ''uniq''), (''union'', ''union''),
     (''intersection'', ''intersection''), (''difference'', ''difference''),
     (''unzip'', ''unzip''), (''transpose'', ''unzip''), (''zip'', ''zip''),
     (''object'', ''object''), (''range'', ''range''), (''chunk'', ''chunk''),
     (''mixin'', ''mixin''), (''default'', ''_'')]"

section \<open>Laws\<close>

lemma chain_value [simp]: "wrapper_value (chain obj) = wrapper_value obj"
  by (cases obj) auto

lemma chain_chained [simp]: "is_chained (chain obj)"
  by (cases obj) auto

lemma mixin_method_value [simp]:
  "wrapper_value (mixin_method func this args) = func (wrapper_value this # args)"
  by (simp add: mixin_method_def chainResult_def)

lemma mixin_method_chained [simp]: "is_chained (mixin_method func this args) = is_chained this"
  by (simp add: mixin_method_def chainResult_def)

end
