(* ===== verification/Porter_Stemmer.thy ===== *)
theory Porter_Stemmer
  imports Js_Values
begin

text \<open>
  The stemmer of docs/_static/language_data.js. The regular expressions of the source are built from
  four pieces: a consonant sequence \<open>C\<close>, a vowel sequence \<open>V\<close>, and single letters. A piece is
  the function from a text to what may be left of it after a match, so that a sequence of pieces
  tries every match, as backtracking does. The lazy stem before a suffix is the shortest one.
\<close>

section \<open>Pieces of the patterns\<close>

definition vowel_c :: "char \<Rightarrow> bool" where "vowel_c x = (x \<in> set ''aeiou'')"
definition vowel_v :: "char \<Rightarrow> bool" where "vowel_v x = (x \<in> set ''aeiouy'')"

text \<open>All that may remain after any number of characters of a class.\<close>

fun after_star :: "(char \<Rightarrow> bool) \<Rightarrow> string \<Rightarrow> string list" where
  "after_star P [] = [[]]"
| "after_star P (x # xs) = (if P x then after_star P xs @ [x # xs] else [x # xs])"

fun after_one :: "(char \<Rightarrow> bool) \<Rightarrow> string \<Rightarrow> string list" where
  "after_one P [] = []"
| "after_one P (x # xs) = (if P x then [xs] else [])"

definition after_C :: "string \<Rightarrow> string list" where
  "after_C s = concat (map (after_star (\<lambda>x. \<not> vowel_v x)) (after_one (\<lambda>x. \<not> vowel_c x) s))"

definition after_V :: "string \<Rightarrow> string list" where
  "after_V s = concat (map (after_star vowel_c) (after_one vowel_v s))"

definition optional :: "(string \<Rightarrow> string list) \<Rightarrow> string \<Rightarrow> string list" where
  "optional piece s = piece s @ [s]"

definition after_seq :: "(string \<Rightarrow> string list) list \<Rightarrow> string \<Rightarrow> string list" where
  "after_seq pieces s = fold (\<lambda>piece rests. concat (map piece rests)) pieces [s]"

definition mgr0 :: "string \<Rightarrow> bool" where
  "mgr0 s = (after_seq [optional after_C, after_V, after_C] s \<noteq> [])"

definition meq1 :: "string \<Rightarrow> bool" where
  "meq1 s = ([] \<in> set (after_seq [optional after_C, after_V, after_C, optional after_V] s))"

definition mgr1 :: "string \<Rightarrow> bool" where
  "mgr1 s = (after_seq [optional after_C, after_V, after_C, after_V, after_C] s \<noteq> [])"

definition s_v :: "string \<Rightarrow> bool" where
  "s_v s = (after_seq [optional after_C, after_one vowel_v] s \<noteq> [])"

text \<open>\<open>^C v [^aeiouwxy]$\<close>\<close>

definition cvc :: "string \<Rightarrow> bool" where
  "cvc s = ([] \<in> set (after_seq [after_C, after_one vowel_v, after_one (\<lambda>x. x \<notin> set ''aeiouwxy'')] s))"

section \<open>Suffixes\<close>

text \<open>\<open>^(.+?)(suffix|...)$\<close>: the shortest non-empty stem, without line breaks, that leaves one of
  the suffixes; the stem and the suffix.\<close>

definition no_break :: "string \<Rightarrow> bool" where
  "no_break s = (\<forall>x \<in> set s. x \<noteq> CHR 0x0A \<and> x \<noteq> CHR 0x0D)"

definition split_suffix :: "string list \<Rightarrow> string \<Rightarrow> (string \<times> string) option" where
  "split_suffix suffixes w =
     map_option (\<lambda>n. (take n w, drop n w))
       (List.find (\<lambda>n. no_break (take n w) \<and> drop n w \<in> set suffixes) [1..<Suc (length w)])"

definition ends_with :: "string \<Rightarrow> string \<Rightarrow> bool" where
  "ends_with suffix w = (\<exists>n \<in> set [0..<Suc (length w)]. drop n w = suffix)"

text \<open>\<open>replace(/.$/, "")\<close>\<close>

definition drop_last :: "string \<Rightarrow> string" where
  "drop_last w = (if w \<noteq> [] \<and> no_break [last w] then butlast w else w)"

definition step2list :: "(string \<times> string) list" where
  "step2list =
     [(''ational'', ''ate''), (''tional'', ''tion''), (''enci'', ''ence''), (''anci'', ''ance''),
      (''izer'', ''ize''), (''bli'', ''ble''), (''alli'', ''al''), (''entli'', ''ent''), (''eli'', ''e''),
      (''ousli'', ''ous''), (''ization'', ''ize''), (''ation'', ''ate''), (''ator'', ''ate''),
      (''alism'', ''al''), (''iveness'', ''ive''), (''fulness'', ''ful''), (''ousness'', ''ous''),
      (''aliti'', ''al''), (''iviti'', ''ive''), (''biliti'', ''ble''), (''logi'', ''log'')]"

definition step3list :: "(string \<times> string) list" where
  "step3list =
     [(''icate'', ''ic''), (''ative'', []), (''alize'', ''al''), (''iciti'', ''ic''), (''ical'', ''ic''),
      (''ful'', []), (''ness'', [])]"

definition step4list :: "string list" where
  "step4list = [''al'', ''ance'', ''ence'', ''er'', ''ic'', ''able'', ''ible'', ''ant'', ''ement'', ''ment'',
     ''ent'', ''ou'', ''ism'', ''ate'', ''iti'', ''ous'', ''ive'', ''ize'']"

section \<open>The steps\<close>

definition step1a :: "string \<Rightarrow> string" where
  "step1a w =
     (if split_suffix [''sses'', ''ies''] w \<noteq> None then take (length w - 2) w
      else if 3 \<le> length w \<and> last w = CHR ''s'' \<and> w ! (length w - 2) \<noteq> CHR ''s'' \<and>
              no_break (take (length w - 2) w)
      then butlast w
      else w)"

text \<open>After \<open>ed\<close> or \<open>ing\<close> is cut off.\<close>

definition double_end :: "string \<Rightarrow> bool" where
  "double_end w =
     (case rev w of x # y # zs \<Rightarrow> x = y \<and> x \<notin> set ''aeiouylsz'' | ys \<Rightarrow> False)"

definition step1b_mend :: "string \<Rightarrow> string" where
  "step1b_mend w =
     (if ends_with ''at'' w \<or> ends_with ''bl'' w \<or> ends_with ''iz'' w then w @ ''e''
      else if double_end w then drop_last w
      else if cvc w then w @ ''e''
      else w)"

definition step1b :: "string \<Rightarrow> string" where
  "step1b w =
     (case split_suffix [''eed''] w of
        Some (stem, s) \<Rightarrow> if mgr0 stem then drop_last w else w
      | None \<Rightarrow>
          (case split_suffix [''ed'', ''ing''] w of
             Some (stem, s) \<Rightarrow> if s_v stem then step1b_mend stem else w
           | None \<Rightarrow> w))"

definition step1c :: "string \<Rightarrow> string" where
  "step1c w =
     (case split_suffix [''y''] w of
        Some (stem, s) \<Rightarrow> if s_v stem then stem @ ''i'' else w
      | None \<Rightarrow> w)"

definition step_list :: "(string \<times> string) list \<Rightarrow> string \<Rightarrow> string" where
  "step_list table w =
     (case split_suffix (map fst table) w of
        Some (stem, suffix) \<Rightarrow>
          if mgr0 stem then stem @ (case map_of table suffix of Some s \<Rightarrow> s | None \<Rightarrow> []) else w
      | None \<Rightarrow> w)"

definition step2 :: "string \<Rightarrow> string" where "step2 = step_list step2list"
definition step3 :: "string \<Rightarrow> string" where "step3 = step_list step3list"

definition step4 :: "string \<Rightarrow> string" where
  "step4 w =
     (case split_suffix step4list w of
        Some (stem, s) \<Rightarrow> if mgr1 stem then stem else w
      | None \<Rightarrow>
          (case split_suffix [''sion'', ''tion''] w of
             Some (p, s) \<Rightarrow> (let stem = p @ [hd s] in if mgr1 stem then stem else w)
           | None \<Rightarrow> w))"

definition step5 :: "string \<Rightarrow> string" where
  "step5 w =
     (let w1 = (case split_suffix [''e''] w of
                  Some (stem, s) \<Rightarrow> if mgr1 stem \<or> (meq1 stem \<and> \<not> cvc stem) then stem else w
                | None \<Rightarrow> w)
      in if ends_with ''ll'' w1 \<and> mgr1 w1 then drop_last w1 else w1)"

definition stemWord :: "string \<Rightarrow> string" where
  "stemWord w =
     (if length w < 3 then w
      else (let firstch = hd w;
                w0 = (if firstch = CHR ''y'' then CHR ''Y'' # tl w else w);
                w5 = step5 (step4 (step3 (step2 (step1c (step1b (step1a w0))))))
            in if firstch = CHR ''y'' then CHR ''y'' # tl w5 else w5))"

section \<open>Stemming never lengthens a word and keeps its first letter\<close>

text \<open>\<open>shortens w w'\<close>: what every step does.\<close>

definition shortens :: "string \<Rightarrow> string \<Rightarrow> bool" where
  "shortens w w' \<longleftrightarrow> (w \<noteq> [] \<longrightarrow> w' \<noteq> [] \<and> length w' \<le> length w \<and> hd w' = hd w)"

lemma shortens_refl [simp]: "shortens w w"
  by (simp add: shortens_def)

lemma shortens_trans [trans]: "shortens u v \<Longrightarrow> shortens v w \<Longrightarrow> shortens u w"
  by (auto simp: shortens_def)

lemma shortens_prefix:
  "p \<noteq> [] \<Longrightarrow> length t \<le> length s \<Longrightarrow> shortens (p @ s) (p @ t)"
  by (simp add: shortens_def)

lemma shortens_stem: "p \<noteq> [] \<Longrightarrow> shortens (p @ s) p"
  using shortens_prefix [of p "[]" s] by simp

lemma split_suffix_Some:
  assumes "split_suffix suffixes w = Some (p, s)"
  shows "w = p @ s \<and> s \<in> set suffixes \<and> (suffixes \<noteq> [] \<longrightarrow> p \<noteq> [] \<or> w = [])"
proof -
  from assms obtain n where n: "List.find (\<lambda>n. no_break (take n w) \<and> drop n w \<in> set suffixes)
      [1..<Suc (length w)] = Some n" "p = take n w" "s = drop n w"
    by (auto simp: split_suffix_def)
  from n(1) have "n \<in> set [1..<Suc (length w)]" "drop n w \<in> set suffixes"
    by (auto simp: find_Some_iff simp del: upt_Suc)
  with n(2,3) show ?thesis by (cases n) (auto simp del: upt_Suc)
qed

lemma split_suffix_append:
  assumes "split_suffix suffixes w = Some (p, s)"
  obtains "w = p @ s" "p \<noteq> []" "s \<in> set suffixes"
proof -
  from assms have "w \<noteq> []" by (cases w) (auto simp: split_suffix_def)
  with split_suffix_Some [OF assms] that show ?thesis by (cases suffixes) auto
qed

lemma drop_last_shortens: "2 \<le> length w \<Longrightarrow> shortens w (drop_last w)"
  by (cases w; cases "tl w") (auto simp: shortens_def drop_last_def)

lemma step1a_shortens: "shortens w (step1a w)"
proof (cases "split_suffix [''sses'', ''ies''] w")
  case (Some ps)
  obtain p s where ps: "ps = (p, s)" by force
  from Some [unfolded ps] show ?thesis
  proof (rule split_suffix_append)
    assume "w = p @ s" "p \<noteq> []" "s \<in> set [''sses'', ''ies'']"
    then have "take (length w - 2) w = p @ take (length s - 2) s" by auto
    with \<open>w = p @ s\<close> \<open>p \<noteq> []\<close> show ?thesis using Some by (simp add: step1a_def shortens_def)
  qed
next
  case None
  have "shortens w (butlast w)" if "3 \<le> length w"
    using that by (cases w; cases "tl w") (auto simp: shortens_def)
  with None show ?thesis by (simp add: step1a_def)
qed

lemma step1b_mend_shortens: "p \<noteq> [] \<Longrightarrow> 1 \<le> length s \<Longrightarrow> shortens (p @ s) (step1b_mend p)"
proof -
  assume p: "p \<noteq> []" and s: "1 \<le> length s"
  have "shortens (p @ s) (drop_last p)" if "double_end p"
  proof -
    have "2 \<le> length p" using that by (auto simp: double_end_def split: list.splits dest: arg_cong [of _ _ length])
    then show ?thesis using drop_last_shortens [of p] shortens_stem [OF p] shortens_trans by blast
  qed
  then show ?thesis
    using shortens_prefix [of p "''e''" s] shortens_stem [OF p, of s] p s by (auto simp: step1b_mend_def)
qed

lemma step1b_shortens: "shortens w (step1b w)"
proof (cases "split_suffix [''eed''] w")
  case (Some ps)
  obtain p s where ps: "ps = (p, s)" by force
  from Some [unfolded ps] have "2 \<le> length w" by (rule split_suffix_append) auto
  then show ?thesis using Some ps drop_last_shortens by (simp add: step1b_def)
next
  case None
  show ?thesis
  proof (cases "split_suffix [''ed'', ''ing''] w")
    case (Some ps)
    obtain p s where ps: "ps = (p, s)" by force
    from Some [unfolded ps] show ?thesis
    proof (rule split_suffix_append)
      assume "w = p @ s" "p \<noteq> []" "s \<in> set [''ed'', ''ing'']"
      then show ?thesis using Some None ps by (auto simp: step1b_def intro: step1b_mend_shortens)
    qed
  qed (use None in \<open>simp add: step1b_def\<close>)
qed

lemma step1c_shortens: "shortens w (step1c w)"
  by (auto simp: step1c_def elim!: split_suffix_append split: option.splits intro!: shortens_prefix)

lemma step_list_shortens:
  assumes "\<forall>(s, t) \<in> set table. length t \<le> length s"
  shows "shortens w (step_list table w)"
proof (cases "split_suffix (map fst table) w")
  case (Some ps)
  obtain p s where ps: "ps = (p, s)" by force
  from Some [unfolded ps] show ?thesis
  proof (rule split_suffix_append)
    assume w: "w = p @ s" "p \<noteq> []"
    have "length (case map_of table s of Some t \<Rightarrow> t | None \<Rightarrow> []) \<le> length s"
      using assms by (auto split: option.splits dest: map_of_SomeD)
    with w show ?thesis using Some ps by (auto simp: step_list_def intro!: shortens_prefix)
  qed
qed (simp add: step_list_def)

lemma step2_shortens: "shortens w (step2 w)"
  unfolding step2_def by (rule step_list_shortens) (simp add: step2list_def)

lemma step3_shortens: "shortens w (step3 w)"
  unfolding step3_def by (rule step_list_shortens) (simp add: step3list_def)

lemma step4_shortens: "shortens w (step4 w)"
proof (cases "split_suffix step4list w")
  case (Some ps)
  then show ?thesis
    by (cases ps) (auto simp: step4_def elim!: split_suffix_append intro: shortens_stem)
next
  case None
  then show ?thesis
    by (auto simp: step4_def Let_def elim!: split_suffix_append split: option.splits intro!: shortens_prefix)
qed

lemma step5_shortens: "shortens w (step5 w)"
proof -
  define w1 where "w1 = (case split_suffix [''e''] w of
      Some (stem, s) \<Rightarrow> if mgr1 stem \<or> (meq1 stem \<and> \<not> cvc stem) then stem else w | None \<Rightarrow> w)"
  have w1: "shortens w w1"
    by (auto simp: w1_def elim!: split_suffix_append split: option.splits intro: shortens_stem)
  have "shortens w1 (drop_last w1)" if "ends_with ''ll'' w1"
  proof -
    from that have "2 \<le> length w1" by (auto simp: ends_with_def dest: arg_cong [of _ _ length])
    then show ?thesis by (rule drop_last_shortens)
  qed
  then have "shortens w1 (step5 w)" by (auto simp: step5_def w1_def [symmetric] Let_def)
  with w1 show ?thesis by (rule shortens_trans)
qed

lemma stem_steps_shorten:
  "shortens w (step5 (step4 (step3 (step2 (step1c (step1b (step1a w)))))))"
  by (rule shortens_trans [OF step1a_shortens shortens_trans [OF step1b_shortens
      shortens_trans [OF step1c_shortens shortens_trans [OF step2_shortens
      shortens_trans [OF step3_shortens shortens_trans [OF step4_shortens step5_shortens]]]]]])

lemma stemWord_shortens: "shortens w (stemWord w)"
proof (cases "length w < 3")
  case False
  then obtain x xs where w: "w = x # xs" by (cases w) auto
  show ?thesis
    using stem_steps_shorten [of "if x = CHR ''y'' then CHR ''Y'' # xs else x # xs"] w False
    by (auto simp: stemWord_def Let_def shortens_def)
qed (simp add: stemWord_def)

end
