(* ===== verification/Split_Query.thy ===== *)
theory Split_Query
  imports Js_Values
begin

text \<open>
  The stop words and the splitter of docs/_static/language_data.js. The table of separators is the
  single code units and the ranges of the source. \<open>splitQuery\<close> scans the query once, keeping the
  start of the current word; the last section shows that its result is the list of the maximal
  runs of characters that are no separators.
\<close>

definition stopwords :: "string list" where
  "stopwords =
    [''a'', ''and'', ''are'', ''as'', ''at'', ''be'', ''but'', ''by'', ''for'', ''if'', ''in'',
     ''into'', ''is'', ''it'', ''near'', ''no'', ''not'', ''of'', ''on'', ''or'', ''such'',
     ''that'', ''the'', ''their'', ''then'', ''there'', ''these'', ''they'', ''this'', ''to'',
     ''was'', ''will'', ''with'']"

definition split_singles :: "nat list" where
  "split_singles =
    [96, 180, 187, 191, 215, 247, 749, 885, 903, 907, 909, 930, 1014, 1648, 1748, 1809, 2416,
     2473, 2481, 2526, 2601, 2609, 2612, 2615, 2653, 2702, 2706, 2729, 2737, 2740, 2857, 2865,
     2868, 2910, 2928, 2948, 2961, 2971, 2973, 3085, 3089, 3113, 3124, 3213, 3217, 3241, 3252,
     3295, 3341, 3345, 3369, 3506, 3516, 3633, 3715, 3721, 3736, 3744, 3748, 3750, 3756, 3761,
     3781, 3912, 4239, 4347, 4681, 4695, 4697, 4745, 4785, 4799, 4801, 4823, 4881, 5760, 5901,
     5997, 6313, 7405, 8024, 8026, 8028, 8030, 8117, 8125, 8133, 8181, 8468, 8485, 8487, 8489,
     8494, 8527, 11311, 11359, 11687, 11695, 11703, 11711, 11719, 11727, 11735, 12448, 12539,
     43010, 43014, 43019, 43587, 43696, 43713, 64286, 64297, 64311, 64317, 64319, 64322, 64325,
     65141]"

definition split_ranges :: "(nat \<times> nat) list" where
  "split_ranges =
    [(0, 47), (58, 64), (91, 94), (123, 169), (171, 177), (182, 184), (706, 709), (722, 735),
     (741, 747), (751, 879), (888, 889), (894, 901), (1154, 1161), (1318, 1328), (1367, 1368),
     (1370, 1376), (1416, 1487), (1515, 1519), (1523, 1568), (1611, 1631), (1642, 1645),
     (1750, 1764), (1767, 1773), (1789, 1790), (1792, 1807), (1840, 1868), (1958, 1968),
     (1970, 1983), (2027, 2035), (2038, 2041), (2043, 2047), (2070, 2073), (2075, 2083),
     (2085, 2087), (2089, 2307), (2362, 2364), (2366, 2383), (2385, 2391), (2402, 2405),
     (2419, 2424), (2432, 2436), (2445, 2446), (2449, 2450), (2483, 2485), (2490, 2492),
     (2494, 2509), (2511, 2523), (2530, 2533), (2546, 2547), (2554, 2564), (2571, 2574),
     (2577, 2578), (2618, 2648), (2655, 2661), (2672, 2673), (2677, 2692), (2746, 2748),
     (2750, 2767), (2769, 2783), (2786, 2789), (2800, 2820), (2829, 2830), (2833, 2834),
     (2874, 2876), (2878, 2907), (2914, 2917), (2930, 2946), (2955, 2957), (2966, 2968),
     (2976, 2978), (2981, 2983), (2987, 2989), (3002, 3023), (3025, 3045), (3059, 3076),
     (3130, 3132), (3134, 3159), (3162, 3167), (3170, 3173), (3184, 3191), (3199, 3204),
     (3258, 3260), (3262, 3293), (3298, 3301), (3312, 3332), (3386, 3388), (3390, 3423),
     (3426, 3429), (3446, 3449), (3456, 3460), (3479, 3481), (3518, 3519), (3527, 3584),
     (3636, 3647), (3655, 3663), (3674, 3712), (3717, 3718), (3723, 3724), (3726, 3731),
     (3752, 3753), (3764, 3772), (3774, 3775), (3783, 3791), (3802, 3803), (3806, 3839),
     (3841, 3871), (3892, 3903), (3949, 3975), (3980, 4095), (4139, 4158), (4170, 4175),
     (4182, 4185), (4190, 4192), (4194, 4196), (4199, 4205), (4209, 4212), (4226, 4237),
     (4250, 4255), (4294, 4303), (4349, 4351), (4686, 4687), (4702, 4703), (4750, 4751),
     (4790, 4791), (4806, 4807), (4886, 4887), (4955, 4968), (4989, 4991), (5008, 5023),
     (5109, 5120), (5741, 5742), (5787, 5791), (5867, 5869), (5873, 5887), (5906, 5919),
     (5938, 5951), (5970, 5983), (6001, 6015), (6068, 6102), (6104, 6107), (6109, 6111),
     (6122, 6127), (6138, 6159), (6170, 6175), (6264, 6271), (6315, 6319), (6390, 6399),
     (6429, 6469), (6510, 6511), (6517, 6527), (6572, 6592), (6600, 6607), (6619, 6655),
     (6679, 6687), (6741, 6783), (6794, 6799), (6810, 6822), (6824, 6916), (6964, 6980),
     (6988, 6991), (7002, 7042), (7073, 7085), (7098, 7167), (7204, 7231), (7242, 7244),
     (7294, 7400), (7410, 7423), (7616, 7679), (7958, 7959), (7966, 7967), (8006, 8007),
     (8014, 8015), (8062, 8063), (8127, 8129), (8141, 8143), (8148, 8149), (8156, 8159),
     (8173, 8177), (8189, 8303), (8306, 8307), (8314, 8318), (8330, 8335), (8341, 8449),
     (8451, 8454), (8456, 8457), (8470, 8472), (8478, 8483), (8506, 8507), (8512, 8516),
     (8522, 8525), (8586, 9311), (9372, 9449), (9472, 10101), (10132, 11263), (11493, 11498),
     (11503, 11516), (11518, 11519), (11558, 11567), (11622, 11630), (11632, 11647),
     (11671, 11679), (11743, 11822), (11824, 12292), (12296, 12320), (12330, 12336),
     (12342, 12343), (12349, 12352), (12439, 12444), (12544, 12548), (12590, 12592),
     (12687, 12689), (12694, 12703), (12728, 12783), (12800, 12831), (12842, 12880),
     (12896, 12927), (12938, 12976), (12992, 13311), (19894, 19967), (40908, 40959),
     (42125, 42191), (42238, 42239), (42509, 42511), (42540, 42559), (42592, 42593),
     (42607, 42622), (42648, 42655), (42736, 42774), (42784, 42785), (42889, 42890),
     (42893, 43002), (43043, 43055), (43062, 43071), (43124, 43137), (43188, 43215),
     (43226, 43249), (43256, 43258), (43260, 43263), (43302, 43311), (43335, 43359),
     (43389, 43395), (43443, 43470), (43482, 43519), (43561, 43583), (43596, 43599),
     (43610, 43615), (43639, 43641), (43643, 43647), (43698, 43700), (43703, 43704),
     (43710, 43711), (43715, 43738), (43742, 43967), (44003, 44015), (44026, 44031),
     (55204, 55215), (55239, 55242), (55292, 55295), (57344, 63743), (64046, 64047),
     (64110, 64111), (64218, 64255), (64263, 64274), (64280, 64284), (64434, 64466),
     (64830, 64847), (64912, 64913), (64968, 65007), (65020, 65135), (65277, 65295),
     (65306, 65312), (65339, 65344), (65371, 65381), (65471, 65473), (65480, 65481),
     (65488, 65489), (65496, 65497)]"

definition splitChars :: "nat \<Rightarrow> bool" where
  "splitChars c \<longleftrightarrow>
     c \<in> set split_singles \<or> (\<exists>(first, final) \<in> set split_ranges. first \<le> c \<and> c \<le> final)"

section \<open>The scan\<close>

text \<open>The loop's state: the words so far and the start of the current one, \<open>None\<close> for \<open>-1\<close>.\<close>

definition split_step ::
    "('c \<Rightarrow> bool) \<Rightarrow> 'c list \<Rightarrow> nat \<Rightarrow> 'c list list \<times> nat option \<Rightarrow> 'c list list \<times> nat option" where
  "split_step is_sep query i st =
     (case st of
        (result, start) \<Rightarrow>
          if is_sep (query ! i) then
            (case start of
               Some s \<Rightarrow> (result @ [drop s (take i query)], None)
             | None \<Rightarrow> (result, None))
          else (case start of None \<Rightarrow> (result, Some i) | Some s \<Rightarrow> (result, Some s)))"

fun split_finish :: "'c list \<Rightarrow> 'c list list \<times> nat option \<Rightarrow> 'c list list" where
  "split_finish query (result, Some s) = result @ [drop s query]"
| "split_finish query (result, None) = result"

definition split_scan :: "('c \<Rightarrow> bool) \<Rightarrow> 'c list \<Rightarrow> 'c list list" where
  "split_scan is_sep query =
     split_finish query (fold (split_step is_sep query) [0..<length query] ([], None))"

definition splitQuery :: "nat list \<Rightarrow> nat list list" where
  "splitQuery = split_scan splitChars"

text \<open>The same on strings of code units below 256.\<close>

definition splitQuery_string :: "string \<Rightarrow> string list" where
  "splitQuery_string = split_scan (\<lambda>c. splitChars (of_char c))"

section \<open>Maximal runs\<close>

fun runs :: "('c \<Rightarrow> bool) \<Rightarrow> 'c list \<Rightarrow> 'c list list" where
  "runs is_sep [] = []"
| "runs is_sep (c # cs) =
     (if is_sep c then runs is_sep cs
      else (case cs of
              [] \<Rightarrow> [[c]]
            | d # ds \<Rightarrow>
                if is_sep d then [c] # runs is_sep cs
                else (case runs is_sep cs of [] \<Rightarrow> [[c]] | w # ws \<Rightarrow> (c # w) # ws)))"

text \<open>The scan from a position on, outside and inside a word.\<close>

lemma scan_from:
  assumes "i \<le> length q"
  shows "split_finish q (fold (split_step is_sep q) [i..<length q] (result, None)) =
      result @ runs is_sep (drop i q) \<and>
    (\<forall>s < i. split_finish q (fold (split_step is_sep q) [i..<length q] (result, Some s)) =
      result @ (drop s (take i q) @ takeWhile (\<lambda>x. \<not> is_sep x) (drop i q)) #
        runs is_sep (dropWhile (\<lambda>x. \<not> is_sep x) (drop i q)))"
  using assms
proof (induction "length q - i" arbitrary: i result)
  case 0
  then show ?case by simp
next
  case (Suc n)
  then have i: "i < length q" by simp
  then have upt: "[i..<length q] = i # [Suc i..<length q]" by (simp add: upt_conv_Cons)
  have rest: "drop i q = q ! i # drop (Suc i) q" using i by (simp add: Cons_nth_drop_Suc)
  have len: "n = length q - Suc i" "Suc i \<le> length q" using Suc.hyps(2) i by simp_all
  have cur: "drop s (take (Suc i) q) = drop s (take i q) @ [q ! i]" if "s \<le> i" for s
    using i that by (simp add: take_Suc_conv_app_nth)
  have word: "runs is_sep (c # cs) = (c # takeWhile (\<lambda>x. \<not> is_sep x) cs) #
      runs is_sep (dropWhile (\<lambda>x. \<not> is_sep x) cs)" if "\<not> is_sep c" for c cs
    using that
  proof (induction cs arbitrary: c)
    case (Cons d ds)
    then show ?case by (cases "is_sep d") auto
  qed simp
  show ?case
  proof (cases "is_sep (q ! i)")
    case True
    then show ?thesis
      using Suc.hyps(1) [OF len] i by (simp add: upt split_step_def rest)
  next
    case False
    then show ?thesis
      using Suc.hyps(1) [OF len] i by (simp add: upt split_step_def rest word cur del: runs.simps)
  qed
qed

lemma split_scan_runs: "split_scan is_sep q = runs is_sep q"
  using scan_from [of 0 q is_sep "[]"] by (simp add: split_scan_def)

lemma runs_word_not_Nil: "\<not> is_sep d \<Longrightarrow> runs is_sep (d # ds) \<noteq> []"
  unfolding runs.simps(2) by (cases ds; cases "runs is_sep ds") (simp_all del: runs.simps)

lemma runs_Cons_cases:
  obtains "is_sep c" "runs is_sep (c # cs) = runs is_sep cs"
  | "\<not> is_sep c" "runs is_sep (c # cs) = [c] # runs is_sep cs" "cs = [] \<or> is_sep (hd cs)"
  | w ws where "\<not> is_sep c" "runs is_sep cs = w # ws" "runs is_sep (c # cs) = (c # w) # ws"
proof (cases "is_sep c")
  case False
  show thesis
  proof (cases cs)
    case Nil
    with False that(2) show thesis by simp
  next
    case (Cons d ds)
    show thesis
    proof (cases "is_sep d")
      case True
      with False Cons that(2) show thesis by simp
    next
      case d: False
      obtain w ws where w: "runs is_sep cs = w # ws"
        using runs_word_not_Nil [of is_sep d ds] d Cons by (cases "runs is_sep cs") auto
      have "runs is_sep (c # cs) = (c # w) # ws"
        using False d w unfolding Cons runs.simps(2) [of is_sep c "d # ds"] by (simp del: runs.simps)
      with False w that(3) show thesis by blast
    qed
  qed
qed (use that(1) in simp)

lemma runs_letters: "\<forall>w \<in> set (runs is_sep q). w \<noteq> [] \<and> (\<forall>c \<in> set w. \<not> is_sep c)"
proof (induction q)
  case (Cons c cs)
  show ?case
    by (rule runs_Cons_cases [of is_sep c cs]) (use Cons in \<open>simp_all del: runs.simps\<close>)
qed simp

text \<open>The separators are dropped and nothing else.\<close>

lemma concat_runs: "concat (runs is_sep q) = filter (\<lambda>c. \<not> is_sep c) q"
proof (induction q)
  case (Cons c cs)
  show ?case
    by (rule runs_Cons_cases [of is_sep c cs]) (use Cons in \<open>simp_all del: runs.simps\<close>)
qed simp

end
