(* ===== verification/Sphinx_Search.thy ===== *)
theory Sphinx_Search
  imports Porter_Stemmer Split_Query Underscore_Strings Underscore_Search
begin

text \<open>
  The full-text search of docs/_static/searchtools.js: the queue between the page and the index,
  the analysis of a query, the two searches, the order of the results and how they are shown. The
  index is what Sphinx writes into searchindex.js; the page itself (elements, requests, timers) is
  represented by what is put on it. A position outside a list of the index reads as
  \<open>undefined\<close>.
\<close>

section \<open>Scores and the index\<close>

definition objNameMatch :: int where "objNameMatch = 11"
definition objPartialMatch :: int where "objPartialMatch = 6"
definition objPrio :: "(int \<times> int) list" where "objPrio = [(0, 15), (1, 5), (2, -5)]"
definition objPrioDefault :: int where "objPrioDefault = 0"
definition score_title :: int where "score_title = 15"
definition score_partialTitle :: int where "score_partialTitle = 7"
definition score_term :: int where "score_term = 5"
definition score_partialTerm :: int where "score_partialTerm = 2"

text \<open>The files a term occurs in: a number when it is one file, an array otherwise.\<close>

datatype files = One nat | Many "nat list"

record object_entry =
  oe_doc :: nat
  oe_type :: nat
  oe_prio :: int
  oe_anchor :: string

record search_index =
  ix_docnames :: "string list"
  ix_filenames :: "string list"
  ix_titles :: "string list"
  ix_objects :: "(string \<times> (string \<times> object_entry) list) list"
  ix_objnames :: "(string \<times> string \<times> string) list"
  ix_terms :: "(string \<times> files) list"
  ix_titleterms :: "(string \<times> files) list"

record search_result =
  sr_docname :: string
  sr_title :: string
  sr_anchor :: string
  sr_descr :: "string option"
  sr_score :: int
  sr_filename :: string

definition nth_text :: "string list \<Rightarrow> nat \<Rightarrow> string" where
  "nth_text xs i = (if i < length xs then xs ! i else ''undefined'')"

definition to_lower_char :: "char \<Rightarrow> char" where
  "to_lower_char c =
     (let n = (of_char c :: nat) in
      if 65 \<le> n \<and> n \<le> 90 \<or> 192 \<le> n \<and> n \<le> 222 \<and> n \<noteq> 215 then char_of (n + 32) else c)"

definition to_lower :: "string \<Rightarrow> string" where
  "to_lower = map to_lower_char"

text \<open>\<open>s.indexOf(p)\<close>\<close>

definition find_sub :: "string \<Rightarrow> string \<Rightarrow> nat option" where
  "find_sub p s = List.find (\<lambda>i. starts_with p (drop i s)) [0..<Suc (length s)]"

definition has_sub :: "string \<Rightarrow> string \<Rightarrow> bool" where
  "has_sub p s = (find_sub p s \<noteq> None)"

lemma find_sub_split:
  assumes "find_sub p s = Some i"
  shows "s = take i s @ p @ drop (i + length p) s" "i \<le> length s"
proof -
  have "i \<in> set [0..<Suc (length s)]" and w: "take (length p) (drop i s) = p"
    using assms unfolding find_sub_def find_Some_iff starts_with_def by (metis nth_mem)+
  then show "i \<le> length s" by (simp only: set_upt atLeastLessThan_iff less_Suc_eq_le)
  have "drop i s = p @ drop (length p) (drop i s)" using w append_take_drop_id by metis
  then show "s = take i s @ p @ drop (i + length p) s"
    by (metis add.commute append_take_drop_id drop_drop)
qed

lemma has_sub_iff: "has_sub p s \<longleftrightarrow> (\<exists>x y. s = x @ p @ y)"
proof
  assume "has_sub p s"
  then show "\<exists>x y. s = x @ p @ y" using find_sub_split by (fastforce simp: has_sub_def)
next
  assume "\<exists>x y. s = x @ p @ y"
  then obtain x y where s: "s = x @ p @ y" by blast
  have "\<exists>i \<in> set [0..<Suc (length s)]. starts_with p (drop i s)"
    using s by (intro bexI [of _ "length x"]) (auto simp: starts_with_def simp del: upt_Suc)
  then show "has_sub p s" unfolding has_sub_def find_sub_def find_None_iff by blast
qed

section \<open>The queue and the progress dots\<close>

text \<open>\<open>queries\<close> are the queries that have been executed.\<close>

record search_state =
  ss_index :: "search_index option"
  ss_queued :: "string option"
  ss_pulse :: int
  ss_timer :: bool
  ss_dots :: string
  ss_queries :: "string list"

definition search_start :: search_state where
  "search_start = \<lparr>ss_index = None, ss_queued = None, ss_pulse = -1, ss_timer = False, ss_dots = [],
     ss_queries = []\<rparr>"

definition run_query :: "string \<Rightarrow> search_state \<Rightarrow> search_state" where
  "run_query q st = st\<lparr>ss_queries := ss_queries st @ [q]\<rparr>"

definition setIndex :: "search_index \<Rightarrow> search_state \<Rightarrow> search_state" where
  "setIndex index st =
     (let st1 = st\<lparr>ss_index := Some index\<rparr> in
      case ss_queued st1 of
        None \<Rightarrow> st1
      | Some q \<Rightarrow> run_query q (st1\<lparr>ss_queued := None\<rparr>))"

definition hasIndex :: "search_state \<Rightarrow> bool" where
  "hasIndex st = (ss_index st \<noteq> None)"

definition deferQuery :: "string \<Rightarrow> search_state \<Rightarrow> search_state" where
  "deferQuery q st = st\<lparr>ss_queued := Some q\<rparr>"

definition stopPulse :: "search_state \<Rightarrow> search_state" where
  "stopPulse st = st\<lparr>ss_pulse := 0\<rparr>"

text \<open>One beat: the timer is set again while the status is not negative.\<close>

definition pulse :: "search_state \<Rightarrow> search_state" where
  "pulse st =
     (let s = (ss_pulse st + 1) mod 4
      in st\<lparr>ss_pulse := s, ss_dots := replicate (nat s) CHR ''.'', ss_timer := -1 < s\<rparr>)"

definition startPulse :: "search_state \<Rightarrow> search_state" where
  "startPulse st = (if 0 \<le> ss_pulse st then st else pulse st)"

definition performSearch :: "string \<Rightarrow> search_state \<Rightarrow> search_state" where
  "performSearch q st =
     (let st1 = startPulse st in if hasIndex st1 then run_query q st1 else deferQuery q st1)"

text \<open>\<open>params\<close> are the parameters of the page's address.\<close>

definition search_init :: "(string \<times> string list) list \<Rightarrow> search_state \<Rightarrow> search_state" where
  "search_init params st =
     (case map_of params ''q'' of Some (q # qs) \<Rightarrow> performSearch q st | v \<Rightarrow> st)"

section \<open>The analysis of a query\<close>

record query_terms =
  qt_search :: "string list"
  qt_excluded :: "string list"
  qt_highlight :: "string list"
  qt_objects :: "string list"

definition add_new :: "string \<Rightarrow> string list \<Rightarrow> string list" where
  "add_new w ws = (if w \<in> set ws then ws else ws @ [w])"

definition stem_term :: "string \<Rightarrow> string" where
  "stem_term t =
     (let word = stemWord (to_lower t) in if length word < 3 \<and> 3 \<le> length t then t else word)"

definition analyse_word :: "string \<Rightarrow> query_terms \<Rightarrow> query_terms" where
  "analyse_word t qt =
     (let qt1 = (if t \<noteq> [] then qt\<lparr>qt_objects := qt_objects qt @ [to_lower t]\<rparr> else qt) in
      if to_lower t \<in> set stopwords \<or> t = [] then qt1
      else (let word = stem_term t in
            if word \<noteq> [] \<and> hd word = CHR ''-''
            then qt1\<lparr>qt_excluded := add_new (tl word) (qt_excluded qt1)\<rparr>
            else qt1\<lparr>qt_highlight := qt_highlight qt1 @ [to_lower t],
                     qt_search := add_new word (qt_search qt1)\<rparr>))"

definition analyse_query :: "string \<Rightarrow> query_terms" where
  "analyse_query q =
     fold analyse_word (splitQuery_string q)
       \<lparr>qt_search = [], qt_excluded = [], qt_highlight = [], qt_objects = []\<rparr>"

section \<open>Searching for objects\<close>

definition last_part :: "string \<Rightarrow> string" where
  "last_part s = last (split_on CHR ''.'' s)"

definition object_score :: "string \<Rightarrow> string \<Rightarrow> int" where
  "object_score fullname object =
     (let parts_last = last_part fullname in
      if fullname = object \<or> parts_last = object then objNameMatch
      else if has_sub object parts_last then objPartialMatch
      else 0)"

definition object_result ::
    "(string \<Rightarrow> string) \<Rightarrow> search_index \<Rightarrow> string \<Rightarrow> string list \<Rightarrow> string \<Rightarrow> string \<times> object_entry \<Rightarrow>
     search_result list" where
  "object_result translate ix object otherterms prefix name_entry =
     (let (name, entry) = name_entry;
          fullname = (if prefix \<noteq> [] then prefix @ ''.'' else []) @ name;
          fullnameLower = to_lower fullname;
          objtype = (if oe_type entry < length (ix_objnames ix) then ix_objnames ix ! oe_type entry
                     else (''undefined'', ''undefined'', ''undefined''));
          objname = snd (snd objtype);
          title = nth_text (ix_titles ix) (oe_doc entry);
          haystack = to_lower (prefix @ '' '' @ name @ '' '' @ objname @ '' '' @ title);
          anchor = (if oe_anchor entry = [] then fullname
                    else if oe_anchor entry = ''-'' then fst (snd objtype) @ ''-'' @ fullname
                    else oe_anchor entry);
          prio = (case map_of objPrio (oe_prio entry) of Some p \<Rightarrow> p | None \<Rightarrow> objPrioDefault)
      in if \<not> has_sub object fullnameLower then []
         else if \<not> list_all (\<lambda>t. has_sub t haystack) otherterms then []
         else [\<lparr>sr_docname = nth_text (ix_docnames ix) (oe_doc entry), sr_title = fullname,
                sr_anchor = ''#'' @ anchor, sr_descr = Some (objname @ translate '', in '' @ title),
                sr_score = object_score fullnameLower object + prio,
                sr_filename = nth_text (ix_filenames ix) (oe_doc entry)\<rparr>])"

definition performObjectSearch ::
    "(string \<Rightarrow> string) \<Rightarrow> search_index \<Rightarrow> string \<Rightarrow> string list \<Rightarrow> search_result list" where
  "performObjectSearch translate ix object otherterms =
     concat (map (\<lambda>(prefix, names).
       concat (map (object_result translate ix object otherterms prefix) names)) (ix_objects ix))"

section \<open>Searching for terms\<close>

definition special_char :: "char \<Rightarrow> bool" where
  "special_char c = (c \<in> set ''.*+-?^${}()|[]'' \<or> c = CHR 0x5C)"

definition escapeRegExp :: "string \<Rightarrow> string" where
  "escapeRegExp s = concat (map (\<lambda>c. if special_char c then [CHR 0x5C, c] else [c]) s)"

text \<open>The engine's reading of a pattern without operators: a backslash makes the next character
  literal, and a special character alone is an operator. \<open>None\<close> is a pattern with operators.\<close>

fun read_pattern :: "string \<Rightarrow> string option" where
  "read_pattern [] = Some []"
| "read_pattern (c # cs) =
     (if c = CHR 0x5C then
        (case cs of [] \<Rightarrow> None | d # ds \<Rightarrow> map_option (Cons d) (read_pattern ds))
      else if special_char c then None
      else map_option (Cons c) (read_pattern cs))"

definition matches_pattern :: "string \<Rightarrow> string \<Rightarrow> bool" where
  "matches_pattern pattern s = (case read_pattern pattern of None \<Rightarrow> False | Some p \<Rightarrow> has_sub p s)"

fun files_list :: "files \<Rightarrow> nat list" where
  "files_list (One n) = [n]"
| "files_list (Many ns) = ns"

text \<open>The number of the first document is zero, which is false.\<close>

fun files_truthy :: "files option \<Rightarrow> bool" where
  "files_truthy None = False"
| "files_truthy (Some (One n)) = (n \<noteq> 0)"
| "files_truthy (Some (Many ns)) = True"

definition partial_matches :: "string \<Rightarrow> int \<Rightarrow> (string \<times> files) list \<Rightarrow> (files option \<times> int) list" where
  "partial_matches word score table =
     map (\<lambda>(w, f). (Some f, score))
       (filter (\<lambda>(w, f). matches_pattern (escapeRegExp word) w \<and> \<not> files_truthy (map_of table word)) table)"

definition term_candidates :: "search_index \<Rightarrow> string \<Rightarrow> (files option \<times> int) list" where
  "term_candidates ix word =
     [(map_of (ix_terms ix) word, score_term), (map_of (ix_titleterms ix) word, score_title)] @
     (if 2 < length word
      then partial_matches word score_partialTerm (ix_terms ix) @
           partial_matches word score_partialTitle (ix_titleterms ix)
      else [])"

type_synonym score_map = "nat \<Rightarrow> string \<Rightarrow> int option"
type_synonym file_map = "(nat \<times> string list) list"

definition set_scores :: "string \<Rightarrow> (files option \<times> int) list \<Rightarrow> score_map \<Rightarrow> score_map" where
  "set_scores word cands scores =
     fold (\<lambda>(f, score) scores.
       case f of
         None \<Rightarrow> scores
       | Some fs \<Rightarrow> fold (\<lambda>file scores. scores(file := (scores file)(word \<mapsto> score))) (files_list fs) scores)
     cands scores"

text \<open>The keys of \<open>fileMap\<close> are numerals, which an object enumerates in ascending order.\<close>

fun file_put :: "nat \<Rightarrow> string list \<Rightarrow> file_map \<Rightarrow> file_map" where
  "file_put k v [] = [(k, v)]"
| "file_put k v ((k', v') # ps) =
     (if k < k' then (k, v) # (k', v') # ps
      else if k = k' then (k, v) # ps
      else (k', v') # file_put k v ps)"

definition add_word :: "string \<Rightarrow> nat \<Rightarrow> file_map \<Rightarrow> file_map" where
  "add_word word file fm =
     (case map_of fm file of
        Some ws \<Rightarrow> if word \<notin> set ws then file_put file (ws @ [word]) fm else file_put file [word] fm
      | None \<Rightarrow> file_put file [word] fm)"

text \<open>The loop over the required words: a word without a match ends it.\<close>

fun collect_files ::
    "search_index \<Rightarrow> string list \<Rightarrow> file_map \<times> score_map \<Rightarrow> file_map \<times> score_map" where
  "collect_files ix [] st = st"
| "collect_files ix (word # ws) (fm, scores) =
     (let cands = term_candidates ix word in
      if list_all (\<lambda>(f, score). f = None) cands then (fm, scores)
      else (let found = concat (map (\<lambda>(f, score). case f of None \<Rightarrow> [] | Some fs \<Rightarrow> files_list fs) cands)
            in collect_files ix ws (fold (add_word word) found fm, set_scores word cands scores)))"

text \<open>The keys of \<open>fileMap\<close> are strings and the files of a term are numbers: \<open>==\<close> converts,
  \<open>contains\<close> does not.\<close>

fun loosely_equal :: "files option \<Rightarrow> nat \<Rightarrow> bool" where
  "loosely_equal None file = False"
| "loosely_equal (Some (One n)) file = (n = file)"
| "loosely_equal (Some (Many ns)) file = (ns = [file])"

definition files_contain :: "realm \<Rightarrow> files option \<Rightarrow> nat \<Rightarrow> bool" where
  "files_contain r f file =
     (case f of
        Some (Many ns) \<Rightarrow> contains_elems r (map num_of_nat ns) (Str (nat_to_string file)) NoHint
      | v \<Rightarrow> False)"

definition is_excluded :: "realm \<Rightarrow> search_index \<Rightarrow> string list \<Rightarrow> nat \<Rightarrow> bool" where
  "is_excluded r ix excluded file =
     list_ex (\<lambda>w.
       loosely_equal (map_of (ix_terms ix) w) file \<or>
       loosely_equal (map_of (ix_titleterms ix) w) file \<or>
       files_contain r (map_of (ix_terms ix) w) file \<or>
       files_contain r (map_of (ix_titleterms ix) w) file) excluded"

definition best_score :: "score_map \<Rightarrow> nat \<Rightarrow> string list \<Rightarrow> int" where
  "best_score scores file ws =
     (case map (\<lambda>w. case scores file w of Some s \<Rightarrow> s | None \<Rightarrow> 0) ws of
        [] \<Rightarrow> 0
      | s # ss \<Rightarrow> fold max ss s)"

definition performTermsSearch ::
    "realm \<Rightarrow> search_index \<Rightarrow> string list \<Rightarrow> string list \<Rightarrow> search_result list" where
  "performTermsSearch r ix searchterms excluded =
     (let (fm, scores) = collect_files ix searchterms ([], \<lambda>file. Map.empty);
          filteredTermCount = length (filter (\<lambda>t. 2 < length t) searchterms)
      in concat (map (\<lambda>(file, ws).
           if length ws \<noteq> length searchterms \<and> length ws \<noteq> filteredTermCount then []
           else if is_excluded r ix excluded file then []
           else [\<lparr>sr_docname = nth_text (ix_docnames ix) file, sr_title = nth_text (ix_titles ix) file,
                  sr_anchor = [], sr_descr = None, sr_score = best_score scores file ws,
                  sr_filename = nth_text (ix_filenames ix) file\<rparr>]) fm))"

section \<open>The results of a query\<close>

text \<open>The comparison of \<open>results.sort\<close> is positive: the first result goes after the second.\<close>

definition result_after :: "search_result \<Rightarrow> search_result \<Rightarrow> bool" where
  "result_after a b =
     (if sr_score b < sr_score a then True
      else if sr_score a < sr_score b then False
      else string_less (to_lower (sr_title a)) (to_lower (sr_title b)))"

definition object_results :: "(string \<Rightarrow> string) \<Rightarrow> search_index \<Rightarrow> string list \<Rightarrow> search_result list" where
  "object_results translate ix objectterms =
     concat (map (\<lambda>i. performObjectSearch translate ix (objectterms ! i)
                        (take i objectterms @ drop (i + 1) objectterms)) [0..<length objectterms])"

text \<open>\<open>score\<close> is the page's own scoring function, if it has one.\<close>

definition search_query ::
    "realm \<Rightarrow> (string \<Rightarrow> string) \<Rightarrow> (search_result \<Rightarrow> int) option \<Rightarrow> search_index \<Rightarrow> string \<Rightarrow>
     search_result list" where
  "search_query r translate score ix q =
     (let qt = analyse_query q;
          found = object_results translate ix (qt_objects qt) @
                  performTermsSearch r ix (qt_search qt) (qt_excluded qt);
          scored = (case score of None \<Rightarrow> found | Some f \<Rightarrow> map (\<lambda>x. x\<lparr>sr_score := f x\<rparr>) found)
      in array_sort result_after scored)"

section \<open>Showing the results\<close>

record doc_options =
  do_builder :: string
  do_url_root :: string
  do_file_suffix :: string
  do_link_suffix :: string

text \<open>The addresses of the document and of its source.\<close>

definition item_urls :: "doc_options \<Rightarrow> search_result \<Rightarrow> string \<times> string" where
  "item_urls opts item =
     (if do_builder opts = ''dirhtml'' then
        (let dirname = sr_docname item @ ''/'';
             dirname' = (if ends_with ''/index/'' dirname then take (length dirname - 6) dirname
                         else if dirname = ''index/'' then [] else dirname);
             requestUrl = do_url_root opts @ dirname'
         in (requestUrl, requestUrl))
      else (do_url_root opts @ sr_docname item @ do_file_suffix opts,
            sr_docname item @ do_link_suffix opts))"

record display_state =
  ds_results :: "search_result list"
  ds_shown :: "search_result list"
  ds_finished :: bool

definition displayNextItem :: "display_state \<Rightarrow> display_state" where
  "displayNextItem st =
     (if ds_results st \<noteq> []
      then st\<lparr>ds_results := butlast (ds_results st), ds_shown := ds_shown st @ [last (ds_results st)]\<rparr>
      else st\<lparr>ds_finished := True\<rparr>)"

definition summary_start :: "string \<Rightarrow> string list \<Rightarrow> nat" where
  "summary_start text keywords =
     fold (\<lambda>k start. case find_sub (to_lower k) (to_lower text) of Some i \<Rightarrow> i | None \<Rightarrow> start)
       keywords 0 - 120"

definition summary_excerpt :: "string \<Rightarrow> string list \<Rightarrow> string" where
  "summary_excerpt text keywords =
     (let start = summary_start text keywords
      in (if 0 < start then ''...'' else []) @ trim (take 240 (drop start text)) @
         (if int start + 240 - int (length text) \<noteq> 0 then ''...'' else []))"

end
