(* ===== verification/Underscore_Functions.thy ===== *)
theory Underscore_Functions
  imports Underscore_Arrays
begin

text \<open>
  The functions of docs/_static/underscore-1.12.0.js on functions: bound and partially applied
  functions, memoization, and the wrappers that count or delay calls. A wrapper with a private
  state is a transition on a record of that state; the clock and the timers are arguments and
  fields: a timer is the time it is due.
\<close>

section \<open>Binding\<close>

text \<open>A bound function called with \<open>new\<close> runs its source on a fresh object, at the address
  \<open>fresh\<close>, that inherits from the source's prototype.\<close>

definition executeBound ::
    "realm \<Rightarrow> nat \<Rightarrow> jsval \<Rightarrow> bool \<Rightarrow> jsval \<Rightarrow> jsval list \<Rightarrow> jsval \<times> realm" where
  "executeBound r fresh sourceFunc constructing context args =
     (if \<not> constructing then (apply_fn r sourceFunc context args, r)
      else (let self = baseCreate r (get_prop r sourceFunc ''prototype'');
                r' = r\<lparr>rm_heap := (rm_heap r)(fresh := self)\<rparr>;
                result = apply_fn r' sourceFunc (Ref fresh) args
            in (if isObject r' result then result else Ref fresh, r')))"

fun fill_placeholders :: "jsval \<Rightarrow> jsval list \<Rightarrow> jsval list \<Rightarrow> jsval list" where
  "fill_placeholders placeholder [] args = args"
| "fill_placeholders placeholder (b # bs) args =
     (if strict_eq b placeholder then arg args 0 # fill_placeholders placeholder bs (tl args)
      else b # fill_placeholders placeholder bs args)"

definition partial_js ::
    "realm \<Rightarrow> nat \<Rightarrow> jsval \<Rightarrow> jsval \<Rightarrow> jsval list \<Rightarrow> bool \<Rightarrow> jsval \<Rightarrow> jsval list \<Rightarrow> jsval \<times> realm" where
  "partial_js r fresh placeholder func boundArgs constructing this args =
     executeBound r fresh func constructing this (fill_placeholders placeholder boundArgs args)"

datatype js_error = TypeError string | PlainError string

definition bind_js ::
    "realm \<Rightarrow> jsval \<Rightarrow> jsval \<Rightarrow> jsval list \<Rightarrow>
     js_error + (nat \<Rightarrow> bool \<Rightarrow> jsval list \<Rightarrow> jsval \<times> realm)" where
  "bind_js r func context args =
     (if \<not> isFunction r func then Inl (TypeError ''Bind must be called on a function'')
      else Inr (\<lambda>fresh constructing callArgs.
             executeBound r fresh func constructing context (args @ callArgs)))"

text \<open>\<open>bindAll\<close> replaces the named methods, the last name first. The result lists the methods to
  be bound to the object, or the error the call ends with; \<open>None\<close> is missing fuel for the
  flattening of the names.\<close>

fun bind_methods :: "realm \<Rightarrow> jsval \<Rightarrow> jsval list \<Rightarrow> js_error + (string \<times> jsval) list" where
  "bind_methods r obj [] = Inr []"
| "bind_methods r obj (k # ks) =
     (let func = get_at r obj k in
      case bind_js r func obj [] of
        Inl e \<Rightarrow> Inl e
      | Inr f \<Rightarrow>
          (case bind_methods r obj ks of
             Inl e \<Rightarrow> Inl e
           | Inr bs \<Rightarrow> Inr ((to_string r k, func) # bs)))"

definition bindAll :: "nat \<Rightarrow> realm \<Rightarrow> jsval \<Rightarrow> jsval list \<Rightarrow> (js_error + (string \<times> jsval) list) option" where
  "bindAll n r obj ks =
     map_option (\<lambda>names.
       if names = [] then Inl (PlainError ''bindAll must be passed function names'')
       else bind_methods r obj (rev names)) (flatten_js n r (depth_of (Bool False)) False ks)"

section \<open>Memoization\<close>

definition memo_address ::
    "realm \<Rightarrow> jsval option \<Rightarrow> jsval \<Rightarrow> jsval list \<Rightarrow> string" where
  "memo_address r hasher this args =
     to_string r (case hasher of Some h \<Rightarrow> apply_fn r h this args | None \<Rightarrow> arg args 0)"

definition memoize ::
    "realm \<Rightarrow> jsval \<Rightarrow> jsval option \<Rightarrow> jsval \<Rightarrow> jsval list \<Rightarrow> (string \<times> jsval) list \<Rightarrow>
     jsval \<times> (string \<times> jsval) list" where
  "memoize r func hasher this args cache =
     (let address = memo_address r hasher this args;
          cache' = (if address \<notin> fst ` set cache
                    then put address (apply_fn r func this args) cache else cache)
      in (lookup cache' address, cache'))"

section \<open>Throttling\<close>

text \<open>A call of the wrapped function, with the time it happened at.\<close>

datatype call = Call int jsval "jsval list"

fun call_time :: "call \<Rightarrow> int" where
  "call_time (Call t this args) = t"

record throttle_options =
  opt_leading :: bool
  opt_trailing :: bool

record throttle_state =
  th_timeout :: "int option"
  th_pending :: "(jsval \<times> jsval list) option"
  th_previous :: int
  th_result :: jsval
  th_calls :: "call list"

definition throttle_start :: throttle_state where
  "throttle_start = \<lparr>th_timeout = None, th_pending = None, th_previous = 0, th_result = Undefined,
     th_calls = []\<rparr>"

text \<open>Running the wrapped function on what is pending. (It does not call the wrapper again, so the
  timeout stays unset and the pending call is dropped.)\<close>

definition throttle_invoke :: "realm \<Rightarrow> jsval \<Rightarrow> int \<Rightarrow> throttle_state \<Rightarrow> throttle_state" where
  "throttle_invoke r func now st =
     (case th_pending st of
        None \<Rightarrow> st\<lparr>th_result := apply_fn r func Null [], th_calls := th_calls st @ [Call now Null []]\<rparr>
      | Some (this, args) \<Rightarrow>
          st\<lparr>th_result := apply_fn r func this args, th_pending := None,
             th_calls := th_calls st @ [Call now this args]\<rparr>)"

definition throttle_later ::
    "realm \<Rightarrow> jsval \<Rightarrow> throttle_options \<Rightarrow> int \<Rightarrow> throttle_state \<Rightarrow> throttle_state" where
  "throttle_later r func opts now st =
     throttle_invoke r func now
       (st\<lparr>th_previous := (if \<not> opt_leading opts then 0 else now), th_timeout := None\<rparr>)"

definition throttled ::
    "realm \<Rightarrow> jsval \<Rightarrow> int \<Rightarrow> throttle_options \<Rightarrow> int \<Rightarrow> jsval \<Rightarrow> jsval list \<Rightarrow> throttle_state \<Rightarrow> throttle_state" where
  "throttled r func wait opts now this args st =
     (let previous = (if th_previous st = 0 \<and> \<not> opt_leading opts then now else th_previous st);
          remaining = wait - (now - previous);
          st1 = st\<lparr>th_previous := previous, th_pending := Some (this, args)\<rparr>
      in if remaining \<le> 0 \<or> wait < remaining
         then throttle_invoke r func now (st1\<lparr>th_timeout := None, th_previous := now\<rparr>)
         else if th_timeout st1 = None \<and> opt_trailing opts
         then st1\<lparr>th_timeout := Some (now + remaining)\<rparr>
         else st1)"

definition throttle_cancel :: "throttle_state \<Rightarrow> throttle_state" where
  "throttle_cancel st = st\<lparr>th_timeout := None, th_previous := 0, th_pending := None\<rparr>"

section \<open>Debouncing\<close>

record debounce_state =
  db_timeout :: "int option"
  db_pending :: "(jsval \<times> jsval list) option"
  db_previous :: int
  db_result :: jsval
  db_calls :: "call list"

definition debounce_start :: debounce_state where
  "debounce_start = \<lparr>db_timeout = None, db_pending = None, db_previous = 0, db_result = Undefined,
     db_calls = []\<rparr>"

definition debounce_invoke :: "realm \<Rightarrow> jsval \<Rightarrow> int \<Rightarrow> debounce_state \<Rightarrow> debounce_state" where
  "debounce_invoke r func now st =
     (let (this, args) = (case db_pending st of None \<Rightarrow> (Null, []) | Some p \<Rightarrow> p)
      in st\<lparr>db_result := apply_fn r func this args, db_calls := db_calls st @ [Call now this args]\<rparr>)"

definition debounce_later ::
    "realm \<Rightarrow> jsval \<Rightarrow> int \<Rightarrow> bool \<Rightarrow> int \<Rightarrow> debounce_state \<Rightarrow> debounce_state" where
  "debounce_later r func wait immediate now st =
     (let passed = now - db_previous st in
      if passed < wait then st\<lparr>db_timeout := Some (now + (wait - passed))\<rparr>
      else (let st1 = st\<lparr>db_timeout := None\<rparr>;
                st2 = (if \<not> immediate then debounce_invoke r func now st1 else st1)
            in st2\<lparr>db_pending := None\<rparr>))"

definition debounced ::
    "realm \<Rightarrow> jsval \<Rightarrow> int \<Rightarrow> bool \<Rightarrow> int \<Rightarrow> jsval \<Rightarrow> jsval list \<Rightarrow> debounce_state \<Rightarrow> debounce_state" where
  "debounced r func wait immediate now this args st =
     (let st1 = st\<lparr>db_pending := Some (this, args), db_previous := now\<rparr> in
      if db_timeout st1 = None
      then (let st2 = st1\<lparr>db_timeout := Some (now + wait)\<rparr>
            in if immediate then debounce_invoke r func now st2 else st2)
      else st1)"

definition debounce_cancel :: "debounce_state \<Rightarrow> debounce_state" where
  "debounce_cancel st = st\<lparr>db_timeout := None, db_pending := None\<rparr>"

section \<open>Delays and counters\<close>

text \<open>\<open>setTimeout\<close>: when the call is due, and the call.\<close>

definition delay :: "int \<Rightarrow> int \<Rightarrow> jsval list \<Rightarrow> call" where
  "delay now wait args = Call (now + wait) Null args"

definition defer_js :: "int \<Rightarrow> jsval list \<Rightarrow> call" where
  "defer_js now args = delay now 1 args"

definition wrap ::
    "realm \<Rightarrow> nat \<Rightarrow> jsval \<Rightarrow> jsval \<Rightarrow> jsval \<Rightarrow> bool \<Rightarrow> jsval \<Rightarrow> jsval list \<Rightarrow> jsval \<times> realm" where
  "wrap r fresh placeholder func wrapper = partial_js r fresh placeholder wrapper [func]"

text \<open>\<open>compose(f, g, h)\<close>: the last function gets the arguments, every other one the result so
  far.\<close>

definition compose :: "realm \<Rightarrow> jsval list \<Rightarrow> jsval \<Rightarrow> jsval list \<Rightarrow> jsval" where
  "compose r fs this args =
     foldr (\<lambda>f result. apply_fn r f this [result]) (butlast fs) (apply_fn r (last fs) this args)"

text \<open>\<open>after\<close> and \<open>before\<close> keep the number of calls that are left; \<open>before\<close> keeps the last
  result as well.\<close>

definition after_js ::
    "realm \<Rightarrow> jsval \<Rightarrow> jsval \<Rightarrow> jsval list \<Rightarrow> int \<Rightarrow> jsval \<times> int" where
  "after_js r func this args left =
     (let t = left - 1 in (if t < 1 then apply_fn r func this args else Undefined, t))"

definition before_js ::
    "realm \<Rightarrow> jsval \<Rightarrow> jsval \<Rightarrow> jsval list \<Rightarrow> int \<times> jsval \<Rightarrow> jsval \<times> int \<times> jsval" where
  "before_js r func this args st =
     (case st of
        (left, memo) \<Rightarrow>
          (let t = left - 1; m = (if 0 < t then apply_fn r func this args else memo) in (m, t, m)))"

definition once_start :: "int \<times> jsval" where
  "once_start = (2, Undefined)"

definition once_js :: "realm \<Rightarrow> jsval \<Rightarrow> jsval \<Rightarrow> jsval list \<Rightarrow> int \<times> jsval \<Rightarrow> jsval \<times> int \<times> jsval" where
  "once_js r func = before_js r func"

end
