(* ===== verification/Doctools.thy ===== *)
theory Doctools
  imports Sphinx_Search Underscore_Functions
begin

text \<open>
  The page utilities of docs/_static/doctools.js: the parameters of an address, the highlighting of
  a text in the page, the browser test, translations, the index table and the navigation keys. The
  page is a tree of elements and texts; an address, a key press or a catalog is an argument.
\<close>

section \<open>Addresses\<close>

definition unreserved :: "char \<Rightarrow> bool" where
  "unreserved c =
     (let n = (of_char c :: nat) in
      48 \<le> n \<and> n \<le> 57 \<or> 65 \<le> n \<and> n \<le> 90 \<or> 97 \<le> n \<and> n \<le> 122 \<or> c \<in> set ''-_.!~*()'' \<or> n = 39)"

definition hex_digit :: "nat \<Rightarrow> char" where
  "hex_digit n = (if n < 10 then char_of (48 + n) else char_of (55 + n))"

definition percent :: "nat \<Rightarrow> string" where
  "percent b = [CHR ''%'', hex_digit (b div 16), hex_digit (b mod 16)]"

definition encode_char :: "char \<Rightarrow> string" where
  "encode_char c =
     (let n = (of_char c :: nat) in
      if unreserved c then [c]
      else if n < 128 then percent n
      else percent (192 + n div 64) @ percent (128 + n mod 64))"

definition urlencode :: "string \<Rightarrow> string" where
  "urlencode s = concat (map encode_char s)"

definition hex_value :: "char \<Rightarrow> nat option" where
  "hex_value c =
     (let n = (of_char c :: nat) in
      if 48 \<le> n \<and> n \<le> 57 then Some (n - 48)
      else if 65 \<le> n \<and> n \<le> 70 then Some (n - 55)
      else if 97 \<le> n \<and> n \<le> 102 then Some (n - 87)
      else None)"

definition read_percent :: "string \<Rightarrow> (nat \<times> string) option" where
  "read_percent s =
     (case s of
        p # x # y # rest \<Rightarrow>
          (case (hex_value x, hex_value y) of
             (Some i, Some j) \<Rightarrow> if p = CHR ''%'' then Some (16 * i + j, rest) else None
           | v \<Rightarrow> None)
      | t \<Rightarrow> None)"

lemma read_percent_shorter: "read_percent s = Some (b, rest) \<Longrightarrow> length rest < length s"
  by (auto simp: read_percent_def split: list.splits option.splits if_splits)

text \<open>\<open>decodeURIComponent\<close>; \<open>None\<close> is a \<open>URIError\<close>. Escapes of code points above 255 are not
  strings of the model.\<close>

function decode_component :: "string \<Rightarrow> string option" where
  "decode_component [] = Some []"
| "decode_component (c # cs) =
     (if c \<noteq> CHR ''%'' then map_option (Cons c) (decode_component cs)
      else case read_percent (c # cs) of
        None \<Rightarrow> None
      | Some (b, rest) \<Rightarrow>
          if b < 128 then map_option (Cons (char_of b)) (decode_component rest)
          else if b = 194 \<or> b = 195 then
            (case read_percent rest of
               None \<Rightarrow> None
             | Some (b', rest') \<Rightarrow>
                 if 128 \<le> b' \<and> b' < 192
                 then map_option (Cons (char_of ((b - 192) * 64 + (b' - 128)))) (decode_component rest')
                 else None)
          else None)"
  by pat_completeness auto
termination
  by (relation "measure length") (auto dest!: read_percent_shorter)

definition plus_to_space :: "string \<Rightarrow> string" where
  "plus_to_space = map (\<lambda>c. if c = CHR ''+'' then CHR '' '' else c)"

text \<open>\<open>None\<close> for \<open>undefined\<close>, which is returned as it is.\<close>

definition urldecode :: "string option \<Rightarrow> string option option" where
  "urldecode x =
     (case x of
        None \<Rightarrow> Some None
      | Some s \<Rightarrow>
          if s = [] then Some (Some [])
          else map_option Some (decode_component (plus_to_space s)))"

text \<open>The parameters read so far; a name the fresh object inherits is found by \<open>in\<close>, and what it
  inherits has no \<open>push\<close>.\<close>

datatype query_error = UriError | PushError string

type_synonym query_params = "(string \<times> string option list) list"

definition add_param :: "string \<Rightarrow> string option \<Rightarrow> query_params \<Rightarrow> query_error + query_params" where
  "add_param key v result =
     (case map_of result key of
        Some vs \<Rightarrow> Inr (put key (vs @ [v]) result)
      | None \<Rightarrow>
          if key \<in> set object_prototype_names then Inl (PushError key)
          else Inr (put key [v] result))"

definition param_parts :: "string \<Rightarrow> string \<times> string option" where
  "param_parts part =
     (case split_on CHR ''='' part of
        k # v # rest \<Rightarrow> (k, Some v)
      | [k] \<Rightarrow> (k, None)
      | [] \<Rightarrow> ([], None))"

fun add_params :: "string list \<Rightarrow> query_params \<Rightarrow> query_error + query_params" where
  "add_params [] result = Inr result"
| "add_params (part # parts) result =
     (let (k, v) = param_parts part in
      case (urldecode (Some k), urldecode v) of
        (Some (Some key), Some val) \<Rightarrow>
          (case add_param key val result of
             Inl e \<Rightarrow> Inl e
           | Inr result' \<Rightarrow> add_params parts result')
      | w \<Rightarrow> Inl UriError)"

definition getQueryParameters :: "string \<Rightarrow> query_error + query_params" where
  "getQueryParameters s =
     (let query = (case find_sub ''?'' s of None \<Rightarrow> s | Some i \<Rightarrow> drop (i + 1) s)
      in add_params (split_on CHR ''&'' query) [])"

section \<open>Highlighting\<close>

text \<open>Elements with their tag and classes, and texts. A highlighted text inside an svg drawing is
  also marked by a rectangle before its parent.\<close>

datatype dom = Text string | Elem string "string list" "dom list"

fun dom_depth :: "dom \<Rightarrow> nat" where
  "dom_depth (Text s) = 0"
| "dom_depth (Elem tag cs ch) = Suc (foldr (\<lambda>n d. max (dom_depth n) d) ch 0)"

definition list_depth :: "dom list \<Rightarrow> nat" where
  "list_depth ns = foldr (\<lambda>n d. max (dom_depth n) d) ns 0"

definition svg_scope :: "string \<Rightarrow> bool \<Rightarrow> bool" where
  "svg_scope tag svg = (if tag = ''svg'' then True else if tag \<in> {''body'', ''foreignObject''} then False else svg)"

definition match_position :: "string \<Rightarrow> string \<Rightarrow> string list \<Rightarrow> string \<Rightarrow> nat option" where
  "match_position text cls parent_classes v =
     (if cls \<in> set parent_classes \<or> ''nohighlight'' \<in> set parent_classes then None
      else find_sub text (to_lower v))"

definition mark_node :: "bool \<Rightarrow> string \<Rightarrow> string \<Rightarrow> dom" where
  "mark_node svg cls v = (if svg then Elem ''tspan'' [] [Text v] else Elem ''span'' [cls] [Text v])"

definition rect_node :: "string \<Rightarrow> dom" where
  "rect_node cls = Elem ''rect'' [cls] []"

text \<open>What the loop does to the new mark when it comes to it: a \<open>span\<close> has the class already, the
  text of a \<open>tspan\<close> is marked once more.\<close>

definition visit_mark :: "bool \<Rightarrow> string \<Rightarrow> string \<Rightarrow> dom list" where
  "visit_mark svg cls v =
     (if svg
      then [rect_node cls, Elem ''tspan'' [] [Text [], mark_node True cls v, Text []]]
      else [mark_node False cls v])"

text \<open>The loop over the children of a node. The number of children is read before the loop and the
  list is live: a mark and the text after it count as children, so that \<open>b\<close> runs out before
  the last children when marks have been inserted. The result is the new children and the number
  of rectangles due before the parent.\<close>

function highlight :: "string \<Rightarrow> string \<Rightarrow> bool \<Rightarrow> string list \<Rightarrow> nat \<Rightarrow> dom list \<Rightarrow> dom list \<times> nat" where
  "highlight text cls svg pcs 0 ns = (ns, 0)"
| "highlight text cls svg pcs (Suc b) [] = ([], 0)"
| "highlight text cls svg pcs (Suc b) (Text v # ns) =
     (case match_position text cls pcs v of
        None \<Rightarrow> (let (ns', k) = highlight text cls svg pcs b ns in (Text v # ns', k))
      | Some p \<Rightarrow>
          (let hit = take (length text) (drop p v);
               after = Text (drop (p + length text) v);
               due = (if svg then 1 else 0)
           in if b = 0 then ([Text (take p v), mark_node svg cls hit, after] @ ns, due)
              else (let (ns', k) = highlight text cls svg pcs (b - 1) (after # ns)
                    in ([Text (take p v)] @ visit_mark svg cls hit @ ns', due + k))))"
| "highlight text cls svg pcs (Suc b) (Elem tag cs ch # ns) =
     (let (ch', k) = (if tag \<in> {''button'', ''select'', ''textarea''} then (ch, 0)
                      else highlight text cls (svg_scope tag svg) cs (length ch) ch);
          (ns', k') = highlight text cls svg pcs b ns
      in (replicate k (rect_node cls) @ [Elem tag cs ch'] @ ns', k'))"
  by pat_completeness auto
termination
  by (relation "measures [\<lambda>(text, cls, svg, pcs, b, ns). list_depth ns, \<lambda>(text, cls, svg, pcs, b, ns). b]")
    (auto simp: list_depth_def less_max_iff_disj)

definition highlightText :: "string \<Rightarrow> string \<Rightarrow> dom list \<Rightarrow> dom list" where
  "highlightText text cls roots =
     concat (map (\<lambda>root. fst (highlight text cls False [] 1 [root])) roots)"

fun text_content :: "dom \<Rightarrow> string" where
  "text_content (Text s) = s"
| "text_content (Elem tag cs ch) = concat (map text_content ch)"

text \<open>\<open>hideSearchWords\<close> takes the class off the marks.\<close>

fun hide_marks :: "dom \<Rightarrow> dom" where
  "hide_marks (Text s) = Text s"
| "hide_marks (Elem tag cs ch) =
     Elem tag (if tag = ''span'' then filter (\<lambda>c. c \<noteq> ''highlighted'') cs else cs) (map hide_marks ch)"

text \<open>\<open>split\<close> at runs of white space, and the terms the page highlights when it is loaded.\<close>

fun split_space :: "string \<Rightarrow> string list" where
  "split_space [] = [[]]"
| "split_space (c # cs) =
     (if white_space c then
        (case cs of
           d # ds \<Rightarrow> if white_space d then split_space cs else [] # split_space cs
         | [] \<Rightarrow> [[], []])
      else (case split_space cs of [] \<Rightarrow> [[c]] | w # ws \<Rightarrow> (c # w) # ws))"

definition highlight_terms :: "query_params \<Rightarrow> string list" where
  "highlight_terms params =
     (case map_of params ''highlight'' of
        Some (Some t # ts) \<Rightarrow> split_space t
      | v \<Rightarrow> [])"

definition highlightSearchWords :: "query_params \<Rightarrow> dom list \<Rightarrow> dom list" where
  "highlightSearchWords params body =
     fold (\<lambda>t. highlightText (to_lower t) ''highlighted'') (highlight_terms params) body"

section \<open>The browser\<close>

definition word_char :: "char \<Rightarrow> bool" where
  "word_char c =
     (let n = (of_char c :: nat) in
      48 \<le> n \<and> n \<le> 57 \<or> 65 \<le> n \<and> n \<le> 90 \<or> 97 \<le> n \<and> n \<le> 122 \<or> c = CHR ''_'' \<or> c = CHR ''.'')"

text \<open>A separator and then a version; \<open>None\<close> when the text does not start so.\<close>

definition version_after :: "char list \<Rightarrow> string \<Rightarrow> string option" where
  "version_after seps s =
     (case s of
        c # cs \<Rightarrow> (let v = takeWhile word_char cs in if c \<in> set seps \<and> v \<noteq> [] then Some v else None)
      | [] \<Rightarrow> None)"

fun first_some :: "'a option list \<Rightarrow> 'a option" where
  "first_some [] = None"
| "first_some (None # xs) = first_some xs"
| "first_some (Some x # xs) = Some x"

text \<open>A name at some position, the first one at which the rest of the pattern matches.\<close>

definition browser_at :: "string \<Rightarrow> (string \<Rightarrow> 'a option) \<Rightarrow> string \<Rightarrow> 'a option" where
  "browser_at name rest ua =
     first_some (map (\<lambda>i. if starts_with name (drop i ua) then rest (drop (i + length name) ua) else None)
       [0..<length ua])"

text \<open>\<open>(?:.*version|)[ /]([\w.]+)\<close>: the last \<open>version\<close> that fits, else directly.\<close>

definition opera_version :: "string \<Rightarrow> string option" where
  "opera_version s =
     first_some
       (map (\<lambda>i. if starts_with ''version'' (drop i s) then version_after '' /'' (drop (i + 7) s) else None)
          (rev [0..<length s]) @ [version_after '' /'' s])"

text \<open>\<open>(?:.*? rv:([\w.]+)|)\<close>: the first \<open>rv:\<close> with a version, else no version.\<close>

definition mozilla_version :: "string \<Rightarrow> string option option" where
  "mozilla_version s =
     Some (first_some
       (map (\<lambda>i. if starts_with '' rv:'' (drop i s)
                 then (let v = takeWhile word_char (drop (i + 4) s) in if v = [] then None else Some v)
                 else None) [0..<length s]))"

definition uaMatch :: "string \<Rightarrow> string \<times> string" where
  "uaMatch agent =
     (let ua = to_lower agent in
      case first_some
        [map_option (Pair ''chrome'') (browser_at ''chrome'' (version_after '' /'') ua),
         map_option (Pair ''webkit'') (browser_at ''webkit'' (version_after '' /'') ua),
         map_option (Pair ''opera'') (browser_at ''opera'' opera_version ua),
         map_option (Pair ''msie'') (browser_at ''msie'' (version_after '' '') ua),
         (if \<not> has_sub ''compatible'' ua
          then map_option (\<lambda>v. (''mozilla'', case v of None \<Rightarrow> ''0'' | Some w \<Rightarrow> w))
                 (browser_at ''mozilla'' mozilla_version ua)
          else None)] of
        None \<Rightarrow> ([], ''0'')
      | Some bv \<Rightarrow> bv)"

section \<open>Translations\<close>

datatype translation = Single string | Plurals "string list"

record documentation =
  doc_translations :: "(string \<times> translation) list"
  doc_plural_expr :: "nat \<Rightarrow> nat"
  doc_locale :: string

record catalog =
  cat_messages :: "(string \<times> translation) list"
  cat_plural_expr :: "nat \<Rightarrow> nat"
  cat_locale :: string

definition doc_start :: documentation where
  "doc_start = \<lparr>doc_translations = [], doc_plural_expr = (\<lambda>n. if n = 1 then 0 else 1),
     doc_locale = ''unknown''\<rparr>"

text \<open>\<open>None\<close> for the first form of a translation without forms.\<close>

definition gettext :: "documentation \<Rightarrow> string \<Rightarrow> string option" where
  "gettext d s =
     (case map_of (doc_translations d) s of
        None \<Rightarrow> Some s
      | Some (Single t) \<Rightarrow> Some t
      | Some (Plurals ts) \<Rightarrow> (case ts of [] \<Rightarrow> None | t # ts' \<Rightarrow> Some t))"

text \<open>The property is called \<open>PLURAL_EXPR\<close>; the code calls \<open>PLURALEXPR\<close>, which is
  \<open>undefined\<close>.\<close>

definition ngettext :: "documentation \<Rightarrow> string \<Rightarrow> string \<Rightarrow> nat \<Rightarrow> js_error + string" where
  "ngettext d singular plural n =
     (case map_of (doc_translations d) singular of
        None \<Rightarrow> Inr (if n = 1 then singular else plural)
      | Some translated \<Rightarrow> Inl (TypeError ''Documentation.PLURALEXPR is not a function''))"

definition addTranslations :: "catalog \<Rightarrow> documentation \<Rightarrow> documentation" where
  "addTranslations cat d =
     \<lparr>doc_translations = put_all (cat_messages cat) (doc_translations d),
      doc_plural_expr = cat_plural_expr cat, doc_locale = cat_locale cat\<rparr>"

section \<open>Toggles, addresses and keys\<close>

definition fixFirefoxAnchorBug :: "string \<Rightarrow> string \<Rightarrow> bool" where
  "fixFirefoxAnchorBug location_hash browser = (location_hash \<noteq> [] \<and> browser = ''mozilla'')"

text \<open>A toggler: its image and whether its rows are shown.\<close>

definition toggle_index :: "string \<times> bool \<Rightarrow> string \<times> bool" where
  "toggle_index st =
     (let (src, shown) = st in
      (if drop (length src - 9) src = ''minus.png'' then take (length src - 9) src @ ''plus.png''
       else take (length src - 8) src @ ''minus.png'', \<not> shown))"

definition initIndexTable :: "bool \<Rightarrow> (string \<times> bool) list \<Rightarrow> (string \<times> bool) list" where
  "initIndexTable collapse togglers = (if collapse then map toggle_index togglers else togglers)"

definition makeURL :: "string \<Rightarrow> string \<Rightarrow> string" where
  "makeURL url_root relativeURL = url_root @ ''/'' @ relativeURL"

text \<open>\<open>this\<close> in the callback is a string object, which is not identical to the string \<open>..\<close>:
  the test of the loop is between a reference and a string.\<close>

definition is_up :: "nat \<Rightarrow> string \<Rightarrow> bool" where
  "is_up boxed part = strict_eq (Ref boxed) (Str part)"

definition getCurrentURL :: "string \<Rightarrow> string \<Rightarrow> string" where
  "getCurrentURL url_root path =
     (let parts = fold (\<lambda>part parts. if is_up 0 ''..'' then butlast parts else parts)
                    (split_on CHR ''/'' url_root) (split_on CHR ''/'' path);
          url = join_with CHR ''/'' parts;
          start = (case last_index_of CHR ''/'' url of None \<Rightarrow> 0 | Some i \<Rightarrow> i + 1)
      in drop (min start (length path - 1)) (take (max start (length path - 1)) path))"

record key_event =
  ev_code :: nat
  ev_modified :: bool
  ev_active :: string

text \<open>Where a key press takes the page; \<open>None\<close>: it is left to the browser. The case of the left
  key has no \<open>break\<close>.\<close>

definition key_navigation :: "string option \<Rightarrow> string option \<Rightarrow> key_event \<Rightarrow> string option" where
  "key_navigation prevHref nextHref e =
     (if ev_active e \<in> {''TEXTAREA'', ''INPUT'', ''SELECT'', ''BUTTON''} \<or> ev_modified e then None
      else if ev_code e = 37 then (case prevHref of Some p \<Rightarrow> Some p | None \<Rightarrow> nextHref)
      else if ev_code e = 39 then nextHref
      else None)"

end
