(* ===== verification/Jq_Strings.thy ===== *)
theory Jq_Strings
  imports Split_Query
begin

text \<open>
  The string helpers of docs/_static/jquery-3.5.1.js: the words of a string between HTML white
  space, their normal spacing, and camel case. A search of a global regular expression for runs
  of characters is the list of the maximal runs.
\<close>

section \<open>Words between HTML white space\<close>

definition html_white :: "char \<Rightarrow> bool" where
  "html_white c = ((of_char c :: nat) \<in> {0x20, 0x09, 0x0D, 0x0A, 0x0C})"

text \<open>\<open>s.match(rnothtmlwhite) || []\<close>\<close>

definition html_words :: "string \<Rightarrow> string list" where
  "html_words = runs html_white"

text \<open>\<open>words.join(" ")\<close>\<close>

fun join_space :: "string list \<Rightarrow> string" where
  "join_space [] = []"
| "join_space [w] = w"
| "join_space (w # v # ws) = w @ CHR '' '' # join_space (v # ws)"

definition stripAndCollapse :: "string \<Rightarrow> string" where
  "stripAndCollapse s = join_space (html_words s)"

section \<open>Camel case\<close>

definition lower_letter :: "char \<Rightarrow> bool" where
  "lower_letter c = (let n = (of_char c :: nat) in 97 \<le> n \<and> n \<le> 122)"

definition fcamelCase :: "char \<Rightarrow> char" where
  "fcamelCase c = char_of ((of_char c :: nat) - 32)"

text \<open>\<open>s.replace(rdashAlpha, fcamelCase)\<close>\<close>

fun hump :: "string \<Rightarrow> string" where
  "hump [] = []"
| "hump [c] = [c]"
| "hump (c # d # s) =
     (if c = CHR ''-'' \<and> lower_letter d then fcamelCase d # hump s else c # hump (d # s))"

definition camelCase :: "string \<Rightarrow> string" where
  "camelCase s = hump (if take 4 s = ''-ms-'' then drop 1 s else s)"

section \<open>Laws\<close>

definition word :: "string \<Rightarrow> bool" where
  "word w \<longleftrightarrow> w \<noteq> [] \<and> (\<forall>c \<in> set w. \<not> html_white c)"

lemma html_words_words: "w \<in> set (html_words s) \<Longrightarrow> word w"
  using runs_letters [of html_white s] by (auto simp: html_words_def word_def)

lemma white_space_char [simp]: "html_white CHR '' ''"
  by (simp add: html_white_def)

lemma runs_append_sep:
  "is_sep d \<Longrightarrow> runs is_sep (w @ d # s) = runs is_sep w @ runs is_sep s"
proof (induction w)
  case (Cons c w)
  show ?case
  proof (cases w)
    case Nil
    then show ?thesis using Cons.prems by simp
  next
    case w: (Cons e v)
    show ?thesis
    proof (cases "is_sep c \<or> is_sep e")
      case True
      then show ?thesis using Cons w by auto
    next
      case False
      then have "runs is_sep (e # v) \<noteq> []" using runs_word_not_Nil [of is_sep e v] by blast
      then obtain x xs where x: "runs is_sep (e # v) = x # xs" by (cases "runs is_sep (e # v)") auto
      then have "runs is_sep (e # v @ d # s) = x # xs @ runs is_sep s" using Cons w by simp
      then show ?thesis using x False w by (simp del: runs.simps add: runs.simps(2) [of _ c])
    qed
  qed
qed simp

lemma runs_word: "w \<noteq> [] \<Longrightarrow> \<forall>c \<in> set w. \<not> is_sep c \<Longrightarrow> runs is_sep w = [w]"
proof (induction w)
  case (Cons c w)
  then show ?case by (cases w) (auto split: list.splits)
qed simp

lemma html_words_Nil [simp]: "html_words [] = []"
  by (simp add: html_words_def)

lemma html_words_word: "word w \<Longrightarrow> html_words w = [w]"
  by (simp add: html_words_def word_def runs_word)

lemma html_words_space: "html_words (w @ CHR '' '' # s) = html_words w @ html_words s"
  by (simp add: html_words_def runs_append_sep)

text \<open>Words are read back from their joined string.\<close>

lemma html_words_join: "\<forall>w \<in> set ws. word w \<Longrightarrow> html_words (join_space ws) = ws"
  by (induction ws rule: join_space.induct) (simp_all add: html_words_word html_words_space)

lemma html_words_strip [simp]: "html_words (stripAndCollapse s) = html_words s"
  by (simp add: stripAndCollapse_def html_words_join html_words_words)

lemma strip_strip [simp]: "stripAndCollapse (stripAndCollapse s) = stripAndCollapse s"
  by (simp add: stripAndCollapse_def html_words_join html_words_words)

text \<open>Where a word of a string stands.\<close>

lemma runs_first: "\<not> is_sep c \<Longrightarrow> runs is_sep (c # cs) =
    (c # takeWhile (\<lambda>x. \<not> is_sep x) cs) # runs is_sep (dropWhile (\<lambda>x. \<not> is_sep x) cs)"
proof (induction cs arbitrary: c)
  case (Cons d ds)
  then show ?case by (cases "is_sep d") auto
qed simp

lemma runs_occurs:
  assumes "w \<in> set (runs is_sep s)"
  shows "\<exists>x y. s = x @ w @ y \<and> (x = [] \<or> is_sep (last x)) \<and> (y = [] \<or> is_sep (hd y))"
  using assms
proof (induction "length s" arbitrary: s rule: less_induct)
  case less
  show ?case
  proof (cases s)
    case Nil
    then show ?thesis using less.prems by simp
  next
    case s: (Cons c cs)
    show ?thesis
    proof (cases "is_sep c")
      case True
      then have "w \<in> set (runs is_sep cs)" using less.prems s by simp
      moreover have "length cs < length s" using s by simp
      ultimately obtain x y where "cs = x @ w @ y" "x = [] \<or> is_sep (last x)" "y = [] \<or> is_sep (hd y)"
        using less.hyps by blast
      then show ?thesis using s True by (intro exI [of _ "c # x"] exI [of _ y]) auto
    next
      case False
      define r where "r = dropWhile (\<lambda>x. \<not> is_sep x) cs"
      define v where "v = c # takeWhile (\<lambda>x. \<not> is_sep x) cs"
      have vr: "s = v @ r" using s by (simp add: v_def r_def)
      have r: "r = [] \<or> is_sep (hd r)" using hd_dropWhile [of "\<lambda>x. \<not> is_sep x" cs] by (auto simp: r_def)
      have "w = v \<or> w \<in> set (runs is_sep r)"
        using less.prems s runs_first [of is_sep c cs] False by (simp add: v_def r_def del: runs.simps)
      then show ?thesis
      proof
        assume "w = v"
        then show ?thesis using vr r by (intro exI [of _ "[]"] exI [of _ r]) simp
      next
        assume w: "w \<in> set (runs is_sep r)"
        moreover have "length r < length s" using vr by (simp add: v_def)
        ultimately obtain x y where xy: "r = x @ w @ y" "x = [] \<or> is_sep (last x)" "y = [] \<or> is_sep (hd y)"
          using less.hyps by blast
        have "w \<noteq> []" "\<not> is_sep (hd w)" using runs_letters [of is_sep r] w by auto
        then have "x \<noteq> []" using xy(1) r by auto
        then show ?thesis using vr xy by (intro exI [of _ "v @ x"] exI [of _ y]) auto
      qed
    qed
  qed
qed

text \<open>No dash before a lower case letter is left.\<close>

fun no_hump :: "string \<Rightarrow> bool" where
  "no_hump (c # d # s) = (\<not> (c = CHR ''-'' \<and> lower_letter d) \<and> no_hump (d # s))"
| "no_hump _ = True"

lemma hump_id: "no_hump s \<Longrightarrow> hump s = s"
  by (induction s rule: hump.induct) auto

lemma fcamelCase_not_dash:
  assumes "lower_letter d"
  shows "fcamelCase d \<noteq> CHR ''-''" "\<not> lower_letter (fcamelCase d)"
proof -
  define n where "n = (of_char d :: nat)"
  have n: "97 \<le> n" "n \<le> 122" using assms by (simp_all add: lower_letter_def n_def Let_def)
  have v: "(of_char (fcamelCase d) :: nat) = n - 32"
    using n by (simp add: fcamelCase_def n_def [symmetric])
  show "\<not> lower_letter (fcamelCase d)" using v n by (simp add: lower_letter_def Let_def)
  have "(of_char CHR ''-'' :: nat) = 45" by simp
  then have "fcamelCase d = CHR ''-'' \<Longrightarrow> n - 32 = 45" using v by simp
  then show "fcamelCase d \<noteq> CHR ''-''" using n by linarith
qed

lemma hump_Cons: "hump (c # s) = c # tl (hump (c # s)) \<or> \<not> lower_letter (hd (hump (c # s)))"
  by (cases s) (simp_all add: fcamelCase_not_dash)

lemma hump_not_Nil: "hump (c # s) \<noteq> []"
  by (cases s) simp_all

lemma no_hump_Cons: "no_hump t \<Longrightarrow> (t \<noteq> [] \<Longrightarrow> \<not> (c = CHR ''-'' \<and> lower_letter (hd t))) \<Longrightarrow> no_hump (c # t)"
  by (cases t) simp_all

lemma no_hump_hump: "no_hump (hump s)"
proof (induction s rule: hump.induct)
  case (3 c d s)
  show ?case
  proof (cases "c = CHR ''-'' \<and> lower_letter d")
    case True
    then show ?thesis using 3 fcamelCase_not_dash by (simp add: no_hump_Cons)
  next
    case False
    then have "\<not> (c = CHR ''-'' \<and> lower_letter (hd (hump (d # s))))"
      using hump_Cons [of d s] by (metis list.sel(1))
    moreover have h: "hump (c # d # s) = c # hump (d # s)" using False by auto
    ultimately show ?thesis unfolding h using 3(2) [OF False] by (intro no_hump_Cons) blast+
  qed
qed simp_all

lemma no_hump_prefix: "no_hump s \<Longrightarrow> take 4 s \<noteq> ''-ms-''"
proof
  assume s: "no_hump s" and t: "take 4 s = ''-ms-''"
  then obtain r where "s = ''-ms-'' @ r" by (metis append_take_drop_id)
  then have "\<not> lower_letter CHR ''m''" using s by simp
  then show False by (simp add: lower_letter_def)
qed

lemma camelCase_idem: "camelCase (camelCase s) = camelCase s"
  using no_hump_prefix [OF no_hump_hump] hump_id [OF no_hump_hump] by (simp add: camelCase_def)

end
