(* ===== verification/Jq_Callbacks.thy ===== *)
theory Jq_Callbacks
  imports Jq_Strings
begin

text \<open>
  The callback lists of docs/_static/jquery-3.5.1.js: \<open>jQuery.Callbacks\<close>. A program holds a
  table of lists; a callback, when it is called, runs any sequence of actions on any of them
  (adding, removing, firing, the list that calls it included) and then returns or throws. The
  machine below executes such programs with fuel: firing may go on for ever, when a callback
  fires its own list again.
\<close>

section \<open>Options and the state of a list\<close>

record flags =
  opt_once :: bool
  opt_memory :: bool
  opt_unique :: bool
  opt_stop :: bool

definition createOptions :: "string \<Rightarrow> flags" where
  "createOptions options =
     (let ws = html_words options in
      \<lparr>opt_once = ''once'' \<in> set ws, opt_memory = ''memory'' \<in> set ws,
       opt_unique = ''unique'' \<in> set ws, opt_stop = ''stopOnFalse'' \<in> set ws\<rparr>)"

text \<open>\<open>cb_list\<close> is \<open>None\<close> for the empty string of a spent list, \<open>cb_memory\<close> is \<open>None\<close> for
  \<open>undefined\<close>, \<open>false\<close> and the empty string. A value is the pair of a context and arguments.\<close>

record ('f, 'v) callbacks =
  cb_flags :: flags
  cb_firing :: bool
  cb_memory :: "'v option"
  cb_fired :: bool
  cb_locked :: bool
  cb_list :: "'f list option"
  cb_queue :: "'v list"
  cb_index :: int

definition new_callbacks :: "string \<Rightarrow> ('f, 'v) callbacks" where
  "new_callbacks options =
     \<lparr>cb_flags = createOptions options, cb_firing = False, cb_memory = None, cb_fired = False,
      cb_locked = False, cb_list = Some [], cb_queue = [], cb_index = -1\<rparr>"

section \<open>Operations that call nothing\<close>

text \<open>An argument of \<open>add\<close>: a function, a collection to inspect, or anything else.\<close>

datatype 'f fn_arg = Fn 'f | Fns "'f fn_arg list" | NoFn

fun fns_of :: "'f fn_arg \<Rightarrow> 'f list" where
  "fns_of (Fn f) = [f]"
| "fns_of (Fns args) = concat (map fns_of args)"
| "fns_of NoFn = []"

fun cb_has :: "'f option \<Rightarrow> ('f, 'v) callbacks \<Rightarrow> bool" where
  "cb_has (Some f) c = (case cb_list c of None \<Rightarrow> False | Some fs \<Rightarrow> f \<in> set fs)"
| "cb_has None c = (case cb_list c of None \<Rightarrow> False | Some fs \<Rightarrow> fs \<noteq> [])"

definition push_fn :: "'f \<Rightarrow> ('f, 'v) callbacks \<Rightarrow> ('f, 'v) callbacks" where
  "push_fn f c =
     (if opt_unique (cb_flags c) \<and> cb_has (Some f) c then c
      else c\<lparr>cb_list := map_option (\<lambda>fs. fs @ [f]) (cb_list c)\<rparr>)"

definition push_args :: "'f fn_arg list \<Rightarrow> ('f, 'v) callbacks \<Rightarrow> ('f, 'v) callbacks" where
  "push_args args = fold push_fn (fns_of (Fns args))"

text \<open>\<open>jQuery.inArray(f, list, i)\<close>\<close>

definition index_from :: "'f \<Rightarrow> 'f list \<Rightarrow> nat \<Rightarrow> nat option" where
  "index_from f fs i = List.find (\<lambda>j. fs ! j = f) [i..<length fs]"

lemma index_from_bound: "index_from f fs i = Some j \<Longrightarrow> i \<le> j \<and> j < length fs"
  by (auto simp: index_from_def find_Some_iff)

text \<open>The loop of \<open>remove\<close> for one function, from an index on.\<close>

function remove_from :: "'f \<Rightarrow> nat \<Rightarrow> ('f, 'v) callbacks \<Rightarrow> ('f, 'v) callbacks" where
  "remove_from f i c =
     (case cb_list c of
        None \<Rightarrow> c
      | Some fs \<Rightarrow>
          (case index_from f fs i of
             None \<Rightarrow> c
           | Some j \<Rightarrow>
               remove_from f j
                 (c\<lparr>cb_list := Some (take j fs @ drop (Suc j) fs),
                    cb_index := (if int j \<le> cb_index c then cb_index c - 1 else cb_index c)\<rparr>)))"
  by pat_completeness auto

termination
  by (relation "measure (\<lambda>(f, i, c). case cb_list c of None \<Rightarrow> 0 | Some fs \<Rightarrow> length fs)")
    (auto dest: index_from_bound)

declare remove_from.simps [simp del]

definition cb_remove :: "'f list \<Rightarrow> ('f, 'v) callbacks \<Rightarrow> ('f, 'v) callbacks" where
  "cb_remove fs = fold (\<lambda>f. remove_from f 0) fs"

definition cb_empty :: "('f, 'v) callbacks \<Rightarrow> ('f, 'v) callbacks" where
  "cb_empty c = c\<lparr>cb_list := map_option (\<lambda>fs. []) (cb_list c)\<rparr>"

definition cb_disable :: "('f, 'v) callbacks \<Rightarrow> ('f, 'v) callbacks" where
  "cb_disable c = c\<lparr>cb_locked := True, cb_queue := [], cb_list := None, cb_memory := None\<rparr>"

definition cb_disabled :: "('f, 'v) callbacks \<Rightarrow> bool" where
  "cb_disabled c = (cb_list c = None)"

definition cb_lock :: "('f, 'v) callbacks \<Rightarrow> ('f, 'v) callbacks" where
  "cb_lock c =
     (let c = c\<lparr>cb_locked := True, cb_queue := []\<rparr> in
      if cb_memory c = None \<and> \<not> cb_firing c then c\<lparr>cb_list := None, cb_memory := None\<rparr> else c)"

section \<open>The machine\<close>

datatype ('l, 'f, 'v) cb_action =
    Add 'l "'f fn_arg list"
  | Remove 'l "'f list"
  | Empty 'l
  | Disable 'l
  | Lock 'l
  | FireWith 'l 'v

datatype ending = Returns bool | Throws

text \<open>\<open>Returns True\<close> is the return of \<open>false\<close>. The machine records which callback of which list
  was called with what.\<close>

record ('l, 'f, 'v, 'w) machine =
  m_lists :: "'l \<Rightarrow> ('f, 'v) callbacks"
  m_world :: 'w
  m_calls :: "('l \<times> 'f \<times> 'v option) list"

type_synonym ('l, 'f, 'v, 'w) script =
  "'f \<Rightarrow> 'v option \<Rightarrow> 'w \<Rightarrow> 'w \<times> ('l, 'f, 'v) cb_action list \<times> ending"

definition on_list :: "'l \<Rightarrow> (('f, 'v) callbacks \<Rightarrow> ('f, 'v) callbacks) \<Rightarrow>
    ('l, 'f, 'v, 'w) machine \<Rightarrow> ('l, 'f, 'v, 'w) machine" where
  "on_list l g m = m\<lparr>m_lists := (m_lists m)(l := g (m_lists m l))\<rparr>"

text \<open>The first and the last part of \<open>fire\<close>.\<close>

definition start_fire :: "('f, 'v) callbacks \<Rightarrow> ('f, 'v) callbacks" where
  "start_fire c = c\<lparr>cb_locked := cb_locked c \<or> opt_once (cb_flags c), cb_fired := True, cb_firing := True\<rparr>"

definition finish_fire :: "('f, 'v) callbacks \<Rightarrow> ('f, 'v) callbacks" where
  "finish_fire c =
     (let memory = (if opt_memory (cb_flags c) then cb_memory c else None) in
      c\<lparr>cb_memory := memory, cb_firing := False,
        cb_list := (if cb_locked c then (if memory \<noteq> None then Some [] else None) else cb_list c)\<rparr>)"

text \<open>\<open>memory = queue.shift()\<close>, and the start of the inner loop's next round.\<close>

definition shift_queue :: "('f, 'v) callbacks \<Rightarrow> ('f, 'v) callbacks" where
  "shift_queue c = c\<lparr>cb_memory := Some (hd (cb_queue c)), cb_queue := tl (cb_queue c)\<rparr>"

definition list_size :: "('f, 'v) callbacks \<Rightarrow> nat" where
  "list_size c = (case cb_list c of None \<Rightarrow> 0 | Some fs \<Rightarrow> length fs)"

definition next_index :: "('f, 'v) callbacks \<Rightarrow> ('f, 'v) callbacks" where
  "next_index c = c\<lparr>cb_index := cb_index c + 1\<rparr>"

definition reset_index :: "('f, 'v) callbacks \<Rightarrow> ('f, 'v) callbacks" where
  "reset_index c = c\<lparr>cb_index := -1\<rparr>"

definition current_fn :: "('f, 'v) callbacks \<Rightarrow> 'f option" where
  "current_fn c =
     (case cb_list c of
        None \<Rightarrow> None
      | Some fs \<Rightarrow> if 0 \<le> cb_index c \<and> cb_index c < int (length fs) then Some (fs ! nat (cb_index c)) else None)"

definition stop_firing :: "('f, 'v) callbacks \<Rightarrow> ('f, 'v) callbacks" where
  "stop_firing c = c\<lparr>cb_index := int (list_size c), cb_memory := None\<rparr>"

text \<open>\<open>add\<close> before its call of \<open>fire\<close>, and whether it calls it.\<close>

definition add_args :: "'f fn_arg list \<Rightarrow> ('f, 'v) callbacks \<Rightarrow> ('f, 'v) callbacks" where
  "add_args args c =
     (case cb_list c of
        None \<Rightarrow> c
      | Some fs \<Rightarrow>
          push_args args
            (case cb_memory c of
               Some v \<Rightarrow>
                 if cb_firing c then c
                 else c\<lparr>cb_index := int (length fs) - 1, cb_queue := cb_queue c @ [v]\<rparr>
             | None \<Rightarrow> c))"

definition add_fires :: "('f, 'v) callbacks \<Rightarrow> bool" where
  "add_fires c \<longleftrightarrow> cb_list c \<noteq> None \<and> cb_memory c \<noteq> None \<and> \<not> cb_firing c"

text \<open>\<open>fireWith\<close> before its call of \<open>fire\<close>, and whether it calls it.\<close>

definition queue_value :: "'v \<Rightarrow> ('f, 'v) callbacks \<Rightarrow> ('f, 'v) callbacks" where
  "queue_value v c = (if cb_locked c then c else c\<lparr>cb_queue := cb_queue c @ [v]\<rparr>)"

definition fire_fires :: "('f, 'v) callbacks \<Rightarrow> bool" where
  "fire_fires c \<longleftrightarrow> \<not> cb_locked c \<and> \<not> cb_firing c"

text \<open>The machine: a sequence of actions, one action, the outer loop of \<open>fire\<close> and its inner
  loop. The result is \<open>None\<close> when the fuel is used up, else the machine and whether an exception
  was thrown (which leaves every function on the way, \<open>firing\<close> still set).\<close>

fun exec :: "nat \<Rightarrow> ('l, 'f, 'v, 'w) script \<Rightarrow> ('l, 'f, 'v) cb_action list \<Rightarrow>
    ('l, 'f, 'v, 'w) machine \<Rightarrow> (('l, 'f, 'v, 'w) machine \<times> bool) option"
and act :: "nat \<Rightarrow> ('l, 'f, 'v, 'w) script \<Rightarrow> ('l, 'f, 'v) cb_action \<Rightarrow>
    ('l, 'f, 'v, 'w) machine \<Rightarrow> (('l, 'f, 'v, 'w) machine \<times> bool) option"
and fire_outer :: "nat \<Rightarrow> ('l, 'f, 'v, 'w) script \<Rightarrow> 'l \<Rightarrow>
    ('l, 'f, 'v, 'w) machine \<Rightarrow> (('l, 'f, 'v, 'w) machine \<times> bool) option"
and fire_inner :: "nat \<Rightarrow> ('l, 'f, 'v, 'w) script \<Rightarrow> 'l \<Rightarrow>
    ('l, 'f, 'v, 'w) machine \<Rightarrow> (('l, 'f, 'v, 'w) machine \<times> bool) option" where
  "exec 0 sc as m = None"
| "exec (Suc n) sc [] m = Some (m, False)"
| "exec (Suc n) sc (a # as) m =
     (case act n sc a m of
        None \<Rightarrow> None
      | Some (m1, thrown) \<Rightarrow> if thrown then Some (m1, True) else exec n sc as m1)"
| "act 0 sc a m = None"
| "act (Suc n) sc a m =
     (case a of
        Add l args \<Rightarrow>
          if add_fires (m_lists m l) then fire_outer n sc l (on_list l (start_fire \<circ> add_args args) m)
          else Some (on_list l (add_args args) m, False)
      | Remove l fs \<Rightarrow> Some (on_list l (cb_remove fs) m, False)
      | Empty l \<Rightarrow> Some (on_list l cb_empty m, False)
      | Disable l \<Rightarrow> Some (on_list l cb_disable m, False)
      | Lock l \<Rightarrow> Some (on_list l cb_lock m, False)
      | FireWith l v \<Rightarrow>
          if fire_fires (m_lists m l) then fire_outer n sc l (on_list l (start_fire \<circ> queue_value v) m)
          else Some (on_list l (queue_value v) m, False))"
| "fire_outer 0 sc l m = None"
| "fire_outer (Suc n) sc l m =
     (if cb_queue (m_lists m l) = [] then Some (on_list l finish_fire m, False)
      else case fire_inner n sc l (on_list l shift_queue m) of
             None \<Rightarrow> None
           | Some (m1, thrown) \<Rightarrow>
               if thrown then Some (m1, True) else fire_outer n sc l (on_list l reset_index m1))"
| "fire_inner 0 sc l m = None"
| "fire_inner (Suc n) sc l m =
     (let m1 = on_list l next_index m; c = m_lists m1 l in
      case current_fn c of
        None \<Rightarrow> Some (m1, False)
      | Some f \<Rightarrow>
          (case sc f (cb_memory c) (m_world m1) of
             (w, as, result) \<Rightarrow>
               (case exec n sc as (m1\<lparr>m_world := w, m_calls := m_calls m1 @ [(l, f, cb_memory c)]\<rparr>) of
                  None \<Rightarrow> None
                | Some (m2, thrown) \<Rightarrow>
                    if thrown then Some (m2, True)
                    else (case result of
                            Throws \<Rightarrow> Some (m2, True)
                          | Returns false_returned \<Rightarrow>
                              fire_inner n sc l
                                (if false_returned \<and> opt_stop (cb_flags (m_lists m2 l))
                                 then on_list l stop_firing m2 else m2)))))"

section \<open>Facts that no action undoes\<close>

lemma lists_on_list [simp]:
  "m_lists (on_list k g m) l = (if l = k then g (m_lists m k) else m_lists m l)"
  "m_calls (on_list k g m) = m_calls m" "m_world (on_list k g m) = m_world m"
  by (simp_all add: on_list_def)

text \<open>What a run of each of the four functions that returns goes through.\<close>

lemma exec_Some:
  assumes "exec n sc as m = Some (m', t)"
  obtains k where "n = Suc k" "as = []" "m' = m" "\<not> t"
  | k a as' m1 where "n = Suc k" "as = a # as'" "act k sc a m = Some (m1, True)" "m' = m1" t
  | k a as' m1 where "n = Suc k" "as = a # as'" "act k sc a m = Some (m1, False)"
      "exec k sc as' m1 = Some (m', t)"
proof (cases n)
  case 0
  then show thesis using assms by simp
next
  case (Suc k)
  then show thesis using assms that
    by (cases as) (auto split: option.splits if_splits)
qed

lemma outer_Some:
  assumes "fire_outer n sc l m = Some (m', t)"
  obtains k where "n = Suc k" "cb_queue (m_lists m l) = []" "m' = on_list l finish_fire m" "\<not> t"
  | k m1 where "n = Suc k" "cb_queue (m_lists m l) \<noteq> []"
      "fire_inner k sc l (on_list l shift_queue m) = Some (m1, True)" "m' = m1" t
  | k m1 where "n = Suc k" "cb_queue (m_lists m l) \<noteq> []"
      "fire_inner k sc l (on_list l shift_queue m) = Some (m1, False)"
      "fire_outer k sc l (on_list l reset_index m1) = Some (m', t)"
proof (cases n)
  case 0
  then show thesis using assms by simp
next
  case (Suc k)
  show thesis
  proof (cases "cb_queue (m_lists m l) = []")
    case True
    then show thesis using assms Suc that(1) by simp
  next
    case False
    then obtain m1 u where i: "fire_inner k sc l (on_list l shift_queue m) = Some (m1, u)"
      and u: "(if u then Some (m1, True) else fire_outer k sc l (on_list l reset_index m1)) = Some (m', t)"
      using assms Suc by (auto split: option.splits)
    show thesis using that(2) [of k m1] that(3) [of k m1] i u Suc False by (cases u) auto
  qed
qed

definition called :: "'l \<Rightarrow> 'f \<Rightarrow> 'v option \<Rightarrow> 'w \<Rightarrow> ('l, 'f, 'v, 'w) machine \<Rightarrow> ('l, 'f, 'v, 'w) machine" where
  "called l f v w m = m\<lparr>m_world := w, m_calls := m_calls m @ [(l, f, v)]\<rparr>"

lemma called_simps [simp]:
  "m_lists (called l f v w m) = m_lists m" "m_world (called l f v w m) = w"
  "m_calls (called l f v w m) = m_calls m @ [(l, f, v)]"
  by (simp_all add: called_def)

lemma memory_next_index [simp]: "cb_memory (next_index c) = cb_memory c"
  by (simp add: next_index_def)

lemma inner_Some:
  assumes "fire_inner n sc l m = Some (m', t)"
  obtains k where "n = Suc k" "m' = on_list l next_index m" "\<not> t"
      "current_fn (next_index (m_lists m l)) = None"
  | k f w as r m2 where "n = Suc k" "current_fn (next_index (m_lists m l)) = Some f"
      "sc f (cb_memory (m_lists m l)) (m_world m) = (w, as, r)"
      "exec k sc as (called l f (cb_memory (m_lists m l)) w (on_list l next_index m)) = Some (m2, True) \<and> m' = m2 \<or>
       exec k sc as (called l f (cb_memory (m_lists m l)) w (on_list l next_index m)) = Some (m2, False) \<and>
         r = Throws \<and> m' = m2" t
  | k f w as b m2 where "n = Suc k" "current_fn (next_index (m_lists m l)) = Some f"
      "sc f (cb_memory (m_lists m l)) (m_world m) = (w, as, Returns b)"
      "exec k sc as (called l f (cb_memory (m_lists m l)) w (on_list l next_index m)) = Some (m2, False)"
      "fire_inner k sc l (if b \<and> opt_stop (cb_flags (m_lists m2 l)) then on_list l stop_firing m2 else m2) =
         Some (m', t)"
proof (cases n)
  case 0
  then show thesis using assms by simp
next
  case (Suc k)
  show thesis
  proof (cases "current_fn (next_index (m_lists m l))")
    case None
    then show thesis using assms Suc that(1) by (simp add: Let_def)
  next
    case (Some f)
    obtain w as r where r: "sc f (cb_memory (m_lists m l)) (m_world m) = (w, as, r)"
      by (metis prod_cases3)
    define m1 where "m1 = called l f (cb_memory (m_lists m l)) w (on_list l next_index m)"
    have "(case exec k sc as m1 of None \<Rightarrow> None
       | Some (m2, thrown) \<Rightarrow> if thrown then Some (m2, True)
           else (case r of Throws \<Rightarrow> Some (m2, True)
             | Returns b \<Rightarrow> fire_inner k sc l
                 (if b \<and> opt_stop (cb_flags (m_lists m2 l)) then on_list l stop_firing m2 else m2))) = Some (m', t)"
      using assms Suc Some r by (simp add: Let_def m1_def called_def)
    then obtain m2 thrown where e: "exec k sc as m1 = Some (m2, thrown)"
      and rest: "(if thrown then Some (m2, True) else (case r of Throws \<Rightarrow> Some (m2, True)
             | Returns b \<Rightarrow> fire_inner k sc l
                 (if b \<and> opt_stop (cb_flags (m_lists m2 l)) then on_list l stop_firing m2 else m2))) = Some (m', t)"
      by (cases "exec k sc as m1") auto
    show thesis
    proof (cases "\<not> thrown \<and> r \<noteq> Throws")
      case True
      then obtain b where "r = Returns b" by (cases r) auto
      then show thesis using that(3) [OF Suc Some] r e rest True by (simp add: m1_def)
    next
      case False
      then have "m' = m2" t using rest by (auto split: if_splits)
      then show thesis using that(2) [OF Suc Some r] e False by (cases thrown) (auto simp: m1_def)
    qed
  qed
qed

text \<open>A round of the inner loop whose callback runs no action, or one that calls nothing.\<close>

lemma exec_Nil: "exec n sc [] m = Some (m', t) \<Longrightarrow> m' = m \<and> \<not> t"
  by (cases n) simp_all

lemma exec_Disable: "exec n sc [Disable l] m = Some (m', t) \<Longrightarrow> m' = on_list l cb_disable m \<and> \<not> t"
  by (erule exec_Some; cases n; cases "n - 1") (auto dest: exec_Nil)

lemma inner_step:
  assumes run: "fire_inner n sc l m = Some (m', t)"
    and f: "current_fn (next_index (m_lists m l)) = Some f"
    and sc: "sc f (cb_memory (m_lists m l)) (m_world m) = (w, as, Returns False)"
    and ex: "\<And>k m2 t2. exec k sc as (called l f (cb_memory (m_lists m l)) w (on_list l next_index m)) = Some (m2, t2) \<Longrightarrow>
      m2 = m1 \<and> \<not> t2"
  shows "\<exists>k. fire_inner k sc l m1 = Some (m', t)"
  using run
proof (cases rule: inner_Some)
  case (3 k g w' as' b m2)
  then show ?thesis using f sc ex by auto
qed (use f sc ex in auto)

text \<open>A law of callback lists: a property of the lists that every step of every operation keeps,
  as long as only admitted functions are added, and what functions a list with the property can
  call. It holds whatever a program does, in the middle of a firing too. A list that is firing can
  be left out of the lists that are fired: it is not fired again before it is done.\<close>

locale list_law =
  fixes stable :: "'l \<Rightarrow> ('f, 'v) callbacks \<Rightarrow> bool"
    and addable :: "'l \<Rightarrow> 'f \<Rightarrow> bool"
    and callable :: "'l \<Rightarrow> 'f \<Rightarrow> 'v option \<Rightarrow> bool"
    and fireable :: "'l \<Rightarrow> bool"
  assumes stable_add: "stable l c \<Longrightarrow> \<forall>f \<in> set (fns_of (Fns args)). addable l f \<Longrightarrow> stable l (add_args args c)"
    and stable_remove: "stable l c \<Longrightarrow> stable l (cb_remove fs c)"
    and stable_empty: "stable l c \<Longrightarrow> stable l (cb_empty c)"
    and stable_disable: "stable l c \<Longrightarrow> stable l (cb_disable c)"
    and stable_lock: "stable l c \<Longrightarrow> stable l (cb_lock c)"
    and stable_queue: "stable l c \<Longrightarrow> stable l (queue_value v c)"
    and stable_start: "stable l c \<Longrightarrow> fireable l \<Longrightarrow> stable l (start_fire c)"
    and stable_shift: "stable l c \<Longrightarrow> fireable l \<Longrightarrow> cb_queue c \<noteq> [] \<Longrightarrow> stable l (shift_queue c)"
    and stable_finish: "stable l c \<Longrightarrow> fireable l \<Longrightarrow> stable l (finish_fire c)"
    and stable_next: "stable l c \<Longrightarrow> fireable l \<Longrightarrow> stable l (next_index c)"
    and stable_reset: "stable l c \<Longrightarrow> fireable l \<Longrightarrow> stable l (reset_index c)"
    and stable_stop: "stable l c \<Longrightarrow> fireable l \<Longrightarrow> stable l (stop_firing c)"
    and busy_firing: "stable l c \<Longrightarrow> \<not> fireable l \<Longrightarrow> cb_firing c"
    and calls_callable: "stable l c \<Longrightarrow> fireable l \<Longrightarrow> current_fn (next_index c) = Some f \<Longrightarrow> callable l f (cb_memory c)"
begin

lemmas stable_ops = stable_remove stable_empty stable_disable stable_lock stable_queue
  stable_start stable_shift stable_finish stable_next stable_reset stable_stop

definition admitted :: "('l, 'f, 'v) cb_action \<Rightarrow> bool" where
  "admitted a \<longleftrightarrow> (\<forall>l args. a = Add l args \<longrightarrow> (\<forall>f \<in> set (fns_of (Fns args)). addable l f))"

definition admitted_script :: "('l, 'f, 'v, 'w) script \<Rightarrow> bool" where
  "admitted_script sc \<longleftrightarrow> (\<forall>f v w. \<forall>a \<in> set (fst (snd (sc f v w))). admitted a)"

definition stable_lists :: "('l, 'f, 'v, 'w) machine \<Rightarrow> bool" where
  "stable_lists m \<longleftrightarrow> (\<forall>l. stable l (m_lists m l))"

text \<open>The lists keep the property, the functions called are callable, and the world is what the
  calls make of it.\<close>

definition grows :: "('l, 'f, 'v, 'w) script \<Rightarrow> ('l, 'f, 'v, 'w) machine \<Rightarrow> ('l, 'f, 'v, 'w) machine \<Rightarrow> bool" where
  "grows sc m m' \<longleftrightarrow> stable_lists m' \<and>
     (\<exists>new. m_calls m' = m_calls m @ new \<and> (\<forall>(l, f, v) \<in> set new. callable l f v) \<and>
       m_world m' = fold (\<lambda>(l, f, v) w. fst (sc f v w)) new (m_world m))"

lemma grows_refl: "stable_lists m \<Longrightarrow> grows sc m m"
  by (auto simp: grows_def)

lemma grows_trans:
  assumes "grows sc m m1" "grows sc m1 m2"
  shows "grows sc m m2"
proof -
  obtain xs where "m_calls m1 = m_calls m @ xs" "\<forall>(l, f, v) \<in> set xs. callable l f v"
    "m_world m1 = fold (\<lambda>(l, f, v) w. fst (sc f v w)) xs (m_world m)"
    using assms(1) unfolding grows_def by (elim conjE exE) (rule that)
  moreover obtain ys where "stable_lists m2" "m_calls m2 = m_calls m1 @ ys" "\<forall>(l, f, v) \<in> set ys. callable l f v"
    "m_world m2 = fold (\<lambda>(l, f, v) w. fst (sc f v w)) ys (m_world m1)"
    using assms(2) unfolding grows_def by (elim conjE exE) (rule that)
  ultimately show ?thesis unfolding grows_def
    by (intro conjI exI [of _ "xs @ ys"]) auto
qed

lemma grows_on_list: "stable_lists m \<Longrightarrow> stable l (g (m_lists m l)) \<Longrightarrow> grows sc m (on_list l g m)"
  by (auto simp: grows_def stable_lists_def)

lemma grows_called:
  assumes "stable_lists m" "fireable l" "current_fn (next_index (m_lists m l)) = Some f"
    and "fst (sc f (cb_memory (m_lists m l)) (m_world m)) = w"
  shows "grows sc m (called l f (cb_memory (m_lists m l)) w (on_list l next_index m))"
proof -
  have "callable l f (cb_memory (m_lists m l))" using assms by (auto simp: stable_lists_def intro: calls_callable)
  then show ?thesis using assms by (auto simp: grows_def stable_lists_def stable_next)
qed

lemma grows_stable: "grows sc m m' \<Longrightarrow> stable_lists m'"
  by (simp add: grows_def)

lemma runs_grow:
  assumes sc: "admitted_script sc"
  shows "(\<forall>as m m' t. exec n sc as m = Some (m', t) \<longrightarrow> (\<forall>a \<in> set as. admitted a) \<longrightarrow>
      stable_lists m \<longrightarrow> grows sc m m') \<and>
    (\<forall>a m m' t. act n sc a m = Some (m', t) \<longrightarrow> admitted a \<longrightarrow> stable_lists m \<longrightarrow> grows sc m m') \<and>
    (\<forall>k m m' t. fire_outer n sc k m = Some (m', t) \<longrightarrow> fireable k \<longrightarrow> stable_lists m \<longrightarrow> grows sc m m') \<and>
    (\<forall>k m m' t. fire_inner n sc k m = Some (m', t) \<longrightarrow> fireable k \<longrightarrow> stable_lists m \<longrightarrow> grows sc m m')"
proof (induction n)
  case 0
  then show ?case by simp
next
  case (Suc n)
  then have ex: "exec n sc as m = Some (m', t) \<Longrightarrow> \<forall>a \<in> set as. admitted a \<Longrightarrow> stable_lists m \<Longrightarrow> grows sc m m'"
    and ac: "act n sc a m = Some (m', t) \<Longrightarrow> admitted a \<Longrightarrow> stable_lists m \<Longrightarrow> grows sc m m'"
    and ou: "fire_outer n sc k m = Some (m', t) \<Longrightarrow> fireable k \<Longrightarrow> stable_lists m \<Longrightarrow> grows sc m m'"
    and inn: "fire_inner n sc k m = Some (m', t) \<Longrightarrow> fireable k \<Longrightarrow> stable_lists m \<Longrightarrow> grows sc m m'"
    for as a k m m' t by blast+
  have exec: "grows sc m m'"
    if "exec (Suc n) sc as m = Some (m', t)" "\<forall>a \<in> set as. admitted a" "stable_lists m" for as m m' t
    using that(1)
  proof (cases rule: exec_Some)
    case (3 k a as' m1)
    then show ?thesis using that(2,3) ac [of a m m1] ex [of as' m1 m'] grows_trans grows_stable by fastforce
  qed (use that ac grows_refl in auto)
  have act: "grows sc m m'"
    if run: "act (Suc n) sc a m = Some (m', t)" and a: "admitted a" and st: "stable_lists m" for a m m' t
  proof -
    have s: "stable l (m_lists m l)" for l using st by (simp add: stable_lists_def)
    show ?thesis
    proof (cases a)
      case (Add l args)
      then have new: "stable l (add_args args (m_lists m l))"
        using a s by (auto simp: admitted_def intro!: stable_add)
      show ?thesis
      proof (cases "add_fires (m_lists m l)")
        case True
        then have l: "fireable l" using busy_firing [OF s] by (auto simp: add_fires_def)
        then have "grows sc m (on_list l (start_fire \<circ> add_args args) m)"
          using st new by (intro grows_on_list) (simp_all add: stable_start)
        moreover have "fire_outer n sc l (on_list l (start_fire \<circ> add_args args) m) = Some (m', t)"
          using run Add True by simp
        ultimately show ?thesis using ou l grows_trans grows_stable by blast
      next
        case False
        then show ?thesis using run Add new st by (auto intro: grows_on_list)
      qed
    next
      case (FireWith l v)
      show ?thesis
      proof (cases "fire_fires (m_lists m l)")
        case True
        then have l: "fireable l" using busy_firing [OF s] by (auto simp: fire_fires_def)
        then have "grows sc m (on_list l (start_fire \<circ> queue_value v) m)"
          using st s by (intro grows_on_list) (simp_all add: stable_start stable_queue)
        moreover have "fire_outer n sc l (on_list l (start_fire \<circ> queue_value v) m) = Some (m', t)"
          using run FireWith True by simp
        ultimately show ?thesis using ou l grows_trans grows_stable by blast
      next
        case False
        then show ?thesis using run FireWith st s by (auto intro!: grows_on_list stable_queue)
      qed
    qed (use run st s in \<open>auto intro!: grows_on_list stable_ops\<close>)
  qed
  have outer: "grows sc m m'"
    if "fire_outer (Suc n) sc k m = Some (m', t)" and k: "fireable k" and st: "stable_lists m" for k m m' t
    using that(1)
  proof (cases rule: outer_Some)
    case (1 j)
    then show ?thesis using st k by (auto intro!: grows_on_list stable_finish simp: stable_lists_def)
  next
    case (2 j m1)
    have "grows sc m (on_list k shift_queue m)"
      using st 2 k by (intro grows_on_list) (auto intro!: stable_shift simp: stable_lists_def)
    then show ?thesis using 2 inn k grows_trans grows_stable by blast
  next
    case (3 j m1)
    have "grows sc m (on_list k shift_queue m)"
      using st 3 k by (intro grows_on_list) (auto intro!: stable_shift simp: stable_lists_def)
    then have m1: "grows sc m m1" using 3 inn k grows_trans grows_stable by blast
    moreover have "grows sc m1 (on_list k reset_index m1)"
      using grows_stable [OF m1] k by (intro grows_on_list) (auto intro!: stable_reset simp: stable_lists_def)
    ultimately show ?thesis using 3 ou k grows_trans grows_stable by blast
  qed
  have inner: "grows sc m m'"
    if "fire_inner (Suc n) sc k m = Some (m', t)" and k: "fireable k" and st: "stable_lists m" for k m m' t
    using that(1)
  proof (cases rule: inner_Some)
    case (1 j)
    then show ?thesis using st k by (auto intro!: grows_on_list stable_next simp: stable_lists_def)
  next
    case (2 j f w as r m2)
    have gc: "grows sc m (called k f (cb_memory (m_lists m k)) w (on_list k next_index m))"
      using 2(3) by (intro grows_called st k 2(2)) simp
    have as: "\<forall>a \<in> set as. admitted a" using sc 2(3) unfolding admitted_script_def by (metis fst_conv snd_conv)
    show ?thesis using 2 gc ex [OF _ as] grows_trans grows_stable by blast
  next
    case (3 j f w as b m2)
    have gc: "grows sc m (called k f (cb_memory (m_lists m k)) w (on_list k next_index m))"
      using 3(3) by (intro grows_called st k 3(2)) simp
    have as: "\<forall>a \<in> set as. admitted a" using sc 3(3) unfolding admitted_script_def by (metis fst_conv snd_conv)
    have m2: "grows sc m m2" using 3 gc ex [OF _ as] grows_trans grows_stable by blast
    have s2: "grows sc m2 (on_list k stop_firing m2)"
      using grows_stable [OF m2] k by (intro grows_on_list) (auto intro!: stable_stop simp: stable_lists_def)
    define m3 where "m3 = (if b \<and> opt_stop (cb_flags (m_lists m2 k)) then on_list k stop_firing m2 else m2)"
    have m3: "grows sc m m3" using m2 s2 grows_trans by (auto simp: m3_def)
    have "fire_inner n sc k m3 = Some (m', t)" using 3(1,5) by (simp add: m3_def)
    then show ?thesis using inn k grows_stable [OF m3] grows_trans [OF m3] by blast
  qed
  show ?case using exec act outer inner by blast
qed

lemma exec_grows:
  "admitted_script sc \<Longrightarrow> exec n sc as m = Some (m', t) \<Longrightarrow> \<forall>a \<in> set as. admitted a \<Longrightarrow>
     stable_lists m \<Longrightarrow> grows sc m m'"
  using runs_grow by blast

lemma act_grows:
  "admitted_script sc \<Longrightarrow> act n sc a m = Some (m', t) \<Longrightarrow> admitted a \<Longrightarrow> stable_lists m \<Longrightarrow> grows sc m m'"
  using runs_grow by blast

lemma outer_grows:
  "admitted_script sc \<Longrightarrow> fire_outer n sc k m = Some (m', t) \<Longrightarrow> fireable k \<Longrightarrow> stable_lists m \<Longrightarrow> grows sc m m'"
  using runs_grow by blast

lemma inner_grows:
  "admitted_script sc \<Longrightarrow> fire_inner n sc k m = Some (m', t) \<Longrightarrow> fireable k \<Longrightarrow> stable_lists m \<Longrightarrow> grows sc m m'"
  using runs_grow by blast

end

section \<open>Laws of the lists\<close>

lemmas cb_defs = cb_empty_def cb_disable_def cb_lock_def queue_value_def start_fire_def shift_queue_def
  finish_fire_def next_index_def reset_index_def stop_firing_def

lemma push_args_fields [simp]:
  "cb_flags (push_args args c) = cb_flags c" "cb_locked (push_args args c) = cb_locked c"
  "cb_memory (push_args args c) = cb_memory c" "cb_queue (push_args args c) = cb_queue c"
  "cb_firing (push_args args c) = cb_firing c" "cb_index (push_args args c) = cb_index c"
  "cb_fired (push_args args c) = cb_fired c"
proof -
  have "cb_flags (fold push_fn fs c) = cb_flags c \<and> cb_locked (fold push_fn fs c) = cb_locked c \<and>
      cb_memory (fold push_fn fs c) = cb_memory c \<and> cb_queue (fold push_fn fs c) = cb_queue c \<and>
      cb_firing (fold push_fn fs c) = cb_firing c \<and> cb_index (fold push_fn fs c) = cb_index c \<and>
      cb_fired (fold push_fn fs c) = cb_fired c" for fs
    by (induction fs arbitrary: c) (simp_all add: push_fn_def)
  then show "cb_flags (push_args args c) = cb_flags c" "cb_locked (push_args args c) = cb_locked c"
    "cb_memory (push_args args c) = cb_memory c" "cb_queue (push_args args c) = cb_queue c"
    "cb_firing (push_args args c) = cb_firing c" "cb_index (push_args args c) = cb_index c"
    "cb_fired (push_args args c) = cb_fired c"
    unfolding push_args_def by blast+
qed

lemma add_args_fields [simp]:
  "cb_flags (add_args args c) = cb_flags c" "cb_locked (add_args args c) = cb_locked c"
  "cb_memory (add_args args c) = cb_memory c" "cb_firing (add_args args c) = cb_firing c"
  "cb_list (add_args args c) = None \<longleftrightarrow> cb_list c = None"
proof -
  have "cb_list (fold push_fn fs d) = None \<longleftrightarrow> cb_list d = None" for fs and d :: "('a, 'b) callbacks"
    by (induction fs arbitrary: d) (simp_all add: push_fn_def)
  then show "cb_list (add_args args c) = None \<longleftrightarrow> cb_list c = None"
    by (auto simp: add_args_def push_args_def split: option.splits)
qed (auto simp: add_args_def split: option.splits)

text \<open>The list of functions after \<open>add\<close>.\<close>

fun push_all :: "bool \<Rightarrow> 'f list \<Rightarrow> 'f list \<Rightarrow> 'f list" where
  "push_all u fs [] = fs"
| "push_all u fs (g # gs) = push_all u (if u \<and> g \<in> set fs then fs else fs @ [g]) gs"

lemma list_push_args [simp]:
  "cb_list (push_args args c) =
     map_option (\<lambda>fs. push_all (opt_unique (cb_flags c)) fs (fns_of (Fns args))) (cb_list c)"
proof -
  have "cb_list (fold push_fn gs c) = map_option (\<lambda>fs. push_all (opt_unique (cb_flags c)) fs gs) (cb_list c)" for gs
  proof (induction gs arbitrary: c)
    case Nil
    then show ?case by (cases "cb_list c") simp_all
  next
    case (Cons g gs)
    then show ?case by (cases "cb_list c") (simp_all add: push_fn_def)
  qed
  then show ?thesis by (simp add: push_args_def)
qed

lemma list_add_args [simp]:
  "cb_list (add_args args c) =
     map_option (\<lambda>fs. push_all (opt_unique (cb_flags c)) fs (fns_of (Fns args))) (cb_list c)"
  by (auto simp: add_args_def split: option.splits)

lemma set_push_all: "set (push_all u fs gs) = set fs \<union> set gs"
  by (induction gs arbitrary: fs) auto

lemma push_all_plain [simp]: "push_all False fs gs = fs @ gs"
  by (induction gs arbitrary: fs) auto

lemma distinct_push_all: "distinct fs \<Longrightarrow> distinct (push_all True fs gs)"
  by (induction gs arbitrary: fs) auto

text \<open>What \<open>remove\<close> leaves alone: everything but the list, which loses functions, and the index.\<close>

lemma remove_from_frame:
  "\<exists>fs i'. remove_from f i c = c\<lparr>cb_list := fs, cb_index := i'\<rparr> \<and>
     (fs = None \<longleftrightarrow> cb_list c = None) \<and>
     (\<forall>gs hs. cb_list c = Some gs \<longrightarrow> fs = Some hs \<longrightarrow> set hs \<subseteq> set gs \<and> (distinct gs \<longrightarrow> distinct hs))"
proof (induction f i c rule: remove_from.induct)
  case (1 f i c)
  show ?case
  proof (cases "cb_list c")
    case None
    then have "remove_from f i c = c\<lparr>cb_list := None, cb_index := cb_index c\<rparr>"
      by (subst remove_from.simps) simp
    then show ?thesis using None by blast
  next
    case fs: (Some fs)
    show ?thesis
    proof (cases "index_from f fs i")
      case None
      then have "remove_from f i c = c\<lparr>cb_list := Some fs, cb_index := cb_index c\<rparr>"
        using fs by (subst remove_from.simps) simp
      then show ?thesis using fs
        by (intro exI [of _ "Some fs"] exI [of _ "cb_index c"]) simp
    next
      case (Some j)
      define gs where "gs = take j fs @ drop (Suc j) fs"
      define d where "d = c\<lparr>cb_list := Some gs,
        cb_index := (if int j \<le> cb_index c then cb_index c - 1 else cb_index c)\<rparr>"
      have eq: "remove_from f i c = remove_from f j d"
        using fs Some by (subst remove_from.simps) (simp add: d_def gs_def)
      obtain hs i' where h: "remove_from f j d = d\<lparr>cb_list := hs, cb_index := i'\<rparr>" "hs = None \<longleftrightarrow> cb_list d = None"
        "\<forall>gs ks. cb_list d = Some gs \<longrightarrow> hs = Some ks \<longrightarrow> set ks \<subseteq> set gs \<and> (distinct gs \<longrightarrow> distinct ks)"
        using 1 [OF fs Some, folded gs_def, folded d_def] by (elim exE conjE) (rule that)
      have sub: "set gs \<subseteq> set fs" by (auto simp: gs_def dest: in_set_takeD in_set_dropD)
      have split: "fs = take j fs @ fs ! j # drop (Suc j) fs"
        using index_from_bound [OF Some] by (simp add: id_take_nth_drop)
      have "distinct (take j fs @ fs ! j # drop (Suc j) fs) \<Longrightarrow> distinct gs" by (simp add: gs_def)
      then have dis: "distinct fs \<Longrightarrow> distinct gs" using split by metis
      have "remove_from f i c = c\<lparr>cb_list := hs, cb_index := i'\<rparr>" using eq h(1) by (simp add: d_def)
      moreover have "set ks \<subseteq> set fs \<and> (distinct fs \<longrightarrow> distinct ks)" if "hs = Some ks" for ks
        using h(3) that sub dis by (fastforce simp: d_def)
      ultimately show ?thesis using h(2) fs by (auto simp: d_def)
    qed
  qed
qed

lemma cb_remove_fields [simp]:
  "cb_flags (cb_remove fs c) = cb_flags c" "cb_locked (cb_remove fs c) = cb_locked c"
  "cb_memory (cb_remove fs c) = cb_memory c" "cb_queue (cb_remove fs c) = cb_queue c"
  "cb_firing (cb_remove fs c) = cb_firing c"
  and cb_remove_None: "cb_list (cb_remove fs c) = None \<longleftrightarrow> cb_list c = None"
  and cb_remove_list: "cb_list c = Some gs \<Longrightarrow> cb_list (cb_remove fs c) = Some hs \<Longrightarrow>
    set hs \<subseteq> set gs \<and> (distinct gs \<longrightarrow> distinct hs)"
proof -
  have "cb_flags d = cb_flags c \<and> cb_locked d = cb_locked c \<and> cb_memory d = cb_memory c \<and>
      cb_queue d = cb_queue c \<and> cb_firing d = cb_firing c \<and> (cb_list d = None \<longleftrightarrow> cb_list c = None) \<and>
      (\<forall>gs hs. cb_list c = Some gs \<longrightarrow> cb_list d = Some hs \<longrightarrow>
        set hs \<subseteq> set gs \<and> (distinct gs \<longrightarrow> distinct hs))"
    if "d = cb_remove fs c" for d
    using that
  proof (induction fs arbitrary: c)
    case Nil
    then show ?case by (simp add: cb_remove_def)
  next
    case (Cons f fs)
    obtain gs i' where e: "remove_from f 0 c = c\<lparr>cb_list := gs, cb_index := i'\<rparr>"
      and n: "gs = None \<longleftrightarrow> cb_list c = None"
      and s: "\<forall>hs ks. cb_list c = Some hs \<longrightarrow> gs = Some ks \<longrightarrow> set ks \<subseteq> set hs \<and> (distinct hs \<longrightarrow> distinct ks)"
      using remove_from_frame [of f 0 c] by (elim exE conjE) (rule that)
    have "d = cb_remove fs (c\<lparr>cb_list := gs, cb_index := i'\<rparr>)"
      using Cons.prems by (simp add: cb_remove_def e)
    note r = Cons.IH [OF this]
    have "set ks \<subseteq> set hs \<and> (distinct hs \<longrightarrow> distinct ks)"
      if hs: "cb_list c = Some hs" and ks: "cb_list d = Some ks" for hs ks
    proof -
      obtain g where g: "gs = Some g" using n hs by auto
      have "set ks \<subseteq> set g \<and> (distinct g \<longrightarrow> distinct ks)" using r g ks by simp
      then show ?thesis using s hs g by blast
    qed
    then show ?case using r n by simp
  qed
  from this [OF refl]
  show "cb_flags (cb_remove fs c) = cb_flags c" "cb_locked (cb_remove fs c) = cb_locked c"
    "cb_memory (cb_remove fs c) = cb_memory c" "cb_queue (cb_remove fs c) = cb_queue c"
    "cb_firing (cb_remove fs c) = cb_firing c" "cb_list (cb_remove fs c) = None \<longleftrightarrow> cb_list c = None"
    "cb_list c = Some gs \<Longrightarrow> cb_list (cb_remove fs c) = Some hs \<Longrightarrow>
      set hs \<subseteq> set gs \<and> (distinct gs \<longrightarrow> distinct hs)"
    by blast+
qed

lemma cb_lock_fields [simp]:
  "cb_flags (cb_lock c) = cb_flags c" "cb_locked (cb_lock c)" "cb_queue (cb_lock c) = []"
  "cb_memory (cb_lock c) = cb_memory c"
  by (simp_all add: cb_lock_def Let_def)

lemma cb_lock_list: "cb_list (cb_lock c) = Some fs \<Longrightarrow> cb_list c = Some fs"
  by (simp add: cb_lock_def Let_def split: if_splits)

text \<open>A spent list, after \<open>disable\<close>: it stays spent and calls nothing.\<close>

definition spent :: "('f, 'v) callbacks \<Rightarrow> bool" where
  "spent c \<longleftrightarrow> cb_locked c \<and> cb_list c = None \<and> cb_memory c = None \<and> cb_queue c = []"

lemma spent_disable: "spent (cb_disable c)"
  by (simp add: spent_def cb_disable_def)

interpretation spent_list: list_law "\<lambda>l c. l = k \<longrightarrow> spent c" "\<lambda>l f. True" "\<lambda>l f v. l \<noteq> k"
  "\<lambda>l. True" for k
  by unfold_locales
    (auto simp: spent_def add_args_def cb_defs Let_def current_fn_def cb_remove_None)

text \<open>All functions on a list have a property.\<close>

definition all_fns :: "('f \<Rightarrow> bool) \<Rightarrow> ('f, 'v) callbacks \<Rightarrow> bool" where
  "all_fns P c \<longleftrightarrow> (\<forall>fs. cb_list c = Some fs \<longrightarrow> (\<forall>f \<in> set fs. P f))"

lemma current_fn_list: "current_fn c = Some f \<Longrightarrow> \<exists>fs. cb_list c = Some fs \<and> f \<in> set fs"
  by (auto simp: current_fn_def split: option.splits if_splits)

lemma list_next_index [simp]: "cb_list (next_index c) = cb_list c"
  by (simp add: next_index_def)

interpretation members: list_law "\<lambda>l. all_fns (P l)" P "\<lambda>l f v. P l f" "\<lambda>l. True" for P
proof (unfold_locales, goal_cases)
  case (1 l c args)
  then show ?case by (auto simp: all_fns_def set_push_all)
next
  case (2 l c fs)
  then show ?case
    using cb_remove_list [of c _ fs] cb_remove_None [of fs c]
    by (cases "cb_list c") (fastforce simp: all_fns_def)+
next
  case (5 l c)
  then show ?case by (auto simp: all_fns_def dest: cb_lock_list)
next
  case (14 l c f)
  then show ?case by (auto simp: all_fns_def dest!: current_fn_list)
qed (auto simp: all_fns_def cb_defs Let_def)

text \<open>A list created with \<open>unique\<close> never holds a function twice.\<close>

definition no_duplicates :: "('f, 'v) callbacks \<Rightarrow> bool" where
  "no_duplicates c \<longleftrightarrow> opt_unique (cb_flags c) \<and> (\<forall>fs. cb_list c = Some fs \<longrightarrow> distinct fs)"

interpretation unique_list: list_law "\<lambda>l c. l = k \<longrightarrow> no_duplicates c" "\<lambda>l f. True"
  "\<lambda>l f v. True" "\<lambda>l. True" for k
proof (unfold_locales, goal_cases)
  case (2 l c fs)
  then show ?case
    using cb_remove_list [of c _ fs] cb_remove_None [of fs c]
    by (cases "cb_list c") (auto simp: no_duplicates_def)
next
  case (5 l c)
  then show ?case by (auto simp: no_duplicates_def dest: cb_lock_list)
qed (auto simp: no_duplicates_def cb_defs Let_def distinct_push_all)

text \<open>A locked list that is not firing, of a list that fires once, only ever calls with the value
  it remembers.\<close>

definition once_with :: "'v \<Rightarrow> ('f, 'v) callbacks \<Rightarrow> bool" where
  "once_with v c \<longleftrightarrow> cb_locked c \<and> set (cb_queue c) \<subseteq> {v} \<and> set_option (cb_memory c) \<subseteq> {v}"

interpretation once_list: list_law "\<lambda>l c. l = k \<longrightarrow> once_with v c" "\<lambda>l f. True"
  "\<lambda>l f u. l = k \<longrightarrow> set_option u \<subseteq> {v}" "\<lambda>l. True" for k v
proof (unfold_locales, goal_cases)
  case (1 l c args)
  then show ?case by (auto simp: once_with_def add_args_def split: option.splits)
next
  case (8 l c)
  then show ?case by (cases "cb_queue c") (auto simp: once_with_def cb_defs)
qed (auto simp: once_with_def cb_defs Let_def split: if_splits)

text \<open>While a list is firing, whatever its callbacks do, none of its callbacks is called by them:
  a value it is fired with waits in the queue.\<close>

interpretation firing_list: list_law "\<lambda>l c. l = k \<longrightarrow> cb_firing c" "\<lambda>l f. True" "\<lambda>l f v. l \<noteq> k"
  "\<lambda>l. l \<noteq> k" for k
  by unfold_locales (auto simp: cb_defs cb_lock_def Let_def)

section \<open>Firing a list of callbacks that do nothing to the lists\<close>

definition quiet :: "('l, 'f, 'v, 'w) script \<Rightarrow> bool" where
  "quiet sc \<longleftrightarrow> (\<forall>f v w. snd (sc f v w) = ([], Returns False))"

lemma inner_quiet:
  assumes "quiet sc" "cb_list (m_lists m l) = Some fs" "cb_memory (m_lists m l) = Some v"
    "cb_index (m_lists m l) = int i - 1" "i \<le> length fs" "length fs - i < n"
  shows "\<exists>m'. fire_inner n sc l m = Some (m', False) \<and>
    m_calls m' = m_calls m @ map (\<lambda>f. (l, f, Some v)) (drop i fs) \<and>
    m_lists m' = (m_lists m)(l := (m_lists m l)\<lparr>cb_index := int (length fs)\<rparr>)"
  using assms(2-)
proof (induction n arbitrary: m i)
  case (Suc n)
  show ?case
  proof (cases "i = length fs")
    case True
    then have "current_fn (next_index (m_lists m l)) = None"
      using Suc.prems by (simp add: current_fn_def next_index_def)
    then have "fire_inner (Suc n) sc l m = Some (on_list l next_index m, False)" by (simp add: Let_def)
    moreover have "m_lists (on_list l next_index m) = (m_lists m)(l := (m_lists m l)\<lparr>cb_index := int (length fs)\<rparr>)"
      using True Suc.prems by (simp add: on_list_def next_index_def)
    ultimately show ?thesis using True by (intro exI [of _ "on_list l next_index m"]) (simp del: fire_inner.simps)
  next
    case False
    then have i: "i < length fs" using Suc.prems by simp
    then have f: "current_fn (next_index (m_lists m l)) = Some (fs ! i)"
      using Suc.prems by (simp add: current_fn_def next_index_def)
    obtain w where sc: "sc (fs ! i) (Some v) (m_world m) = (w, [], Returns False)"
      using assms(1) by (metis prod.collapse quiet_def)
    define m1 where "m1 = called l (fs ! i) (Some v) w (on_list l next_index m)"
    obtain k where n: "n = Suc k" using Suc.prems i by (cases n) auto
    have step: "fire_inner (Suc n) sc l m = fire_inner n sc l m1"
      using f sc Suc.prems n by (simp add: Let_def m1_def called_def)
    have "\<exists>m'. fire_inner n sc l m1 = Some (m', False) \<and>
        m_calls m' = m_calls m1 @ map (\<lambda>f. (l, f, Some v)) (drop (Suc i) fs) \<and>
        m_lists m' = (m_lists m1)(l := (m_lists m1 l)\<lparr>cb_index := int (length fs)\<rparr>)"
      using Suc.prems i by (intro Suc.IH) (auto simp: m1_def next_index_def)
    then obtain m' where m': "fire_inner n sc l m1 = Some (m', False)"
      "m_calls m' = m_calls m1 @ map (\<lambda>f. (l, f, Some v)) (drop (Suc i) fs)"
      "m_lists m' = (m_lists m1)(l := (m_lists m1 l)\<lparr>cb_index := int (length fs)\<rparr>)" by blast
    have "(m_lists m1)(l := (m_lists m1 l)\<lparr>cb_index := int (length fs)\<rparr>) =
        (m_lists m)(l := (m_lists m l)\<lparr>cb_index := int (length fs)\<rparr>)"
      by (auto simp: m1_def next_index_def on_list_def)
    then have "m_lists m' = (m_lists m)(l := (m_lists m l)\<lparr>cb_index := int (length fs)\<rparr>)"
      using m'(3) by (rule trans [rotated])
    moreover have "m_calls m' = m_calls m @ map (\<lambda>f. (l, f, Some v)) (drop i fs)"
      using m'(2) i by (simp add: m1_def Cons_nth_drop_Suc [symmetric])
    ultimately show ?thesis using step m'(1) by metis
  qed
qed simp

text \<open>The value on the queue is taken, every function of the list is called with it in order.\<close>

lemma outer_quiet:
  assumes sc: "quiet sc" and c: "cb_list c = Some fs" "cb_queue c = [v]" "cb_index c = int i - 1" "i \<le> length fs"
    and m: "m_lists m l = c" and n: "length fs - i + 1 < n"
  shows "\<exists>m'. fire_outer n sc l m = Some (m', False) \<and>
    m_calls m' = m_calls m @ map (\<lambda>f. (l, f, Some v)) (drop i fs) \<and>
    m_lists m' = (m_lists m)(l := finish_fire (reset_index (shift_queue c)))"
proof -
  obtain k where k: "n = Suc (Suc k)" "length fs - i < Suc k" using n by (cases n; cases "n - 1") auto
  define m0 where "m0 = on_list l shift_queue m"
  have "\<exists>m1. fire_inner (Suc k) sc l m0 = Some (m1, False) \<and>
      m_calls m1 = m_calls m0 @ map (\<lambda>f. (l, f, Some v)) (drop i fs) \<and>
      m_lists m1 = (m_lists m0)(l := (m_lists m0 l)\<lparr>cb_index := int (length fs)\<rparr>)"
    using sc c m k(2) by (intro inner_quiet) (auto simp: m0_def shift_queue_def)
  then obtain m1 where m1: "fire_inner (Suc k) sc l m0 = Some (m1, False)"
    "m_calls m1 = m_calls m @ map (\<lambda>f. (l, f, Some v)) (drop i fs)"
    "m_lists m1 = (m_lists m)(l := (shift_queue c)\<lparr>cb_index := int (length fs)\<rparr>)"
    using m by (auto simp: m0_def on_list_def)
  have "fire_outer n sc l m = fire_outer (Suc k) sc l (on_list l reset_index m1)"
    using c m m1(1) by (simp add: k(1) m0_def)
  also have "\<dots> = Some (on_list l finish_fire (on_list l reset_index m1), False)"
    using m1(3) c by (simp add: reset_index_def shift_queue_def)
  finally show ?thesis using m1 by (auto simp: on_list_def reset_index_def shift_queue_def)
qed

end
