(* ===== verification/Jq_Deferred.thy ===== *)
theory Jq_Deferred
  imports Jq_Callbacks
begin

text \<open>
  The deferred objects of docs/_static/jquery-3.5.1.js. A deferred is six callback lists, wired by
  the functions the constructor puts on them: settling it sets its state, disables the lists of
  the other outcome, locks the lists of progress and fires its own handlers. Deferreds are
  numbered; a program may use any of them, from its callbacks too, through their public methods
  (\<open>done\<close>, \<open>fail\<close>, \<open>progress\<close>, \<open>always\<close>, \<open>notify\<close>, \<open>resolve\<close>, \<open>reject\<close>) and through the
  handler lists \<open>then\<close> adds to.
\<close>

section \<open>The lists of a deferred\<close>

datatype dlist = ProgressList | DoneList | FailList
  | ProgressHandlers | FulfilledHandlers | RejectedHandlers

type_synonym dkey = "nat \<times> dlist"

text \<open>The functions on the lists: those of the constructor, and the program's own.\<close>

datatype 'u dfn = SetState nat string | DisableIt dkey | LockIt dkey | FireIt dkey | User 'u

record tuple =
  tu_action :: string
  tu_listener :: string
  tu_list :: dlist
  tu_handlers :: dlist
  tu_index :: nat
  tu_state :: "string option"

definition tuples :: "tuple list" where
  "tuples =
     [\<lparr>tu_action = ''notify'', tu_listener = ''progress'', tu_list = ProgressList,
       tu_handlers = ProgressHandlers, tu_index = 2, tu_state = None\<rparr>,
      \<lparr>tu_action = ''resolve'', tu_listener = ''done'', tu_list = DoneList,
       tu_handlers = FulfilledHandlers, tu_index = 0, tu_state = Some ''resolved''\<rparr>,
      \<lparr>tu_action = ''reject'', tu_listener = ''fail'', tu_list = FailList,
       tu_handlers = RejectedHandlers, tu_index = 1, tu_state = Some ''rejected''\<rparr>]"

text \<open>The options of the six lists.\<close>

fun list_options :: "dlist \<Rightarrow> string" where
  "list_options ProgressList = ''memory''"
| "list_options ProgressHandlers = ''memory''"
| "list_options DoneList = ''once memory''"
| "list_options FulfilledHandlers = ''once memory''"
| "list_options FailList = ''once memory''"
| "list_options RejectedHandlers = ''once memory''"

text \<open>What the loop of the constructor adds to the list of the \<open>i\<close>-th tuple.\<close>

definition wiring :: "nat \<Rightarrow> nat \<Rightarrow> 'u dfn list" where
  "wiring d i =
     (let t = tuples ! i in
      (case tu_state t of
         None \<Rightarrow> []
       | Some state \<Rightarrow>
           [SetState d state,
            DisableIt (d, tu_list (tuples ! (3 - i))), DisableIt (d, tu_handlers (tuples ! (3 - i))),
            LockIt (d, tu_list (tuples ! 0)), LockIt (d, tu_handlers (tuples ! 0))]) @
      [FireIt (d, tu_handlers t)])"

definition tuple_of :: "dlist \<Rightarrow> nat option" where
  "tuple_of k = List.find (\<lambda>i. tu_list (tuples ! i) = k) [0..<length tuples]"

definition first_fns :: "dkey \<Rightarrow> 'u dfn list" where
  "first_fns l = (case tuple_of (snd l) of None \<Rightarrow> [] | Some i \<Rightarrow> wiring (fst l) i)"

definition new_list :: "dkey \<Rightarrow> ('u dfn, 'v) callbacks" where
  "new_list l = add_args (map Fn (first_fns l)) (new_callbacks (list_options (snd l)))"

section \<open>The methods and the program\<close>

datatype ('u, 'v) d_action =
    OnDone nat "'u fn_arg list"
  | OnFail nat "'u fn_arg list"
  | OnProgress nat "'u fn_arg list"
  | Always nat "'u fn_arg list"
  | NotifyWith nat 'v
  | ResolveWith nat 'v
  | RejectWith nat 'v
  | Handle nat 'u 'u 'u

text \<open>\<open>Handle d p f r\<close> is the subscription of \<open>then\<close>: its three handlers, for progress,
  fulfilment and rejection.\<close>

definition user_args :: "'u fn_arg list \<Rightarrow> 'u dfn fn_arg list" where
  "user_args = map (map_fn_arg User)"

fun list_actions :: "('u, 'v) d_action \<Rightarrow> (dkey, 'u dfn, 'v) cb_action list" where
  "list_actions (OnDone d args) = [Add (d, DoneList) (user_args args)]"
| "list_actions (OnFail d args) = [Add (d, FailList) (user_args args)]"
| "list_actions (OnProgress d args) = [Add (d, ProgressList) (user_args args)]"
| "list_actions (Always d args) = [Add (d, DoneList) (user_args args), Add (d, FailList) (user_args args)]"
| "list_actions (NotifyWith d v) = [FireWith (d, ProgressList) v]"
| "list_actions (ResolveWith d v) = [FireWith (d, DoneList) v]"
| "list_actions (RejectWith d v) = [FireWith (d, FailList) v]"
| "list_actions (Handle d p f r) =
     [Add (d, ProgressHandlers) [Fn (User p)], Add (d, FulfilledHandlers) [Fn (User f)],
      Add (d, RejectedHandlers) [Fn (User r)]]"

record 'w dworld =
  d_state :: "nat \<Rightarrow> string"
  d_user :: 'w

type_synonym ('u, 'v, 'w) program = "'u \<Rightarrow> 'v option \<Rightarrow> 'w \<Rightarrow> 'w \<times> ('u, 'v) d_action list \<times> ending"

text \<open>What the functions on the lists do; \<open>nothing\<close> is the value of a call without one.\<close>

definition deferred_script :: "'v \<Rightarrow> ('u, 'v, 'w) program \<Rightarrow> (dkey, 'u dfn, 'v, 'w dworld) script" where
  "deferred_script nothing prog f v w =
     (case f of
        SetState d state \<Rightarrow> (w\<lparr>d_state := (d_state w)(d := state)\<rparr>, [], Returns False)
      | DisableIt l \<Rightarrow> (w, [Disable l], Returns False)
      | LockIt l \<Rightarrow> (w, [Lock l], Returns False)
      | FireIt l \<Rightarrow> (w, [FireWith l (case v of None \<Rightarrow> nothing | Some u \<Rightarrow> u)], Returns False)
      | User u \<Rightarrow>
          (case prog u v (d_user w) of
             (w', as, result) \<Rightarrow> (w\<lparr>d_user := w'\<rparr>, concat (map list_actions as), result)))"

definition d_start :: "'w \<Rightarrow> (dkey, 'u dfn, 'v, 'w dworld) machine" where
  "d_start w =
     \<lparr>m_lists = new_list, m_world = \<lparr>d_state = (\<lambda>d. ''pending''), d_user = w\<rparr>, m_calls = []\<rparr>"

text \<open>A program of actions on new deferreds.\<close>

definition run_deferred :: "nat \<Rightarrow> 'v \<Rightarrow> ('u, 'v, 'w) program \<Rightarrow> ('u, 'v) d_action list \<Rightarrow> 'w \<Rightarrow>
    ((dkey, 'u dfn, 'v, 'w dworld) machine \<times> bool) option" where
  "run_deferred n nothing prog as w =
     exec n (deferred_script nothing prog) (concat (map list_actions as)) (d_start w)"

section \<open>What the lists hold\<close>

lemma first_fns_simps [simp]:
  "first_fns (d, ProgressList) = [FireIt (d, ProgressHandlers)]"
  "first_fns (d, DoneList) =
     [SetState d ''resolved'', DisableIt (d, FailList), DisableIt (d, RejectedHandlers),
      LockIt (d, ProgressList), LockIt (d, ProgressHandlers), FireIt (d, FulfilledHandlers)]"
  "first_fns (d, FailList) =
     [SetState d ''rejected'', DisableIt (d, DoneList), DisableIt (d, FulfilledHandlers),
      LockIt (d, ProgressList), LockIt (d, ProgressHandlers), FireIt (d, RejectedHandlers)]"
  "first_fns (d, ProgressHandlers) = []" "first_fns (d, FulfilledHandlers) = []"
  "first_fns (d, RejectedHandlers) = []"
  by (simp_all add: first_fns_def tuple_of_def tuples_def wiring_def Let_def upt_rec)

text \<open>A list holds the functions of the constructor it started with and functions of the program.\<close>

definition own_or_user :: "dkey \<Rightarrow> 'u dfn \<Rightarrow> bool" where
  "own_or_user l f \<longleftrightarrow> f \<in> set (first_fns l) \<or> (\<exists>u. f = User u)"

definition well_filled :: "dkey \<Rightarrow> ('u dfn, 'v) callbacks \<Rightarrow> bool" where
  "well_filled l = all_fns (own_or_user l)"

interpretation filled: list_law well_filled own_or_user "\<lambda>l f v. own_or_user l f" "\<lambda>l. True"
  unfolding well_filled_def by (rule members.list_law_axioms)

lemma fns_of_user: "fns_of (map_fn_arg User arg) = map User (fns_of arg)"
  by (induction arg) (simp_all add: map_concat comp_def cong: map_cong)

lemma set_fns_user_args: "set (fns_of (Fns (user_args args))) = User ` set (fns_of (Fns args))"
  by (auto simp: user_args_def fns_of_user)

lemma admitted_user: "a \<in> set (list_actions b) \<Longrightarrow> filled.admitted a"
  by (cases b) (auto simp: filled.admitted_def own_or_user_def fns_of_user user_args_def)

lemma admitted_deferred: "filled.admitted_script (deferred_script nothing prog)"
  unfolding filled.admitted_script_def
proof (intro allI ballI)
  fix f v w a
  assume "a \<in> set (fst (snd (deferred_script nothing prog f v w)))"
  then show "filled.admitted a"
    by (cases f) (auto simp: deferred_script_def filled.admitted_def split: prod.splits dest: admitted_user [unfolded filled.admitted_def])
qed

lemma well_filled_new: "well_filled l (new_list l)"
  by (auto simp: well_filled_def all_fns_def new_list_def new_callbacks_def set_push_all own_or_user_def)

lemma filled_start: "filled.stable_lists (d_start w)"
  by (simp add: filled.stable_lists_def d_start_def well_filled_new)

text \<open>The lists of the two outcomes, before either is fired.\<close>

definition fresh :: "'u dfn list \<Rightarrow> ('u dfn, 'v) callbacks \<Rightarrow> bool" where
  "fresh fs c \<longleftrightarrow> \<not> cb_firing c \<and> \<not> cb_locked c \<and> cb_memory c = None \<and> cb_queue c = [] \<and>
     cb_index c = -1 \<and> (\<exists>us. cb_list c = Some (fs @ us))"

lemma push_all_append: "\<exists>hs. push_all u (fs @ us) gs = fs @ hs"
proof (induction gs arbitrary: us)
  case (Cons g gs)
  then show ?case using Cons [of us] Cons [of "us @ [g]"] by (cases u) auto
qed simp

lemma fresh_add: "fresh fs c \<Longrightarrow> fresh fs (add_args args c)"
  using push_all_append by (auto simp: fresh_def add_args_def)

lemma fresh_no_add_fire: "fresh fs c \<Longrightarrow> \<not> add_fires c"
  by (simp add: fresh_def add_fires_def)

lemma fresh_fires: "fresh fs c \<Longrightarrow> fire_fires c"
  by (simp add: fresh_def fire_fires_def)

lemma fns_of_Fn [simp]: "concat (map (fns_of \<circ> Fn) fs) = fs"
  by (induction fs) simp_all

lemma fresh_new: "fresh (first_fns l) (new_list l)"
proof -
  have "\<not> opt_unique (createOptions (list_options k))" for k
    by (cases k) (simp_all add: createOptions_def html_words_def html_white_def)
  then have "cb_list (new_list l) = Some (first_fns l @ [])"
    by (simp add: new_list_def new_callbacks_def)
  then have "\<exists>us. cb_list (new_list l) = Some (first_fns l @ us)" by blast
  then show ?thesis unfolding fresh_def
    by (intro conjI) (simp_all add: new_list_def new_callbacks_def add_args_def)
qed

section \<open>The outcome\<close>

text \<open>A spent list in a run that returns: it stays spent and is not called.\<close>

lemma spent_admitted [simp]: "spent_list.admitted a" "spent_list.admitted_script sc"
  by (simp_all add: spent_list.admitted_def spent_list.admitted_script_def)

definition silent_from :: "'l \<Rightarrow> ('l, 'f, 'v, 'w) machine \<Rightarrow> ('l, 'f, 'v, 'w) machine \<Rightarrow> bool" where
  "silent_from k m m' \<longleftrightarrow> spent (m_lists m' k) \<and>
     (\<exists>new. m_calls m' = m_calls m @ new \<and> (\<forall>(l, f, v) \<in> set new. l \<noteq> k))"

lemma silent_grows:
  assumes "spent_list.grows k sc m m'"
  shows "silent_from k m m'"
  using assms unfolding silent_from_def spent_list.grows_def spent_list.stable_lists_def by blast

lemma spent_silent:
  assumes "spent (m_lists m k)"
  shows exec_silent: "exec n sc as m = Some (m', t) \<Longrightarrow> silent_from k m m'"
    and outer_silent: "fire_outer n sc l m = Some (m', t) \<Longrightarrow> silent_from k m m'"
    and inner_silent: "fire_inner n sc l m = Some (m', t) \<Longrightarrow> silent_from k m m'"
    and act_silent: "act n sc a m = Some (m', t) \<Longrightarrow> silent_from k m m'"
proof -
  have st: "spent_list.stable_lists k m" using assms by (simp add: spent_list.stable_lists_def)
  show "exec n sc as m = Some (m', t) \<Longrightarrow> silent_from k m m'"
    using st by (intro silent_grows spent_list.exec_grows) simp_all
  show "fire_outer n sc l m = Some (m', t) \<Longrightarrow> silent_from k m m'"
    using st by (intro silent_grows spent_list.outer_grows) simp_all
  show "fire_inner n sc l m = Some (m', t) \<Longrightarrow> silent_from k m m'"
    using st by (intro silent_grows spent_list.inner_grows) simp_all
  show "act n sc a m = Some (m', t) \<Longrightarrow> silent_from k m m'"
    using st by (intro silent_grows spent_list.act_grows) simp_all
qed

definition uncalled :: "'l \<Rightarrow> ('l, 'f, 'v, 'w) machine \<Rightarrow> bool" where
  "uncalled k m \<longleftrightarrow> (\<forall>(l, f, v) \<in> set (m_calls m). l \<noteq> k)"

definition settled :: "nat \<Rightarrow> dlist \<Rightarrow> dlist \<Rightarrow> string \<Rightarrow> (dkey, 'u dfn, 'v, 'w) machine \<Rightarrow> bool" where
  "settled d winner loser state m \<longleftrightarrow> spent (m_lists m (d, loser)) \<and> uncalled (d, loser) m \<and>
     (\<exists>v. ((d, winner), SetState d state, v) \<in> set (m_calls m))"

definition pending :: "nat \<Rightarrow> (dkey, 'u dfn, 'v, 'w) machine \<Rightarrow> bool" where
  "pending d m \<longleftrightarrow>
     (\<forall>k \<in> {DoneList, FailList}. fresh (first_fns (d, k)) (m_lists m (d, k)) \<and> uncalled (d, k) m)"

definition decided :: "nat \<Rightarrow> (dkey, 'u dfn, 'v, 'w) machine \<Rightarrow> bool" where
  "decided d m \<longleftrightarrow> settled d DoneList FailList ''resolved'' m \<or> settled d FailList DoneList ''rejected'' m"

lemma settled_silent:
  "settled d winner loser state m \<Longrightarrow> silent_from (d, loser) m m' \<Longrightarrow> settled d winner loser state m'"
  by (fastforce simp: settled_def silent_from_def uncalled_def)

lemma decided_silent:
  assumes "decided d m" "\<And>k. spent (m_lists m k) \<Longrightarrow> silent_from k m m'"
  shows "decided d m'"
proof -
  have "settled d winner loser state m'" if "settled d winner loser state m" for winner loser state
    using that assms(2) settled_silent by (fastforce simp: settled_def [of d winner loser state m])
  then show ?thesis using assms(1) unfolding decided_def by blast
qed

lemma decided_exec: "decided d m \<Longrightarrow> exec n sc as m = Some (m', t) \<Longrightarrow> decided d m'"
  by (rule decided_silent) (auto intro: exec_silent)

lemma decided_act: "decided d m \<Longrightarrow> act n sc a m = Some (m', t) \<Longrightarrow> decided d m'"
  by (rule decided_silent) (auto intro: act_silent)

lemma decided_outer: "decided d m \<Longrightarrow> fire_outer n sc l m = Some (m', t) \<Longrightarrow> decided d m'"
  by (rule decided_silent) (auto intro: outer_silent)

lemma decided_inner: "decided d m \<Longrightarrow> fire_inner n sc l m = Some (m', t) \<Longrightarrow> decided d m'"
  by (rule decided_silent) (auto intro: inner_silent)

text \<open>Steps on other lists leave the outcome open.\<close>

lemma pending_on_list:
  "pending d m \<Longrightarrow> (\<And>k. k \<in> {DoneList, FailList} \<Longrightarrow> l = (d, k) \<Longrightarrow> fresh (first_fns l) (g (m_lists m l))) \<Longrightarrow>
     pending d (on_list l g m)"
  by (auto simp: pending_def uncalled_def)

definition outcome_list :: "nat \<Rightarrow> dkey \<Rightarrow> bool" where
  "outcome_list d l \<longleftrightarrow> l = (d, DoneList) \<or> l = (d, FailList)"

lemma pending_other: "pending d m \<Longrightarrow> \<not> outcome_list d l \<Longrightarrow> pending d (on_list l g m)"
  by (rule pending_on_list) (auto simp: outcome_list_def)

lemma pending_called: "pending d m \<Longrightarrow> \<not> outcome_list d l \<Longrightarrow> pending d (called l f v w m)"
  by (auto simp: pending_def uncalled_def outcome_list_def)

text \<open>Firing the list of an outcome decides the deferred: its first two functions set the state
  and disable the other list.\<close>

lemma wired_two:
  assumes "(k, other, state) \<in> {(DoneList, FailList, ''resolved''), (FailList, DoneList, ''rejected'')}"
  shows "\<exists>fs. first_fns (d, k) = SetState d state # DisableIt (d, other) # fs"
  using assms by auto

lemma inner_decides:
  fixes m :: "(dkey, 'u dfn, 'v, 'w dworld) machine"
  assumes run: "fire_inner n (deferred_script nothing prog) (d, k) m = Some (m', t)"
    and k: "(k, other, state) \<in> {(DoneList, FailList, ''resolved''), (FailList, DoneList, ''rejected'')}"
    and c: "cb_list (m_lists m (d, k)) = Some (first_fns (d, k) @ us)" "cb_index (m_lists m (d, k)) = -1"
    and un: "uncalled (d, other) m"
  shows "decided d m'"
proof -
  define sc where "sc = deferred_script nothing prog"
  obtain fs :: "'u dfn list" where fs: "first_fns (d, k) = SetState d state # DisableIt (d, other) # fs"
    using wired_two [OF k] by metis
  have ne: "(d, k) \<noteq> (d, other)" using k by auto
  have dec: "decided d m2" if "settled d k other state m2" for m2 :: "(dkey, 'u dfn, 'v, 'w dworld) machine"
    using that k by (auto simp: decided_def)
  define v where "v = cb_memory (m_lists m (d, k))"
  obtain w1 where w1: "sc (SetState d state) v (m_world m) = (w1, [], Returns False)"
    by (simp add: sc_def deferred_script_def)
  define m1 where "m1 = called (d, k) (SetState d state) v w1 (on_list (d, k) next_index m)"
  have f1: "current_fn (next_index (m_lists m (d, k))) = Some (SetState d state)"
    using c fs by (simp add: current_fn_def next_index_def)
  obtain n1 where r1: "fire_inner n1 sc (d, k) m1 = Some (m', t)"
    using inner_step [OF run [folded sc_def] f1 w1 [unfolded v_def], of m1]
    unfolding m1_def v_def by (meson exec_Nil)
  define l2 where "l2 = m_lists m1 (d, k)"
  have l2: "cb_list l2 = Some (first_fns (d, k) @ us)" "cb_index l2 = 0"
    using c by (simp_all add: l2_def m1_def next_index_def)
  have w2: "sc (DisableIt (d, other)) (cb_memory l2) (m_world m1) = (m_world m1, [Disable (d, other)], Returns False)"
    by (simp add: sc_def deferred_script_def)
  define m2 where "m2 = on_list (d, other) cb_disable
    (called (d, k) (DisableIt (d, other)) (cb_memory l2) (m_world m1) (on_list (d, k) next_index m1))"
  have f2: "current_fn (next_index l2) = Some (DisableIt (d, other))"
    using l2 fs by (simp add: current_fn_def next_index_def)
  obtain n2 where r2: "fire_inner n2 sc (d, k) m2 = Some (m', t)"
    using inner_step [OF r1 f2 [unfolded l2_def] w2 [unfolded l2_def], of m2]
    unfolding m2_def l2_def by (meson exec_Disable)
  have "settled d k other state m2"
    using un ne by (auto simp: settled_def m2_def m1_def spent_disable uncalled_def)
  then show ?thesis using dec decided_inner r2 by blast
qed

lemma outer_decides:
  assumes run: "fire_outer n (deferred_script nothing prog) (d, k) m = Some (m', t)"
    and k: "(k, other, state) \<in> {(DoneList, FailList, ''resolved''), (FailList, DoneList, ''rejected'')}"
    and c: "cb_list (m_lists m (d, k)) = Some (first_fns (d, k) @ us)" "cb_index (m_lists m (d, k)) = -1"
    and q: "cb_queue (m_lists m (d, k)) \<noteq> []" and un: "uncalled (d, other) m"
  shows "decided d m'"
proof -
  have start: "cb_list (m_lists (on_list (d, k) shift_queue m) (d, k)) = Some (first_fns (d, k) @ us)"
    "cb_index (m_lists (on_list (d, k) shift_queue m) (d, k)) = -1"
    "uncalled (d, other) (on_list (d, k) shift_queue m)"
    using c un by (simp_all add: shift_queue_def uncalled_def)
  have reset: "decided d (on_list l reset_index m1)" if "decided d m1" for l and m1 :: "(dkey, 'a dfn, 'b, 'c dworld) machine"
    using that by (auto simp: decided_def settled_def uncalled_def spent_def reset_index_def)
  show ?thesis using run
  proof (cases rule: outer_Some)
    case (2 j m1)
    then show ?thesis using inner_decides [OF _ k start] by blast
  next
    case (3 j m1)
    then have "decided d m1" using inner_decides [OF _ k start] by blast
    then show ?thesis using 3 reset decided_outer by blast
  qed (use q in simp)
qed

text \<open>An action of a program, or of a function of another list.\<close>

definition harmless :: "nat \<Rightarrow> (dkey, 'u dfn, 'v) cb_action \<Rightarrow> bool" where
  "harmless d a \<longleftrightarrow>
     (case a of
        Add l args \<Rightarrow> True
      | FireWith l v \<Rightarrow> True
      | Remove l fs \<Rightarrow> \<not> outcome_list d l
      | Empty l \<Rightarrow> \<not> outcome_list d l
      | Disable l \<Rightarrow> \<not> outcome_list d l
      | Lock l \<Rightarrow> \<not> outcome_list d l)"

lemma harmless_user: "a \<in> set (list_actions b) \<Longrightarrow> harmless d a"
  by (cases b) (auto simp: harmless_def)

lemma harmless_call:
  assumes "own_or_user l f" "\<not> outcome_list d l"
    and "deferred_script nothing prog f v w = (w', as, result)" "a \<in> set as"
  shows "harmless d a"
proof (cases f)
  case (User u)
  then show ?thesis using assms(3,4) harmless_user by (auto simp: deferred_script_def split: prod.splits)
next
  case (DisableIt k)
  then show ?thesis using assms
    by (cases l; cases "snd l") (auto simp: deferred_script_def harmless_def own_or_user_def outcome_list_def)
next
  case (LockIt k)
  then show ?thesis using assms
    by (cases l; cases "snd l") (auto simp: deferred_script_def harmless_def own_or_user_def outcome_list_def)
qed (use assms in \<open>auto simp: deferred_script_def harmless_def\<close>)

definition open_or_decided :: "nat \<Rightarrow> (dkey, 'u dfn, 'v, 'w) machine \<Rightarrow> bool" where
  "open_or_decided d m \<longleftrightarrow> filled.stable_lists m \<and> (pending d m \<or> decided d m)"

lemma filled_exec:
  "exec n (deferred_script nothing prog) as m = Some (m', t) \<Longrightarrow> \<forall>a \<in> set as. filled.admitted a \<Longrightarrow>
     filled.stable_lists m \<Longrightarrow> filled.stable_lists m'"
  by (rule filled.grows_stable [OF filled.exec_grows [OF admitted_deferred]])

lemma filled_act:
  "act n (deferred_script nothing prog) a m = Some (m', t) \<Longrightarrow> filled.admitted a \<Longrightarrow>
     filled.stable_lists m \<Longrightarrow> filled.stable_lists m'"
  by (rule filled.grows_stable [OF filled.act_grows [OF admitted_deferred]])

lemma filled_outer:
  "fire_outer n (deferred_script nothing prog) l m = Some (m', t) \<Longrightarrow> filled.stable_lists m \<Longrightarrow>
     filled.stable_lists m'"
  by (rule filled.grows_stable [OF filled.outer_grows [OF admitted_deferred]]) simp_all

lemma filled_inner:
  "fire_inner n (deferred_script nothing prog) l m = Some (m', t) \<Longrightarrow> filled.stable_lists m \<Longrightarrow>
     filled.stable_lists m'"
  by (rule filled.grows_stable [OF filled.inner_grows [OF admitted_deferred]]) simp_all

lemma pending_act_outcome:
  fixes m :: "(dkey, 'u dfn, 'v, 'w dworld) machine"
  assumes run: "act n (deferred_script nothing prog) a m = Some (m', t)"
    and a: "harmless d a" "filled.admitted a" and p: "pending d m" "filled.stable_lists m"
    and other: "\<And>l g. \<not> outcome_list d l \<Longrightarrow> n = Suc k \<Longrightarrow>
      fire_outer k (deferred_script nothing prog) l (on_list l g m) = Some (m', t) \<Longrightarrow>
      filled.stable_lists (on_list l g m) \<Longrightarrow> pending d (on_list l g m) \<Longrightarrow> pending d m' \<or> decided d m'"
    and n: "n = Suc k"
  shows "pending d m' \<or> decided d m'"
proof -
  define sc where "sc = deferred_script nothing prog"
  note run = run [unfolded n, folded sc_def] and other = other [OF _ n, folded sc_def]
  have fresh: "fresh (first_fns l) (m_lists m l)" if "outcome_list d l" for l
    using p that by (auto simp: pending_def outcome_list_def)
  have filled: "filled.stable_lists (on_list l g m)" if "well_filled l (g (m_lists m l))" for l g
    using that p by (simp add: filled.stable_lists_def)
  have wf: "well_filled l (m_lists m l)" for l using p(2) unfolding filled.stable_lists_def by blast
  show ?thesis
  proof (cases a)
    case (Add l args)
    have "well_filled l ((start_fire \<circ> add_args args) (m_lists m l))"
      unfolding comp_apply using a(2) Add
      by (intro filled.stable_start filled.stable_add wf) (simp_all add: filled.admitted_def)
    note fl = filled [where g = "start_fire \<circ> add_args args", OF this]
    show ?thesis
    proof (cases "outcome_list d l")
      case True
      then have "m' = on_list l (add_args args) m"
        using run Add fresh_no_add_fire [OF fresh [OF True]] by simp
      then show ?thesis using p fresh [OF True] by (auto intro!: pending_on_list fresh_add)
    next
      case False
      then show ?thesis using run Add p other [OF False _ fl] pending_other [OF p(1) False]
        by (auto split: if_splits)
    qed
  next
    case (FireWith l v)
    have "well_filled l ((start_fire \<circ> queue_value v) (m_lists m l))"
      unfolding comp_apply by (intro filled.stable_start filled.stable_queue wf) simp
    note fl = filled [where g = "start_fire \<circ> queue_value v", OF this]
    show ?thesis
    proof (cases "outcome_list d l")
      case True
      obtain kk other state where l: "l = (d, kk)"
        and k: "(kk, other, state) \<in> {(DoneList, FailList, ''resolved''), (FailList, DoneList, ''rejected'')}"
        using True by (auto simp: outcome_list_def)
      note fr = fresh [OF True, unfolded l]
      obtain us where us: "cb_list (m_lists m l) = Some (first_fns l @ us)"
        using fr l by (auto simp: fresh_def)
      define m1 where "m1 = on_list l (start_fire \<circ> queue_value v) m"
      have "fire_outer k (deferred_script nothing prog) (d, kk) m1 = Some (m', t)"
        using run FireWith fresh_fires [OF fresh [OF True]] l by (simp add: m1_def sc_def)
      moreover have "cb_list (m_lists m1 (d, kk)) = Some (first_fns (d, kk) @ us)"
        "cb_index (m_lists m1 (d, kk)) = -1" "cb_queue (m_lists m1 (d, kk)) \<noteq> []" "uncalled (d, other) m1"
        using us fr l p k by (auto simp: m1_def fresh_def start_fire_def queue_value_def pending_def uncalled_def)
      ultimately have "decided d m'" by (rule outer_decides [OF _ k])
      then show ?thesis by blast
    next
      case False
      then show ?thesis using run FireWith p other [OF False _ fl] pending_other [OF p(1) False]
        by (auto split: if_splits)
    qed
  qed (use a run p in \<open>auto simp: harmless_def intro: pending_other\<close>)
qed

lemma decided_or_open:
  "decided d m \<Longrightarrow> filled.stable_lists m \<Longrightarrow> open_or_decided d m"
  by (simp add: open_or_decided_def)

lemma open_called:
  assumes "open_or_decided d m" "\<not> outcome_list d l"
  shows "open_or_decided d (called l f v w m)"
proof -
  have "decided d m \<Longrightarrow> decided d (called l f v w m)"
    using assms(2) by (auto simp: decided_def settled_def uncalled_def outcome_list_def)
  then show ?thesis using assms pending_called
    by (fastforce simp: open_or_decided_def filled.stable_lists_def)
qed

lemma runs_open:
  fixes prog :: "('u, 'v, 'w) program"
  shows "(\<forall>as m m' t. exec n (deferred_script nothing prog) as m = Some (m', t) \<longrightarrow>
      (\<forall>a \<in> set as. filled.admitted a \<and> harmless d a) \<longrightarrow> open_or_decided d m \<longrightarrow> open_or_decided d m') \<and>
    (\<forall>a m m' t. act n (deferred_script nothing prog) a m = Some (m', t) \<longrightarrow>
      filled.admitted a \<and> harmless d a \<longrightarrow> open_or_decided d m \<longrightarrow> open_or_decided d m') \<and>
    (\<forall>l m m' t. fire_outer n (deferred_script nothing prog) l m = Some (m', t) \<longrightarrow>
      \<not> outcome_list d l \<longrightarrow> open_or_decided d m \<longrightarrow> open_or_decided d m') \<and>
    (\<forall>l m m' t. fire_inner n (deferred_script nothing prog) l m = Some (m', t) \<longrightarrow>
      \<not> outcome_list d l \<longrightarrow> open_or_decided d m \<longrightarrow> open_or_decided d m')"
proof (induction n)
  case 0
  then show ?case by simp
next
  case (Suc n)
  define sc where "sc = deferred_script nothing prog"
  note IH = Suc [folded sc_def]
  have ex: "exec n sc as m = Some (m', t) \<Longrightarrow> \<forall>a \<in> set as. filled.admitted a \<and> harmless d a \<Longrightarrow>
      open_or_decided d m \<Longrightarrow> open_or_decided d m'"
    and ac: "act n sc a m = Some (m', t) \<Longrightarrow> filled.admitted a \<and> harmless d a \<Longrightarrow> open_or_decided d m \<Longrightarrow> open_or_decided d m'"
    and ou: "fire_outer n sc l m = Some (m', t) \<Longrightarrow> \<not> outcome_list d l \<Longrightarrow> open_or_decided d m \<Longrightarrow> open_or_decided d m'"
    and inn: "fire_inner n sc l m = Some (m', t) \<Longrightarrow> \<not> outcome_list d l \<Longrightarrow> open_or_decided d m \<Longrightarrow> open_or_decided d m'"
    for as a l m m' t using IH by blast+
  have on: "open_or_decided d (on_list l g m)"
    if "open_or_decided d m" "\<not> outcome_list d l" "well_filled l (m_lists m l) \<Longrightarrow> well_filled l (g (m_lists m l))"
    for l g and m :: "(dkey, 'u dfn, 'v, 'w dworld) machine"
    using that pending_other [of d m l g]
    by (auto simp: open_or_decided_def filled.stable_lists_def decided_def settled_def uncalled_def outcome_list_def)
  have exec: "open_or_decided d m'"
    if run: "exec (Suc n) sc as m = Some (m', t)" and as: "\<forall>a \<in> set as. filled.admitted a \<and> harmless d a"
      and m: "open_or_decided d m" for as m m' t
    using run
  proof (cases rule: exec_Some)
    case (3 k a as' m1)
    then show ?thesis using as m ac [of a m m1 False] ex [of as' m1 m' t] by simp
  qed (use as m ac in auto)
  have act: "open_or_decided d m'"
    if run: "act (Suc n) sc a m = Some (m', t)" and a: "filled.admitted a" "harmless d a"
      and m: "open_or_decided d m" for a m m' t
  proof (cases "decided d m")
    case True
    then show ?thesis using decided_act [OF True run] filled_act [OF run [unfolded sc_def] a(1)] m
      by (simp add: open_or_decided_def)
  next
    case False
    then have p: "pending d m" "filled.stable_lists m" using m by (simp_all add: open_or_decided_def)
    have "pending d m' \<or> decided d m'"
    proof (rule pending_act_outcome [OF run [unfolded sc_def] a(2,1) p, of n])
      fix l g
      assume l: "\<not> outcome_list d l"
        and o: "fire_outer n (deferred_script nothing prog) l (on_list l g m) = Some (m', t)"
        and "filled.stable_lists (on_list l g m)" "pending d (on_list l g m)"
      then have "open_or_decided d (on_list l g m)" by (simp add: open_or_decided_def)
      then show "pending d m' \<or> decided d m'"
        using ou [OF o [folded sc_def] l] by (simp add: open_or_decided_def)
    qed simp
    moreover have "filled.stable_lists m'" using filled_act [OF run [unfolded sc_def] a(1) p(2)] .
    ultimately show ?thesis by (simp add: open_or_decided_def)
  qed
  have outer: "open_or_decided d m'"
    if "fire_outer (Suc n) sc l m = Some (m', t)" and l: "\<not> outcome_list d l" and m: "open_or_decided d m" for l m m' t
    using that(1)
  proof (cases rule: outer_Some)
    case (1 k)
    then show ?thesis using on [OF m l] filled.stable_finish by blast
  next
    case (2 k m1)
    then show ?thesis using on [OF m l] filled.stable_shift inn l by blast
  next
    case (3 k m1)
    then have "open_or_decided d m1" using on [OF m l] filled.stable_shift inn l by blast
    then show ?thesis using 3 on [OF _ l] filled.stable_reset ou l by blast
  qed
  have call: "open_or_decided d m2"
    if m: "open_or_decided d m" and l: "\<not> outcome_list d l"
      and f: "current_fn (next_index (m_lists m l)) = Some f"
      and r: "sc f (cb_memory (m_lists m l)) (m_world m) = (w, as, r)"
      and e: "exec n sc as (called l f (cb_memory (m_lists m l)) w (on_list l next_index m)) = Some (m2, u)"
    for l m m2 f w as r u
  proof -
    have "well_filled l (m_lists m l)" using m unfolding open_or_decided_def filled.stable_lists_def by blast
    then have own: "own_or_user l f" using f by (intro filled.calls_callable) simp_all
    have "\<forall>a \<in> set as. filled.admitted a"
      using admitted_deferred r unfolding filled.admitted_script_def sc_def by (metis fst_conv snd_conv)
    then have as: "\<forall>a \<in> set as. filled.admitted a \<and> harmless d a"
      using harmless_call [OF own l r [unfolded sc_def]] by blast
    have "open_or_decided d (on_list l next_index m)" using on [OF m l] filled.stable_next by blast
    then have "open_or_decided d (called l f (cb_memory (m_lists m l)) w (on_list l next_index m))"
      using l by (rule open_called)
    then show ?thesis by (rule ex [OF e as])
  qed
  have inner: "open_or_decided d m'"
    if "fire_inner (Suc n) sc l m = Some (m', t)" and l: "\<not> outcome_list d l" and m: "open_or_decided d m" for l m m' t
    using that(1)
  proof (cases rule: inner_Some)
    case (1 k)
    then show ?thesis using on [OF m l] filled.stable_next by blast
  next
    case (2 k f w as r m2)
    then show ?thesis using call [OF m l 2(2,3)] by auto
  next
    case (3 k f w as b m2)
    then have m2: "open_or_decided d m2" using call [OF m l 3(2,3), of m2 False] by simp
    have "open_or_decided d (if b \<and> opt_stop (cb_flags (m_lists m2 l)) then on_list l stop_firing m2 else m2)"
    proof -
      have "open_or_decided d (on_list l stop_firing m2)" using on [OF m2 l] filled.stable_stop by blast
      then show ?thesis using m2 by simp
    qed
    then show ?thesis using 3(1,5) inn l by simp
  qed
  show ?case using exec act outer inner unfolding sc_def by blast
qed

text \<open>The state of a deferred is what the last call that set it says.\<close>

definition state_of_calls :: "nat \<Rightarrow> (dkey \<times> 'u dfn \<times> 'v option) list \<Rightarrow> string" where
  "state_of_calls d =
     (\<lambda>calls. fold (\<lambda>(l, f, v) st. case f of SetState e s \<Rightarrow> if e = d then s else st | _ \<Rightarrow> st) calls ''pending'')"

text \<open>What holds of a machine after any run from new deferreds.\<close>

definition sound_deferreds :: "(dkey, 'u dfn, 'v, 'w dworld) machine \<Rightarrow> bool" where
  "sound_deferreds m \<longleftrightarrow> (\<forall>d. open_or_decided d m) \<and>
     (\<forall>d. d_state (m_world m) d = state_of_calls d (m_calls m)) \<and>
     (\<forall>(l, f, v) \<in> set (m_calls m). own_or_user l f)"

lemma sound_start: "sound_deferreds (d_start w :: (dkey, 'u dfn, 'v, 'w dworld) machine)"
proof -
  let ?m = "d_start w :: (dkey, 'u dfn, 'v, 'w dworld) machine"
  have "pending d ?m" for d
    by (auto simp: pending_def d_start_def uncalled_def fresh_new)
  then have "\<forall>d. open_or_decided d ?m" by (simp add: open_or_decided_def filled_start)
  then show ?thesis by (simp add: sound_deferreds_def) (simp add: d_start_def state_of_calls_def)
qed

lemma fold_world_state:
  "d_state (fold (\<lambda>(l, f, v) w. fst (deferred_script nothing prog f v w)) calls w) d =
     fold (\<lambda>(l, f, v) st. case f of SetState e s \<Rightarrow> if e = d then s else st | _ \<Rightarrow> st) calls (d_state w d)"
proof (induction calls arbitrary: w)
  case (Cons c calls)
  obtain l f v where c: "c = (l, f, v)" by (metis prod_cases3)
  show ?case using Cons by (cases f) (auto simp: c deferred_script_def split: prod.splits)
qed simp

lemma sound_exec:
  fixes m :: "(dkey, 'u dfn, 'v, 'w dworld) machine"
  assumes run: "exec n (deferred_script nothing prog) (concat (map list_actions as)) m = Some (m', t)"
    and m: "sound_deferreds m"
  shows "sound_deferreds m'"
proof -
  have stable: "filled.stable_lists m" using m by (simp add: sound_deferreds_def open_or_decided_def)
  have acts: "\<forall>a \<in> set (concat (map list_actions as)). filled.admitted a \<and> harmless d a" for d
    using admitted_user harmless_user by fastforce
  then have open': "open_or_decided d m'" for d
    using conjunct1 [OF runs_open [of n nothing prog d]] run acts [of d] m
    unfolding sound_deferreds_def by metis
  have "filled.grows (deferred_script nothing prog) m m'"
    using acts by (intro filled.exec_grows [OF admitted_deferred run _ stable]) blast
  then obtain new where new: "m_calls m' = m_calls m @ new" "\<forall>(l, f, v) \<in> set new. own_or_user l f"
    "m_world m' = fold (\<lambda>(l, f, v) w. fst (deferred_script nothing prog f v w)) new (m_world m)"
    unfolding filled.grows_def by auto
  have "d_state (m_world m') d = state_of_calls d (m_calls m')" for d
    using m new(1,3) by (simp add: fold_world_state state_of_calls_def sound_deferreds_def)
  then show ?thesis using m new open' by (auto simp: sound_deferreds_def)
qed

lemma sound_run: "run_deferred n nothing prog as w = Some (m, t) \<Longrightarrow> sound_deferreds m"
  unfolding run_deferred_def by (rule sound_exec [OF _ sound_start])

text \<open>The page may change its own state between two runs.\<close>

lemma sound_user:
  assumes "sound_deferreds m"
  shows "sound_deferreds (m\<lparr>m_world := (m_world m)\<lparr>d_user := w\<rparr>\<rparr>)"
proof -
  let ?m = "m\<lparr>m_world := (m_world m)\<lparr>d_user := w\<rparr>\<rparr>"
  have "open_or_decided d ?m \<longleftrightarrow> open_or_decided d m" for d
    by (simp add: open_or_decided_def filled.stable_lists_def pending_def decided_def settled_def uncalled_def)
  then show ?thesis using assms by (simp add: sound_deferreds_def)
qed

lemma fold_state_only:
  assumes "\<forall>(l, f, v) \<in> set calls. \<forall>s. f = SetState d s \<longrightarrow> s = st"
  shows "fold (\<lambda>(l, f, v) st. case f of SetState e s \<Rightarrow> if e = d then s else st | _ \<Rightarrow> st) calls x =
    (if \<exists>l v. (l, SetState d st, v) \<in> set calls then st else x)"
  using assms
proof (induction calls arbitrary: x)
  case (Cons c calls)
  obtain l f v where c: "c = (l, f, v)" by (metis prod_cases3)
  show ?case using Cons by (cases f) (auto simp: c)
qed simp

lemma settled_state:
  fixes m :: "(dkey, 'u dfn, 'v, 'w dworld) machine"
  assumes m: "sound_deferreds m"
    and k: "(k, other, state) \<in> {(DoneList, FailList, ''resolved''), (FailList, DoneList, ''rejected'')}"
    and s: "settled d k other state m"
  shows "d_state (m_world m) d = state"
proof -
  have "st = state" if "(l, SetState d st, v) \<in> set (m_calls m)" for l st v
  proof -
    have "own_or_user l (SetState d st :: 'u dfn)" using m that by (auto simp: sound_deferreds_def)
    moreover have "l \<noteq> (d, other)" using s that by (auto simp: settled_def uncalled_def)
    ultimately show ?thesis using k
      by (cases l; cases "snd l") (auto simp: own_or_user_def)
  qed
  then have only: "\<forall>(l, f, v) \<in> set (m_calls m). \<forall>s. f = SetState d s \<longrightarrow> s = state" by auto
  moreover have "\<exists>l v. (l, SetState d state, v) \<in> set (m_calls m)" using s by (auto simp: settled_def)
  moreover have "d_state (m_world m) d = state_of_calls d (m_calls m)" using m by (simp add: sound_deferreds_def)
  ultimately show ?thesis unfolding state_of_calls_def fold_state_only [OF only] by simp
qed

text \<open>A call by the list of one outcome, the state, and silence of the other outcome.\<close>

lemma sound_outcome:
  fixes m :: "(dkey, 'u dfn, 'v, 'w dworld) machine"
  assumes m: "sound_deferreds m"
    and k: "(k, other, state) \<in> {(DoneList, FailList, ''resolved''), (FailList, DoneList, ''rejected'')}"
    and call: "((d, k), f, v) \<in> set (m_calls m)"
  shows "d_state (m_world m) d = state \<and> (\<forall>f' v'. ((d, other), f', v') \<notin> set (m_calls m))"
proof -
  have "open_or_decided d m" using m by (simp add: sound_deferreds_def)
  then have "settled d k other state m"
    using k call by (auto simp: open_or_decided_def pending_def decided_def settled_def uncalled_def)
  then show ?thesis using settled_state [OF m k] by (auto simp: settled_def uncalled_def)
qed

end
