(* ===== verification/Jq_Data.thy ===== *)
theory Jq_Data
  imports Jq_Strings Js_Values
begin

text \<open>
  The data cache of docs/_static/jquery-3.5.1.js (\<open>Data\<close>). Owners are numbered and known by
  their node type; an instance of \<open>Data\<close> maps an owner to the property list it has put on it.
  \<open>undef\<close> is \<open>undefined\<close> among the values and \<open>proto\<close> the properties every object inherits; no
  key is \<open>__proto__\<close>.
  The last section has the law of the cache that its clients use; \<open>Jq_Queue\<close> states the interface
  of a client and shows that the cache provides it.
\<close>

section \<open>Owners and caches\<close>

text \<open>The node type of an owner, if it has one.\<close>

definition acceptData :: "nat option \<Rightarrow> bool" where
  "acceptData nodeType \<longleftrightarrow> nodeType = Some 1 \<or> nodeType = Some 9 \<or> nodeType = None \<or> nodeType = Some 0"

type_synonym 'v cache = "(string \<times> 'v) list"
type_synonym 'v data = "nat \<Rightarrow> 'v cache option"

definition data_new :: "'v data" where
  "data_new = (\<lambda>a. None)"

text \<open>\<open>cache\<close>: the cache of an owner, and the instance, in which a new cache is stored if the
  owner accepts data.\<close>

definition data_cache :: "(nat \<Rightarrow> nat option) \<Rightarrow> nat \<Rightarrow> 'v data \<Rightarrow> 'v cache \<times> 'v data" where
  "data_cache node owner d =
     (case d owner of
        Some value \<Rightarrow> (value, d)
      | None \<Rightarrow> ([], if acceptData (node owner) then d(owner := Some []) else d))"

datatype 'v data_arg = KeyArg string | PropsArg "'v cache"

definition data_set :: "(nat \<Rightarrow> nat option) \<Rightarrow> nat \<Rightarrow> 'v data_arg \<Rightarrow> 'v \<Rightarrow> 'v data \<Rightarrow> 'v cache \<times> 'v data" where
  "data_set node owner arg value d =
     (case data_cache node owner d of
        (cache, d1) \<Rightarrow>
          (let cache' =
             (case arg of
                KeyArg k \<Rightarrow> put (camelCase k) value cache
              | PropsArg ps \<Rightarrow> put_all (map (\<lambda>(p, v). (camelCase p, v)) ps) cache)
           in (cache', if d1 owner = None then d1 else d1(owner := Some cache'))))"

definition cache_get :: "'v \<Rightarrow> 'v cache \<Rightarrow> 'v cache \<Rightarrow> string \<Rightarrow> 'v" where
  "cache_get undef proto cache k =
     (case map_of cache k of Some v \<Rightarrow> v | None \<Rightarrow> (case map_of proto k of Some v \<Rightarrow> v | None \<Rightarrow> undef))"

text \<open>\<open>get\<close> with a key, and without one.\<close>

definition data_get :: "'v \<Rightarrow> 'v cache \<Rightarrow> nat \<Rightarrow> string \<Rightarrow> 'v data \<Rightarrow> 'v" where
  "data_get undef proto owner key d =
     (case d owner of None \<Rightarrow> undef | Some cache \<Rightarrow> cache_get undef proto cache (camelCase key))"

definition data_get_all :: "(nat \<Rightarrow> nat option) \<Rightarrow> nat \<Rightarrow> 'v data \<Rightarrow> 'v cache \<times> 'v data" where
  "data_get_all = data_cache"

datatype 'v data_result = All "'v cache" | One 'v | Given "'v data_arg"

definition data_access :: "'v \<Rightarrow> 'v cache \<Rightarrow> (nat \<Rightarrow> nat option) \<Rightarrow> nat \<Rightarrow> 'v data_arg option \<Rightarrow> 'v \<Rightarrow>
    'v data \<Rightarrow> 'v data_result \<times> 'v data" where
  "data_access undef proto node owner key value d =
     (case key of
        None \<Rightarrow> (case data_get_all node owner d of (c, d1) \<Rightarrow> (All c, d1))
      | Some arg \<Rightarrow>
          (case (arg, value = undef) of
             (KeyArg (ch # k), True) \<Rightarrow> (One (data_get undef proto owner (ch # k) d), d)
           | _ \<Rightarrow> ((if value \<noteq> undef then One value else Given arg), snd (data_set node owner arg value d))))"

section \<open>Removal\<close>

datatype remove_key = AllKeys | OneKey string | Keys "string list"

definition removed_keys :: "'v cache \<Rightarrow> remove_key \<Rightarrow> 'v cache \<Rightarrow> string list" where
  "removed_keys proto key cache =
     (case key of
        AllKeys \<Rightarrow> []
      | Keys ks \<Rightarrow> map camelCase ks
      | OneKey k \<Rightarrow>
          (let k' = camelCase k in
           if k' \<in> fst ` set cache \<or> k' \<in> fst ` set proto then [k'] else html_words k'))"

definition data_remove :: "'v cache \<Rightarrow> nat \<Rightarrow> remove_key \<Rightarrow> 'v data \<Rightarrow> 'v data" where
  "data_remove proto owner key d =
     (case d owner of
        None \<Rightarrow> d
      | Some cache \<Rightarrow>
          (let cache' = filter (\<lambda>p. fst p \<notin> set (removed_keys proto key cache)) cache in
           d(owner := (if key = AllKeys \<or> cache' = [] then None else Some cache'))))"

definition hasData :: "nat \<Rightarrow> 'v data \<Rightarrow> bool" where
  "hasData owner d = (case d owner of None \<Rightarrow> False | Some cache \<Rightarrow> cache \<noteq> [])"

section \<open>Values of data attributes\<close>

text \<open>\<open>getData\<close>: \<open>parse\<close> is \<open>JSON.parse\<close> of the engine, \<open>None\<close> when it throws.\<close>

definition braced :: "string \<Rightarrow> bool" where
  "braced s \<longleftrightarrow> length s \<ge> 2 \<and>
     (hd s = CHR ''{'' \<and> last s = CHR ''}'' \<or> hd s = CHR ''['' \<and> last s = CHR '']'')"

definition getData :: "(string \<Rightarrow> jsval option) \<Rightarrow> string \<Rightarrow> jsval option" where
  "getData parse data =
     (if data = ''true'' then Some (Bool True)
      else if data = ''false'' then Some (Bool False)
      else if data = ''null'' then Some Null
      else if data = number_to_string (string_to_number data) then Some (Num (string_to_number data))
      else if braced data then parse data
      else Some (Str data))"

text \<open>\<open>key.replace(rmultiDash, "-$&").toLowerCase()\<close>, after \<open>data-\<close>.\<close>

definition upper_letter :: "char \<Rightarrow> bool" where
  "upper_letter c = (let n = (of_char c :: nat) in 65 \<le> n \<and> n \<le> 90)"

definition lower :: "char \<Rightarrow> char" where
  "lower c = (if upper_letter c then char_of ((of_char c :: nat) + 32) else c)"

definition attr_name :: "string \<Rightarrow> string" where
  "attr_name key =
     ''data-'' @ map lower (concat (map (\<lambda>c. if upper_letter c then [CHR ''-'', c] else [c]) key))"

definition dataAttr :: "(string \<Rightarrow> jsval option) \<Rightarrow> (nat \<Rightarrow> nat option) \<Rightarrow> (nat \<Rightarrow> string \<Rightarrow> string option) \<Rightarrow>
    nat \<Rightarrow> string \<Rightarrow> jsval \<Rightarrow> jsval data \<Rightarrow> jsval \<times> jsval data" where
  "dataAttr parse node attrs elem key data d =
     (if data = Undefined \<and> node elem = Some 1 then
        (case attrs elem (attr_name key) of
           None \<Rightarrow> (Undefined, d)
         | Some s \<Rightarrow>
             (let v = (case getData parse s of Some w \<Rightarrow> w | None \<Rightarrow> Str s)
              in (v, snd (data_set node elem (KeyArg key) v d))))
      else (data, d))"

section \<open>Laws\<close>

lemma map_of_filter_keys:
  "map_of (filter (\<lambda>p. fst p \<notin> S) ps) k = (if k \<in> S then None else map_of ps k)"
  by (induction ps) auto

lemma data_get_set:
  assumes "acceptData (node o1)"
  shows "data_get undef proto o2 k2 (snd (data_set node o1 (KeyArg k1) v d)) =
    (if o1 = o2 \<and> camelCase k1 = camelCase k2 then v
     else if o1 = o2 \<and> d o1 = None then cache_get undef proto [] (camelCase k2)
     else data_get undef proto o2 k2 d)"
  using assms by (auto simp: data_set_def data_cache_def data_get_def cache_get_def Let_def split: option.splits)

end
