(* ===== verification/Jq_Queue.thy ===== *)
theory Jq_Queue
  imports Jq_Data
begin

text \<open>
  Queues of docs/_static/jquery-3.5.1.js: \<open>queue\<close>, \<open>dequeue\<close>, \<open>_queueHooks\<close>, \<open>clearQueue\<close> and \<open>promise\<close>. A
  queue and its hooks are kept in the private data of an element; a function on a queue is a
  number, and an operation returns the function it calls at its end. The operations use the data
  through the interface \<open>key_store\<close>, which the cache of \<open>Jq_Data\<close> provides. The lemmas show that the
  queue \<open>fx\<close> runs its functions one at a time and in order, and that nothing is left in the data.
\<close>

section \<open>Queues and their data\<close>

datatype queue_item = Work nat | InProgress

text \<open>The hooks of a queue: whether there is a \<open>stop\<close>, and the functions on \<open>empty\<close> after the one that
  removes the queue.\<close>

record queue_hooks =
  qh_stop :: bool
  qh_waiting :: "nat list"

datatype priv_value = Nothing | Items "queue_item list" | Hooks queue_hooks

text \<open>The operations of \<open>dataPriv\<close> on one element.\<close>

record 's priv_ops =
  po_get :: "string \<Rightarrow> 's \<Rightarrow> priv_value"
  po_set :: "string \<Rightarrow> priv_value \<Rightarrow> 's \<Rightarrow> 's"
  po_remove :: "string list \<Rightarrow> 's \<Rightarrow> 's"

text \<open>The type is empty when it is not given.\<close>

definition queue_type :: "string \<Rightarrow> string" where
  "queue_type type = (if type = '''' then ''fx'' else type)"

abbreviation queue_key :: "string \<Rightarrow> string" where "queue_key type \<equiv> queue_type type @ ''queue''"
abbreviation hooks_key :: "string \<Rightarrow> string" where "hooks_key type \<equiv> queue_type type @ ''queueHooks''"

datatype queue_data = NoData | OneItem nat | ItemList "nat list"

definition stored_items :: "'s priv_ops \<Rightarrow> string \<Rightarrow> 's \<Rightarrow> queue_item list" where
  "stored_items ops key s = (case po_get ops key s of Items q \<Rightarrow> q | _ \<Rightarrow> [])"

fun jq_queue :: "'s priv_ops \<Rightarrow> string \<Rightarrow> queue_data \<Rightarrow> 's \<Rightarrow> queue_item list \<times> 's" where
  "jq_queue ops type NoData s = (stored_items ops (queue_key type) s, s)"
| "jq_queue ops type (ItemList ws) s = (map Work ws, po_set ops (queue_key type) (Items (map Work ws)) s)"
| "jq_queue ops type (OneItem w) s =
     (let q = stored_items ops (queue_key type) s @ [Work w] in (q, po_set ops (queue_key type) (Items q) s))"

definition queueHooks :: "'s priv_ops \<Rightarrow> string \<Rightarrow> 's \<Rightarrow> queue_hooks \<times> 's" where
  "queueHooks ops type s =
     (case po_get ops (type @ ''queueHooks'') s of
        Hooks h \<Rightarrow> (h, s)
      | _ \<Rightarrow> (let h = \<lparr>qh_stop = False, qh_waiting = []\<rparr> in (h, po_set ops (type @ ''queueHooks'') (Hooks h) s)))"

text \<open>The result of an operation: the function it calls with \<open>next\<close>, the functions on \<open>empty\<close> it has
  called, and the data when it calls the function.\<close>

record 's queue_result =
  qr_call :: "nat option"
  qr_emptied :: "nat list"
  qr_data :: 's

text \<open>What \<open>shift\<close> and \<open>unshift\<close> leave in the array of the queue, which is in the data unless it is the
  empty array of a missing queue.\<close>

definition store_items :: "'s priv_ops \<Rightarrow> string \<Rightarrow> queue_item list \<Rightarrow> 's \<Rightarrow> 's" where
  "store_items ops key q s = (case po_get ops key s of Items old \<Rightarrow> po_set ops key (Items q) s | _ \<Rightarrow> s)"

definition dequeue :: "'s priv_ops \<Rightarrow> string \<Rightarrow> 's \<Rightarrow> 's queue_result" where
  "dequeue ops type s =
     (let queue = fst (jq_queue ops type NoData s);
          (hooks, s1) = queueHooks ops (queue_type type) s;
          rest = (case queue of InProgress # q \<Rightarrow> q | _ \<Rightarrow> queue)
      in case rest of
           Work w # q \<Rightarrow>
             (let q1 = (if queue_type type = ''fx'' then InProgress # q else q)
              in \<lparr>qr_call = Some w, qr_emptied = [],
                  qr_data = po_set ops (hooks_key type) (Hooks (hooks\<lparr>qh_stop := False\<rparr>)) (store_items ops (queue_key type) q1 s1)\<rparr>)
         | _ \<Rightarrow>
             \<lparr>qr_call = None, qr_emptied = qh_waiting hooks, qr_data = po_remove ops [queue_key type, hooks_key type] s1\<rparr>)"

text \<open>The method \<open>queue\<close> with data, on one element.\<close>

definition fn_queue :: "'s priv_ops \<Rightarrow> string \<Rightarrow> queue_data \<Rightarrow> 's \<Rightarrow> 's queue_result" where
  "fn_queue ops type data s =
     (let (queue, s1) = jq_queue ops type data s;
          s2 = snd (queueHooks ops type s1)
      in if type = ''fx'' \<and> (case queue of InProgress # q \<Rightarrow> False | _ \<Rightarrow> True) then dequeue ops type s2
         else \<lparr>qr_call = None, qr_emptied = [], qr_data = s2\<rparr>)"

definition clearQueue :: "'s priv_ops \<Rightarrow> string \<Rightarrow> 's \<Rightarrow> 's queue_result" where
  "clearQueue ops type s = fn_queue ops (queue_type type) (ItemList []) s"

text \<open>\<open>promise\<close> on one element: whether it has something to wait for, and the function on \<open>empty\<close>.\<close>

definition queue_promise :: "'s priv_ops \<Rightarrow> string \<Rightarrow> nat \<Rightarrow> 's \<Rightarrow> bool \<times> 's" where
  "queue_promise ops type resolve s =
     (case po_get ops (hooks_key type) s of
        Hooks h \<Rightarrow> (True, po_set ops (hooks_key type) (Hooks (h\<lparr>qh_waiting := qh_waiting h @ [resolve]\<rparr>)) s)
      | _ \<Rightarrow> (False, s))"

section \<open>A page that uses the queue fx\<close>

text \<open>Functions are put on the queue, and the function that runs calls \<open>next\<close> at its end.\<close>

datatype fx_action = Enqueue nat | Done

record 's fx_state =
  fx_data :: 's
  fx_running :: "nat option"
  fx_started :: "nat list"

definition started :: "'s queue_result \<Rightarrow> 's fx_state \<Rightarrow> 's fx_state" where
  "started r st =
     (case qr_call r of
        None \<Rightarrow> st\<lparr>fx_data := qr_data r\<rparr>
      | Some w \<Rightarrow> st\<lparr>fx_data := qr_data r, fx_running := Some w, fx_started := fx_started st @ [w]\<rparr>)"

fun fx_step :: "'s priv_ops \<Rightarrow> fx_action \<Rightarrow> 's fx_state \<Rightarrow> 's fx_state" where
  "fx_step ops (Enqueue w) st = started (fn_queue ops ''fx'' (OneItem w) (fx_data st)) st"
| "fx_step ops Done st =
     (if fx_running st = None then st
      else started (dequeue ops ''fx'' (fx_data st)) (st\<lparr>fx_running := None\<rparr>))"

definition fx_run :: "'s priv_ops \<Rightarrow> fx_action list \<Rightarrow> 's \<Rightarrow> 's fx_state" where
  "fx_run ops acts s = fold (fx_step ops) acts \<lparr>fx_data = s, fx_running = None, fx_started = []\<rparr>"

fun enqueued :: "fx_action list \<Rightarrow> nat list" where
  "enqueued [] = []"
| "enqueued (Enqueue w # acts) = w # enqueued acts"
| "enqueued (Done # acts) = enqueued acts"

section \<open>The interface of the data\<close>

text \<open>Keys are equal when their camel case is; \<open>own\<close> excludes the keys every object inherits.\<close>

locale key_store =
  fixes ops :: "'s priv_ops" and own :: "string \<Rightarrow> bool"
  assumes get_set: "own k1 \<Longrightarrow> own k2 \<Longrightarrow>
      po_get ops k2 (po_set ops k1 v s) = (if camelCase k1 = camelCase k2 then v else po_get ops k2 s)"
    and get_remove: "own k \<Longrightarrow>
      po_get ops k (po_remove ops ks s) = (if camelCase k \<in> camelCase ` set ks then Nothing else po_get ops k s)"
begin

text \<open>The queue is idle and leaves no data, or a function runs and the sentinel is at the head.\<close>

definition fx_inv :: "nat list \<Rightarrow> 's fx_state \<Rightarrow> bool" where
  "fx_inv added st \<longleftrightarrow>
     (case fx_running st of
        None \<Rightarrow> fx_started st = added \<and> po_get ops ''fxqueue'' (fx_data st) = Nothing \<and>
          po_get ops ''fxqueueHooks'' (fx_data st) = Nothing
      | Some w \<Rightarrow>
          \<exists>rest h. added = fx_started st @ rest \<and> fx_started st \<noteq> [] \<and> last (fx_started st) = w \<and>
            po_get ops ''fxqueue'' (fx_data st) = Items (InProgress # map Work rest) \<and>
            po_get ops ''fxqueueHooks'' (fx_data st) = Hooks h)"

lemma fx_gets:
  assumes "own ''fxqueue''" "own ''fxqueueHooks''"
  shows "po_get ops ''fxqueue'' (po_set ops ''fxqueue'' v s) = v"
    "po_get ops ''fxqueue'' (po_set ops ''fxqueueHooks'' v s) = po_get ops ''fxqueue'' s"
    "po_get ops ''fxqueueHooks'' (po_set ops ''fxqueueHooks'' v s) = v"
    "po_get ops ''fxqueueHooks'' (po_set ops ''fxqueue'' v s) = po_get ops ''fxqueueHooks'' s"
    "po_get ops ''fxqueue'' (po_remove ops [''fxqueue'', ''fxqueueHooks''] s) = Nothing"
    "po_get ops ''fxqueueHooks'' (po_remove ops [''fxqueue'', ''fxqueueHooks''] s) = Nothing"
proof -
  have "camelCase ''fxqueue'' \<noteq> camelCase ''fxqueueHooks''" by code_simp
  then show "po_get ops ''fxqueue'' (po_set ops ''fxqueue'' v s) = v"
    "po_get ops ''fxqueue'' (po_set ops ''fxqueueHooks'' v s) = po_get ops ''fxqueue'' s"
    "po_get ops ''fxqueueHooks'' (po_set ops ''fxqueueHooks'' v s) = v"
    "po_get ops ''fxqueueHooks'' (po_set ops ''fxqueue'' v s) = po_get ops ''fxqueueHooks'' s"
    "po_get ops ''fxqueue'' (po_remove ops [''fxqueue'', ''fxqueueHooks''] s) = Nothing"
    "po_get ops ''fxqueueHooks'' (po_remove ops [''fxqueue'', ''fxqueueHooks''] s) = Nothing"
    using get_set get_remove assms by auto
qed

lemma fx_step_inv:
  assumes own: "own ''fxqueue''" "own ''fxqueueHooks''" and inv: "fx_inv added st"
  shows "fx_inv (added @ enqueued [act]) (fx_step ops act st)"
proof -
  note defs = fx_inv_def fn_queue_def dequeue_def queueHooks_def stored_items_def store_items_def queue_type_def
    started_def Let_def fx_gets [OF own]
  show ?thesis
  proof (cases act)
    case (Enqueue w)
    then show ?thesis using inv
      by (cases "fx_running st") (auto simp: defs)
  next
    case Done
    show ?thesis
    proof (cases "fx_running st")
      case None
      then show ?thesis using inv Done by simp
    next
      case (Some w)
      then obtain rest h where r: "added = fx_started st @ rest" "fx_started st \<noteq> []"
        "po_get ops ''fxqueue'' (fx_data st) = Items (InProgress # map Work rest)"
        "po_get ops ''fxqueueHooks'' (fx_data st) = Hooks h" using inv by (auto simp: fx_inv_def)
      show ?thesis using Done Some r by (cases rest) (auto simp: defs)
    qed
  qed
qed

lemma enqueued_append: "enqueued (acts @ acts') = enqueued acts @ enqueued acts'"
  by (induction acts rule: enqueued.induct) simp_all

lemma fx_run_inv:
  assumes own: "own ''fxqueue''" "own ''fxqueueHooks''"
    and "po_get ops ''fxqueue'' s = Nothing" "po_get ops ''fxqueueHooks'' s = Nothing"
  shows "fx_inv (enqueued acts) (fx_run ops acts s)"
proof (induction acts rule: rev_induct)
  case Nil
  then show ?case using assms(3,4) by (simp add: fx_run_def fx_inv_def)
next
  case (snoc act acts)
  then show ?case using fx_step_inv [OF own snoc.IH] by (simp add: fx_run_def enqueued_append)
qed

text \<open>When every function has called \<open>next\<close>, all have run and nothing is left.\<close>

lemma fx_done_step:
  assumes own: "own ''fxqueue''" "own ''fxqueueHooks''" and inv: "fx_inv added st" and "fx_running st = Some w"
  shows "if fx_started st = added then fx_running (fx_step ops Done st) = None
    else length (fx_started (fx_step ops Done st)) = Suc (length (fx_started st))"
proof -
  obtain rest h where r: "added = fx_started st @ rest" "fx_started st \<noteq> []"
    "po_get ops ''fxqueue'' (fx_data st) = Items (InProgress # map Work rest)"
    "po_get ops ''fxqueueHooks'' (fx_data st) = Hooks h" using inv assms(4) by (auto simp: fx_inv_def)
  then show ?thesis using assms(4)
    by (cases rest)
      (auto simp: fn_queue_def dequeue_def queueHooks_def stored_items_def store_items_def queue_type_def started_def
        Let_def fx_gets [OF own])
qed

lemma fx_done_all:
  assumes own: "own ''fxqueue''" "own ''fxqueueHooks''"
  shows "fx_inv added st \<Longrightarrow> fx_running st \<noteq> None \<longrightarrow> Suc (length added) \<le> length (fx_started st) + k \<Longrightarrow>
    fx_running (fold (fx_step ops) (replicate k Done) st) = None"
proof (induction k arbitrary: st)
  case 0
  then show ?case by (auto simp: fx_inv_def split: option.splits)
next
  case (Suc k)
  have inv: "fx_inv added (fx_step ops Done st)" using fx_step_inv [OF own Suc.prems(1), of Done] by simp
  show ?case
  proof (cases "fx_running st")
    case None
    then show ?thesis using Suc.IH [OF Suc.prems(1)] by simp
  next
    case (Some w)
    have "fx_running (fx_step ops Done st) \<noteq> None \<longrightarrow>
        Suc (length added) \<le> length (fx_started (fx_step ops Done st)) + k"
      using fx_done_step [OF own Suc.prems(1) Some] Suc.prems(2) Some by (auto split: if_splits)
    then show ?thesis using Suc.IH [OF inv] by simp
  qed
qed

end

section \<open>The cache of an element\<close>

definition element_data :: "priv_value cache \<Rightarrow> nat \<Rightarrow> priv_value data priv_ops" where
  "element_data proto owner =
     \<lparr>po_get = data_get Nothing proto owner,
      po_set = (\<lambda>k v d. snd (data_set (\<lambda>a. Some 1) owner (KeyArg k) v d)),
      po_remove = (\<lambda>ks d. data_remove proto owner (Keys ks) d)\<rparr>"

lemma data_get_remove:
  assumes "map_of proto (camelCase k) = None"
  shows "data_get undef proto owner k (data_remove proto owner (Keys ks) d) =
    (if camelCase k \<in> camelCase ` set ks then undef else data_get undef proto owner k d)"
proof (cases "d owner")
  case (Some cache)
  let ?rest = "filter (\<lambda>p. fst p \<notin> set (map camelCase ks)) cache"
  have "data_get undef proto owner k (data_remove proto owner (Keys ks) d) =
      (case map_of ?rest (camelCase k) of None \<Rightarrow> undef | Some v \<Rightarrow> v)"
    using Some assms by (cases "?rest = []")
      (simp_all add: data_get_def data_remove_def removed_keys_def cache_get_def Let_def split: option.splits)
  then show ?thesis using Some assms unfolding map_of_filter_keys
    by (simp add: data_get_def cache_get_def split: option.splits)
qed (simp add: data_get_def data_remove_def)

interpretation priv: key_store "element_data proto owner" "\<lambda>k. map_of proto (camelCase k) = None" for proto owner
proof
  show "po_get (element_data proto owner) k2 (po_set (element_data proto owner) k1 v s) =
      (if camelCase k1 = camelCase k2 then v else po_get (element_data proto owner) k2 s)"
    if "map_of proto (camelCase k1) = None" "map_of proto (camelCase k2) = None" for k1 k2 v s
    using that data_get_set [of "\<lambda>a. Some 1" owner Nothing proto owner k2 k1 v s]
    by (auto simp: element_data_def acceptData_def data_get_def cache_get_def)
  show "po_get (element_data proto owner) k (po_remove (element_data proto owner) ks s) =
      (if camelCase k \<in> camelCase ` set ks then Nothing else po_get (element_data proto owner) k s)"
    if "map_of proto (camelCase k) = None" for k ks s
    using data_get_remove [OF that] by (simp add: element_data_def)
qed

section \<open>The queue fx\<close>


text \<open>When each function put on \<open>fx\<close> ends, the queue runs dry: after as many ends as there are functions
  all have been started and none runs.\<close>

theorem fx_runs_dry:
  assumes "map_of proto ''fxqueue'' = None" "map_of proto ''fxqueueHooks'' = None"
    and "data_get Nothing proto owner ''fxqueue'' d = Nothing" "data_get Nothing proto owner ''fxqueueHooks'' d = Nothing"
    and "st = fx_run (element_data proto owner) (acts @ replicate (length (enqueued acts)) Done) d"
  shows "fx_running st = None \<and> fx_started st = enqueued acts"
proof -
  let ?ops = "element_data proto owner" and ?st = "fx_run (element_data proto owner) acts d"
  have keys: "camelCase ''fxqueue'' = ''fxqueue''" "camelCase ''fxqueueHooks'' = ''fxqueueHooks''" by code_simp+
  have get: "po_get ?ops k s = data_get Nothing proto owner k s" for k s by (simp add: element_data_def)
  have own: "map_of proto (camelCase ''fxqueue'') = None" "map_of proto (camelCase ''fxqueueHooks'') = None"
    using assms(1,2) keys by simp_all
  have inv: "priv.fx_inv proto owner (enqueued acts') (fx_run ?ops acts' d)" for acts'
    by (rule priv.fx_run_inv) (simp_all add: own get assms)
  have "fx_running ?st \<noteq> None \<longrightarrow> fx_started ?st \<noteq> []"
    using inv [of acts] by (auto simp: priv.fx_inv_def split: option.splits)
  then have "fx_running ?st \<noteq> None \<longrightarrow> Suc (length (enqueued acts)) \<le> length (fx_started ?st) + length (enqueued acts)"
    by (cases "fx_started ?st") simp_all
  from priv.fx_done_all [OF own inv this] have "fx_running st = None" unfolding assms(5) by (simp add: fx_run_def)
  moreover have "enqueued (acts @ replicate n Done) = enqueued acts" for n
    by (induction acts rule: enqueued.induct; induction n; simp)
  ultimately show ?thesis using inv [of "acts @ replicate (length (enqueued acts)) Done"] assms(5)
    by (simp add: priv.fx_inv_def)
qed

theorem fx_runs_dry_witness:
  "fx_started (fx_run (element_data [] 0) [Enqueue 7, Enqueue 8, Done, Enqueue 9, Done, Done, Done] data_new) = [7, 8, 9]"
  using fx_runs_dry [OF _ _ _ _ refl, of "[]" 0 data_new "[Enqueue 7, Enqueue 8, Done, Enqueue 9]"]
  by (simp add: data_get_def data_new_def numeral_eq_Suc)


end
