(* ===== verification/Jq_Promise.thy ===== *)
theory Jq_Promise
  imports Jq_Deferred
begin

text \<open>
  Promises on top of the deferreds, from docs/_static/jquery-3.5.1.js: \<open>then\<close> and its resolution
  procedure, \<open>pipe\<close>, \<open>catch\<close>, \<open>when\<close> and \<open>adoptValue\<close>. The functions the library makes are data: what
  \<open>resolve(depth, deferred, handler, special)\<close> returns, the counters of \<open>when\<close>, the methods of a
  deferred passed as callbacks. Handlers of the page are given by a table. A timer runs one
  process; the thenables of the model are the promises of deferreds, and the functions a page
  adds with \<open>done\<close>, \<open>fail\<close> and \<open>progress\<close> do not throw (an exception would leave the list that
  calls them).
\<close>

section \<open>Values and functions\<close>

text \<open>A value: one of the page's, the promise of a deferred, a deferred itself, an array, and the
  \<open>TypeError\<close> of a promise resolved by itself.\<close>

datatype 'x jv = Undef | Page 'x | PromiseOf nat | DeferredOf nat | Array "'x jv list" | SelfResolution

text \<open>A context with arguments.\<close>

type_synonym 'x passed = "'x jv \<times> 'x jv list"

definition first_arg :: "'x passed \<Rightarrow> 'x jv" where
  "first_arg v = (case snd v of [] \<Rightarrow> Undef | x # xs \<Rightarrow> x)"

text \<open>\<open>Resolve c depth d h special\<close> is what \<open>resolve(depth, deferred, h, special)\<close> returns inside
  the call of \<open>then\<close> number \<open>c\<close>, whose \<open>maxDepth\<close> all its processes share; \<open>special\<close> says that
  values go to \<open>notifyWith\<close>.\<close>

datatype 'h handler = Identity | Thrower | Handler 'h | Nested "'h proc"
and 'h proc = Resolve nat nat nat "'h handler" bool

fun proc_depth :: "'h proc \<Rightarrow> nat" where
  "proc_depth (Resolve c depth d h special) = depth"

datatype settle = Notify | Settle | Reject

text \<open>The functions on the lists: the page's, processes of \<open>then\<close>, the subordinate callbacks of
  \<open>when\<close>, methods of a deferred, and those of \<open>pipe\<close>.\<close>

datatype 'h fn = Plain 'h | Process "'h proc" | Update nat nat | Method settle nat
  | Pipe "'h option" settle nat

fun settle_with :: "settle \<Rightarrow> nat \<Rightarrow> 'v \<Rightarrow> ('u, 'v) d_action" where
  "settle_with Notify d v = NotifyWith d v"
| "settle_with Settle d v = ResolveWith d v"
| "settle_with Reject d v = RejectWith d v"

type_synonym ('h, 'x) p_action = "('h fn, 'x passed) d_action"

section \<open>The state\<close>

text \<open>The group of one call of \<open>when\<close>: the subordinates that are left, the contexts and values so
  far, and the master.\<close>

record 'x group =
  gr_remaining :: int
  gr_contexts :: "'x jv list"
  gr_values :: "'x jv list"
  gr_master :: nat

text \<open>\<open>pw_depth\<close> is \<open>maxDepth\<close> of each call of \<open>then\<close>, \<open>pw_chain\<close> the number of the next call,
  \<open>pw_next\<close> that of the next deferred the library makes itself.\<close>

record ('h, 'x, 'w) pworld =
  pw_depth :: "nat \<Rightarrow> nat"
  pw_chain :: nat
  pw_next :: nat
  pw_timers :: "('h proc \<times> 'x passed) list"
  pw_groups :: "nat \<Rightarrow> 'x group"
  pw_user :: 'w

text \<open>What the page's handlers do: a new state, actions, and a value returned (\<open>Inr\<close>) or thrown.\<close>

type_synonym ('h, 'x, 'w) table =
  "'h \<Rightarrow> 'x passed \<Rightarrow> 'w \<Rightarrow> 'w \<times> ('h, 'x) p_action list \<times> ('x jv + 'x jv)"

section \<open>then\<close>

text \<open>The subscription: \<open>q\<close> is the deferred of the promise \<open>then\<close> returns.\<close>

definition subscribe :: "nat \<Rightarrow> nat \<Rightarrow> 'h handler \<Rightarrow> 'h handler \<Rightarrow> 'h handler \<Rightarrow>
    ('h, 'x, 'w) pworld \<Rightarrow> ('h, 'x, 'w) pworld \<times> ('h, 'x) p_action list" where
  "subscribe d q onFulfilled onRejected onProgress w =
     (let c = pw_chain w in
      (w\<lparr>pw_chain := Suc c, pw_depth := (pw_depth w)(c := 0)\<rparr>,
       [Handle d (Process (Resolve c 0 q onProgress True)) (Process (Resolve c 0 q onFulfilled False))
          (Process (Resolve c 0 q onRejected False))]))"

text \<open>\<open>then.call(returned, ...)\<close>, whose promise is dropped.\<close>

definition call_then :: "nat \<Rightarrow> 'h proc \<Rightarrow> 'h proc \<Rightarrow> 'h proc option \<Rightarrow>
    ('h, 'x, 'w) pworld \<Rightarrow> ('h, 'x, 'w) pworld \<times> ('h, 'x) p_action list" where
  "call_then p onFulfilled onRejected onProgress w =
     subscribe p (pw_next w) (Nested onFulfilled) (Nested onRejected)
       (case onProgress of None \<Rightarrow> Identity | Some f \<Rightarrow> Nested f) (w\<lparr>pw_next := Suc (pw_next w)\<rparr>)"

fun thenable :: "'x jv \<Rightarrow> nat option" where
  "thenable (PromiseOf p) = Some p"
| "thenable (DeferredOf p) = Some p"
| "thenable _ = None"

text \<open>What a process does with the result of its handler: follow a thenable, pass a value on, or
  reject with an exception unless a thenable that was returned later has taken over. The last
  component is the exception a special process lets out.\<close>

definition after_handler :: "nat \<Rightarrow> nat \<Rightarrow> nat \<Rightarrow> 'h handler \<Rightarrow> bool \<Rightarrow> 'x passed \<Rightarrow> 'x jv + 'x jv \<Rightarrow>
    ('h, 'x, 'w) pworld \<Rightarrow> ('h, 'x, 'w) pworld \<times> ('h, 'x) p_action list \<times> 'x jv option" where
  "after_handler c depth d h special v result w =
     (case (case result of Inr r \<Rightarrow> if r = PromiseOf d then Inl SelfResolution else Inr r | e \<Rightarrow> e) of
        Inr r \<Rightarrow>
          (case thenable r of
             Some p \<Rightarrow>
               (let w1 = (if special then w else w\<lparr>pw_depth := (pw_depth w)(c := Suc (pw_depth w c))\<rparr>);
                    m = pw_depth w1 c;
                    follow = (\<lambda>h'. Resolve c m d h' special);
                    progress = (if special then None else Some (Resolve c m d Identity True))
                in case call_then p (follow Identity) (follow Thrower) progress w1 of
                     (w2, as) \<Rightarrow> (w2, as, None))
           | None \<Rightarrow>
               (w, [(if special then NotifyWith else ResolveWith) d (if h = Identity then v else (Undef, [r]))], None))
      | Inl e \<Rightarrow>
          if special then (w, [], Some e)
          else (w, if pw_depth w c \<le> depth + 1 then [RejectWith d (if h = Thrower then v else (Undef, [e]))] else [],
                None))"

definition set_timer :: "'h proc \<Rightarrow> 'x passed \<Rightarrow> ('h, 'x, 'w) pworld \<Rightarrow> ('h, 'x, 'w) pworld" where
  "set_timer p v w = w\<lparr>pw_timers := pw_timers w @ [(p, v)]\<rparr>"

text \<open>\<open>process()\<close>. A handler that is itself such a function runs its process at once, unless it is
  one of depth 0, which sets a timer.\<close>

fun process :: "('h, 'x, 'w) table \<Rightarrow> 'h proc \<Rightarrow> 'x passed \<Rightarrow>
    ('h, 'x, 'w) pworld \<Rightarrow> ('h, 'x, 'w) pworld \<times> ('h, 'x) p_action list \<times> 'x jv option" where
  "process tbl (Resolve c depth d h special) v w =
     (if depth < pw_depth w c then (w, [], None)
      else
        (case (case h of
                 Identity \<Rightarrow> (w, [], Inr (first_arg v))
               | Thrower \<Rightarrow> (w, [], Inl (first_arg v))
               | Handler f \<Rightarrow>
                   (case tbl f v (pw_user w) of (u, as, result) \<Rightarrow> (w\<lparr>pw_user := u\<rparr>, as, result))
               | Nested p \<Rightarrow>
                   if proc_depth p = 0 then (set_timer p v w, [], Inr Undef)
                   else (case process tbl p v w of
                           (w1, as, thrown) \<Rightarrow> (w1, as, case thrown of None \<Rightarrow> Inr Undef | Some e \<Rightarrow> Inl e)))
         of (w1, as, result) \<Rightarrow>
              (case after_handler c depth d h special v result w1 of
                 (w2, bs, thrown) \<Rightarrow> (w2, as @ bs, thrown))))"

section \<open>when and pipe\<close>

definition set_nth :: "nat \<Rightarrow> 'x jv \<Rightarrow> 'x jv list \<Rightarrow> 'x jv list" where
  "set_nth i x xs = (if i < length xs then xs[i := x] else xs @ replicate (i - length xs) Undef @ [x])"

text \<open>\<open>updateFunc(i)\<close>\<close>

definition update_group :: "nat \<Rightarrow> nat \<Rightarrow> 'x passed \<Rightarrow> ('h, 'x, 'w) pworld \<Rightarrow>
    ('h, 'x, 'w) pworld \<times> ('h, 'x) p_action list" where
  "update_group g i v w =
     (let gr = pw_groups w g;
          value = (if 1 < length (snd v) then Array (snd v) else first_arg v);
          gr1 = gr\<lparr>gr_contexts := set_nth i (fst v) (gr_contexts gr),
                   gr_values := set_nth i value (gr_values gr), gr_remaining := gr_remaining gr - 1\<rparr>
      in (w\<lparr>pw_groups := (pw_groups w)(g := gr1)\<rparr>,
          if gr_remaining gr1 = 0 then [ResolveWith (gr_master gr1) (Array (gr_contexts gr1), gr_values gr1)] else []))"

text \<open>The function \<open>pipe\<close> puts on a list: \<open>d\<close> is its new deferred.\<close>

definition pipe_fn :: "('h, 'x, 'w) table \<Rightarrow> 'h option \<Rightarrow> settle \<Rightarrow> nat \<Rightarrow> 'x passed \<Rightarrow>
    ('h, 'x, 'w) pworld \<Rightarrow> ('h, 'x, 'w) pworld \<times> ('h, 'x) p_action list \<times> ending" where
  "pipe_fn tbl fn action d v w =
     (case (case fn of
              None \<Rightarrow> (w, [], Inr Undef)
            | Some f \<Rightarrow> (case tbl f v (pw_user w) of (u, as, result) \<Rightarrow> (w\<lparr>pw_user := u\<rparr>, as, result)))
      of (w1, as, Inl e) \<Rightarrow> (w1, as, Throws)
       | (w1, as, Inr returned) \<Rightarrow>
           (w1, as @ (case thenable returned of
                        Some p \<Rightarrow> [OnProgress p [Fn (Method Notify d)], OnDone p [Fn (Method Settle d)],
                                  OnFail p [Fn (Method Reject d)]]
                      | None \<Rightarrow> [settle_with action d (if fn = None then v else (fst v, [returned]))]),
            Returns False))"

text \<open>All functions on the lists: the program of the deferreds. A method called as a callback keeps
  the context it is given.\<close>

definition promise_program :: "('h, 'x, 'w) table \<Rightarrow> ('h fn, 'x passed, ('h, 'x, 'w) pworld) program" where
  "promise_program tbl f passed w =
     (let v = (case passed of None \<Rightarrow> (Undef, []) | Some u \<Rightarrow> u) in
      case f of
        Plain h \<Rightarrow> (case tbl h v (pw_user w) of (u, as, result) \<Rightarrow> (w\<lparr>pw_user := u\<rparr>, as, Returns False))
      | Process p \<Rightarrow>
          (if proc_depth p = 0 then (set_timer p v w, [], Returns False)
           else (case process tbl p v w of
                   (w1, as, thrown) \<Rightarrow> (w1, as, if thrown = None then Returns False else Throws)))
      | Update g i \<Rightarrow> (case update_group g i v w of (w1, as) \<Rightarrow> (w1, as, Returns False))
      | Method action d \<Rightarrow> (w, [settle_with action d v], Returns False)
      | Pipe fn action d \<Rightarrow> pipe_fn tbl fn action d v w)"

section \<open>The methods\<close>

type_synonym ('h, 'x, 'w) page = "(dkey, 'h fn dfn, 'x passed, ('h, 'x, 'w) pworld dworld) machine"

definition handler_of :: "'h handler \<Rightarrow> 'h option \<Rightarrow> 'h handler" where
  "handler_of otherwise f = (case f of None \<Rightarrow> otherwise | Some h \<Rightarrow> Handler h)"

text \<open>\<open>d.then(onFulfilled, onRejected, onProgress)\<close> and \<open>d.catch(fn)\<close>, with \<open>q\<close> for the deferred of
  the promise they return; \<open>None\<close> is anything that is not a function.\<close>

definition then_js :: "nat \<Rightarrow> nat \<Rightarrow> 'h option \<Rightarrow> 'h option \<Rightarrow> 'h option \<Rightarrow>
    ('h, 'x, 'w) pworld \<Rightarrow> ('h, 'x, 'w) pworld \<times> ('h, 'x) p_action list" where
  "then_js d q onFulfilled onRejected onProgress =
     subscribe d q (handler_of Identity onFulfilled) (handler_of Thrower onRejected) (handler_of Identity onProgress)"

definition catch_js :: "nat \<Rightarrow> nat \<Rightarrow> 'h option \<Rightarrow>
    ('h, 'x, 'w) pworld \<Rightarrow> ('h, 'x, 'w) pworld \<times> ('h, 'x) p_action list" where
  "catch_js d q fn = then_js d q None fn None"

text \<open>\<open>d.pipe(fnDone, fnFail, fnProgress)\<close>: the arguments of a tuple by its index.\<close>

definition pipe_js :: "nat \<Rightarrow> nat \<Rightarrow> 'h option list \<Rightarrow> ('h, 'x) p_action list" where
  "pipe_js d q fns =
     (let fn = (\<lambda>t. if tu_index t < length fns then fns ! tu_index t else None) in
      [OnProgress d [Fn (Pipe (fn (tuples ! 0)) Notify q)],
       OnDone d [Fn (Pipe (fn (tuples ! 1)) Settle q)],
       OnFail d [Fn (Pipe (fn (tuples ! 2)) Reject q)]])"

text \<open>\<open>adoptValue(value, resolve, reject, noValue)\<close>: actions on a promise, or the call of \<open>resolve\<close>.\<close>

definition adoptValue :: "('h, 'x, 'w) table \<Rightarrow> 'x jv \<Rightarrow> 'h fn \<Rightarrow> 'h fn \<Rightarrow> bool \<Rightarrow>
    ('h, 'x, 'w) pworld \<Rightarrow> ('h, 'x, 'w) pworld \<times> ('h, 'x) p_action list" where
  "adoptValue tbl value resolve reject noValue w =
     (case thenable value of
        Some p \<Rightarrow> (w, [OnDone p [Fn resolve], OnFail p [Fn reject]])
      | None \<Rightarrow>
          (case promise_program tbl resolve (Some (Undef, if noValue then [] else [value])) w of
             (w1, as, result) \<Rightarrow> (w1, as)))"

section \<open>Running\<close>

text \<open>Actions of the page on the machine; the actions on a deferred of a step that has changed the
  page's state.\<close>

definition do_actions :: "nat \<Rightarrow> ('h, 'x, 'w) table \<Rightarrow> ('h, 'x) p_action list \<Rightarrow>
    ('h, 'x, 'w) page \<Rightarrow> ('h, 'x, 'w) page option" where
  "do_actions n tbl as m =
     map_option fst (exec n (deferred_script (Undef, []) (promise_program tbl)) (concat (map list_actions as)) m)"

definition do_step :: "nat \<Rightarrow> ('h, 'x, 'w) table \<Rightarrow>
    (('h, 'x, 'w) pworld \<Rightarrow> ('h, 'x, 'w) pworld \<times> ('h, 'x) p_action list) \<Rightarrow>
    ('h, 'x, 'w) page \<Rightarrow> ('h, 'x, 'w) page option" where
  "do_step n tbl step m =
     (case step (d_user (m_world m)) of
        (w, as) \<Rightarrow> do_actions n tbl as (m\<lparr>m_world := (m_world m)\<lparr>d_user := w\<rparr>\<rparr>))"

fun do_steps :: "nat \<Rightarrow> ('h, 'x, 'w) table \<Rightarrow>
    (('h, 'x, 'w) pworld \<Rightarrow> ('h, 'x, 'w) pworld \<times> ('h, 'x) p_action list) list \<Rightarrow>
    ('h, 'x, 'w) page \<Rightarrow> ('h, 'x, 'w) page option" where
  "do_steps n tbl [] m = Some m"
| "do_steps n tbl (step # steps) m =
     (case do_step n tbl step m of None \<Rightarrow> None | Some m1 \<Rightarrow> do_steps n tbl steps m1)"

text \<open>One timer: its process.\<close>

definition run_timer :: "nat \<Rightarrow> ('h, 'x, 'w) table \<Rightarrow> ('h, 'x, 'w) page \<Rightarrow> ('h, 'x, 'w) page option" where
  "run_timer n tbl m =
     (case pw_timers (d_user (m_world m)) of
        [] \<Rightarrow> Some m
      | (p, v) # rest \<Rightarrow>
          do_step n tbl (\<lambda>w. case process tbl p v (w\<lparr>pw_timers := rest\<rparr>) of (w1, as, thrown) \<Rightarrow> (w1, as)) m)"

fun run_timers :: "nat \<Rightarrow> nat \<Rightarrow> ('h, 'x, 'w) table \<Rightarrow> ('h, 'x, 'w) page \<Rightarrow> ('h, 'x, 'w) page option" where
  "run_timers 0 n tbl m = (if pw_timers (d_user (m_world m)) = [] then Some m else None)"
| "run_timers (Suc k) n tbl m =
     (if pw_timers (d_user (m_world m)) = [] then Some m
      else (case run_timer n tbl m of None \<Rightarrow> None | Some m1 \<Rightarrow> run_timers k n tbl m1))"

text \<open>\<open>when\<close> with the group \<open>g\<close> and the master \<open>q\<close>; a single value is adopted first, and the promise
  returned is that of \<open>then()\<close>, with the deferred \<open>q'\<close>, when the master is still pending or the
  value is a promise. The result is the machine and the deferred of the promise.\<close>

definition when_group :: "nat \<Rightarrow> nat \<Rightarrow> 'x jv list \<Rightarrow>
    ('h, 'x, 'w) pworld \<Rightarrow> ('h, 'x, 'w) pworld" where
  "when_group g q args w =
     w\<lparr>pw_groups := (pw_groups w)(g := \<lparr>gr_remaining = int (length args),
         gr_contexts = replicate (length args) Undef, gr_values = args, gr_master = q\<rparr>)\<rparr>"

definition adopt_rest :: "('h, 'x, 'w) table \<Rightarrow> nat \<Rightarrow> nat \<Rightarrow> 'x jv list \<Rightarrow>
    (('h, 'x, 'w) pworld \<Rightarrow> ('h, 'x, 'w) pworld \<times> ('h, 'x) p_action list) list" where
  "adopt_rest tbl g q args =
     map (\<lambda>i. adoptValue tbl (args ! i) (Update g i) (Method Reject q) False) (rev [0..<length args])"

definition when_js :: "nat \<Rightarrow> ('h, 'x, 'w) table \<Rightarrow> nat \<Rightarrow> nat \<Rightarrow> nat \<Rightarrow> 'x jv list \<Rightarrow>
    ('h, 'x, 'w) page \<Rightarrow> (('h, 'x, 'w) page \<times> nat) option" where
  "when_js n tbl g q q' args m =
     (let start = (\<lambda>w. (when_group g q args w, [])) in
      if 1 < length args then
        map_option (\<lambda>m1. (m1, q)) (do_steps n tbl (start # adopt_rest tbl g q args) m)
      else
        (let value = (case args of [] \<Rightarrow> Undef | x # xs \<Rightarrow> x);
             single = [start, \<lambda>w. (w, [OnDone q [Fn (Update g (length args))]]),
               adoptValue tbl value (Method Settle q) (Method Reject q) (args = [])]
         in case do_steps n tbl single m of
              None \<Rightarrow> None
            | Some m1 \<Rightarrow>
                let values = gr_values (pw_groups (d_user (m_world m1)) g);
                    adopted = (if length args < length values then values ! length args else Undef)
                in if d_state (m_world m1) q = ''pending'' \<or> thenable adopted \<noteq> None
                   then map_option (\<lambda>m2. (m2, q')) (do_step n tbl (then_js q q' None None None) m1)
                   else map_option (\<lambda>m2. (m2, q)) (do_steps n tbl (adopt_rest tbl g q args) m1)))"

definition p_start :: "nat \<Rightarrow> 'w \<Rightarrow> ('h, 'x, 'w) page" where
  "p_start next u =
     d_start \<lparr>pw_depth = (\<lambda>c. 0), pw_chain = 0, pw_next = next, pw_timers = [],
       pw_groups = (\<lambda>g. \<lparr>gr_remaining = 0, gr_contexts = [], gr_values = [], gr_master = 0\<rparr>), pw_user = u\<rparr>"

section \<open>Pages that can be reached\<close>

text \<open>A page changes by steps: actions of the page, calls of the methods above, timers.\<close>

inductive page_reached :: "('h, 'x, 'w) table \<Rightarrow> ('h, 'x, 'w) page \<Rightarrow> bool" for tbl where
  start: "page_reached tbl (p_start next u)"
| step: "page_reached tbl m \<Longrightarrow> do_step n tbl step m = Some m' \<Longrightarrow> page_reached tbl m'"

lemma do_step_sound:
  assumes "do_step n tbl step m = Some m'" "sound_deferreds m"
  shows "sound_deferreds m'"
  using assms sound_exec sound_user
  by (fastforce simp: do_step_def do_actions_def split: prod.splits)

lemma page_sound: "page_reached tbl m \<Longrightarrow> sound_deferreds m"
  by (induction rule: page_reached.induct) (auto simp: p_start_def sound_start do_step_sound)

lemma reached_steps: "page_reached tbl m \<Longrightarrow> do_steps n tbl steps m = Some m' \<Longrightarrow> page_reached tbl m'"
  by (induction steps arbitrary: m) (auto split: option.splits intro: page_reached.step)

lemma reached_timer: "page_reached tbl m \<Longrightarrow> run_timer n tbl m = Some m' \<Longrightarrow> page_reached tbl m'"
  by (auto simp: run_timer_def split: list.splits prod.splits intro: page_reached.step)

lemma reached_timers: "page_reached tbl m \<Longrightarrow> run_timers k n tbl m = Some m' \<Longrightarrow> page_reached tbl m'"
  by (induction k arbitrary: m) (auto split: if_splits option.splits intro: reached_timer)

lemma reached_when:
  "page_reached tbl m \<Longrightarrow> when_js n tbl g q q' args m = Some (m', p) \<Longrightarrow> page_reached tbl m'"
  by (auto simp: when_js_def Let_def split: if_splits option.splits intro: reached_steps page_reached.step
      simp del: do_steps.simps)

section \<open>Handlers of then run from timers only\<close>

text \<open>The functions that call no handler of the page at once: processes of depth 0 set a timer.\<close>

fun async :: "'h fn \<Rightarrow> bool" where
  "async (Process p) = (proc_depth p = 0)"
| "async (Update g i) = True"
| "async (Method action d) = True"
| "async (Plain h) = False"
| "async (Pipe h action d) = False"

definition own_or_async :: "dkey \<Rightarrow> 'h fn dfn \<Rightarrow> bool" where
  "own_or_async l f \<longleftrightarrow> f \<in> set (first_fns l) \<or> (\<exists>g. f = User g \<and> async g)"

definition async_list :: "dkey \<Rightarrow> ('h fn dfn, 'v) callbacks \<Rightarrow> bool" where
  "async_list l = all_fns (own_or_async l)"

interpretation then_only: list_law async_list own_or_async "\<lambda>l f v. own_or_async l f" "\<lambda>l. True"
  unfolding async_list_def by (rule members.list_law_axioms)

text \<open>Actions that add only such functions, and pages whose handlers take no others: pages that
  subscribe with \<open>then\<close>, \<open>catch\<close> and \<open>when\<close>.\<close>

fun adds_async :: "('h, 'x) p_action \<Rightarrow> bool" where
  "adds_async (OnDone d args) = (\<forall>f \<in> set (fns_of (Fns args)). async f)"
| "adds_async (OnFail d args) = (\<forall>f \<in> set (fns_of (Fns args)). async f)"
| "adds_async (OnProgress d args) = (\<forall>f \<in> set (fns_of (Fns args)). async f)"
| "adds_async (Always d args) = (\<forall>f \<in> set (fns_of (Fns args)). async f)"
| "adds_async (Handle d p f r) = (async p \<and> async f \<and> async r)"
| "adds_async _ = True"

definition only_then :: "('h, 'x, 'w) table \<Rightarrow> bool" where
  "only_then tbl \<longleftrightarrow> (\<forall>h v u. \<forall>a \<in> set (fst (snd (tbl h v u))). adds_async a)"

lemma only_then_table: "only_then tbl \<Longrightarrow> tbl h v u = (u', as, r) \<Longrightarrow> a \<in> set as \<Longrightarrow> adds_async a"
  unfolding only_then_def by (metis fst_conv snd_conv)

lemma admitted_async: "adds_async a \<Longrightarrow> b \<in> set (list_actions a) \<Longrightarrow> then_only.admitted b"
  by (cases a) (auto simp: then_only.admitted_def own_or_async_def fns_of_user user_args_def)

lemma subscribe_async: "subscribe d q f r p w = (w', as) \<Longrightarrow> a \<in> set as \<Longrightarrow> adds_async a"
  by (auto simp: subscribe_def Let_def)

lemma after_async:
  "after_handler c depth d h special v result w = (w', as, t) \<Longrightarrow> a \<in> set as \<Longrightarrow> adds_async a"
  by (auto simp: after_handler_def call_then_def Let_def split: sum.splits option.splits prod.splits if_splits
      dest: subscribe_async)

lemma process_async:
  "only_then tbl \<Longrightarrow> process tbl p v w = (w', as, t) \<Longrightarrow> a \<in> set as \<Longrightarrow> adds_async a"
proof (induction tbl p v w arbitrary: w' as t a rule: process.induct)
  case (1 tbl c depth d h special v w)
  show ?case
  proof (cases h)
    case (Nested p)
    then show ?thesis using 1
      by (auto split: if_splits prod.splits dest: after_async)
  qed (use 1 in \<open>auto split: if_splits prod.splits dest: after_async only_then_table\<close>)
qed

lemma program_async:
  assumes "only_then tbl" "promise_program tbl f v w = (w', as, e)" "a \<in> set as"
  shows "adds_async a"
proof (cases f)
  case (Pipe h action d)
  then show ?thesis using assms
    by (cases action)
      (auto simp: promise_program_def pipe_fn_def Let_def split: option.splits prod.splits sum.splits dest: only_then_table)
next
  case (Method action d)
  then show ?thesis using assms by (cases action) (auto simp: promise_program_def)
qed (use assms in \<open>auto simp: promise_program_def update_group_def Let_def
      split: option.splits prod.splits if_splits dest: only_then_table process_async\<close>)

lemma admitted_promises:
  assumes "only_then tbl"
  shows "then_only.admitted_script (deferred_script nothing (promise_program tbl))"
  unfolding then_only.admitted_script_def
proof (intro allI ballI)
  fix f v w a
  assume a: "a \<in> set (fst (snd (deferred_script nothing (promise_program tbl) f v w)))"
  show "then_only.admitted a"
  proof (cases f)
    case (User g)
    then show ?thesis using a program_async [OF assms] admitted_async
      by (fastforce simp: deferred_script_def split: prod.splits)
  qed (use a in \<open>auto simp: deferred_script_def then_only.admitted_def\<close>)
qed

lemma program_user: "async f \<Longrightarrow> promise_program tbl f v w = (w', as, e) \<Longrightarrow> pw_user w' = pw_user w"
  by (cases f) (auto simp: promise_program_def set_timer_def update_group_def Let_def)

lemma script_user:
  "own_or_async l f \<Longrightarrow>
     pw_user (d_user (fst (deferred_script nothing (promise_program tbl) f v w))) = pw_user (d_user w)"
  by (cases l; cases "snd l"; cases f)
    (auto simp: own_or_async_def deferred_script_def split: prod.splits dest: program_user)

lemma fold_user:
  "\<forall>(l, f, v) \<in> set calls. own_or_async l f \<Longrightarrow>
     pw_user (d_user (fold (\<lambda>(l, f, v) w. fst (deferred_script nothing (promise_program tbl) f v w)) calls w)) =
       pw_user (d_user w)"
  by (induction calls arbitrary: w) (auto simp: script_user)

lemma actions_keep_user:
  assumes "only_then tbl" "then_only.stable_lists m" "\<forall>a \<in> set as. adds_async a" "do_actions n tbl as m = Some m'"
  shows "then_only.stable_lists m' \<and> pw_user (d_user (m_world m')) = pw_user (d_user (m_world m))"
proof -
  let ?sc = "deferred_script (Undef, []) (promise_program tbl)"
  obtain t where run: "exec n ?sc (concat (map list_actions as)) m = Some (m', t)"
    using assms(4) by (auto simp: do_actions_def)
  have "then_only.grows ?sc m m'"
    using assms(3) admitted_async
    by (intro then_only.exec_grows [OF admitted_promises [OF assms(1)] run _ assms(2)]) fastforce
  then show ?thesis using fold_user unfolding then_only.grows_def by fastforce
qed

lemma async_start: "then_only.stable_lists (p_start next u)"
  by (auto simp: then_only.stable_lists_def async_list_def all_fns_def p_start_def d_start_def new_list_def
      new_callbacks_def set_push_all own_or_async_def)

text \<open>The pages that only subscribe with \<open>then\<close>, \<open>catch\<close> and \<open>when\<close>: their steps change what the
  library keeps and add processes; a timer runs one process.\<close>

definition then_step :: "(('h, 'x, 'w) pworld \<Rightarrow> ('h, 'x, 'w) pworld \<times> ('h, 'x) p_action list) \<Rightarrow> bool" where
  "then_step step \<longleftrightarrow>
     (\<forall>w. pw_user (fst (step w)) = pw_user w \<and> (\<forall>a \<in> set (snd (step w)). adds_async a))"

lemma then_step_then: "then_step (then_js d q f r p)"
  by (auto simp: then_step_def then_js_def subscribe_def Let_def)

lemma then_step_actions: "\<forall>a \<in> set as. adds_async a \<Longrightarrow> then_step (\<lambda>w. (w, as))"
  by (simp add: then_step_def)

lemma step_keeps_user:
  assumes "only_then tbl" "then_only.stable_lists m" "then_step step" "do_step n tbl step m = Some m'"
  shows "then_only.stable_lists m' \<and> pw_user (d_user (m_world m')) = pw_user (d_user (m_world m))"
proof -
  obtain w as where w: "step (d_user (m_world m)) = (w, as)" by force
  let ?m = "m\<lparr>m_world := (m_world m)\<lparr>d_user := w\<rparr>\<rparr>"
  have "then_only.stable_lists ?m" using assms(2) by (simp add: then_only.stable_lists_def)
  moreover have "do_actions n tbl as ?m = Some m'" using assms(4) w by (simp add: do_step_def)
  moreover have "pw_user w = pw_user (d_user (m_world m))" "\<forall>a \<in> set as. adds_async a"
    using assms(3) w unfolding then_step_def by (metis fst_conv, metis snd_conv)
  ultimately show ?thesis using actions_keep_user [OF assms(1)] by fastforce
qed

lemma steps_keep_user:
  "only_then tbl \<Longrightarrow> then_only.stable_lists m \<Longrightarrow> \<forall>step \<in> set steps. then_step step \<Longrightarrow>
     do_steps n tbl steps m = Some m' \<Longrightarrow>
     then_only.stable_lists m' \<and> pw_user (d_user (m_world m')) = pw_user (d_user (m_world m))"
proof (induction steps arbitrary: m)
  case (Cons step steps)
  then show ?case using step_keeps_user [of tbl m step n] by (fastforce split: option.splits)
qed simp

text \<open>A timer keeps the lists asynchronous, and calls what its process calls.\<close>

lemma timer_async:
  assumes "only_then tbl" "then_only.stable_lists m" "run_timer n tbl m = Some m'"
  shows "then_only.stable_lists m'"
proof (cases "pw_timers (d_user (m_world m))")
  case (Cons pv rest)
  obtain p v where pv: "pv = (p, v)" by (cases pv)
  obtain w as t where w: "process tbl p v (d_user (m_world m)\<lparr>pw_timers := rest\<rparr>) = (w, as, t)" by (metis prod_cases3)
  have "then_only.stable_lists (m\<lparr>m_world := (m_world m)\<lparr>d_user := w\<rparr>\<rparr>)"
    using assms(2) by (simp add: then_only.stable_lists_def)
  moreover have "do_actions n tbl as (m\<lparr>m_world := (m_world m)\<lparr>d_user := w\<rparr>\<rparr>) = Some m'"
    using assms(3) Cons pv w by (simp add: run_timer_def do_step_def)
  moreover have "\<forall>a \<in> set as. adds_async a" using process_async [OF assms(1) w] by blast
  ultimately show ?thesis using actions_keep_user [OF assms(1)] by blast
qed (use assms in \<open>simp add: run_timer_def\<close>)

lemma timers_async:
  "only_then tbl \<Longrightarrow> then_only.stable_lists m \<Longrightarrow> run_timers k n tbl m = Some m' \<Longrightarrow>
     then_only.stable_lists m'"
  by (induction k arbitrary: m) (auto split: if_splits option.splits dest: timer_async)

end
