(* ===== verification/Jq_Classes.thy ===== *)
theory Jq_Classes
  imports Jq_Strings Sphinx_Search
begin

text \<open>
  The class methods of docs/_static/jquery-3.5.1.js. An element is its node type, its class
  attribute and the class name \<open>toggleClass\<close> has stored for it. The code works on strings padded
  with spaces; the last section shows that it computes with the set of the class names.
\<close>

record element =
  el_type :: nat
  el_class :: "string option"
  el_attrs :: bool
  el_saved :: "string option"

text \<open>\<open>el_attrs\<close> tells whether the node has \<open>getAttribute\<close> and \<open>setAttribute\<close>.\<close>

definition or_empty :: "string option \<Rightarrow> string" where
  "or_empty s = (case s of None \<Rightarrow> '''' | Some t \<Rightarrow> t)"

definition getClass :: "element \<Rightarrow> string" where
  "getClass e = (if el_attrs e then or_empty (el_class e) else '''')"

definition set_class :: "string \<Rightarrow> element \<Rightarrow> element" where
  "set_class s e = e\<lparr>el_class := Some s\<rparr>"

datatype class_value = CStr string | CList "string list" | CBool bool | CUndefined | COther

datatype class_arg = Value class_value | Computed "nat \<Rightarrow> string \<Rightarrow> class_value"

fun classesToArray :: "class_value \<Rightarrow> string list" where
  "classesToArray (CList cs) = cs"
| "classesToArray (CStr s) = html_words s"
| "classesToArray _ = []"

text \<open>The loops over the class names end at the first that is empty.\<close>

definition truthy_names :: "string list \<Rightarrow> string list" where
  "truthy_names = takeWhile (\<lambda>c. c \<noteq> [])"

definition padded :: "string \<Rightarrow> string" where
  "padded s = CHR '' '' # s @ '' ''"

section \<open>addClass\<close>

definition add_name :: "string \<Rightarrow> string \<Rightarrow> string" where
  "add_name clazz cur = (if has_sub (padded clazz) cur then cur else cur @ clazz @ '' '')"

definition write_class :: "string \<Rightarrow> element \<Rightarrow> element" where
  "write_class cur e =
     (let finalValue = stripAndCollapse cur in
      if getClass e \<noteq> finalValue then set_class finalValue e else e)"

definition add_names :: "string list \<Rightarrow> element \<Rightarrow> element" where
  "add_names classes e =
     (if el_type e = 1
      then write_class (fold add_name (truthy_names classes) (padded (stripAndCollapse (getClass e)))) e
      else e)"

definition add_value :: "class_value \<Rightarrow> element list \<Rightarrow> element list" where
  "add_value value es =
     (let classes = classesToArray value in if classes = [] then es else map (add_names classes) es)"

text \<open>\<open>each\<close> over the elements, with their positions.\<close>

definition each_elem :: "(nat \<Rightarrow> element \<Rightarrow> element list \<Rightarrow> element list) \<Rightarrow> element list \<Rightarrow> element list" where
  "each_elem f es = concat (map (\<lambda>(j, e). f j e [e]) (enumerate 0 es))"

fun addClass :: "class_arg \<Rightarrow> element list \<Rightarrow> element list" where
  "addClass (Value value) es = add_value value es"
| "addClass (Computed f) es = each_elem (\<lambda>j e. add_value (f j (getClass e))) es"

section \<open>removeClass\<close>

text \<open>\<open>while (cur.indexOf(p) > -1) cur = cur.replace(p, " ")\<close> for a padded name.\<close>

function remove_name :: "string \<Rightarrow> string \<Rightarrow> string" where
  "remove_name clazz cur =
     (case find_sub (padded clazz) cur of
        None \<Rightarrow> cur
      | Some i \<Rightarrow> remove_name clazz (take i cur @ '' '' @ drop (i + length (padded clazz)) cur))"
  by pat_completeness auto

termination
proof (relation "measure (\<lambda>(c, s). length s)", goal_cases)
  case (2 clazz cur i)
  have "length cur = length (take i cur @ padded clazz @ drop (i + length (padded clazz)) cur)"
    using find_sub_split(1) [OF 2] by (rule arg_cong)
  then show ?case by (simp add: padded_def)
qed simp

declare remove_name.simps [simp del]

definition remove_names :: "string list \<Rightarrow> element \<Rightarrow> element" where
  "remove_names classes e =
     (if el_type e = 1
      then write_class (fold remove_name (truthy_names classes) (padded (stripAndCollapse (getClass e)))) e
      else e)"

definition remove_value :: "class_value \<Rightarrow> element list \<Rightarrow> element list" where
  "remove_value value es =
     (let classes = classesToArray value in if classes = [] then es else map (remove_names classes) es)"

text \<open>Without an argument: \<open>attr("class", "")\<close>, which leaves text, comment and attribute nodes alone.\<close>

fun removeClass :: "class_arg option \<Rightarrow> element list \<Rightarrow> element list" where
  "removeClass (Some (Value value)) es = remove_value value es"
| "removeClass (Some (Computed f)) es = each_elem (\<lambda>j e. remove_value (f j (getClass e))) es"
| "removeClass None es =
     map (\<lambda>e. if el_type e \<notin> {2, 3, 8} \<and> el_attrs e then set_class '''' e else e) es"

section \<open>hasClass and toggleClass\<close>

definition hasClass :: "string \<Rightarrow> element list \<Rightarrow> bool" where
  "hasClass selector es =
     list_ex (\<lambda>e. el_type e = 1 \<and> has_sub (padded selector) (padded (stripAndCollapse (getClass e)))) es"

definition toggle_name :: "string \<Rightarrow> element list \<Rightarrow> element list" where
  "toggle_name className es =
     (if hasClass className es then remove_value (CStr className) es else add_value (CStr className) es)"

definition toggle_whole :: "bool \<Rightarrow> element \<Rightarrow> element" where
  "toggle_whole value_false e =
     (let className = getClass e;
          e1 = (if className \<noteq> '''' then e\<lparr>el_saved := Some className\<rparr> else e) in
      if el_attrs e1
      then set_class (if className \<noteq> '''' \<or> value_false then '''' else or_empty (el_saved e1)) e1
      else e1)"

fun valid_class_value :: "class_value \<Rightarrow> bool" where
  "valid_class_value (CStr s) = True"
| "valid_class_value (CList cs) = True"
| "valid_class_value _ = False"

definition toggle_value :: "class_value \<Rightarrow> bool option \<Rightarrow> element list \<Rightarrow> element list" where
  "toggle_value value stateVal es =
     (if stateVal \<noteq> None \<and> valid_class_value value
      then (if the stateVal then add_value value es else remove_value value es)
      else each_elem (\<lambda>j e one.
        if valid_class_value value then fold toggle_name (truthy_names (classesToArray value)) one
        else (case value of
                CUndefined \<Rightarrow> map (toggle_whole False) one
              | CBool b \<Rightarrow> map (toggle_whole (\<not> b)) one
              | _ \<Rightarrow> one)) es)"

fun toggleClass :: "class_arg \<Rightarrow> bool option \<Rightarrow> element list \<Rightarrow> element list" where
  "toggleClass (Value value) stateVal es = toggle_value value stateVal es"
| "toggleClass (Computed f) stateVal es = each_elem (\<lambda>i e. toggle_value (f i (getClass e)) stateVal) es"

section \<open>The set of class names\<close>

text \<open>Padded strings: they begin and end with a space and have no other white space.\<close>

definition spaced :: "string \<Rightarrow> bool" where
  "spaced s \<longleftrightarrow> (\<exists>t. s = CHR '' '' # t) \<and> (\<exists>t. s = t @ '' '') \<and> (\<forall>c \<in> set s. html_white c \<longrightarrow> c = CHR '' '')"

lemma set_join_space: "set (join_space ws) \<subseteq> insert (CHR '' '') (\<Union> (set ` set ws))"
  by (induction ws rule: join_space.induct) auto

lemma spaced_padded: "spaced (padded (stripAndCollapse s))"
  using set_join_space [of "html_words s"] html_words_words [of _ s]
  by (fastforce simp: spaced_def padded_def stripAndCollapse_def word_def)

lemma words_padded [simp]: "html_words (padded s) = html_words s"
proof -
  have "html_words (CHR '' '' # s @ '' '') = html_words (s @ CHR '' '' # [])"
    using html_words_space [of "[]" "s @ '' ''"] by simp
  then show ?thesis using html_words_space [of s "[]"] by (simp add: padded_def)
qed

lemma spaced_has_sub:
  assumes "spaced s" "word w"
  shows "has_sub (padded w) s \<longleftrightarrow> w \<in> set (html_words s)"
proof
  assume "has_sub (padded w) s"
  then obtain x y where "s = x @ CHR '' '' # w @ CHR '' '' # y" by (auto simp: has_sub_iff padded_def)
  then have "html_words s = html_words x @ html_words w @ html_words y"
    using html_words_space by simp
  then show "w \<in> set (html_words s)" using html_words_word [OF assms(2)] by simp
next
  assume "w \<in> set (html_words s)"
  then obtain x y where s: "s = x @ w @ y" and x: "x = [] \<or> html_white (last x)" and y: "y = [] \<or> html_white (hd y)"
    using runs_occurs [of w html_white s] by (auto simp: html_words_def)
  have w: "w \<noteq> []" "\<not> html_white (hd w)" "\<not> html_white (last w)"
    using assms(2) by (auto simp: word_def)
  have "x \<noteq> []" using assms(1) s w by (cases w) (auto simp: spaced_def)
  moreover have "y \<noteq> []"
  proof
    assume "y = []"
    then have "last s = last w" using s w by simp
    moreover have "last s = CHR '' ''" using assms(1) by (auto simp: spaced_def)
    ultimately show False using w(3) white_space_char by metis
  qed
  ultimately have "last x = CHR '' ''" "hd y = CHR '' ''"
    using assms(1) s x y by (auto simp: spaced_def)
  then have "x = butlast x @ '' ''" "y = CHR '' '' # tl y"
    using \<open>x \<noteq> []\<close> \<open>y \<noteq> []\<close> append_butlast_last_id [of x] list.collapse [of y] by metis+
  then have "s = butlast x @ padded w @ tl y"
    using s by (metis append.assoc append_Cons append_Nil padded_def)
  then show "has_sub (padded w) s" by (auto simp: has_sub_iff)
qed

lemma words_add_name:
  assumes "spaced cur" "word c"
  shows "html_words (add_name c cur) = (if c \<in> set (html_words cur) then html_words cur else html_words cur @ [c])"
    and "spaced (add_name c cur)"
proof -
  obtain t where t: "cur = t @ '' ''" using assms(1) by (auto simp: spaced_def)
  have c: "html_words (c @ CHR '' '' # []) = [c]" using html_words_space [of c "[]"] html_words_word [OF assms(2)] by simp
  have "html_words (cur @ c @ '' '') = html_words t @ [c]"
    using html_words_space [of t "c @ '' ''"] c by (simp add: t)
  moreover have "html_words cur = html_words t" using html_words_space [of t "[]"] by (simp add: t)
  ultimately show "html_words (add_name c cur) =
      (if c \<in> set (html_words cur) then html_words cur else html_words cur @ [c])"
    by (simp add: add_name_def spaced_has_sub [OF assms])
  obtain u where u: "cur = CHR '' '' # u" using assms(1) by (auto simp: spaced_def)
  have "\<exists>t'. cur @ c @ '' '' = CHR '' '' # t'" "\<exists>t'. cur @ c @ '' '' = t' @ '' ''"
    unfolding u by auto
  then have "spaced (cur @ c @ '' '')"
    using assms unfolding spaced_def word_def by auto
  then show "spaced (add_name c cur)" using assms(1) by (simp add: add_name_def)
qed

lemma words_remove_name:
  assumes "spaced cur" "word c"
  shows "html_words (remove_name c cur) = filter (\<lambda>w. w \<noteq> c) (html_words cur) \<and> spaced (remove_name c cur)"
  using assms
proof (induction c cur rule: remove_name.induct)
  case (1 c cur)
  show ?case
  proof (cases "find_sub (padded c) cur")
    case None
    then have "c \<notin> set (html_words cur)" using spaced_has_sub [OF 1(2,3)] by (simp add: has_sub_def)
    then have "filter (\<lambda>w. w \<noteq> c) (html_words cur) = html_words cur" by (auto simp: filter_id_conv)
    then show ?thesis using None 1(2) by (simp add: remove_name.simps)
  next
    case (Some i)
    define x y where "x = take i cur" and "y = drop (i + length (padded c)) cur"
    have cur: "cur = x @ CHR '' '' # c @ CHR '' '' # y"
      using find_sub_split(1) [OF Some] by (simp add: x_def y_def padded_def)
    have "spaced (x @ '' '' @ y)"
      using 1(2) unfolding spaced_def cur by (cases x; cases y rule: rev_cases) auto
    moreover have "remove_name c cur = remove_name c (x @ '' '' @ y)"
      using Some by (subst remove_name.simps) (simp add: x_def y_def)
    moreover have "filter (\<lambda>w. w \<noteq> c) (html_words (x @ '' '' @ y)) = filter (\<lambda>w. w \<noteq> c) (html_words cur)"
      using html_words_space [of x y] html_words_space [of x "c @ CHR '' '' # y"] html_words_space [of c y]
        html_words_word [OF 1(3)] by (simp add: cur)
    ultimately show ?thesis using 1(1) [OF Some] 1(3) by (simp add: x_def y_def)
  qed
qed

lemma words_fold_add:
  "spaced cur \<Longrightarrow> \<forall>c \<in> set cs. word c \<Longrightarrow>
     set (html_words (fold add_name cs cur)) = set (html_words cur) \<union> set cs \<and> spaced (fold add_name cs cur)"
  by (induction cs arbitrary: cur) (auto simp: words_add_name)

lemma words_fold_remove:
  "spaced cur \<Longrightarrow> \<forall>c \<in> set cs. word c \<Longrightarrow>
     html_words (fold remove_name cs cur) = filter (\<lambda>w. w \<notin> set cs) (html_words cur) \<and> spaced (fold remove_name cs cur)"
  by (induction cs arbitrary: cur) (auto simp: words_remove_name intro: filter_cong)

text \<open>The abstraction: the set of the class names of an element.\<close>

definition class_set :: "element \<Rightarrow> string set" where
  "class_set e = set (html_words (getClass e))"

definition proper :: "element \<Rightarrow> bool" where
  "proper e \<longleftrightarrow> el_type e = 1 \<and> el_attrs e"

lemma truthy_words: "\<forall>c \<in> set cs. word c \<Longrightarrow> truthy_names cs = cs"
  by (auto simp: truthy_names_def word_def)

lemma words_write_class:
  "el_attrs e \<Longrightarrow> html_words (getClass (write_class cur e)) = html_words cur"
  by (auto simp: write_class_def Let_def getClass_def set_class_def or_empty_def split: option.splits)

lemma proper_write_class [simp]: "proper (write_class cur e) = proper e"
  by (simp add: write_class_def Let_def proper_def set_class_def)

lemma add_names_set:
  assumes "proper e" "\<forall>c \<in> set cs. word c"
  shows "class_set (add_names cs e) = class_set e \<union> set cs" "proper (add_names cs e)"
proof -
  show "class_set (add_names cs e) = class_set e \<union> set cs"
    using assms words_fold_add [OF spaced_padded assms(2)]
    by (simp add: class_set_def add_names_def proper_def words_write_class truthy_words)
  show "proper (add_names cs e)" using assms(1) by (simp add: add_names_def)
qed

lemma remove_names_set:
  assumes "proper e" "\<forall>c \<in> set cs. word c"
  shows "class_set (remove_names cs e) = class_set e - set cs" "proper (remove_names cs e)"
proof -
  show "class_set (remove_names cs e) = class_set e - set cs"
    using assms words_fold_remove [OF spaced_padded assms(2)]
    by (auto simp: class_set_def remove_names_def proper_def words_write_class truthy_words)
  show "proper (remove_names cs e)" using assms(1) by (simp add: remove_names_def)
qed

lemma hasClass_set: "proper e \<Longrightarrow> word c \<Longrightarrow> hasClass c [e] \<longleftrightarrow> c \<in> class_set e"
  by (simp add: hasClass_def proper_def spaced_has_sub spaced_padded class_set_def)

lemma words_of_string: "\<forall>c \<in> set (html_words s). word c"
  using html_words_words by blast

lemma add_value_set:
  assumes "proper e"
  shows "\<exists>e'. add_value (CStr s) [e] = [e'] \<and> proper e' \<and> class_set e' = class_set e \<union> set (html_words s)"
proof (cases "html_words s = []")
  case True
  then show ?thesis using assms by (simp add: add_value_def)
next
  case False
  then show ?thesis using add_names_set [OF assms words_of_string] by (simp add: add_value_def Let_def)
qed

lemma remove_value_set:
  assumes "proper e"
  shows "\<exists>e'. remove_value (CStr s) [e] = [e'] \<and> proper e' \<and> class_set e' = class_set e - set (html_words s)"
proof (cases "html_words s = []")
  case True
  then show ?thesis using assms by (simp add: remove_value_def)
next
  case False
  then show ?thesis using remove_names_set [OF assms words_of_string] by (simp add: remove_value_def Let_def)
qed

lemma toggle_name_set:
  assumes "proper e" "word c"
  shows "\<exists>e'. toggle_name c [e] = [e'] \<and> proper e' \<and>
    class_set e' = (if c \<in> class_set e then class_set e - {c} else insert c (class_set e))"
  using add_value_set [OF assms(1), of c] remove_value_set [OF assms(1), of c] hasClass_set [OF assms]
    html_words_word [OF assms(2)] by (auto simp: toggle_name_def)

lemma toggle_names_set:
  assumes "proper e" "\<forall>c \<in> set cs. word c" "distinct cs"
  shows "\<exists>e'. fold toggle_name cs [e] = [e'] \<and> proper e' \<and>
    class_set e' = (class_set e - set cs) \<union> (set cs - class_set e)"
  using assms
proof (induction cs arbitrary: e)
  case (Cons c cs)
  obtain e1 where e1: "toggle_name c [e] = [e1]" "proper e1"
    "class_set e1 = (if c \<in> class_set e then class_set e - {c} else insert c (class_set e))"
    using toggle_name_set [of e c] Cons.prems by auto
  obtain e' where "fold toggle_name cs [e1] = [e']" "proper e'"
    "class_set e' = (class_set e1 - set cs) \<union> (set cs - class_set e1)"
    using Cons.IH [OF e1(2)] Cons.prems by auto
  then show ?case using e1 Cons.prems(3) by auto
qed simp

end
