(* ===== verification/Jq_Param.thy ===== *)
theory Jq_Param
  imports Doctools
begin

text \<open>
  The serialization of data for a request in docs/_static/jquery-3.5.1.js (\<open>jQuery.param\<close>). The
  data is a tree of arrays, objects and scalars; a function value is what it returns. The last
  section shows that the parameters of an address read back what was serialized.
\<close>

datatype form =
    Leaf string
  | Missing
  | Arr "form list"
  | Obj "(string \<times> form) list"
  | Thunk form

text \<open>A leaf is a string, or a number or boolean as it prints; \<open>Missing\<close> is \<open>null\<close> or
  \<open>undefined\<close>; a thunk is a function with the value it returns.\<close>

fun form_string :: "form \<Rightarrow> string" where
  "form_string (Leaf s) = s"
| "form_string Missing = ''null''"
| "form_string (Obj ps) = ''[object Object]''"
| "form_string (Thunk f) = ''function''"
| "form_string (Arr fs) = join_with CHR '','' (map (\<lambda>f. case f of Missing \<Rightarrow> '''' | g \<Rightarrow> form_string g) fs)"

section \<open>Serialization\<close>

definition brackets_end :: "string \<Rightarrow> bool" where
  "brackets_end prefix \<longleftrightarrow> (\<exists>n \<in> set [0..<Suc (length prefix)]. drop n prefix = ''[]'')"

fun container :: "form \<Rightarrow> bool" where
  "container (Arr fs) = True"
| "container (Obj ps) = True"
| "container _ = False"

lemma size_enumerate: "(i, v) \<in> set (enumerate n fs) \<Longrightarrow> size v < Suc (size_list size fs)"
  using size_list_estimation' [of v fs "size v" size]
  by (auto simp: in_set_enumerate_eq less_Suc_eq_le)

lemma size_named: "(name, v) \<in> set ps \<Longrightarrow> size v < Suc (size_list (size_prod (\<lambda>x. 0) size) ps)"
proof (induction ps)
  case (Cons p ps)
  then show ?case by (cases p) auto
qed simp

text \<open>The pairs handed to \<open>add\<close>, in order.\<close>

function buildParams :: "string \<Rightarrow> form \<Rightarrow> bool \<Rightarrow> (string \<times> form) list" where
  "buildParams prefix (Arr fs) traditional =
     concat (map (\<lambda>(i, v).
         if traditional \<or> brackets_end prefix then [(prefix, v)]
         else buildParams (prefix @ ''['' @ (if container v then nat_to_string i else '''') @ '']'') v traditional)
       (enumerate 0 fs))"
| "buildParams prefix (Obj ps) traditional =
     (if traditional then [(prefix, Obj ps)]
      else concat (map (\<lambda>(name, v). buildParams (prefix @ ''['' @ name @ '']'') v traditional) ps))"
| "buildParams prefix (Leaf s) traditional = [(prefix, Leaf s)]"
| "buildParams prefix Missing traditional = [(prefix, Missing)]"
| "buildParams prefix (Thunk f) traditional = [(prefix, Thunk f)]"
  by pat_completeness auto

termination
  by (relation "measure (\<lambda>(p, f, t). size f)") (auto dest: size_enumerate size_named)

fun call_value :: "form \<Rightarrow> form" where
  "call_value (Thunk f) = f"
| "call_value f = f"

definition add_pair :: "string \<times> form \<Rightarrow> string" where
  "add_pair p =
     urlencode (fst p) @ ''='' @
     urlencode (case call_value (snd p) of Missing \<Rightarrow> '''' | v \<Rightarrow> form_string v)"

text \<open>The argument: nothing, form elements with their names and values, or an object.\<close>

datatype param_data = NoData | Fields "(string \<times> form) list" | Props "(string \<times> form) list"

fun param :: "param_data \<Rightarrow> bool \<Rightarrow> string" where
  "param NoData traditional = ''''"
| "param (Fields ps) traditional = join_with CHR ''&'' (map add_pair ps)"
| "param (Props ps) traditional =
     join_with CHR ''&'' (map add_pair (concat (map (\<lambda>(prefix, v). buildParams prefix v traditional) ps)))"

section \<open>Reading back\<close>

lemma hex_value_digit: "n < 16 \<Longrightarrow> hex_value (hex_digit n) = Some n"
  by (auto simp: hex_value_def hex_digit_def Let_def)

lemma read_percent_percent: "b < 256 \<Longrightarrow> read_percent (percent b @ rest) = Some (b, rest)"
  by (simp add: read_percent_def percent_def hex_value_digit less_mult_imp_div_less)

lemma unreserved_not_percent: "\<not> unreserved CHR ''%''"
  by (simp add: unreserved_def)

lemma decode_percent:
  assumes "b < 256"
  shows "decode_component (percent b @ s) =
    (if b < 128 then map_option (Cons (char_of b)) (decode_component s)
     else if b = 194 \<or> b = 195 then
       (case read_percent s of
          None \<Rightarrow> None
        | Some (b', s') \<Rightarrow>
            if 128 \<le> b' \<and> b' < 192
            then map_option (Cons (char_of ((b - 192) * 64 + (b' - 128)))) (decode_component s')
            else None)
     else None)"
proof -
  obtain t where t: "percent b @ s = CHR ''%'' # t" by (simp add: percent_def)
  show ?thesis using read_percent_percent [OF assms, of s] unfolding t by simp
qed

lemma decode_encode_char:
  "decode_component (encode_char c @ rest) = map_option (Cons c) (decode_component rest)"
proof -
  define n where "n = (of_char c :: nat)"
  have n: "n < 256" "char_of n = c" by (simp_all add: n_def)
  consider "unreserved c" | "\<not> unreserved c" "n < 128" | "\<not> unreserved c" "128 \<le> n" by linarith
  then show ?thesis
  proof cases
    case 1
    then have "c \<noteq> CHR ''%''" using unreserved_not_percent by blast
    then show ?thesis using 1 by (simp add: encode_char_def)
  next
    case 2
    then show ?thesis using n decode_percent [of n rest] by (simp add: encode_char_def n_def [symmetric])
  next
    case 3
    define m where "m = n div 64"
    have m: "m = 2 \<or> m = 3" using 3 n(1) unfolding m_def by linarith
    have k: "n mod 64 < 64" "m * 64 + n mod 64 = n" by (simp_all add: m_def)
    have "encode_char c @ rest = percent (192 + m) @ percent (128 + n mod 64) @ rest"
      using 3 by (simp add: encode_char_def n_def [symmetric] m_def)
    moreover have "read_percent (percent (128 + n mod 64) @ rest) = Some (128 + n mod 64, rest)"
      using k(1) by (intro read_percent_percent) linarith
    ultimately show ?thesis
      using m k n(2) decode_percent [of "192 + m" "percent (128 + n mod 64) @ rest"] by auto
  qed
qed

lemma decode_urlencode: "decode_component (urlencode s) = Some s"
  by (induction s) (simp_all add: urlencode_def decode_encode_char)

text \<open>Encoded text has no separators.\<close>

lemma hex_digit_plain:
  assumes "n < 16"
  shows "hex_digit n \<notin> set ''&=?+''"
proof
  assume "hex_digit n \<in> set ''&=?+''"
  moreover have "\<forall>c \<in> set ''&=?+''. hex_value c = None" by (simp add: hex_value_def)
  ultimately show False using hex_value_digit [OF assms] by fastforce
qed

lemma percent_plain: "b < 256 \<Longrightarrow> set (percent b) \<inter> set ''&=?+'' = {}"
  using hex_digit_plain [of "b div 16"] hex_digit_plain [of "b mod 16"]
  by (auto simp: percent_def less_mult_imp_div_less)

lemma unreserved_plain: "unreserved c \<Longrightarrow> c \<notin> set ''&=?+''"
  by (auto simp: unreserved_def Let_def)

lemma encode_char_plain: "set (encode_char c) \<inter> set ''&=?+'' = {}"
proof -
  define n where "n = (of_char c :: nat)"
  have n: "n < 256" by (simp add: n_def)
  have "192 + n div 64 < 256" "128 + n mod 64 < 256" using n by (simp_all add: less_mult_imp_div_less)
  then have "set (percent (192 + n div 64) @ percent (128 + n mod 64)) \<inter> set ''&=?+'' = {}"
    using percent_plain unfolding set_append by blast
  then show ?thesis
    using unreserved_plain [of c] percent_plain [OF n]
    by (cases "unreserved c") (auto simp: encode_char_def n_def [symmetric] simp del: set_append)
qed

lemma urlencode_plain: "c \<in> set (urlencode s) \<Longrightarrow> c \<notin> set ''&=?+''"
  using encode_char_plain by (fastforce simp: urlencode_def)

lemma urldecode_urlencode: "urldecode (Some (urlencode s)) = Some (Some s)"
proof -
  have "plus_to_space (urlencode s) = urlencode s"
    using urlencode_plain [of _ s] by (auto simp: plus_to_space_def intro!: map_idI)
  then show ?thesis using decode_urlencode [of s] by (auto simp: urldecode_def)
qed

lemma param_parts_pair:
  "param_parts (urlencode k @ CHR ''='' # urlencode v) = (urlencode k, Some (urlencode v))"
proof -
  have "CHR ''='' \<notin> set (urlencode s)" for s using urlencode_plain by fastforce
  then have "split_on CHR ''='' (urlencode k @ CHR ''='' # urlencode v) = [urlencode k, urlencode v]"
    by (simp add: split_on_append_sep split_on_no_sep)
  then show ?thesis by (simp add: param_parts_def)
qed

text \<open>Pairs of names and strings, read one after the other.\<close>

definition pair_text :: "string \<times> string \<Rightarrow> string" where
  "pair_text p = urlencode (fst p) @ CHR ''='' # urlencode (snd p)"

definition values_of :: "string \<Rightarrow> (string \<times> 'a) list \<Rightarrow> 'a list" where
  "values_of k ps = map snd (filter (\<lambda>p. fst p = k) ps)"

definition read_values :: "query_params \<Rightarrow> string \<Rightarrow> string option list" where
  "read_values result k = (case map_of result k of None \<Rightarrow> [] | Some vs \<Rightarrow> vs)"

lemma add_param_values:
  assumes "k \<notin> set object_prototype_names"
  shows "\<exists>result'. add_param k v result = Inr result' \<and>
    (\<forall>j. read_values result' j = read_values result j @ (if j = k then [v] else []))"
proof (cases "map_of result k")
  case None
  then have "add_param k v result = Inr (put k [v] result)" using assms by (simp add: add_param_def)
  then show ?thesis using None by (simp add: read_values_def)
next
  case (Some vs)
  then have "add_param k v result = Inr (put k (vs @ [v]) result)" by (simp add: add_param_def)
  then show ?thesis using Some by (simp add: read_values_def)
qed

lemma add_params_pairs:
  assumes "\<forall>p \<in> set ps. fst p \<notin> set object_prototype_names"
  shows "\<exists>result'. add_params (map pair_text ps) result = Inr result' \<and>
    (\<forall>k. read_values result' k = read_values result k @ map Some (values_of k ps))"
  using assms
proof (induction ps arbitrary: result)
  case (Cons p ps)
  obtain k v where p: "p = (k, v)" by force
  obtain result1 where r1: "add_param k (Some v) result = Inr result1"
    and r: "\<forall>j. read_values result1 j = read_values result j @ (if j = k then [Some v] else [])"
    using add_param_values [of k "Some v" result] Cons.prems p by auto
  have step: "add_params (map pair_text (p # ps)) result = add_params (map pair_text ps) result1"
    using r1 urldecode_urlencode by (simp add: p pair_text_def param_parts_pair)
  show ?case using Cons.IH [of result1] Cons.prems r unfolding step
    by (auto simp: p values_of_def)
qed (simp add: values_of_def)

text \<open>Form fields with strings for values are read back from the address, in order for each name.\<close>

lemma split_pairs:
  assumes "ps \<noteq> []"
  shows "split_on CHR ''&'' (join_with CHR ''&'' (map pair_text ps)) = map pair_text ps"
    and "find_sub ''?'' (join_with CHR ''&'' (map pair_text ps)) = None"
proof -
  have plain: "CHR ''&'' \<notin> set (pair_text p)" "CHR ''?'' \<notin> set (pair_text p)" for p
    using urlencode_plain by (fastforce simp: pair_text_def)+
  show "split_on CHR ''&'' (join_with CHR ''&'' (map pair_text ps)) = map pair_text ps"
    using assms plain by (intro split_on_join) auto
  have "CHR ''?'' \<notin> set (join_with CHR ''&'' qs)" if "\<forall>q \<in> set qs. CHR ''?'' \<notin> set q" for qs
    using that by (induction "CHR ''&''" qs rule: join_with.induct) auto
  then have "CHR ''?'' \<notin> set (join_with CHR ''&'' (map pair_text ps))" using plain by auto
  then have "\<not> has_sub ''?'' (join_with CHR ''&'' (map pair_text ps))"
    by (auto simp: has_sub_iff)
  then show "find_sub ''?'' (join_with CHR ''&'' (map pair_text ps)) = None" by (simp add: has_sub_def)
qed

lemma param_fields:
  "param (Fields (map (\<lambda>(k, v). (k, Leaf v)) ps)) traditional = join_with CHR ''&'' (map pair_text ps)"
proof -
  have "map add_pair (map (\<lambda>(k, v). (k, Leaf v)) ps) = map pair_text ps"
    by (auto simp: add_pair_def pair_text_def)
  then show ?thesis by (simp only: param.simps)
qed

lemma param_props:
  "param (Props (map (\<lambda>(k, v). (k, Leaf v)) ps)) traditional = join_with CHR ''&'' (map pair_text ps)"
proof -
  have "concat (map (\<lambda>(prefix, v). buildParams prefix v traditional) (map (\<lambda>(k, v). (k, Leaf v)) ps)) =
      map (\<lambda>(k, v). (k, Leaf v)) ps"
    by (induction ps) auto
  then show ?thesis using param_fields [of ps] by simp
qed

lemma read_pairs:
  assumes "ps \<noteq> []" "\<forall>p \<in> set ps. fst p \<notin> set object_prototype_names"
  shows "\<exists>result. getQueryParameters (join_with CHR ''&'' (map pair_text ps)) = Inr result \<and>
    (\<forall>k. read_values result k = map Some (values_of k ps))"
  using add_params_pairs [OF assms(2), of "[]"] split_pairs [OF assms(1)]
  by (auto simp: getQueryParameters_def read_values_def ran_def)

end
