(* ===== verification/Jq_Ajax.thy ===== *)
theory Jq_Ajax
  imports Jq_Strings Sphinx_Search Underscore_Types
begin

text \<open>
  The request pipeline of docs/_static/jquery-3.5.1.js that is free of the browser: the tables of
  prefilters and transports and their inspection, the choice of the response, and the chain of
  conversions. The engine parts (the request object, headers, the functions registered) are
  arguments. The chain of conversions takes fuel; the last section shows how much is enough when
  every converter can be used.
\<close>

section \<open>Prefilters and transports\<close>

type_synonym 'f registry = "(string \<times> 'f list) list"

definition registered :: "'f registry \<Rightarrow> string \<Rightarrow> 'f list" where
  "registered st dataType = (case map_of st dataType of None \<Rightarrow> [] | Some fs \<Rightarrow> fs)"

text \<open>\<open>None\<close> is the \<open>TypeError\<close> of a data type named like an inherited property, which has no
  \<open>push\<close>.\<close>

definition add_type :: "'f \<Rightarrow> string \<Rightarrow> 'f registry \<Rightarrow> 'f registry option" where
  "add_type func dataType st =
     (let front = (take 1 dataType = ''+'');
          name = (if front then (if drop 1 dataType = '''' then ''*'' else drop 1 dataType) else dataType);
          fs = registered st name in
      if map_of st name = None \<and> name \<in> set object_prototype_names then None
      else Some (put name (if front then func # fs else fs @ [func]) st))"

fun add_types :: "'f \<Rightarrow> string list \<Rightarrow> 'f registry \<Rightarrow> 'f registry option" where
  "add_types func [] st = Some st"
| "add_types func (t # ts) st =
     (case add_type func t st of None \<Rightarrow> None | Some st1 \<Rightarrow> add_types func ts st1)"

text \<open>The expression is \<open>None\<close> when it was left out.\<close>

definition addToPrefiltersOrTransports :: "string option \<Rightarrow> 'f \<Rightarrow> 'f registry \<Rightarrow> 'f registry option" where
  "addToPrefiltersOrTransports dataTypeExpression func st =
     add_types func
       (html_words (to_lower (case dataTypeExpression of None \<Rightarrow> ''*'' | Some e \<Rightarrow> e))) st"

text \<open>What a prefilter or a factory returns: the name of a data type, a transport, or a value that
  counts as false. It may change the options, of which the model shows the data types.\<close>

datatype 't selected = TypeName string | Transport 't | Nothing

record 'o options =
  op_types :: "string list"
  op_rest :: 'o

type_synonym ('o, 't) factory = "'o options \<Rightarrow> 'o options \<times> 't selected"

lemma inspect_measure:
  assumes "t \<notin> inspected"
  shows "card (fst ` set st - insert t inspected) < card (fst ` set st - inspected) \<or>
    registered st t = []"
proof (cases "t \<in> fst ` set st")
  case True
  then have "fst ` set st - insert t inspected \<subset> fst ` set st - inspected" using assms by blast
  then show ?thesis by (intro disjI1 psubset_card_mono) auto
next
  case False
  then have "map_of st t = None" by (simp add: map_of_eq_None_iff)
  then show ?thesis by (simp add: registered_def)
qed

lemma inspect_shorter:
  "t \<notin> inspected \<Longrightarrow> \<not> card (fst ` set st - insert t inspected) < card (fst ` set st - inspected) \<Longrightarrow>
     length (registered st t) < Suc n"
  using inspect_measure [of t inspected st] by auto

lemma inspect_same:
  "\<not> card (fst ` set st - insert t inspected) < card (fst ` set st - inspected) \<Longrightarrow>
     card (fst ` set st - insert t inspected) = card (fst ` set st - inspected)"
  using card_mono [of "fst ` set st - inspected" "fst ` set st - insert t inspected"] by fastforce

text \<open>The calls of the functions of one data type, and of the data type a prefilter names, which
  ends them. The set holds the types inspected so far; a name every object inherits counts as
  inspected, because the code looks it up in an object.\<close>

function inspect_all :: "bool \<Rightarrow> ('o, 't) factory registry \<Rightarrow> string set \<Rightarrow> 'o options \<Rightarrow>
    ('o, 't) factory list \<Rightarrow> string set \<times> 'o options \<times> 't selected" where
  "inspect_all seeking st inspected opts [] = (inspected, opts, Nothing)"
| "inspect_all seeking st inspected opts (f # fs) =
     (case f opts of
        (opts1, r) \<Rightarrow>
          (if seeking
           then (case r of Nothing \<Rightarrow> inspect_all seeking st inspected opts1 fs
                 | TypeName t \<Rightarrow>
                     if t = '''' then inspect_all seeking st inspected opts1 fs else (inspected, opts1, r)
                 | _ \<Rightarrow> (inspected, opts1, r))
           else (case r of
                   TypeName t \<Rightarrow>
                     if t \<in> inspected \<or> t \<in> set object_prototype_names then inspect_all seeking st inspected opts1 fs
                     else (case inspect_all seeking st (insert t inspected)
                             (opts1\<lparr>op_types := t # op_types opts1\<rparr>) (registered st t) of
                             (inspected', opts', s) \<Rightarrow> (inspected', opts', Nothing))
                 | _ \<Rightarrow> inspect_all seeking st inspected opts1 fs)))"
  by pat_completeness auto

termination
  by (relation "measures [\<lambda>(s, st, ins, opts, fs). card (fst ` set st - ins), \<lambda>(s, st, ins, opts, fs). length fs]")
    (auto intro: inspect_shorter inspect_same)

definition first_type :: "'o options \<Rightarrow> string" where
  "first_type opts = (case op_types opts of [] \<Rightarrow> ''undefined'' | t # ts \<Rightarrow> t)"

definition inspectPrefiltersOrTransports ::
    "bool \<Rightarrow> ('o, 't) factory registry \<Rightarrow> 'o options \<Rightarrow> 'o options \<times> 't selected" where
  "inspectPrefiltersOrTransports seeking st opts =
     (let t = first_type opts in
      case inspect_all seeking st {t} opts (registered st t) of
        (inspected, opts1, r) \<Rightarrow>
          if r \<noteq> Nothing then (opts1, r)
          else if ''*'' \<in> inspected then (opts1, Nothing)
          else (case inspect_all seeking st (insert ''*'' inspected) opts1 (registered st ''*'') of
                  (inspected', opts2, r') \<Rightarrow> (opts2, r')))"

section \<open>The response\<close>

text \<open>The settings: the known content types with their tests (\<open>None\<close> for one that is switched
  off), the converters (\<open>None\<close> for a value that counts as false), the fields of the request object
  the responses go to, and the filter.\<close>

datatype ('r, 'e) converter = Equivalence | Converter "'r \<Rightarrow> 'e + 'r"

record ('r, 'e) settings =
  se_contents :: "(string \<times> (string \<Rightarrow> bool) option) list"
  se_mime_type :: string
  se_types :: "string list"
  se_converters :: "(string \<times> ('r, 'e) converter option) list"
  se_fields :: "(string \<times> string) list"
  se_filter :: "('r \<Rightarrow> 'r) option"
  se_throws :: bool

definition has_converter :: "(string \<times> ('r, 'e) converter option) list \<Rightarrow> string \<Rightarrow> bool" where
  "has_converter cs k = (case map_of cs k of Some (Some c) \<Rightarrow> True | _ \<Rightarrow> False)"

text \<open>The data types and the response that is found; \<open>header\<close> is the content type of the
  response. No data type is named like an inherited property.\<close>

definition content_type :: "('r, 'e) settings \<Rightarrow> string option \<Rightarrow> string" where
  "content_type s header =
     (if take 1 (se_types s) \<noteq> [''*''] then ''''
      else if se_mime_type s \<noteq> '''' then se_mime_type s
      else (case header of None \<Rightarrow> '''' | Some h \<Rightarrow> h))"

definition known_type :: "('r, 'e) settings \<Rightarrow> string \<Rightarrow> string option" where
  "known_type s ct =
     (if ct = '''' then None
      else map_option fst
        (List.find (\<lambda>(t, test). case test of None \<Rightarrow> False | Some p \<Rightarrow> p ct) (se_contents s)))"

definition final_type :: "('r, 'e) settings \<Rightarrow> string list \<Rightarrow> (string \<times> 'r) list \<Rightarrow> string" where
  "final_type s dataTypes responses =
     (let wanted = (case dataTypes of [] \<Rightarrow> '''' | t # ts \<Rightarrow> t) in
      if dataTypes \<noteq> [] \<and> wanted \<in> fst ` set responses then wanted
      else (case List.find (\<lambda>(t, r). wanted = '''' \<or> has_converter (se_converters s) (t @ '' '' @ wanted)) responses of
              Some (t, r) \<Rightarrow> if t \<noteq> '''' then t
                             else (case filter (\<lambda>u. u \<noteq> '''') (map fst (takeWhile (\<lambda>(u, r). u \<noteq> t) responses)) of
                                     [] \<Rightarrow> '''' | u # us \<Rightarrow> u)
            | None \<Rightarrow> (case filter (\<lambda>u. u \<noteq> '''') (map fst responses) of [] \<Rightarrow> '''' | u # us \<Rightarrow> u)))"

definition ajaxHandleResponses :: "('r, 'e) settings \<Rightarrow> string option \<Rightarrow> (string \<times> 'r) list \<Rightarrow>
    string list \<times> 'r option" where
  "ajaxHandleResponses s header responses =
     (let types1 = dropWhile (\<lambda>t. t = ''*'') (se_types s);
          types2 = (case known_type s (content_type s header) of None \<Rightarrow> types1 | Some t \<Rightarrow> t # types1);
          final = final_type s types2 responses in
      if final = '''' then (types2, None)
      else (if take 1 types2 = [final] then types2 else final # types2, map_of responses final))"

section \<open>Conversions\<close>

text \<open>The converters under lower case keys; the code makes the table only when there is a second
  data type.\<close>

definition lower_converters :: "('r, 'e) settings \<Rightarrow> (string \<times> ('r, 'e) converter option) list" where
  "lower_converters s =
     (case se_types s of
        t # u # ts \<Rightarrow> if u \<noteq> '''' then put_all (map (\<lambda>(k, c). (to_lower k, c)) (se_converters s)) [] else []
      | _ \<Rightarrow> [])"

definition usable :: "(string \<times> ('r, 'e) converter option) list \<Rightarrow> string \<Rightarrow> ('r, 'e) converter option" where
  "usable cs k = (case map_of cs k of Some (Some c) \<Rightarrow> Some c | _ \<Rightarrow> None)"

definition direct :: "(string \<times> ('r, 'e) converter option) list \<Rightarrow> string \<Rightarrow> string \<Rightarrow> ('r, 'e) converter option" where
  "direct cs prev current =
     (case usable cs (prev @ '' '' @ current) of
        Some c \<Rightarrow> Some c
      | None \<Rightarrow> usable cs (''* '' @ current))"

definition key_parts :: "string \<Rightarrow> string \<times> string option" where
  "key_parts k = (case split_on CHR '' '' k of t # u # us \<Rightarrow> (t, Some u) | [t] \<Rightarrow> (t, None) | [] \<Rightarrow> ('''', None))"

text \<open>The converter for one conversion, the data type it leads to and the types put back on the
  list.\<close>

definition find_converter :: "(string \<times> ('r, 'e) converter option) list \<Rightarrow> string \<Rightarrow> string \<Rightarrow>
    ('r, 'e) converter option \<times> string \<times> string list" where
  "find_converter cs prev current =
     (case direct cs prev current of
        Some c \<Rightarrow> (Some c, current, [])
      | None \<Rightarrow>
          (case List.find (\<lambda>(k, c). snd (key_parts k) = Some current \<and> direct cs prev (fst (key_parts k)) \<noteq> None) cs of
             None \<Rightarrow> (None, current, [])
           | Some (k, c) \<Rightarrow>
               (case direct cs prev (fst (key_parts k)) of
                  Some Equivalence \<Rightarrow> (usable cs k, current, [])
                | conv \<Rightarrow>
                    if usable cs k = Some Equivalence then (conv, current, [])
                    else (conv, fst (key_parts k), [current]))))"

datatype ('r, 'e) converted = Converted 'r | ParserError "'e + string" | Thrown 'e

text \<open>The loop: the response, the previous data type (\<open>None\<close> at first), the current one, those
  left, and the fields written so far. The result is \<open>None\<close> when the fuel is used up.\<close>

fun convert_loop :: "nat \<Rightarrow> ('r, 'e) settings \<Rightarrow> (string \<times> ('r, 'e) converter option) list \<Rightarrow> bool \<Rightarrow>
    'r \<Rightarrow> string option \<Rightarrow> string \<Rightarrow> string list \<Rightarrow> (string \<times> 'r) list \<Rightarrow>
    (('r, 'e) converted \<times> (string \<times> 'r) list) option" where
  "convert_loop 0 s cs isSuccess response prev current types written = None"
| "convert_loop (Suc n) s cs isSuccess response prev current types written =
     (if current = '''' then Some (Converted response, written)
      else
        (let written1 = (case map_of (se_fields s) current of
                          Some f \<Rightarrow> if f = '''' then written else written @ [(f, response)]
                        | None \<Rightarrow> written);
             response1 = (case se_filter s of
                            Some f \<Rightarrow> if prev = None \<and> isSuccess then f response else response
                          | None \<Rightarrow> response);
             upcoming = (case types of [] \<Rightarrow> '''' | t # ts \<Rightarrow> t)
         in
         if upcoming = '''' then Some (Converted response1, written1)
         else if upcoming = ''*'' then convert_loop n s cs isSuccess response1 (Some current) current (tl types) written1
         else if current = ''*'' \<or> current = upcoming
         then convert_loop n s cs isSuccess response1 (Some current) upcoming (tl types) written1
         else (case find_converter cs current upcoming of
                 (conv, current', pushed) \<Rightarrow>
                   (case conv of
                      None \<Rightarrow>
                        Some (ParserError (Inr (''No conversion from '' @ current @ '' to '' @ current')), written1)
                    | Some Equivalence \<Rightarrow>
                        convert_loop n s cs isSuccess response1 (Some current) current' (pushed @ tl types) written1
                    | Some (Converter f) \<Rightarrow>
                        (case f response1 of
                           Inl e \<Rightarrow> Some ((if se_throws s then Thrown e else ParserError (Inl e)), written1)
                         | Inr response2 \<Rightarrow>
                             convert_loop n s cs isSuccess response2 (Some current) current' (pushed @ tl types) written1)))))"

definition ajaxConvert :: "nat \<Rightarrow> ('r, 'e) settings \<Rightarrow> 'r \<Rightarrow> bool \<Rightarrow>
    (('r, 'e) converted \<times> (string \<times> 'r) list) option" where
  "ajaxConvert n s response isSuccess =
     convert_loop n s (lower_converters s) isSuccess response None
       (case se_types s of [] \<Rightarrow> '''' | t # ts \<Rightarrow> t) (tl (se_types s)) []"

section \<open>Enough fuel\<close>

text \<open>Every key is two data types, and there is something to convert with.\<close>

definition sound_converters :: "(string \<times> ('r, 'e) converter option) list \<Rightarrow> bool" where
  "sound_converters cs \<longleftrightarrow>
     (\<forall>(k, c) \<in> set cs. c \<noteq> None \<and> (\<exists>t u. k = t @ CHR '' '' # u \<and> CHR '' '' \<notin> set t \<and> CHR '' '' \<notin> set u)) \<and>
     distinct (map fst cs)"

lemma sound_usable:
  assumes "sound_converters cs" "(k, c) \<in> set cs"
  shows "usable cs k \<noteq> None \<and> k = fst (key_parts k) @ '' '' @ the (snd (key_parts k)) \<and> snd (key_parts k) \<noteq> None"
proof -
  obtain t u d where "k = t @ CHR '' '' # u" "CHR '' '' \<notin> set t" "CHR '' '' \<notin> set u" "c = Some d"
    using assms by (fastforce simp: sound_converters_def)
  moreover have "map_of cs k = Some c" using assms by (simp add: sound_converters_def)
  ultimately show ?thesis
    by (simp add: usable_def key_parts_def split_on_append_sep split_on_no_sep)
qed

text \<open>A type that is put back is converted to directly from the one inserted before it.\<close>

lemma find_converter_pushed:
  assumes "sound_converters cs" "find_converter cs prev current = (conv, current', pushed)" "pushed \<noteq> []"
  shows "pushed = [current] \<and> direct cs current' current \<noteq> None"
proof -
  obtain k c where found: "List.find (\<lambda>(k, c). snd (key_parts k) = Some current \<and>
      direct cs prev (fst (key_parts k)) \<noteq> None) cs = Some (k, c)"
    and pushed: "pushed = [current]" "current' = fst (key_parts k)"
    using assms(2,3) by (fastforce simp: find_converter_def split: option.splits converter.splits if_splits)
  have k: "(k, c) \<in> set cs" "snd (key_parts k) = Some current"
    using found nth_mem by (fastforce simp: find_Some_iff)+
  then have "usable cs (current' @ '' '' @ current) \<noteq> None"
    using sound_usable [OF assms(1) k(1)] pushed by simp
  then show ?thesis using pushed by (auto simp: direct_def split: option.splits)
qed

lemma direct_no_push:
  "direct cs prev current \<noteq> None \<Longrightarrow> find_converter cs prev current = (direct cs prev current, current, [])"
  by (auto simp: find_converter_def)

lemma convert_loop_returns:
  assumes "sound_converters cs"
  shows "2 * length types + 1 \<le> n \<Longrightarrow>
    convert_loop n s cs ok response prev current types written \<noteq> None"
proof (induction types arbitrary: n ok response prev current written)
  case Nil
  then show ?case by (cases n) auto
next
  case (Cons t ts)
  have step: "convert_loop m s cs ok r p c ts w \<noteq> None" if "2 * length ts + 1 \<le> m" for m ok r p c w
    using Cons.IH that by blast
  have again: "convert_loop m s cs ok r p c (t # ts) w \<noteq> None"
    if m: "2 * length ts + 2 \<le> m" and d: "direct cs c t \<noteq> None" for m ok r p c w
  proof -
    obtain k where k: "m = Suc k" "2 * length ts + 1 \<le> k" using m by (cases m) auto
    show ?thesis using step [OF k(2)] direct_no_push [OF d]
      by (auto simp: k(1) Let_def split: option.splits converter.splits sum.splits)
  qed
  obtain k where k: "n = Suc k" "2 * length ts + 2 \<le> k" using Cons.prems by (cases n) auto
  obtain conv current' pushed where f: "find_converter cs current t = (conv, current', pushed)"
    by (metis prod_cases3)
  have "convert_loop k s cs ok r p current' (pushed @ ts) w \<noteq> None" for ok r p w
  proof (cases "pushed = []")
    case True
    then show ?thesis using step k by simp
  next
    case False
    then have "pushed = [t]" "direct cs current' t \<noteq> None"
      using find_converter_pushed [OF assms f] by auto
    then show ?thesis using again k by simp
  qed
  moreover have "2 * length ts + 1 \<le> k" using k by simp
  ultimately show ?case using step f
    by (simp add: k(1) Let_def split: option.splits converter.splits sum.splits)
qed

lemma ajaxConvert_returns:
  assumes "sound_converters (lower_converters s)"
  shows "ajaxConvert (2 * length (se_types s) + 1) s response ok \<noteq> None"
  unfolding ajaxConvert_def by (rule convert_loop_returns [OF assms]) simp

end
