(* ===== verification/Jq_Core.thy ===== *)
theory Jq_Core
  imports Sphinx_Search Underscore_Types
begin

text \<open>
  The core of docs/_static/jquery-3.5.1.js: types, the iteration helpers, the methods of a matched
  set that move between sets, and \<open>extend\<close>. Values and objects are those of the other scripts;
  \<open>extend\<close> works on trees of plain objects and arrays, so objects shared between two places of
  its arguments are not shared in the model.
\<close>

section \<open>Types\<close>

definition jq_isFunction :: "realm \<Rightarrow> jsval \<Rightarrow> bool" where
  "jq_isFunction r obj =
     (typeof r obj = ''function'' \<and> typeof r (get_prop r obj ''nodeType'') \<noteq> ''number'')"

definition jq_isWindow :: "realm \<Rightarrow> jsval \<Rightarrow> bool" where
  "jq_isWindow r obj = (\<not> nullish obj \<and> strict_eq obj (get_prop r obj ''window''))"

definition class2type :: "string list" where
  "class2type = [''Boolean'', ''Number'', ''String'', ''Function'', ''Array'', ''Date'', ''RegExp'',
     ''Object'', ''Error'', ''Symbol'']"

definition toType :: "realm \<Rightarrow> jsval \<Rightarrow> string" where
  "toType r obj =
     (if nullish obj then prim_to_string obj
      else if typeof r obj \<in> {''object'', ''function''}
      then (if class_of r obj \<in> set class2type then to_lower (class_of r obj) else ''object'')
      else typeof r obj)"

definition is_primitive :: "jsval \<Rightarrow> bool" where
  "is_primitive v = (case v of Ref a \<Rightarrow> False | _ \<Rightarrow> True)"

text \<open>\<open>None\<close> is the \<open>TypeError\<close> of the operator \<open>in\<close> on a primitive value.\<close>

definition jq_isArrayLike :: "realm \<Rightarrow> jsval \<Rightarrow> bool option" where
  "jq_isArrayLike r obj =
     (if truthy obj \<and> is_primitive obj then None
      else
        (let len = (if truthy obj \<and> has_prop r obj ''length'' then get_prop r obj ''length'' else Bool False) in
         Some (\<not> (jq_isFunction r obj \<or> jq_isWindow r obj) \<and>
           (toType r obj = ''array'' \<or> strict_eq len (num_of_int 0) \<or>
            (case len of
               Num (Fin q) \<Rightarrow> 0 < q \<and> has_prop r obj (number_to_string (Fin (q - 1)))
             | _ \<Rightarrow> False)))))"

text \<open>An object is plain when it has no prototype or one made by \<open>Object\<close>; \<open>proto_kind\<close> tells,
  for an object, which it is (\<open>None\<close>: no prototype).\<close>

definition isPlainObject :: "realm \<Rightarrow> (nat \<Rightarrow> bool option) \<Rightarrow> jsval \<Rightarrow> bool" where
  "isPlainObject r proto_kind obj =
     (case obj of
        Ref a \<Rightarrow> class_of r obj = ''Object'' \<and>
          (case proto_kind a of None \<Rightarrow> True | Some made_by_object \<Rightarrow> made_by_object)
      | _ \<Rightarrow> False)"

fun isEmptyObject :: "realm \<Rightarrow> jsval \<Rightarrow> bool" where
  "isEmptyObject r (Ref a) = (object_all_keys (rm_heap r a) = [])"
| "isEmptyObject r (Str s) = (s = [])"
| "isEmptyObject r v = True"

text \<open>\<open>obj - parseFloat(obj)\<close> is not NaN: the string is a finite number as a whole, and \<open>parseFloat\<close>
  reads one from its beginning (which fails for white space only).\<close>

definition isNumeric :: "realm \<Rightarrow> jsval \<Rightarrow> bool" where
  "isNumeric r obj =
     (toType r obj \<in> {''number'', ''string''} \<and>
      (case to_number r obj of
         Fin q \<Rightarrow> trim (to_string r obj) \<noteq> ''''
       | NegZero \<Rightarrow> True
       | _ \<Rightarrow> False))"

definition jq_trim :: "realm \<Rightarrow> jsval \<Rightarrow> string" where
  "jq_trim r text = (if nullish text then '''' else trim (to_string r text))"

section \<open>Iteration\<close>

text \<open>What \<open>each\<close> visits: the elements up to the length, or the enumerable properties.\<close>

definition count_of :: "realm \<Rightarrow> jsval \<Rightarrow> nat" where
  "count_of r v = (case to_number r v of Fin q \<Rightarrow> nat \<lceil>q\<rceil> | _ \<Rightarrow> 0)"

definition visited :: "realm \<Rightarrow> jsval \<Rightarrow> (pkey \<times> jsval) list option" where
  "visited r obj =
     map_option (\<lambda>array_like.
         if array_like
         then map (\<lambda>i. (Idx i, get_index r obj i)) [0..<count_of r (get_prop r obj ''length'')]
         else (case obj of
                 Ref a \<Rightarrow> map (\<lambda>k. (Key k, get_prop r obj k)) (object_all_keys (rm_heap r a))
               | _ \<Rightarrow> []))
       (jq_isArrayLike r obj)"

text \<open>The callback changes a state and says whether it returned \<open>false\<close>.\<close>

fun each_loop :: "('k \<Rightarrow> 'v \<Rightarrow> 's \<Rightarrow> 's \<times> bool) \<Rightarrow> ('k \<times> 'v) list \<Rightarrow> 's \<Rightarrow> 's" where
  "each_loop callback [] s = s"
| "each_loop callback ((k, v) # items) s =
     (let (s', returned_false) = callback k v s in
      if returned_false then s' else each_loop callback items s')"

definition jq_each :: "realm \<Rightarrow> (pkey \<Rightarrow> jsval \<Rightarrow> 's \<Rightarrow> 's \<times> bool) \<Rightarrow> jsval \<Rightarrow> 's \<Rightarrow> 's option" where
  "jq_each r callback obj s = map_option (\<lambda>items. each_loop callback items s) (visited r obj)"

text \<open>\<open>merge\<close>, on the elements of the first array.\<close>

definition merge_elems :: "realm \<Rightarrow> jsval list \<Rightarrow> jsval \<Rightarrow> jsval list" where
  "merge_elems r first second =
     first @ map (get_index r second) [0..<count_of r (get_prop r second ''length'')]"

text \<open>A string is one element; a boxed value is the value as an object, which has a length only
  when it is a string.\<close>

definition makeArray :: "realm \<Rightarrow> jsval \<Rightarrow> jsval list \<Rightarrow> jsval list" where
  "makeArray r arr results =
     (case arr of
        Str s \<Rightarrow> results @ [arr]
      | _ \<Rightarrow>
          if nullish arr then results
          else if \<not> is_primitive arr \<and> jq_isArrayLike r arr = Some True then merge_elems r results arr
          else results @ [arr])"

fun grep_from :: "nat \<Rightarrow> ('v \<Rightarrow> nat \<Rightarrow> bool) \<Rightarrow> bool \<Rightarrow> 'v list \<Rightarrow> 'v list" where
  "grep_from i callback inverted [] = []"
| "grep_from i callback inverted (x # xs) =
     (let callbackInverse = (\<not> callback x i); callbackExpect = (\<not> inverted) in
      if callbackInverse \<noteq> callbackExpect then x # grep_from (Suc i) callback inverted xs
      else grep_from (Suc i) callback inverted xs)"

definition grep :: "('v \<Rightarrow> nat \<Rightarrow> bool) \<Rightarrow> bool \<Rightarrow> 'v list \<Rightarrow> 'v list" where
  "grep callback inverted elems = grep_from 0 callback inverted elems"

text \<open>\<open>flat\<close>: one level of arrays.\<close>

definition flat :: "realm \<Rightarrow> jsval list \<Rightarrow> jsval list" where
  "flat r vs =
     concat (map (\<lambda>v. if class_of r v = ''Array'' then
         (case v of Ref a \<Rightarrow> obj_elems (rm_heap r a) | _ \<Rightarrow> [v]) else [v]) vs)"

definition jq_map :: "realm \<Rightarrow> jsval \<Rightarrow> (jsval \<Rightarrow> pkey \<Rightarrow> jsval) \<Rightarrow> jsval list option" where
  "jq_map r elems callback =
     map_option (\<lambda>items. flat r (filter (\<lambda>v. \<not> nullish v) (map (\<lambda>(k, v). callback v k) items)))
       (visited r elems)"

section \<open>Matched sets\<close>

text \<open>A set with the sets it came from, the most recent first.\<close>

type_synonym 'e matched = "'e list \<times> 'e list list"

definition pushStack :: "'e list \<Rightarrow> 'e matched \<Rightarrow> 'e matched" where
  "pushStack elems m = (elems, fst m # snd m)"

definition set_end :: "'e matched \<Rightarrow> 'e matched" where
  "set_end m = (case snd m of [] \<Rightarrow> ([], []) | es # rest \<Rightarrow> (es, rest))"

definition set_get :: "int \<Rightarrow> 'e matched \<Rightarrow> 'e option" where
  "set_get num m =
     (let len = int (length (fst m)); j = (if num < 0 then num + len else num) in
      if 0 \<le> j \<and> j < len then Some (fst m ! nat j) else None)"

definition set_eq :: "int \<Rightarrow> 'e matched \<Rightarrow> 'e matched" where
  "set_eq i m =
     (let len = int (length (fst m)); j = i + (if i < 0 then len else 0) in
      pushStack (if 0 \<le> j \<and> j < len then [fst m ! nat j] else []) m)"

definition set_first :: "'e matched \<Rightarrow> 'e matched" where "set_first = set_eq 0"
definition set_last :: "'e matched \<Rightarrow> 'e matched" where "set_last = set_eq (-1)"

definition set_even :: "'e matched \<Rightarrow> 'e matched" where
  "set_even m = pushStack (grep (\<lambda>e i. (i + 1) mod 2 \<noteq> 0) False (fst m)) m"

definition set_odd :: "'e matched \<Rightarrow> 'e matched" where
  "set_odd m = pushStack (grep (\<lambda>e i. i mod 2 \<noteq> 0) False (fst m)) m"

text \<open>\<open>slice\<close> of an array, with relative positions.\<close>

definition slice_start :: "nat \<Rightarrow> int \<Rightarrow> nat" where
  "slice_start len i = (if i < 0 then nat (int len + i) else min len (nat i))"

definition set_slice :: "int \<Rightarrow> int option \<Rightarrow> 'e matched \<Rightarrow> 'e matched" where
  "set_slice from until m =
     (let len = length (fst m);
          stop = (case until of None \<Rightarrow> len | Some i \<Rightarrow> slice_start len i) in
      pushStack (drop (slice_start len from) (take stop (fst m))) m)"

section \<open>extend\<close>

text \<open>A tree: an array or a plain object with its properties in order (those of an array are its
  indices), or any other value.\<close>

datatype jtree = Single jsval | Node bool "(string \<times> jtree) list"

text \<open>\<open>Node True\<close> is an array.\<close>

definition clone_props :: "bool \<Rightarrow> (string \<times> jtree) list \<Rightarrow> string \<Rightarrow> (string \<times> jtree) list" where
  "clone_props is_array target name =
     (case map_of target name of
        Some (Node a ps) \<Rightarrow> if a = is_array then ps else []
      | _ \<Rightarrow> [])"

fun extend_props :: "bool \<Rightarrow> (string \<times> jtree) list \<Rightarrow> (string \<times> jtree) list \<Rightarrow> (string \<times> jtree) list" where
  "extend_props deep target [] = target"
| "extend_props deep target ((name, Single v) # options) =
     extend_props deep
       (if name = ''__proto__'' \<or> v = Undefined then target else put name (Single v) target) options"
| "extend_props deep target ((name, Node a ps) # options) =
     extend_props deep
       (if name = ''__proto__'' then target
        else if deep
        then put name (Node a (extend_props deep (clone_props a target name) ps)) target
        else put name (Node a ps) target) options"

text \<open>All sources in order; \<open>None\<close> is \<open>null\<close> or \<open>undefined\<close>.\<close>

fun extend_all :: "bool \<Rightarrow> (string \<times> jtree) list \<Rightarrow> (string \<times> jtree) list option list \<Rightarrow> (string \<times> jtree) list" where
  "extend_all deep target [] = target"
| "extend_all deep target (None # sources) = extend_all deep target sources"
| "extend_all deep target (Some options # sources) =
     extend_all deep (extend_props deep target options) sources"

text \<open>The call: the target (an object, or anything else, which becomes a fresh object) and the
  sources; with the target alone, the object the method belongs to is extended by it.\<close>

definition jq_extend :: "bool \<Rightarrow> (string \<times> jtree) list \<Rightarrow> (string \<times> jtree) list option \<Rightarrow>
    (string \<times> jtree) list option list \<Rightarrow> (string \<times> jtree) list" where
  "jq_extend deep this target sources =
     (case sources of
        [] \<Rightarrow> extend_all deep this [target]
      | _ \<Rightarrow> extend_all deep (case target of None \<Rightarrow> [] | Some ps \<Rightarrow> ps) sources)"

section \<open>Laws\<close>

lemma grep_from_filter:
  "grep_from i f inverted xs = map snd (filter (\<lambda>(j, x). f x j \<noteq> inverted) (enumerate i xs))"
  by (induction xs arbitrary: i) (auto simp: Let_def)

text \<open>A tree that can be copied: its properties are in the order of enumeration, none is
  undefined and none is called \<open>__proto__\<close>.\<close>

fun copyable :: "jtree \<Rightarrow> bool" where
  "copyable (Single v) = (v \<noteq> Undefined)"
| "copyable (Node a ps) =
     (ordered_props (map fst ps) \<and> ''__proto__'' \<notin> fst ` set ps \<and> (\<forall>p \<in> set ps. copyable (snd p)))"

lemma map_of_new_key: "k \<notin> fst ` set ps \<Longrightarrow> map_of ps k = None"
  by (simp add: map_of_eq_None_iff)

text \<open>Deep extension of an empty object copies: every property is new and goes last, and a
  nested object is copied into an empty one.\<close>

definition fresh_props :: "(string \<times> 'a) list \<Rightarrow> (string \<times> 'b) list \<Rightarrow> bool" where
  "fresh_props target options \<longleftrightarrow>
     (\<forall>p \<in> set target. \<forall>q \<in> set options. \<not> goes_before (fst q) (fst p) \<and> fst q \<noteq> fst p)"

lemma put_fresh: "fresh_props target ((k, x) # options) \<Longrightarrow> put k v target = target @ [(k, v)]"
  unfolding fresh_props_def put_def by (auto simp: insert_prop_last simp del: goes_before.simps)

lemma fresh_props_append:
  "fresh_props target ((k, v) # options) \<Longrightarrow> ordered_props (map fst ((k, v) # options)) \<Longrightarrow>
     fresh_props (target @ [(k, w)]) options"
  unfolding fresh_props_def by (auto simp del: goes_before.simps)

lemma fresh_props_Nil [simp]: "fresh_props [] options"
  by (simp add: fresh_props_def)

lemma fresh_unknown: "fresh_props target ((k, v) # options) \<Longrightarrow> map_of target k = None"
  by (auto simp: fresh_props_def map_of_eq_None_iff)

lemma extend_fresh:
  "(\<forall>p \<in> set options. copyable (snd p)) \<Longrightarrow> ordered_props (map fst options) \<Longrightarrow>
     ''__proto__'' \<notin> fst ` set options \<Longrightarrow> fresh_props target options \<Longrightarrow>
     extend_props deep target options = target @ options"
proof (induction deep target options rule: extend_props.induct)
  case (2 deep target name v options)
  have put: "put name (Single v) target = target @ [(name, Single v)]"
    by (rule put_fresh [OF 2(5)])
  have n: "name \<noteq> ''__proto__''" using 2(4) by auto
  from 2 show ?case
    using fresh_props_append [OF 2(5) 2(3)] by (simp add: put n del: goes_before.simps)
next
  case (3 deep target name b ps options)
  have put: "put name (Node b ps) target = target @ [(name, Node b ps)]"
    by (rule put_fresh [OF 3(6)])
  have n: "name \<noteq> ''__proto__''" using 3(5) by auto
  have "clone_props b target name = []" using fresh_unknown [OF 3(6)] by (simp add: clone_props_def)
  then have inner: "extend_props deep (clone_props b target name) ps = ps" if deep
    using 3(1) [OF n] 3(3) that by (simp del: goes_before.simps)
  from 3 show ?case
    using fresh_props_append [OF 3(6) 3(4)] inner by (simp add: put n del: goes_before.simps)
qed simp

end
