(* ===== verification/Jquery_Properties.thy ===== *)
theory Jquery_Properties
  imports Jq_Promise Jq_Classes Jq_Param Jq_Ajax Jq_Core
begin

text \<open>
  The properties of docs/_static/jquery-3.5.1.js: what callback lists and deferreds guarantee
  whatever the callbacks do, the class methods as operations on sets, the serialization of request
  parameters against the reader of docs/_static/doctools.js, the chain of conversions and deep
  copies. A script is any table of callbacks, each with the actions it runs.
\<close>

section \<open>Callback lists\<close>





lemma once_stable: "once_list.stable_lists l v m \<longleftrightarrow> once_with v (m_lists m l)"
  by (simp add: once_list.stable_lists_def)


text \<open>The examples: one kind of list under all names, with callbacks that do nothing or that fire the
  list again and add to it.\<close>

definition sample_lists :: "string \<Rightarrow> string list \<Rightarrow> (nat, string, nat, nat) machine" where
  "sample_lists options fs =
     \<lparr>m_lists = (\<lambda>l. (new_callbacks options)\<lparr>cb_list := Some fs\<rparr>), m_world = 0, m_calls = []\<rparr>"


definition sample_busy :: "(nat, string, nat, nat) script" where
  "sample_busy f v w =
     (w + 1, if w < 2 then [FireWith 0 (w + 8), Add 0 [Fn ''b'', Fn ''a''], Add 0 [Fn ''b'']] else [], Returns False)"

lemma sample_options:
  "createOptions ''memory'' = \<lparr>opt_once = False, opt_memory = True, opt_unique = False, opt_stop = False\<rparr>"
  "createOptions ''unique'' = \<lparr>opt_once = False, opt_memory = False, opt_unique = True, opt_stop = False\<rparr>"
  "createOptions ''once memory'' = \<lparr>opt_once = True, opt_memory = True, opt_unique = False, opt_stop = False\<rparr>"
  by code_simp+




text \<open>A list made with the flag once delivers one value: after its first firing, no call of one
  of its functions, whatever the callbacks and the program do, is given another value.\<close>

theorem once_list_one_value:
  assumes "fire_fires (m_lists m l)" "opt_once (cb_flags (m_lists m l))"
    and "cb_queue (m_lists m l) = []" "cb_memory (m_lists m l) = None"
    and "act n sc (FireWith l v) m = Some (m1, t1)" "exec n' sc as m1 = Some (m2, t2)"
  shows "\<exists>new. m_calls m2 = m_calls m @ new \<and> (\<forall>f u. (l, f, Some u) \<in> set new \<longrightarrow> u = v)"
proof -
  let ?m0 = "on_list l (start_fire \<circ> queue_value v) m"
  obtain k where k: "n = Suc k" "fire_outer k sc l ?m0 = Some (m1, t1)"
    using assms(1,5) by (cases n) auto
  have start: "once_list.stable_lists l v ?m0"
    using assms unfolding once_stable by (simp add: once_with_def start_fire_def queue_value_def)
  have all: "once_list.admitted_script sc" "\<forall>a \<in> set as. once_list.admitted a"
    by (simp_all add: once_list.admitted_def once_list.admitted_script_def)
  have 1: "once_list.grows l v sc ?m0 m1"
    by (rule once_list.outer_grows [OF all(1) k(2) TrueI start])
  have "once_list.grows l v sc m1 m2"
    by (rule once_list.exec_grows [OF all(1) assms(6) all(2) once_list.grows_stable [OF 1]])
  from once_list.grows_trans [OF 1 this]
  show ?thesis by (fastforce simp: once_list.grows_def)
qed

theorem once_list_one_value_witness:
  "\<exists>m1 m2 t1 t2 new. act 60 sample_busy (FireWith 0 7) (sample_lists ''once memory'' [''a'']) = Some (m1, t1) \<and>
     exec 60 sample_busy [FireWith 0 8, Add 0 [Fn ''c'']] m1 = Some (m2, t2) \<and>
     m_calls m2 = new \<and> 2 \<le> length new \<and> (\<forall>f u. (0, f, Some u) \<in> set new \<longrightarrow> u = 7)"
proof -
  let ?m = "sample_lists ''once memory'' [''a'']"
  have "\<exists>m1 t1 m2 t2. act 60 sample_busy (FireWith 0 7) ?m = Some (m1, t1) \<and>
      exec 60 sample_busy [FireWith 0 8, Add 0 [Fn ''c'']] m1 = Some (m2, t2) \<and> 2 \<le> length (m_calls m2)"
  proof -
    have "(case act 60 sample_busy (FireWith 0 7) ?m of None \<Rightarrow> False
        | Some (m1, t1) \<Rightarrow> (case exec 60 sample_busy [FireWith 0 8, Add 0 [Fn ''c'']] m1 of None \<Rightarrow> False
            | Some (m2, t2) \<Rightarrow> 2 \<le> length (m_calls m2)))"
      by code_simp
    then show ?thesis by (auto split: option.splits)
  qed
  then obtain m1 t1 m2 t2 where run: "act 60 sample_busy (FireWith 0 7) ?m = Some (m1, t1)"
    "exec 60 sample_busy [FireWith 0 8, Add 0 [Fn ''c'']] m1 = Some (m2, t2)" "2 \<le> length (m_calls m2)"
    by blast
  then show ?thesis
    using once_list_one_value [OF _ _ _ _ run(1,2)]
    by (auto simp: sample_lists_def new_callbacks_def sample_options fire_fires_def)
qed

text \<open>A list is not re-entered: while it is firing, no action of a callback, and nothing that
  runs because of it, calls one of the functions of that list, not even firing it again.\<close>

theorem firing_not_reentered:
  assumes "exec n sc as m = Some (m', t)" "cb_firing (m_lists m l)"
  shows "\<exists>new. m_calls m' = m_calls m @ new \<and> l \<notin> fst ` set new \<and> cb_firing (m_lists m' l)"
proof -
  have "firing_list.stable_lists l m" using assms(2) by (simp add: firing_list.stable_lists_def)
  then have "firing_list.grows l sc m m'"
    using firing_list.exec_grows [OF _ assms(1)]
    by (simp add: firing_list.admitted_def firing_list.admitted_script_def)
  then show ?thesis
    by (auto simp: firing_list.grows_def firing_list.stable_lists_def split: prod.splits)
qed

theorem firing_not_reentered_witness:
  "\<exists>m t. exec 60 sample_busy [FireWith 0 7, FireWith 1 8]
      (on_list 0 start_fire (sample_lists ''memory'' [''a''])) = Some (m, t) \<and>
    0 \<notin> fst ` set (m_calls m) \<and> m_calls m \<noteq> []"
proof -
  let ?m = "on_list 0 start_fire (sample_lists ''memory'' [''a''])"
  have "case exec 60 sample_busy [FireWith 0 7, FireWith 1 8] ?m of None \<Rightarrow> False | Some (m, t) \<Rightarrow> m_calls m \<noteq> []"
    by code_simp
  then obtain m t where run: "exec 60 sample_busy [FireWith 0 7, FireWith 1 8] ?m = Some (m, t)" "m_calls m \<noteq> []"
    by (auto split: option.splits)
  then show ?thesis
    using firing_not_reentered [OF run(1), of 0] by (auto simp: sample_lists_def start_fire_def)
qed

section \<open>Deferreds\<close>







section \<open>Class methods\<close>

text \<open>C22: the class methods compute with the set of an element's class names: through any class
  attribute, whatever white space it has, \<open>addClass\<close> is union, \<open>removeClass\<close> difference,
  \<open>toggleClass\<close> the symmetric difference (for distinct names) and \<open>hasClass\<close> membership.\<close>

theorem class_methods_refine_sets:
  assumes "proper e"
  shows "(\<exists>e'. addClass (Value (CStr s)) [e] = [e'] \<and> proper e' \<and> class_set e' = class_set e \<union> set (html_words s)) \<and>
    (\<exists>e'. removeClass (Some (Value (CStr s))) [e] = [e'] \<and> proper e' \<and> class_set e' = class_set e - set (html_words s)) \<and>
    (distinct (html_words s) \<longrightarrow>
      (\<exists>e'. toggleClass (Value (CStr s)) None [e] = [e'] \<and> proper e' \<and>
        class_set e' = (class_set e - set (html_words s)) \<union> (set (html_words s) - class_set e))) \<and>
    (\<forall>c. word c \<longrightarrow> hasClass c [e] = (c \<in> class_set e))"
proof (intro conjI allI impI)
  show "\<exists>e'. addClass (Value (CStr s)) [e] = [e'] \<and> proper e' \<and> class_set e' = class_set e \<union> set (html_words s)"
    using add_value_set [OF assms] by simp
  show "\<exists>e'. removeClass (Some (Value (CStr s))) [e] = [e'] \<and> proper e' \<and> class_set e' = class_set e - set (html_words s)"
    using remove_value_set [OF assms] by simp
  show "hasClass c [e] = (c \<in> class_set e)" if "word c" for c using hasClass_set [OF assms that] .
  have words: "\<forall>c \<in> set (html_words s). word c" using html_words_words by blast
  show "\<exists>e'. toggleClass (Value (CStr s)) None [e] = [e'] \<and> proper e' \<and>
      class_set e' = (class_set e - set (html_words s)) \<union> (set (html_words s) - class_set e)"
    if "distinct (html_words s)"
    using toggle_names_set [OF assms words that] truthy_words [OF words]
    by (simp add: toggle_value_def each_elem_def)
qed

definition sample_element :: element where
  "sample_element = \<lparr>el_type = 1, el_class = Some '' a  b '', el_attrs = True, el_saved = None\<rparr>"

theorem class_methods_refine_sets_witness:
  "\<exists>e'. toggleClass (Value (CStr ''b c'')) None [sample_element] = [e'] \<and> class_set e' = {''a'', ''c''}"
proof -
  have words: "html_words '' a  b '' = [''a'', ''b'']" "html_words ''b c'' = [''b'', ''c'']"
    by code_simp+
  then have "class_set sample_element = {''a'', ''b''}"
    by (simp add: class_set_def sample_element_def getClass_def or_empty_def)
  moreover have "proper sample_element" by (simp add: proper_def sample_element_def)
  moreover have "distinct (html_words ''b c'')" by (simp add: words)
  ultimately obtain e' where "toggleClass (Value (CStr ''b c'')) None [sample_element] = [e']"
    "class_set e' = ({''a'', ''b''} - set (html_words ''b c'')) \<union> (set (html_words ''b c'') - {''a'', ''b''})"
    using class_methods_refine_sets [of sample_element "''b c''"] by metis
  then show ?thesis by (intro exI [of _ e'] conjI) (auto simp: words)
qed

section \<open>Request parameters\<close>



section \<open>Conversions\<close>

text \<open>The chain of conversions ends, whatever the converters return, when every key of the
  converters is a pair of data types with something to convert with: it takes at most two rounds
  for each data type of the request, because a data type put back on the list has a direct
  converter.\<close>

theorem conversion_ends:
  assumes "sound_converters (lower_converters s)" "2 * length (se_types s) + 1 \<le> n"
  shows "\<exists>result written. ajaxConvert n s response isSuccess = Some (result, written)"
proof -
  have "length (tl (se_types s)) \<le> length (se_types s)" by simp
  then have "2 * length (tl (se_types s)) + 1 \<le> n" using assms(2) by linarith
  from convert_loop_returns [OF assms(1) this] show ?thesis
    unfolding ajaxConvert_def by (metis not_None_eq surj_pair)
qed

definition sample_settings :: "(string, string) settings" where
  "sample_settings =
     \<lparr>se_contents = [], se_mime_type = '''', se_types = [''text'', ''XML'', ''json''],
      se_converters = [(''* text'', Some (Converter Inr)), (''text json'', Some (Converter (\<lambda>s. Inl ''bad''))),
        (''json XML'', Some Equivalence)],
      se_fields = [(''text'', ''responseText'')], se_filter = None, se_throws = False\<rparr>"

lemma two_types:
  "CHR '' '' \<notin> set t \<Longrightarrow> CHR '' '' \<notin> set u \<Longrightarrow>
     \<exists>t' u'. t @ CHR '' '' # u = t' @ CHR '' '' # u' \<and> CHR '' '' \<notin> set t' \<and> CHR '' '' \<notin> set u'"
  by blast

theorem conversion_ends_witness:
  "\<exists>result written. ajaxConvert 7 sample_settings ''x'' True = Some (result, written)"
proof -
  have low: "to_lower ''* text'' = ''* text''" "to_lower ''text json'' = ''text json''"
    "to_lower ''json XML'' = ''json xml''"
    by code_simp+
  have order: "\<not> goes_before ''text json'' ''* text''" "\<not> goes_before ''json xml'' ''* text''"
    "\<not> goes_before ''json xml'' ''text json''"
    by code_simp+
  have keys: "lower_converters sample_settings =
      [(''* text'', Some (Converter Inr)), (''text json'', Some (Converter (\<lambda>s. Inl ''bad''))),
       (''json xml'', Some Equivalence)]"
    using low order by (simp add: lower_converters_def sample_settings_def put_def del: goes_before.simps)
  have "sound_converters (lower_converters sample_settings)"
    unfolding keys sound_converters_def
    using two_types [of "''*''" "''text''"] two_types [of "''text''" "''json''"] two_types [of "''json''" "''xml''"]
    by simp
  then show ?thesis
    using conversion_ends [of sample_settings 7 "''x''" True] by (simp add: sample_settings_def)
qed

section \<open>extend\<close>

text \<open>A tree as the engine keeps it: names in the order of enumeration, each once. A clean tree has
  nowhere a property \<open>__proto__\<close> of its own.\<close>

fun wf_tree :: "jtree \<Rightarrow> bool" where
  "wf_tree (Single v) = True"
| "wf_tree (Node a ps) = (ordered_props (map fst ps) \<and> (\<forall>p \<in> set ps. wf_tree (snd p)))"

fun clean_tree :: "jtree \<Rightarrow> bool" where
  "clean_tree (Single v) = True"
| "clean_tree (Node a ps) = (''__proto__'' \<notin> fst ` set ps \<and> (\<forall>p \<in> set ps. clean_tree (snd p)))"

lemma not_before_trans: "goes_before k k1 \<Longrightarrow> \<not> goes_before k2 k1 \<Longrightarrow> \<not> goes_before k2 k"
  by (auto split: option.splits)

lemma not_before_self: "\<not> goes_before k k"
  by (simp split: option.splits)

lemma keys_insert_prop: "set (map fst (insert_prop k v ps)) = insert k (set (map fst ps))"
  by (simp add: set_insert_prop)

lemma ordered_insert:
  "ordered_props (map fst ps) \<Longrightarrow> k \<notin> set (map fst ps) \<Longrightarrow> ordered_props (map fst (insert_prop k v ps))"
proof (induction ps)
  case (Cons p ps)
  note ordered_props.simps [simp] and goes_before.simps [simp del] and set_map [simp del]
  show ?case
  proof (cases "goes_before k (fst p)")
    case True
    have "\<forall>k' \<in> insert (fst p) (set (map fst ps)). \<not> goes_before k' k"
      using Cons.prems(1) not_before_trans [OF True] not_before_self by simp
    then show ?thesis using Cons.prems True by simp
  next
    case False
    then show ?thesis using Cons keys_insert_prop [of k v ps] by auto
  qed
qed simp

lemma ordered_put: "ordered_props (map fst ps) \<Longrightarrow> ordered_props (map fst (put k v ps))"
proof (cases "k \<in> fst ` set ps")
  case True
  then have "map fst (put k v ps) = map fst ps" by (auto simp: put_def)
  then show "ordered_props (map fst ps) \<Longrightarrow> ordered_props (map fst (put k v ps))" by simp
qed (simp add: put_def ordered_insert del: goes_before.simps)

lemma put_values: "\<forall>p \<in> set ps. P (snd p) \<Longrightarrow> P v \<Longrightarrow> \<forall>p \<in> set (put k v ps). P (snd p)"
  by (auto simp: put_def set_insert_prop)

lemma clone_values:
  "\<forall>p \<in> set target. P (snd p) \<Longrightarrow> (\<And>a. P (Node a [])) \<Longrightarrow> P (Node b (clone_props b target name))"
  by (auto simp: clone_props_def split: option.splits jtree.splits dest!: map_of_SomeD)

lemma wf_put: "wf_tree (Node a ps) \<Longrightarrow> wf_tree v \<Longrightarrow> wf_tree (Node a (put k v ps))"
  using ordered_put [of ps k v] put_values [of ps wf_tree v k] by (simp del: goes_before.simps)

lemma wf_rest: "wf_tree (Node b ((k, v) # ps)) \<Longrightarrow> wf_tree v \<and> wf_tree (Node b ps)"
  by (simp del: goes_before.simps)

lemma wf_clone: "wf_tree (Node a target) \<Longrightarrow> wf_tree (Node c (clone_props c target name))"
  using clone_values [of target wf_tree c name] by simp

lemma clean_put: "clean_tree (Node a ps) \<Longrightarrow> clean_tree v \<Longrightarrow> k \<noteq> ''__proto__'' \<Longrightarrow> clean_tree (Node a (put k v ps))"
  using put_values [of ps clean_tree v k] by simp

lemma clean_clone: "clean_tree (Node a target) \<Longrightarrow> clean_tree (Node c (clone_props c target name))"
  using clone_values [of target clean_tree c name] by simp

lemma extend_wf:
  "wf_tree (Node a target) \<Longrightarrow> wf_tree (Node b options) \<Longrightarrow> wf_tree (Node a (extend_props deep target options))"
proof (induction deep target options arbitrary: a b rule: extend_props.induct)
  case (2 deep target name v options)
  then show ?case
    using wf_put [OF 2(2), of "Single v" name] wf_rest [OF 2(3)] by (simp del: wf_tree.simps(2))
next
  case (3 deep target name c ps options)
  define v where "v = (if deep then Node c (extend_props deep (clone_props c target name) ps) else Node c ps)"
  have "wf_tree v" if "name \<noteq> ''__proto__''"
    using 3(1) [OF that _ wf_clone [OF 3(3)]] wf_rest [OF 3(4)] by (auto simp: v_def simp del: wf_tree.simps)
  then have "wf_tree (Node a (if name = ''__proto__'' then target else put name v target))"
    using 3(3) wf_put [OF 3(3)] by (simp del: wf_tree.simps)
  then show ?case using 3(2) [of a b] wf_rest [OF 3(4)]
    by (cases deep; cases "name = ''__proto__''") (simp_all add: v_def del: wf_tree.simps)
qed simp

lemma extend_clean:
  "clean_tree (Node a target) \<Longrightarrow> clean_tree (Node a (extend_props True target options))"
proof (induction True target options arbitrary: a rule: extend_props.induct)
  case (2 target name v options)
  then show ?case using clean_put [OF 2(2), of "Single v" name] by (simp del: clean_tree.simps(2))
next
  case (3 target name c ps options)
  have "clean_tree (Node c (extend_props True (clone_props c target name) ps))" if "name \<noteq> ''__proto__''"
    using 3(1) [OF that] clean_clone [OF 3(3)] by (simp del: clean_tree.simps)
  then show ?case using 3(2) [of a] 3(3) clean_put [OF 3(3)] by (simp del: clean_tree.simps)
qed simp

lemma extend_all_wf:
  "wf_tree (Node a target) \<Longrightarrow> \<forall>ps. Some ps \<in> set sources \<longrightarrow> wf_tree (Node a ps) \<Longrightarrow>
     wf_tree (Node a (extend_all deep target sources))"
proof (induction deep target sources rule: extend_all.induct)
  case (3 deep target options sources)
  then show ?case using extend_wf [of a target a options deep] by (simp del: wf_tree.simps)
qed (simp_all del: wf_tree.simps)

lemma extend_all_clean: "clean_tree (Node a target) \<Longrightarrow> clean_tree (Node a (extend_all True target sources))"
proof (induction True target sources rule: extend_all.induct)
  case (3 target options sources)
  then show ?case using extend_clean [of a target options] by (simp del: clean_tree.simps)
qed (simp_all del: clean_tree.simps)

text \<open>C24: \<open>extend\<close> keeps objects well formed (each name once, in the order of enumeration, at
  every level) and, in its deep form, never brings a property \<open>__proto__\<close> into the target, at any
  level, whatever the sources contain: the prototypes of the target cannot be polluted.\<close>

theorem extend_type_safe:
  assumes "wf_tree (Node a this)" "wf_tree (Node a ps)"
    and "\<forall>qs. Some qs \<in> set sources \<longrightarrow> wf_tree (Node a qs)"
  shows "wf_tree (Node a (jq_extend deep this (Some ps) sources)) \<and>
    (clean_tree (Node a this) \<and> clean_tree (Node a ps) \<longrightarrow>
      clean_tree (Node a (jq_extend True this (Some ps) sources)))"
proof -
  have "wf_tree (Node a (jq_extend deep this (Some ps) sources))"
    using extend_all_wf [of a this "[Some ps]" deep] extend_all_wf [of a ps sources deep] assms
    by (cases sources) (simp_all add: jq_extend_def del: wf_tree.simps)
  moreover have "clean_tree (Node a (jq_extend True this (Some ps) sources))"
    if "clean_tree (Node a this)" "clean_tree (Node a ps)"
    using extend_all_clean [of a this "[Some ps]"] extend_all_clean [of a ps sources] that
    by (cases sources) (simp_all add: jq_extend_def del: clean_tree.simps)
  ultimately show ?thesis by blast
qed

definition sample_target :: "(string \<times> jtree) list" where
  "sample_target = [(''a'', Node False [(''b'', Single Null)])]"

definition sample_source :: "(string \<times> jtree) list" where
  "sample_source = [(''1'', Single (Bool True)), (''a'', Node False [(''__proto__'', Node False [(''x'', Single Null)]),
     (''c'', Node True [(''0'', Single Null)])])]"

theorem extend_type_safe_witness:
  "wf_tree (Node False (jq_extend True [] (Some sample_target) [None, Some sample_source])) \<and>
   clean_tree (Node False (jq_extend True [] (Some sample_target) [None, Some sample_source]))"
proof -
  have "wf_tree (Node False sample_target)" "wf_tree (Node False sample_source)" "clean_tree (Node False sample_target)"
    by code_simp+
  then show ?thesis
    using extend_type_safe [of False "[]" sample_target "[None, Some sample_source]" True] by auto
qed

text \<open>A deep extension of an empty object is a copy: the result has the same properties, of the
  same values, in the same order, at every level, provided none is undefined or called
  \<open>__proto__\<close>.\<close>

theorem deep_extend_copies:
  assumes "copyable (Node a ps)"
  shows "jq_extend True this (Some []) [Some ps] = ps"
  using assms extend_fresh [of ps "[]" True] by (simp add: jq_extend_def)

theorem deep_extend_copies_witness:
  "jq_extend True [] (Some []) [Some sample_target] = sample_target"
  by (rule deep_extend_copies [of False]) (simp add: sample_target_def)

end
