(* ===== verification/Js_Dom.thy ===== *)
theory Js_Dom
  imports Js_Values
begin

text \<open>
  The documents the scripts work on, as the browser shows them: trees of nodes. A list of trees
  holds the document, whose tree is the first one, and the trees detached from it. A node is
  known by its place: its index among the children of its parent, the index of its parent, and so
  on up to the index of its tree, so that going up and sideways is structural. The empty
  list is no node.
\<close>

section \<open>Trees and places\<close>

text \<open>The type of a node is 1 for an element, 3 for text, 4 for CDATA, 7 for a processing
  instruction, 8 for a comment, 9 for a document, 11 for a fragment. The properties are those an
  element has besides its attributes, such as \<open>lang\<close>, \<open>type\<close> or \<open>checked\<close>.\<close>

datatype dnode =
  Dnode (dn_type: nat) (dn_name: string) (dn_attrs: "(string \<times> string) list")
    (dn_props: "(string \<times> jsval) list") (dn_value: string) (dn_kids: "dnode list")

type_synonym dom = "dnode list"
type_synonym place = "nat list"

definition no_node :: dnode where
  "no_node = Dnode 0 '''' [] [] '''' []"

fun kids_at :: "dom \<Rightarrow> place \<Rightarrow> dnode list" where
  "kids_at d [] = d"
| "kids_at d (i # p) = (if i < length (kids_at d p) then dn_kids (kids_at d p ! i) else [])"

definition is_node :: "dom \<Rightarrow> place \<Rightarrow> bool" where
  "is_node d p = (case p of [] \<Rightarrow> False | i # q \<Rightarrow> i < length (kids_at d q))"

definition node_at :: "dom \<Rightarrow> place \<Rightarrow> dnode" where
  "node_at d p = (case p of [] \<Rightarrow> no_node | i # q \<Rightarrow> if i < length (kids_at d q) then kids_at d q ! i else no_node)"

abbreviation nodeType :: "dom \<Rightarrow> place \<Rightarrow> nat" where "nodeType d p \<equiv> dn_type (node_at d p)"
abbreviation nodeName :: "dom \<Rightarrow> place \<Rightarrow> string" where "nodeName d p \<equiv> dn_name (node_at d p)"

definition is_element :: "dom \<Rightarrow> place \<Rightarrow> bool" where
  "is_element d p \<longleftrightarrow> nodeType d p = 1"

section \<open>Moving\<close>

definition parentNode :: "place \<Rightarrow> place option" where
  "parentNode p = (case p of i # j # q \<Rightarrow> Some (j # q) | _ \<Rightarrow> None)"

definition previousSibling :: "place \<Rightarrow> place option" where
  "previousSibling p = (case p of Suc i # j # q \<Rightarrow> Some (i # j # q) | _ \<Rightarrow> None)"

definition nextSibling :: "dom \<Rightarrow> place \<Rightarrow> place option" where
  "nextSibling d p =
     (case p of i # j # q \<Rightarrow> if Suc i < length (kids_at d (j # q)) then Some (Suc i # j # q) else None | _ \<Rightarrow> None)"

definition childNodes :: "dom \<Rightarrow> place \<Rightarrow> place list" where
  "childNodes d p = map (\<lambda>i. i # p) [0..<length (kids_at d p)]"

definition firstChild :: "dom \<Rightarrow> place \<Rightarrow> place option" where
  "firstChild d p = (case childNodes d p of [] \<Rightarrow> None | c # cs \<Rightarrow> Some c)"

definition lastChild :: "dom \<Rightarrow> place \<Rightarrow> place option" where
  "lastChild d p = (if childNodes d p = [] then None else Some (last (childNodes d p)))"

datatype way = ParentNode | PreviousSibling | NextSibling

fun move :: "dom \<Rightarrow> way \<Rightarrow> place \<Rightarrow> place option" where
  "move d ParentNode p = parentNode p"
| "move d PreviousSibling p = previousSibling p"
| "move d NextSibling p = nextSibling d p"

text \<open>The nodes a loop \<open>while ( ( elem = elem[ dir ] ) )\<close> visits.\<close>

fun parents_of :: "place \<Rightarrow> place list" where
  "parents_of [] = []"
| "parents_of [i] = []"
| "parents_of (i # j # q) = (j # q) # parents_of (j # q)"

fun along :: "dom \<Rightarrow> way \<Rightarrow> place \<Rightarrow> place list" where
  "along d ParentNode p = parents_of p"
| "along d PreviousSibling p = (case p of i # j # q \<Rightarrow> map (\<lambda>k. k # j # q) (rev [0..<i]) | _ \<Rightarrow> [])"
| "along d NextSibling p =
     (case p of i # j # q \<Rightarrow> map (\<lambda>k. k # j # q) [Suc i..<length (kids_at d (j # q))] | _ \<Rightarrow> [])"

lemma along_moves:
  "along d w p = (case move d w p of None \<Rightarrow> [] | Some q \<Rightarrow> q # along d w q)"
proof (cases w)
  case ParentNode
  then show ?thesis by (cases p rule: parents_of.cases) (simp_all add: parentNode_def)
next
  case PreviousSibling
  show ?thesis
  proof (cases p rule: parents_of.cases)
    case (3 i j q)
    with PreviousSibling show ?thesis by (cases i) (simp_all add: previousSibling_def)
  qed (use PreviousSibling in \<open>simp_all add: previousSibling_def split: nat.split\<close>)
next
  case NextSibling
  then show ?thesis
    by (cases p rule: parents_of.cases) (simp_all add: nextSibling_def upt_conv_Cons)
qed

section \<open>Document order\<close>

text \<open>All nodes of a tree in document order, its root first.\<close>

fun below :: "place \<Rightarrow> dnode \<Rightarrow> place list"
and below_list :: "nat \<Rightarrow> place \<Rightarrow> dnode list \<Rightarrow> place list" where
  "below p (Dnode t n a pr v ks) = p # below_list 0 p ks"
| "below_list i p [] = []"
| "below_list i p (k # ks) = below (i # p) k @ below_list (Suc i) p ks"

definition descendants :: "dom \<Rightarrow> place \<Rightarrow> place list" where
  "descendants d p = below_list 0 p (kids_at d p)"

text \<open>\<open>getElementsByTagName("*")\<close> of the browser.\<close>

definition elements_below :: "dom \<Rightarrow> place \<Rightarrow> place list" where
  "elements_below d p = filter (is_element d) (descendants d p)"

text \<open>A place comes before another one in document order when its path from the root is
  lexicographically smaller.\<close>

definition precedes :: "place \<Rightarrow> place \<Rightarrow> bool" where
  "precedes p q = ord_class.lexordp (rev p) (rev q)"

definition same_tree :: "place \<Rightarrow> place \<Rightarrow> bool" where
  "same_tree p q \<longleftrightarrow> last p = last q"

text \<open>\<open>a.compareDocumentPosition(b)\<close>: 1 for nodes of different trees, else 4 when \<open>b\<close>
  follows, 2 when it precedes, with 16 when \<open>a\<close> contains \<open>b\<close> and 8 when \<open>b\<close> contains \<open>a\<close>.\<close>

definition inside :: "place \<Rightarrow> place \<Rightarrow> bool" where
  "inside a b \<longleftrightarrow> a \<in> set (parents_of b)"

definition compareDocumentPosition :: "place \<Rightarrow> place \<Rightarrow> nat" where
  "compareDocumentPosition a b =
     (if a = b then 0
      else if \<not> same_tree a b then 1
      else if inside a b then 20
      else if inside b a then 10
      else if precedes a b then 4 else 2)"

section \<open>Attributes and text\<close>

definition getAttribute :: "dom \<Rightarrow> place \<Rightarrow> string \<Rightarrow> string option" where
  "getAttribute d p name = map_of (dn_attrs (node_at d p)) name"

definition get_property :: "dom \<Rightarrow> place \<Rightarrow> string \<Rightarrow> jsval" where
  "get_property d p name = (case map_of (dn_props (node_at d p)) name of None \<Rightarrow> Undefined | Some v \<Rightarrow> v)"

section \<open>Lemmas\<close>

lemma inside_iff: "inside a b \<longleftrightarrow> a \<noteq> [] \<and> (\<exists>us. us \<noteq> [] \<and> b = us @ a)"
  unfolding inside_def
proof (induction b rule: parents_of.induct)
  case (2 i)
  then show ?case by (auto simp: Cons_eq_append_conv)
next
  case (3 i j q)
  then show ?case by (auto simp: Cons_eq_append_conv)
qed simp

lemma is_node_suffix: "is_node d (us @ p) \<Longrightarrow> p \<noteq> [] \<Longrightarrow> is_node d p"
proof (induction us)
  case (Cons i us)
  then have "kids_at d (us @ p) \<noteq> []" by (auto simp: is_node_def)
  moreover obtain j q where "us @ p = j # q" using Cons.prems(2) by (cases "us @ p") auto
  ultimately have "is_node d (us @ p)" by (auto simp: is_node_def split: if_splits)
  with Cons show ?case by blast
qed simp

lemma parentNode_Cons [simp]: "p \<noteq> [] \<Longrightarrow> parentNode (i # p) = Some p"
  by (cases p) (simp_all add: parentNode_def)

lemma is_node_Cons [simp]: "is_node d (i # p) \<longleftrightarrow> i < length (kids_at d p)"
  by (simp add: is_node_def)

lemma kids_at_node: "is_node d p \<Longrightarrow> kids_at d p = dn_kids (node_at d p)"
  by (cases p) (auto simp: is_node_def node_at_def)

lemma below_nodes:
  "is_node d p \<Longrightarrow> node_at d p = n \<Longrightarrow> set (below p n) = {q. is_node d q \<and> (\<exists>us. q = us @ p)}"
  "drop i (kids_at d p) = ks \<Longrightarrow>
     set (below_list i p ks) = {q. is_node d q \<and> (\<exists>us j. i \<le> j \<and> q = us @ j # p)}"
proof (induction p n and i p ks rule: below_below_list.induct)
  case (1 p t n a pr v ks)
  then have "kids_at d p = ks" using kids_at_node [of d p] by simp
  then have set: "set (below_list 0 p ks) = {q. is_node d q \<and> (\<exists>us j. q = us @ j # p)}"
    using 1 by simp
  have "(\<exists>us. q = us @ p) \<longleftrightarrow> q = p \<or> (\<exists>us j. q = us @ j # p)" for q
    by (metis append_Nil append.assoc append_Cons rev_exhaust)
  then show ?case using 1(2) by (auto simp: set)
next
  case (2 i p)
  have "\<not> is_node d (us @ j # p)" if "i \<le> j" for us j
    using is_node_suffix [of d us "j # p"] 2 that by auto
  then show ?case by auto
next
  case (3 i p k ks)
  then have i: "i < length (kids_at d p)" "kids_at d p ! i = k" "drop (Suc i) (kids_at d p) = ks"
    by (metis drop_eq_Nil2 list.distinct(1) not_le_imp_less)
      (metis 3(3) Cons_nth_drop_Suc drop_eq_Nil2 list.inject list.distinct(1) not_le_imp_less,
       metis 3(3) Cons_nth_drop_Suc drop_eq_Nil2 list.inject list.distinct(1) not_le_imp_less)
  then have "set (below (i # p) k) = {q. is_node d q \<and> (\<exists>us. q = us @ i # p)}"
    using 3(1) by (simp add: node_at_def)
  moreover have "set (below_list (Suc i) p ks) = {q. is_node d q \<and> (\<exists>us j. Suc i \<le> j \<and> q = us @ j # p)}"
    using 3(2) i by simp
  moreover have "i \<le> j \<longleftrightarrow> j = i \<or> Suc i \<le> j" for j by auto
  ultimately show ?case by (simp only: below_list.simps set_append) blast
qed

lemma set_descendants:
  assumes "p \<noteq> []"
  shows "set (descendants d p) = {q. is_node d q \<and> inside p q}"
proof -
  have "(\<exists>us j. q = us @ j # p) \<longleftrightarrow> (\<exists>us. us \<noteq> [] \<and> q = us @ p)" for q
    by (metis append.assoc append_Cons append_Nil list.distinct(1) rev_exhaust snoc_eq_iff_butlast)
  then show ?thesis using assms below_nodes(2) [of 0 d p] by (simp add: descendants_def inside_iff)
qed

lemma precedes_trans: "precedes p q \<Longrightarrow> precedes q r \<Longrightarrow> precedes p r"
  unfolding precedes_def by (rule lexordp_trans)

lemma precedes_irrefl [simp]: "\<not> precedes p p"
  unfolding precedes_def by (simp add: lexordp_irreflexive')

lemma precedes_linear: "precedes p q \<or> p = q \<or> precedes q p"
  unfolding precedes_def using lexordp_linear [of "rev p" "rev q"] by auto

lemma precedes_asym: "precedes p q \<Longrightarrow> \<not> precedes q p"
  using precedes_trans precedes_irrefl by blast

lemma precedes_below: "us \<noteq> [] \<Longrightarrow> precedes p (us @ p)"
  unfolding precedes_def by (auto intro: lexordp_append_rightI)

lemma precedes_siblings: "i < j \<Longrightarrow> precedes (us @ i # p) (vs @ j # p)"
  unfolding precedes_def by (simp add: lexordp_append_left_rightI)

lemma below_forms:
  "q \<in> set (below p n) \<Longrightarrow> \<exists>us. q = us @ p"
  "q \<in> set (below_list i p ks) \<Longrightarrow> \<exists>us j. i \<le> j \<and> q = us @ j # p"
proof (induction p n and i p ks rule: below_below_list.induct)
  case (1 p t n a pr v ks)
  then show ?case by (auto intro: exI [of _ "[]"])
next
  case (3 i p k ks)
  then show ?case by fastforce
qed simp

lemma below_sorted:
  "sorted_wrt precedes (below p n)" "sorted_wrt precedes (below_list i p ks)"
proof (induction p n and i p ks rule: below_below_list.induct)
  case (1 p t n a pr v ks)
  then show ?case using below_forms(2) precedes_below [of "us @ [j]" p for us j]
    by (auto dest!: below_forms(2))
next
  case (3 i p k ks)
  then show ?case
    by (auto simp: sorted_wrt_append intro: precedes_siblings dest!: below_forms)
qed simp

lemma descendants_sorted: "sorted_wrt precedes (descendants d p)"
  by (simp add: descendants_def below_sorted)

lemma sorted_wrt_precedes_distinct: "sorted_wrt precedes xs \<Longrightarrow> distinct xs"
  by (induction xs) auto

lemma elements_sorted: "sorted_wrt precedes (elements_below d p)"
  by (simp add: elements_below_def descendants_sorted sorted_wrt_filter)

lemma set_elements_below:
  "p \<noteq> [] \<Longrightarrow> set (elements_below d p) = {q. is_node d q \<and> is_element d q \<and> inside p q}"
  by (auto simp: elements_below_def set_descendants)

lemma along_up: "q \<in> set (along d ParentNode p) \<longleftrightarrow> inside q p"
  by (simp add: inside_def)

end
