(* ===== verification/Sz_Order.thy ===== *)
theory Sz_Order
  imports Js_Dom Underscore_Collections
begin

text \<open>
  Document order in the selector engine of docs/_static/jquery-3.5.1.js (Sizzle): containment, the
  two comparisons of nodes (with \<open>compareDocumentPosition\<close> and without it) and \<open>uniqueSort\<close>. The
  nodes belong to one document, the first tree of the list, which is also the preferred one. Both
  comparisons are shown to be document order on it.
\<close>

section \<open>Containment\<close>

definition the_document :: place where "the_document = [0]"

definition documentElement :: "dom \<Rightarrow> place \<Rightarrow> place option" where
  "documentElement d p = (case filter (is_element d) (childNodes d p) of [] \<Rightarrow> None | c # cs \<Rightarrow> Some c)"

text \<open>\<open>contains(a, b)\<close> with the methods of the browser (\<open>contains\<close> of nodes counts the node itself), and
  by walking up.\<close>

definition contains_native :: "dom \<Rightarrow> place \<Rightarrow> place \<Rightarrow> bool" where
  "contains_native d a b =
     (let adown = (if nodeType d a = 9 then documentElement d a else Some a) in
      case parentNode b of
        None \<Rightarrow> False
      | Some bup \<Rightarrow>
          a = bup \<or>
          is_element d bup \<and> (case adown of None \<Rightarrow> False | Some x \<Rightarrow> x = bup \<or> inside x bup))"

definition contains_walk :: "place \<Rightarrow> place \<Rightarrow> bool" where
  "contains_walk a b \<longleftrightarrow> a \<in> set (parents_of b)"

section \<open>Comparing nodes\<close>

text \<open>\<open>source\<close> is the \<open>sourceIndex\<close> of Internet Explorer; elsewhere the difference is not a number.\<close>

definition siblingCheck :: "dom \<Rightarrow> (place \<Rightarrow> int) option \<Rightarrow> place option \<Rightarrow> place option \<Rightarrow> int" where
  "siblingCheck d source a b =
     (case (a, b) of
        (Some x, Some y) \<Rightarrow>
          (let diff = (case source of
                         Some s \<Rightarrow> if is_element d x \<and> is_element d y then s x - s y else 0
                       | None \<Rightarrow> 0)
           in if diff \<noteq> 0 then diff else if y \<in> set (along d NextSibling x) then -1 else 1)
      | (Some x, None) \<Rightarrow> 1
      | _ \<Rightarrow> -1)"

fun index_of :: "place \<Rightarrow> place list \<Rightarrow> int" where
  "index_of x [] = -1"
| "index_of x (y # ys) = (if x = y then 0 else let i = index_of x ys in if i = -1 then -1 else i + 1)"

definition by_input :: "place list option \<Rightarrow> place \<Rightarrow> place \<Rightarrow> int" where
  "by_input input a b = (case input of None \<Rightarrow> 0 | Some xs \<Rightarrow> index_of a xs - index_of b xs)"

text \<open>With \<open>compareDocumentPosition\<close>. \<open>input\<close> is \<open>sortInput\<close>; \<open>detached\<close> is \<open>support.sortDetached\<close>.\<close>

definition sortOrder_native :: "dom \<Rightarrow> bool \<Rightarrow> place list option \<Rightarrow> place \<Rightarrow> place \<Rightarrow> int" where
  "sortOrder_native d detached input a b =
     (if a = b then 0
      else
        (let compare = compareDocumentPosition a b in
         if odd compare \<or> \<not> detached \<and> compareDocumentPosition b a = compare then
           (if a = the_document \<or> contains_native d the_document a then -1
            else if b = the_document \<or> contains_native d the_document b then 1
            else by_input input a b)
         else if compare div 4 mod 2 = 1 then -1 else 1))"

text \<open>Without it: the ancestors of both nodes are compared from the root on.\<close>

definition root_path :: "place \<Rightarrow> place list" where
  "root_path p = rev (p # parents_of p)"

fun discrepancy :: "place list \<Rightarrow> place list \<Rightarrow> nat \<Rightarrow> place option \<times> place option \<times> nat" where
  "discrepancy (x # xs) (y # ys) i = (if x = y then discrepancy xs ys (Suc i) else (Some x, Some y, i))"
| "discrepancy (x # xs) [] i = (Some x, None, i)"
| "discrepancy [] (y # ys) i = (None, Some y, i)"
| "discrepancy [] [] i = (None, None, i)"

definition sortOrder_walk ::
    "dom \<Rightarrow> (place \<Rightarrow> int) option \<Rightarrow> place list option \<Rightarrow> place \<Rightarrow> place \<Rightarrow> int" where
  "sortOrder_walk d source input a b =
     (if a = b then 0
      else
        (case (parentNode a, parentNode b) of
           (Some aup, Some bup) \<Rightarrow>
             if aup = bup then siblingCheck d source (Some a) (Some b)
             else
               (case discrepancy (root_path a) (root_path b) 0 of
                  (x, y, i) \<Rightarrow>
                    if i \<noteq> 0 then siblingCheck d source x y
                    else if x = Some the_document then -1
                    else if y = Some the_document then 1
                    else 0)
         | (aup, bup) \<Rightarrow>
             if a = the_document then -1
             else if b = the_document then 1
             else if aup \<noteq> None then -1
             else if bup \<noteq> None then 1
             else by_input input a b))"

section \<open>uniqueSort\<close>

text \<open>\<open>detects\<close> is \<open>support.detectDuplicates\<close>: the comparison is called on equal nodes. The loops
  collect the positions of nodes equal to the one before and remove them from the last on.\<close>

definition duplicate_positions :: "place list \<Rightarrow> nat list" where
  "duplicate_positions results = filter (\<lambda>i. results ! (i - 1) = results ! i) [1..<length results]"

definition remove_at :: "nat \<Rightarrow> 'a list \<Rightarrow> 'a list" where
  "remove_at i xs = take i xs @ drop (Suc i) xs"

definition uniqueSort :: "bool \<Rightarrow> (place \<Rightarrow> place \<Rightarrow> int) \<Rightarrow> place list \<Rightarrow> place list" where
  "uniqueSort detects order results =
     (let sorted = array_sort (\<lambda>a b. 0 < order a b) results in
      if \<not> detects \<or> \<not> distinct results
      then fold remove_at (rev (duplicate_positions sorted)) sorted
      else sorted)"

section \<open>Document order\<close>

lemma contains_walk_inside: "contains_walk a b \<longleftrightarrow> inside a b"
  by (simp add: contains_walk_def inside_def)

text \<open>Where two nodes of one tree part.\<close>

lemma same_tree_cases:
  assumes "a \<noteq> []" "b \<noteq> []" "same_tree a b" "a \<noteq> b"
  obtains (above) us where "us \<noteq> []" "b = us @ a"
  | (under) us where "us \<noteq> []" "a = us @ b"
  | (apart) us i vs j p where "a = us @ i # p" "b = vs @ j # p" "i \<noteq> j" "p \<noteq> []"
proof -
  obtain ps as bs where ps: "rev a = ps @ as" "rev b = ps @ bs" "as = [] \<or> bs = [] \<or> hd as \<noteq> hd bs"
    using longest_common_prefix [of "rev a" "rev b"] by auto
  have ab: "a = rev as @ rev ps" "b = rev bs @ rev ps" using ps(1,2) by (metis rev_append rev_rev_ident)+
  show thesis
  proof (cases "as = [] \<or> bs = []")
    case True
    then show thesis
    proof
      assume "as = []"
      with ab assms(4) have "rev bs \<noteq> []" "b = rev bs @ a" by auto
      then show thesis by (rule above)
    next
      assume "bs = []"
      with ab assms(4) have "rev as \<noteq> []" "a = rev as @ b" by auto
      then show thesis by (rule under)
    qed
  next
    case False
    then obtain i us j vs where u: "as = i # us" "bs = j # vs" by (metis list.exhaust)
    moreover have "ps \<noteq> []"
      using assms(3) ab u ps(3) by (auto simp: same_tree_def)
    ultimately show thesis using apart [of "rev us" i "rev ps" "rev vs" j] ab ps(3) by simp
  qed
qed

lemma same_tree_document: "same_tree the_document p \<longleftrightarrow> last p = 0"
  by (auto simp: same_tree_def the_document_def)

lemma root_path_append:
  assumes "p \<noteq> []"
  shows "\<exists>r. root_path (us @ i # p) = root_path p @ (i # p) # r"
proof (induction us)
  case Nil
  then show ?case using assms by (cases p) (simp_all add: root_path_def)
next
  case (Cons k us)
  obtain m q where m: "us @ i # p = m # q" by (cases us) auto
  obtain r where "root_path (us @ i # p) = root_path p @ (i # p) # r" using Cons by blast
  then have "root_path ((k # us) @ i # p) = root_path p @ (i # p) # r @ [k # m # q]"
    using m by (simp add: root_path_def)
  then show ?case by blast
qed

lemma discrepancy_common [simp]: "discrepancy (xs @ ys) (xs @ zs) i = discrepancy ys zs (i + length xs)"
  by (induction xs arbitrary: i) simp_all

lemma root_path_nonempty [simp]: "root_path p \<noteq> []"
  by (simp add: root_path_def)

lemma siblings_order:
  assumes "p \<noteq> []" "i \<noteq> j" "i < length (kids_at d p)" "j < length (kids_at d p)"
  shows "siblingCheck d None (Some (i # p)) (Some (j # p)) = (if i < j then -1 else 1)"
  using assms by (cases p) (auto simp: siblingCheck_def)

text \<open>The two comparisons are document order.\<close>

definition order_sign :: "place \<Rightarrow> place \<Rightarrow> int" where
  "order_sign a b = (if a = b then 0 else if precedes a b then -1 else 1)"

lemma precedes_apart: "i \<noteq> j \<Longrightarrow> precedes (us @ i # p) (vs @ j # p) \<longleftrightarrow> i < j"
  using precedes_siblings precedes_asym by (metis linorder_neqE_nat)

lemma precedes_under: "us \<noteq> [] \<Longrightarrow> \<not> precedes (us @ p) p"
  using precedes_below precedes_asym by blast

lemma parentNode_None: "p \<noteq> [] \<Longrightarrow> parentNode p = None \<longleftrightarrow> p = [last p]"
  by (auto simp: parentNode_def split: list.splits)

lemma same_suffix: "xs @ i # p = ys @ j # p \<Longrightarrow> i = j"
  using arg_cong [of "xs @ i # p" "ys @ j # p" length] by (simp add: append_eq_append_conv)

lemma own_suffix: "p \<noteq> xs @ i # p" "xs @ i # p \<noteq> p"
  using arg_cong [of p "xs @ i # p" length] arg_cong [of "xs @ i # p" p length] by auto

lemma apart_parents:
  assumes "p \<noteq> []" "i \<noteq> j" "parentNode (us @ i # p) = parentNode (vs @ j # p)"
  shows "us = [] \<and> vs = []"
proof (cases us; cases vs)
  fix k ks m ms
  assume "us = k # ks" "vs = m # ms"
  then show ?thesis using assms same_suffix [of ks i p ms j] by simp
qed (use assms own_suffix [of p] in auto)

lemma walk_document_order:
  assumes "is_node d a" "is_node d b" "last a = 0" "last b = 0"
  shows "sortOrder_walk d None input a b = order_sign a b"
proof (cases "a = b")
  case False
  have ne: "a \<noteq> []" "b \<noteq> []" using assms by (auto simp: is_node_def split: list.splits)
  have st: "same_tree a b" using assms by (simp add: same_tree_def)
  show ?thesis
  proof (cases "parentNode a = None \<or> parentNode b = None")
    case True
    then have "a = the_document \<or> b = the_document"
      using ne assms(3,4) by (auto simp: parentNode_None the_document_def)
    moreover have "precedes the_document p" if "p \<noteq> the_document" "p \<noteq> []" "last p = 0" for p
      using that precedes_below [of "butlast p" "[0]"] append_butlast_last_id [of p]
      by (metis append_Nil the_document_def)
    ultimately show ?thesis using False True ne assms(3,4) precedes_asym
      by (auto simp: sortOrder_walk_def order_sign_def split: option.splits)
  next
    case parents: False
    from ne st False show ?thesis
    proof (cases rule: same_tree_cases)
      case (above us)
      then obtain vs k where us: "us = vs @ [k]" by (metis rev_exhaust)
      obtain r where r: "root_path b = root_path a @ (k # a) # r"
        using root_path_append [OF ne(1), of vs k] above us by auto
      have "parentNode a \<noteq> parentNode b"
        using above ne by (cases us; cases a rule: parents_of.cases; cases "tl us") (auto simp: parentNode_def)
      then have "sortOrder_walk d None input a b = -1" using False parents r
        discrepancy_common [of "root_path a" "[]" "(k # a) # r" 0]
        by (auto simp: sortOrder_walk_def siblingCheck_def)
      then show ?thesis using False above precedes_below by (simp add: order_sign_def)
    next
      case (under us)
      then obtain vs k where us: "us = vs @ [k]" by (metis rev_exhaust)
      obtain r where r: "root_path a = root_path b @ (k # b) # r"
        using root_path_append [OF ne(2), of vs k] under us by auto
      have "parentNode a \<noteq> parentNode b"
        using under ne by (cases us; cases b rule: parents_of.cases; cases "tl us") (auto simp: parentNode_def)
      then have "sortOrder_walk d None input a b = 1" using False parents r
        discrepancy_common [of "root_path b" "(k # b) # r" "[]" 0]
        by (auto simp: sortOrder_walk_def siblingCheck_def)
      then show ?thesis using False under precedes_under by (simp add: order_sign_def)
    next
      case (apart us i vs j p)
      have n: "i < length (kids_at d p)" "j < length (kids_at d p)"
        using assms(1,2) apart is_node_suffix by fastforce+
      obtain r s where "root_path a = root_path p @ (i # p) # r" "root_path b = root_path p @ (j # p) # s"
        using root_path_append [OF \<open>p \<noteq> []\<close>] apart(1,2) by metis
      then have disc: "discrepancy (root_path a) (root_path b) 0 = (Some (i # p), Some (j # p), length (root_path p))"
        using apart(3) by simp
      obtain x y where par: "parentNode a = Some x" "parentNode b = Some y" using parents by auto
      have "a = i # p \<and> b = j # p" if "x = y"
        using that par apart_parents [OF apart(4,3), of us vs] apart(1,2) by simp
      then have "sortOrder_walk d None input a b = siblingCheck d None (Some (i # p)) (Some (j # p))"
        using False disc by (simp add: sortOrder_walk_def par)
      then show ?thesis using False apart precedes_apart siblings_order [OF apart(4,3) n]
        by (simp add: order_sign_def)
    qed
  qed
qed (simp add: sortOrder_walk_def order_sign_def)

lemma native_document_order:
  assumes "last a = 0" "last b = 0"
  shows "sortOrder_native d detached input a b = order_sign a b"
proof -
  have "same_tree a b" "same_tree b a" using assms by (simp_all add: same_tree_def)
  moreover have "inside x y \<Longrightarrow> precedes x y" for x y using precedes_below by (auto simp: inside_iff)
  ultimately show ?thesis using precedes_asym precedes_linear [of a b]
    by (auto simp: sortOrder_native_def order_sign_def compareDocumentPosition_def Let_def)
qed


text \<open>\<open>uniqueSort\<close> puts the nodes in document order and removes duplicates.\<close>

lemma remdups_adj_snoc:
  "remdups_adj (xs @ [x]) = (if xs = [] \<or> last xs \<noteq> x then remdups_adj xs @ [x] else remdups_adj xs)"
  by (induction xs rule: remdups_adj.induct) auto

lemma remove_duplicates:
  "fold remove_at (rev (duplicate_positions xs)) xs = remdups_adj xs"
proof (induction xs rule: rev_induct)
  case (snoc x xs)
  show ?case
  proof (cases "xs = []")
    case False
    then have up: "[1..<length (xs @ [x])] = [1..<length xs] @ [length xs]"
      by (cases xs) simp_all
    have "filter (\<lambda>i. (xs @ [x]) ! (i - 1) = (xs @ [x]) ! i) [1..<length xs] = duplicate_positions xs"
      unfolding duplicate_positions_def by (rule filter_cong) (auto simp: nth_append)
    then have dup: "duplicate_positions (xs @ [x]) =
        duplicate_positions xs @ (if last xs = x then [length xs] else [])"
      using False unfolding duplicate_positions_def up by (simp add: nth_append last_conv_nth)
    have in_front: "fold remove_at is (ys @ zs) = fold remove_at is ys @ zs"
      if "sorted_wrt (>) is" "\<forall>i \<in> set is. i < length ys" for "is" and ys zs :: "place list"
      using that
    proof (induction "is" arbitrary: ys)
      case (Cons i "is")
      then have "\<forall>k \<in> set is. k < length (remove_at i ys)" by (fastforce simp: remove_at_def)
      moreover have "remove_at i (ys @ zs) = remove_at i ys @ zs" using Cons.prems by (simp add: remove_at_def)
      ultimately show ?case using Cons by simp
    qed simp
    have "sorted_wrt (>) (rev (duplicate_positions xs))"
      by (simp add: duplicate_positions_def sorted_wrt_rev sorted_wrt_filter)
    moreover have "\<forall>i \<in> set (rev (duplicate_positions xs)). i < length xs"
      by (simp add: duplicate_positions_def)
    ultimately have "fold remove_at (rev (duplicate_positions xs)) (xs @ zs) = remdups_adj xs @ zs" for zs
      using in_front snoc.IH by metis
    from this [of "[]"] this [of "[x]"]
    moreover have "remove_at (length xs) (xs @ [x]) = xs" by (simp add: remove_at_def)
    ultimately show ?thesis using False dup by (auto simp: remdups_adj_snoc simp del: fold_append)
  qed (simp add: duplicate_positions_def)
qed (simp add: duplicate_positions_def)

lemma sorted_order_sign:
  assumes "\<And>x y. x \<in> set xs \<Longrightarrow> y \<in> set xs \<Longrightarrow> order x y = order_sign x y"
  shows "sorted_wrt (\<lambda>a b. precedes a b \<or> a = b) (array_sort (\<lambda>a b. 0 < order a b) xs)"
proof -
  have *: "0 < order_sign x y \<longleftrightarrow> precedes y x" for x y
    using precedes_linear [of x y] precedes_asym [of x y] by (auto simp: order_sign_def)
  have "sorted_wrt (\<lambda>a b. \<not> 0 < order a b) (array_sort (\<lambda>a b. 0 < order a b) xs)"
  proof (rule sorted_array_sort)
    show "\<not> 0 < order x z"
      if "x \<in> set xs" "y \<in> set xs" "z \<in> set xs" "\<not> 0 < order x y" "\<not> 0 < order y z" for x y z
      using that assms precedes_trans precedes_linear [of x y] precedes_linear [of y z]
      by (metis * precedes_asym)
  qed (use assms precedes_asym in \<open>simp add: *\<close>)
  then show ?thesis
    by (rule sorted_wrt_mono_rel [rotated]) (use assms * precedes_linear in \<open>fastforce\<close>)
qed

lemma remdups_adj_precedes:
  "sorted_wrt (\<lambda>a b. precedes a b \<or> a = b) xs \<Longrightarrow> sorted_wrt precedes (remdups_adj xs)"
proof (induction xs rule: remdups_adj.induct)
  case (3 x y xs)
  show ?case
  proof (cases "x = y")
    case False
    with 3 have "\<forall>z \<in> set (y # xs). precedes x z"
      using precedes_trans by (auto dest: precedes_asym)
    with 3 False show ?thesis by simp
  qed (use 3 in simp)
qed simp_all

lemma uniqueSort_sorts:
  assumes "\<And>x y. x \<in> set results \<Longrightarrow> y \<in> set results \<Longrightarrow> order x y = order_sign x y"
  shows "sorted_wrt precedes (uniqueSort detects order results)"
    and "set (uniqueSort detects order results) = set results"
proof -
  let ?s = "array_sort (\<lambda>a b. 0 < order a b) results"
  have s: "sorted_wrt (\<lambda>a b. precedes a b \<or> a = b) ?s" using sorted_order_sign [OF assms] .
  have "uniqueSort detects order results = remdups_adj ?s"
  proof (cases "\<not> detects \<or> \<not> distinct results")
    case False
    then have "distinct ?s" by (metis mset_array_sort mset_eq_imp_distinct_iff)
    then show ?thesis using False by (simp add: uniqueSort_def remdups_adj_distinct)
  qed (simp add: uniqueSort_def remove_duplicates)
  then show "sorted_wrt precedes (uniqueSort detects order results)"
    and "set (uniqueSort detects order results) = set results"
    using remdups_adj_precedes [OF s] by simp_all
qed


section \<open>Containment on well-formed documents\<close>

text \<open>Documents as browsers build them: what is inside a tree and has children is an element, a
  document node is the root of its tree and has at most one element among its children.\<close>

definition well_formed :: "dom \<Rightarrow> bool" where
  "well_formed d \<longleftrightarrow>
     (\<forall>i p. is_node d (i # p) \<and> p \<noteq> [] \<and> parentNode p \<noteq> None \<longrightarrow> is_element d p) \<and>
     (\<forall>p. is_node d p \<and> nodeType d p = 9 \<longrightarrow>
        parentNode p = None \<and>
        (\<forall>x y. x \<in> set (childNodes d p) \<and> y \<in> set (childNodes d p) \<and> is_element d x \<and> is_element d y \<longrightarrow> x = y))"

lemma inside_parent: "inside a b \<longleftrightarrow> (\<exists>q. parentNode b = Some q \<and> (a = q \<or> inside a q))"
  by (cases b rule: parents_of.cases) (auto simp: inside_def parentNode_def)

lemma child_iff: "c \<in> set (childNodes d p) \<longleftrightarrow> is_node d c \<and> (\<exists>i. c = i # p)"
  by (auto simp: childNodes_def)

lemma inside_child:
  assumes "inside a b" "is_node d b"
  obtains c where "c \<in> set (childNodes d a)" "c = b \<or> inside c b"
proof -
  obtain us k where us: "b = us @ k # a" "a \<noteq> []"
    using assms(1) unfolding inside_iff by (metis append.assoc append_Cons append_Nil rev_exhaust)
  then have c: "k # a \<in> set (childNodes d a)"
    using assms(2) is_node_suffix [of d us "k # a"] by (simp add: child_iff)
  have "k # a = b \<or> inside (k # a) b" using us by (cases us) (auto simp: inside_iff)
  with c show thesis by (rule that)
qed

lemma documentElement_child:
  assumes "well_formed d" "is_node d a" "nodeType d a = 9" "c \<in> set (childNodes d a)" "is_element d c"
  shows "documentElement d a = Some c"
proof -
  have "c \<in> set (filter (is_element d) (childNodes d a))" using assms(4,5) by simp
  then obtain x xs where f: "filter (is_element d) (childNodes d a) = x # xs" by (cases "filter (is_element d) (childNodes d a)") auto
  then have "x \<in> set (filter (is_element d) (childNodes d a))" by simp
  then have "x = c" using assms unfolding well_formed_def by auto
  then show ?thesis using f by (simp add: documentElement_def)
qed

lemma inside_trans: "inside a b \<Longrightarrow> inside b c \<Longrightarrow> inside a c"
  unfolding inside_iff by (metis append.assoc append_is_Nil_conv)

lemma contains_native_inside:
  assumes "well_formed d" "is_node d a" "is_node d b"
  shows "contains_native d a b \<longleftrightarrow> inside a b"
proof (cases "parentNode b")
  case None
  then show ?thesis by (simp add: contains_native_def inside_parent [of a b])
next
  case (Some bup)
  then obtain i where b: "b = i # bup" "bup \<noteq> []" by (auto simp: parentNode_def split: list.splits)
  have bup: "is_node d bup" using is_node_suffix [of d "[i]" bup] assms(3) b by simp
  have element: "is_element d bup" if "inside a bup"
    using that assms(1,3) b inside_parent [of a bup] unfolding well_formed_def by auto
  show ?thesis
  proof (cases "nodeType d a = 9")
    case False
    then show ?thesis using Some element by (auto simp: contains_native_def inside_parent [of a b])
  next
    case True
    have "(\<exists>x. documentElement d a = Some x \<and> (x = bup \<or> inside x bup)) \<and> is_element d bup \<longleftrightarrow> inside a bup"
    proof
      assume "inside a bup"
      then obtain c where c: "c \<in> set (childNodes d a)" "c = bup \<or> inside c bup" using bup by (rule inside_child)
      have "is_element d c"
      proof (cases "c = bup")
        case False
        then have "inside c bup" using c by simp
        then obtain e where "e \<in> set (childNodes d c)" using bup by (rule inside_child)
        moreover have "a \<noteq> []" using assms(2) by (auto simp: is_node_def)
        ultimately show ?thesis using assms(1) c(1) unfolding well_formed_def by (auto simp: child_iff)
      qed (simp add: element \<open>inside a bup\<close>)
      then show "(\<exists>x. documentElement d a = Some x \<and> (x = bup \<or> inside x bup)) \<and> is_element d bup"
        using documentElement_child [OF assms(1,2) True c(1)] c(2) element \<open>inside a bup\<close> by blast
    next
      assume "(\<exists>x. documentElement d a = Some x \<and> (x = bup \<or> inside x bup)) \<and> is_element d bup"
      then obtain x where "documentElement d a = Some x" "x = bup \<or> inside x bup" by blast
      moreover from this have "x \<in> set (childNodes d a)"
        by (auto simp: documentElement_def dest: filter_eq_ConsD split: list.splits)
      then have "inside a x" using assms(2) by (auto simp: child_iff inside_iff is_node_def)
      ultimately show "inside a bup" using inside_trans by blast
    qed
    then show ?thesis using Some True
      by (auto simp: contains_native_def inside_parent [of a b] split: option.splits)
  qed
qed

end
