(* ===== verification/Sz_Match.thy ===== *)
theory Sz_Match
  imports Sz_Order Sphinx_Search
begin

text \<open>
  Compiled matchers of the selector engine of docs/_static/jquery-3.5.1.js (Sizzle): combinators with
  their cache, matchers of compound selectors and of groups. A matcher the engine builds as a
  function is a datatype value here; the functions of \<open>Expr.filter\<close> are a parameter. The cache
  is explicit: the elements point to cells, each written by one walk of one combinator in one run
  (\<open>newCache\<close>), and shared by the nodes of that walk. \<open>Sz_Cache\<close> shows that the cache
  does not change a verdict.
\<close>

section \<open>Combinators\<close>

datatype relative = Child | Descendant | Adjacent | Sibling

record combinator =
  co_dir :: way
  co_first :: bool
  co_next :: "string option"

fun relative_combinator :: "relative \<Rightarrow> combinator" where
  "relative_combinator Child = \<lparr>co_dir = ParentNode, co_first = True, co_next = None\<rparr>"
| "relative_combinator Descendant = \<lparr>co_dir = ParentNode, co_first = False, co_next = None\<rparr>"
| "relative_combinator Adjacent = \<lparr>co_dir = PreviousSibling, co_first = True, co_next = None\<rparr>"
| "relative_combinator Sibling = \<lparr>co_dir = PreviousSibling, co_first = False, co_next = None\<rparr>"

fun way_name :: "way \<Rightarrow> string" where
  "way_name ParentNode = ''parentNode''"
| "way_name PreviousSibling = ''previousSibling''"
| "way_name NextSibling = ''nextSibling''"

definition co_key :: "combinator \<Rightarrow> string" where
  "co_key c = (case co_next c of Some s \<Rightarrow> s | None \<Rightarrow> way_name (co_dir c))"

text \<open>A cell \<open>[dirruns, doneName, verdict]\<close>; the slot of an element and a key holds a cell's
  number. \<open>undefined\<close> as a verdict is as false as \<open>false\<close>.\<close>

record match_cache =
  ca_cells :: "(nat \<times> nat \<times> bool) list"
  ca_slots :: "place \<Rightarrow> string \<Rightarrow> nat option"

definition empty_cache :: match_cache where
  "empty_cache = \<lparr>ca_cells = [], ca_slots = (\<lambda>p k. None)\<rparr>"

type_synonym stepper = "place \<Rightarrow> match_cache \<Rightarrow> bool \<times> match_cache"

definition set_verdict :: "nat \<Rightarrow> bool \<Rightarrow> match_cache \<Rightarrow> match_cache" where
  "set_verdict i v st =
     st\<lparr>ca_cells := (ca_cells st)[i := (case ca_cells st ! i of (run, name, u) \<Rightarrow> (run, name, v))]\<rparr>"

definition set_slot :: "place \<Rightarrow> string \<Rightarrow> nat \<Rightarrow> match_cache \<Rightarrow> match_cache" where
  "set_slot e k i st = st\<lparr>ca_slots := (ca_slots st)(e := (ca_slots st e)(k := Some i))\<rparr>"

text \<open>\<open>oldCache\<close>: the verdict the same combinator has left on the element in the same run.\<close>

definition old_verdict :: "nat \<Rightarrow> nat \<Rightarrow> place \<Rightarrow> string \<Rightarrow> match_cache \<Rightarrow> bool option" where
  "old_verdict run name e k st =
     (case ca_slots st e k of
        None \<Rightarrow> None
      | Some i \<Rightarrow>
          (case ca_cells st ! i of (r, n, v) \<Rightarrow> if r = run \<and> n = name then Some v else None))"

definition lower_name :: "dom \<Rightarrow> place \<Rightarrow> string" where
  "lower_name d e = to_lower (nodeName d e)"

definition skipped :: "dom \<Rightarrow> combinator \<Rightarrow> place \<Rightarrow> bool" where
  "skipped d c e \<longleftrightarrow> co_next c = Some (lower_name d e)"

text \<open>The loop over the ancestors or preceding siblings, \<open>i\<close> being the new cell. On an
  element to be skipped the loop goes one node further without looking at it.\<close>

fun walk :: "dom \<Rightarrow> combinator \<Rightarrow> bool \<Rightarrow> nat \<Rightarrow> nat \<Rightarrow> stepper \<Rightarrow> nat \<Rightarrow> place list \<Rightarrow> match_cache \<Rightarrow> bool \<times> match_cache" where
  "walk d c check run name accept i [] st = (False, st)"
| "walk d c check run name accept i (e # es) st =
     (if is_element d e \<or> check then
        if skipped d c e then walk d c check run name accept i (tl es) st
        else
          (case old_verdict run name e (co_key c) st of
             Some v \<Rightarrow> (v, set_verdict i v st)
           | None \<Rightarrow>
               (case accept e (set_slot e (co_key c) i st) of
                  (v, st1) \<Rightarrow>
                    if v then (True, set_verdict i True st1)
                    else walk d c check run name accept i es (set_verdict i False st1)))
      else walk d c check run name accept i es st)"

fun walk_xml :: "dom \<Rightarrow> bool \<Rightarrow> stepper \<Rightarrow> place list \<Rightarrow> match_cache \<Rightarrow> bool \<times> match_cache" where
  "walk_xml d check accept [] st = (False, st)"
| "walk_xml d check accept (e # es) st =
     (if is_element d e \<or> check then
        (case accept e st of (v, st1) \<Rightarrow> if v then (True, st1) else walk_xml d check accept es st1)
      else walk_xml d check accept es st)"

fun walk_first :: "dom \<Rightarrow> bool \<Rightarrow> stepper \<Rightarrow> place list \<Rightarrow> match_cache \<Rightarrow> bool \<times> match_cache" where
  "walk_first d check accept [] st = (False, st)"
| "walk_first d check accept (e # es) st =
     (if is_element d e \<or> check then accept e st else walk_first d check accept es st)"

text \<open>The function \<open>addCombinator(matcher, combinator, base)\<close> returns, with the number it took
  from \<open>done\<close> as \<open>name\<close>.\<close>

definition addCombinator :: "dom \<Rightarrow> bool \<Rightarrow> nat \<Rightarrow> combinator \<Rightarrow> bool \<Rightarrow> nat \<Rightarrow> stepper \<Rightarrow> stepper" where
  "addCombinator d xml run c base name accept e st =
     (let check = (base \<and> co_key c = ''parentNode''); es = along d (co_dir c) e in
      if co_first c then walk_first d check accept es st
      else if xml then walk_xml d check accept es st
      else walk d c check run name accept (length (ca_cells st)) es
             (st\<lparr>ca_cells := ca_cells st @ [(run, name, False)]\<rparr>))"

section \<open>Matchers\<close>

text \<open>\<open>Foundation lead r n m\<close> is the foundational matcher: \<open>lead\<close> says that the selector starts
  with a combinator, \<open>r\<close> is \<open>implicitRelative\<close>, \<open>n\<close> and \<open>m\<close> are the numbers of its two combinators.\<close>

datatype 'f compiled =
    Filter 'f
  | ElementMatcher "'f compiled list"
  | Combined relative nat "'f compiled"
  | Foundation bool relative nat nat

text \<open>The context of a run is a node or, for the parts after a positional selector, a list of
  nodes. \<open>outermostContext\<close> is \<open>None\<close> when it is \<open>true\<close>.\<close>

datatype run_context = OneContext place | Contexts "place list"

record 'f setting =
  se_dom :: dom
  se_filter :: "'f \<Rightarrow> place \<Rightarrow> bool"
  se_context :: run_context
  se_outermost :: "place option"
  se_xml :: bool
  se_run :: nat

fun is_outermost :: "place option \<Rightarrow> run_context \<Rightarrow> bool" where
  "is_outermost outer (OneContext c) = (outer = Some c)"
| "is_outermost outer (Contexts cs) = False"

fun in_context :: "run_context \<Rightarrow> place \<Rightarrow> bool" where
  "in_context (OneContext c) e = (e = c)"
| "in_context (Contexts cs) e = (e \<in> set cs)"

fun context_name :: "run_context \<Rightarrow> nat \<Rightarrow> nat \<Rightarrow> nat" where
  "context_name (OneContext c) n m = n"
| "context_name (Contexts cs) n m = m"

text \<open>The matchers of a compound selector are tried from the last to the first.\<close>

fun eval :: "'f setting \<Rightarrow> 'f compiled \<Rightarrow> stepper"
and eval_list :: "'f setting \<Rightarrow> 'f compiled list \<Rightarrow> stepper" where
  "eval s (Filter f) e st = (se_filter s f e, st)"
| "eval s (ElementMatcher ms) e st = eval_list s ms e st"
| "eval s (Combined r name m) e st =
     addCombinator (se_dom s) (se_xml s) (se_run s) (relative_combinator r) False name (\<lambda>x u. eval s m x u) e st"
| "eval s (Foundation lead r n m) e st =
     (if \<not> lead \<and> (se_xml s \<or> \<not> is_outermost (se_outermost s) (se_context s)) then (True, st)
      else addCombinator (se_dom s) (se_xml s) (se_run s) (relative_combinator r) True
             (context_name (se_context s) n m) (\<lambda>x u. (in_context (se_context s) x, u)) e st)"
| "eval_list s [] e st = (True, st)"
| "eval_list s (m # ms) e st =
     (case eval_list s ms e st of (v, st1) \<Rightarrow> if v then eval s m e st1 else (False, st1))"

definition elementMatcher :: "'f compiled list \<Rightarrow> 'f compiled" where
  "elementMatcher ms = (if 1 < length ms then ElementMatcher ms else hd ms)"

text \<open>\<open>matcherFromTokens\<close> for tokens without positional filters. The second argument of the loop
  are the matchers so far, the third is \<open>done\<close>.\<close>

datatype 'f token = Relative relative | Test 'f

fun matcher_loop :: "'f token list \<Rightarrow> 'f compiled list \<Rightarrow> nat \<Rightarrow> 'f compiled list \<times> nat" where
  "matcher_loop [] ms n = (ms, n)"
| "matcher_loop (Relative r # ts) ms n = matcher_loop ts [Combined r n (elementMatcher ms)] (Suc n)"
| "matcher_loop (Test f # ts) ms n = matcher_loop ts (ms @ [Filter f]) n"

fun leading_relative :: "'f token list \<Rightarrow> relative option" where
  "leading_relative (Relative r # ts) = Some r"
| "leading_relative ts = None"

definition implicit_relative :: "'f token list \<Rightarrow> relative" where
  "implicit_relative ts = (case leading_relative ts of None \<Rightarrow> Descendant | Some r \<Rightarrow> r)"

definition after_lead :: "'f token list \<Rightarrow> 'f token list" where
  "after_lead ts = (if leading_relative ts = None then ts else tl ts)"

definition matcherFromTokens :: "'f token list \<Rightarrow> nat \<Rightarrow> 'f compiled \<times> nat" where
  "matcherFromTokens ts n =
     (case matcher_loop (after_lead ts)
             [Foundation (leading_relative ts \<noteq> None) (implicit_relative ts) n (n + 1)] (n + 2) of
        (ms, k) \<Rightarrow> (elementMatcher ms, k))"

text \<open>The matchers of the groups of a selector list; \<open>compile\<close> builds them from the last group to the
  first.\<close>

fun group_matchers :: "'f token list list \<Rightarrow> nat \<Rightarrow> 'f compiled list \<times> nat" where
  "group_matchers [] n = ([], n)"
| "group_matchers (ts # tss) n =
     (case matcherFromTokens ts n of (m, k) \<Rightarrow> (case group_matchers tss k of (ms, l) \<Rightarrow> (m # ms, l)))"

definition compile_groups :: "'f token list list \<Rightarrow> nat \<Rightarrow> 'f compiled list \<times> nat" where
  "compile_groups groups n = group_matchers (rev groups) n"

text \<open>The loop of \<open>superMatcher\<close> over the elements, without set matchers: an element is taken
  when one of the matchers accepts it.\<close>

fun some_matcher :: "'f setting \<Rightarrow> 'f compiled list \<Rightarrow> stepper" where
  "some_matcher s [] e st = (False, st)"
| "some_matcher s (m # ms) e st =
     (case eval s m e st of (v, st1) \<Rightarrow> if v then (True, st1) else some_matcher s ms e st1)"

fun superMatcher :: "'f setting \<Rightarrow> 'f compiled list \<Rightarrow> place list \<Rightarrow> match_cache \<Rightarrow> place list \<times> match_cache" where
  "superMatcher s ms [] st = ([], st)"
| "superMatcher s ms (e # es) st =
     (case some_matcher s ms e st of
        (v, st1) \<Rightarrow> (case superMatcher s ms es st1 of (xs, st2) \<Rightarrow> (if v then e # xs else xs, st2)))"

end
