(* ===== verification/Sz_Nth.thy ===== *)
theory Sz_Nth
  imports Sz_Match
begin

text \<open>
  The filter \<open>CHILD\<close> of the selector engine of docs/_static/jquery-3.5.1.js (Sizzle): the pseudo-classes
  \<open>:first-child\<close>, \<open>:last-child\<close>, \<open>:only-child\<close>, \<open>:nth-child\<close>, \<open>:nth-last-child\<close> and their forms
  \<open>-of-type\<close>, with the two caches that the filter keeps on nodes, and the numbers of an argument
  \<open>an+b\<close>. The lemmas show that, for elements asked about in document order, the caches do not change
  the position that is computed, which is the number of the element among its siblings of the same
  kind, and that the check of the position is the one of CSS. In another order \<open>:nth-last-child\<close>
  goes wrong (\<open>nth_last_out_of_order\<close>).
\<close>

section \<open>The argument\<close>

datatype child_type = Only | FirstOne | LastOne | Nth | NthLast

text \<open>What \<open>matchExpr.CHILD\<close> captures of the argument: its text, the component \<open>xn\<close> with its sign and
  digits, the component \<open>y\<close> with its sign and digits.\<close>

record child_captures =
  cc_argument :: string
  cc_x :: "(string \<times> string) option"
  cc_y :: "(string \<times> string) option"

fun read_digits :: "string \<Rightarrow> int" where
  "read_digits ds = foldl (\<lambda>n c. 10 * n + (int (of_char c) - 48)) 0 ds"

definition read_signed :: "string \<Rightarrow> string \<Rightarrow> int" where
  "read_signed sign ds = (if sign = ''-'' then - read_digits ds else read_digits ds)"

text \<open>The preprocessing of \<open>Expr.preFilter.CHILD\<close> for \<open>nth\<close> and \<open>nth-last\<close>; \<open>None\<close> is the syntax error.\<close>

definition child_numbers :: "child_captures \<Rightarrow> (int \<times> int) option" where
  "child_numbers m =
     (if cc_argument m = '''' then None
      else Some
        (case cc_x m of
           Some (sign, ds) \<Rightarrow> read_signed sign (if ds = '''' then ''1'' else ds)
         | None \<Rightarrow> if cc_argument m = ''even'' \<or> cc_argument m = ''odd'' then 2 else 0,
         case cc_y m of
           Some (sign, ds) \<Rightarrow> read_signed sign ds
         | None \<Rightarrow> if cc_argument m = ''odd'' then 1 else 0))"

section \<open>Positions without caches\<close>

definition same_kind :: "dom \<Rightarrow> bool \<Rightarrow> place \<Rightarrow> place \<Rightarrow> bool" where
  "same_kind d of_type e x = (if of_type then lower_name d x = lower_name d e else is_element d x)"

text \<open>\<open>:first-*\<close>, \<open>:last-*\<close> and \<open>:only-*\<close>: no sibling of the kind in one direction, or in both.\<close>

definition no_kin :: "dom \<Rightarrow> bool \<Rightarrow> way \<Rightarrow> place \<Rightarrow> bool" where
  "no_kin d of_type w e \<longleftrightarrow> \<not> list_ex (same_kind d of_type e) (along d w e)"

fun simple_child :: "dom \<Rightarrow> child_type \<Rightarrow> bool \<Rightarrow> place \<Rightarrow> bool" where
  "simple_child d Only of_type e \<longleftrightarrow> no_kin d of_type PreviousSibling e \<and> no_kin d of_type NextSibling e"
| "simple_child d LastOne of_type e \<longleftrightarrow> no_kin d of_type NextSibling e"
| "simple_child d t of_type e \<longleftrightarrow> no_kin d of_type PreviousSibling e"

text \<open>The last lines of the filter: \<open>%\<close> and \<open>/\<close> of JavaScript on integers.\<close>

definition in_cycle :: "int \<Rightarrow> int \<Rightarrow> int \<Rightarrow> bool" where
  "in_cycle a b i =
     (let diff = i - b in
      diff = a \<or> a \<noteq> 0 \<and> a dvd diff \<and> (diff = 0 \<or> (0 < diff \<longleftrightarrow> 0 < a)))"

section \<open>The caches\<close>

text \<open>\<open>uniqueCache.nth\<close> of a parent holds \<open>[dirruns, nodeIndex, diff]\<close>, \<open>uniqueCache["nth-last"]\<close> of an
  element \<open>[dirruns, diff]\<close>.\<close>

record nth_cache =
  nc_parent :: "place \<Rightarrow> (nat \<times> nat \<times> nat) option"
  nc_element :: "place \<Rightarrow> (nat \<times> nat) option"

fun seek :: "dom \<Rightarrow> place \<Rightarrow> place list \<Rightarrow> nat \<Rightarrow> nat \<Rightarrow> (nat \<times> nat) option" where
  "seek d e [] i n = None"
| "seek d e (x # xs) i n =
     (if is_element d x then
        if x = e then Some (i, n + 1) else seek d e xs (i + 1) (n + 1)
      else seek d e xs (i + 1) n)"

text \<open>The search of \<open>:nth-child\<close>: on from the node found last under the same parent in the same run,
  then from the first child.\<close>

definition forward_position :: "dom \<Rightarrow> nat \<Rightarrow> place \<Rightarrow> place \<Rightarrow> nth_cache \<Rightarrow> nat \<times> nth_cache" where
  "forward_position d run parent e st =
     (let nodes = childNodes d parent;
          resumed =
            (case nc_parent st parent of
               Some (r, i, n) \<Rightarrow> if r = run \<and> i \<noteq> 0 then seek d e (drop (i + 1) nodes) (i + 1) n else None
             | None \<Rightarrow> None);
          found = (if resumed = None then seek d e nodes 0 0 else resumed)
      in case found of
           None \<Rightarrow> (0, st)
         | Some (i, n) \<Rightarrow> (n, st\<lparr>nc_parent := (nc_parent st)(parent := Some (run, i, n))\<rparr>))"

text \<open>The other loop, over the children from the first or from the last one; it notes the number of each
  element it counts when \<open>noting\<close>. When the cache is in use, \<open>node\<close> is the element itself when the loop is
  entered, so that the loop first counts and notes the siblings next to it, and then starts over.\<close>

fun count_to :: "dom \<Rightarrow> bool \<Rightarrow> bool \<Rightarrow> nat \<Rightarrow> place \<Rightarrow> place list \<Rightarrow> nat \<Rightarrow> nth_cache \<Rightarrow> nat \<times> nth_cache" where
  "count_to d of_type noting run e [] n st = (0, st)"
| "count_to d of_type noting run e (x # xs) n st =
     (if same_kind d of_type e x then
        (let st1 = (if noting then st\<lparr>nc_element := (nc_element st)(x := Some (run, n + 1))\<rparr> else st) in
         if x = e then (n + 1, st1) else count_to d of_type noting run e xs (n + 1) st1)
      else count_to d of_type noting run e xs n st)"

definition other_position :: "dom \<Rightarrow> bool \<Rightarrow> bool \<Rightarrow> bool \<Rightarrow> nat \<Rightarrow> place \<Rightarrow> place \<Rightarrow> nth_cache \<Rightarrow> nat \<times> nth_cache" where
  "other_position d of_type forward use_cache run parent e st =
     (let nodes = (if forward then childNodes d parent else rev (childNodes d parent));
          known = (if use_cache then (case nc_element st e of
                     Some (r, n) \<Rightarrow> if r = run then Some n else None | None \<Rightarrow> None) else None)
      in case known of
           Some n \<Rightarrow> (n, st)
         | None \<Rightarrow>
             count_to d of_type use_cache run e nodes 0
               (if use_cache
                then snd (count_to d of_type True run e (along d (if forward then NextSibling else PreviousSibling) e) 0 st)
                else st))"

section \<open>The filter\<close>

definition child_filter :: "dom \<Rightarrow> bool \<Rightarrow> nat \<Rightarrow> child_type \<Rightarrow> bool \<Rightarrow> int \<Rightarrow> int \<Rightarrow> place \<Rightarrow> nth_cache \<Rightarrow>
    bool \<times> nth_cache" where
  "child_filter d xml run t of_type a b e st =
     (let simple = (t \<noteq> Nth \<and> t \<noteq> NthLast); forward = (t \<noteq> LastOne \<and> t \<noteq> NthLast);
          use_cache = (\<not> xml \<and> \<not> of_type) in
      if \<not> simple \<and> a = 1 \<and> b = 0 then (parentNode e \<noteq> None, st)
      else (case parentNode e of
              None \<Rightarrow> (False, st)
            | Some parent \<Rightarrow>
                if simple then (simple_child d t of_type e, st)
                else (case (if forward \<and> use_cache then forward_position d run parent e st
                            else other_position d of_type forward use_cache run parent e st) of
                        (n, st1) \<Rightarrow> (in_cycle a b (int n), st1))))"

section \<open>What CSS says\<close>

definition position :: "dom \<Rightarrow> bool \<Rightarrow> bool \<Rightarrow> place \<Rightarrow> nat" where
  "position d of_type from_end e =
     Suc (length (filter (same_kind d of_type e) (along d (if from_end then NextSibling else PreviousSibling) e)))"

fun child_holds :: "dom \<Rightarrow> child_type \<Rightarrow> bool \<Rightarrow> int \<Rightarrow> int \<Rightarrow> place \<Rightarrow> bool" where
  "child_holds d FirstOne of_type a b e \<longleftrightarrow> parentNode e \<noteq> None \<and> position d of_type False e = 1"
| "child_holds d LastOne of_type a b e \<longleftrightarrow> parentNode e \<noteq> None \<and> position d of_type True e = 1"
| "child_holds d Only of_type a b e \<longleftrightarrow>
     parentNode e \<noteq> None \<and> position d of_type False e = 1 \<and> position d of_type True e = 1"
| "child_holds d Nth of_type a b e \<longleftrightarrow> parentNode e \<noteq> None \<and> in_cycle a b (int (position d of_type False e))"
| "child_holds d NthLast of_type a b e \<longleftrightarrow> parentNode e \<noteq> None \<and> in_cycle a b (int (position d of_type True e))"

lemma in_cycle_css: "in_cycle a b i \<longleftrightarrow> (\<exists>n\<ge>0. i = a * n + b)"
proof
  assume c: "in_cycle a b i"
  show "\<exists>n\<ge>0. i = a * n + b"
  proof (cases "i - b = a")
    case True
    then show ?thesis by (intro exI [of _ 1]) simp
  next
    case False
    then have a: "a \<noteq> 0" "a dvd i - b" "i - b = 0 \<or> (0 < i - b \<longleftrightarrow> 0 < a)"
      using c by (auto simp: in_cycle_def Let_def)
    then obtain n where n: "i - b = a * n" by auto
    have "0 \<le> n" using a n by (auto simp: zero_less_mult_iff not_less)
    then show ?thesis using n by (intro exI [of _ n]) simp
  qed
next
  assume "\<exists>n\<ge>0. i = a * n + b"
  then obtain n where n: "0 \<le> n" "i = a * n + b" by blast
  show "in_cycle a b i"
  proof (cases "a = 0 \<or> n = 0")
    case False
    then have "0 < a * n \<longleftrightarrow> 0 < a" using n(1) by (simp add: zero_less_mult_iff)
    then show ?thesis using n False by (auto simp: in_cycle_def Let_def)
  qed (use n in \<open>auto simp: in_cycle_def Let_def\<close>)
qed

section \<open>The caches are sound\<close>

text \<open>An entry of a run on a parent holds the number of a child; an entry on an element holds its number
  unless the element comes before \<open>asked\<close>, the last element that was asked about.\<close>

definition sound_positions :: "dom \<Rightarrow> nat \<Rightarrow> place \<Rightarrow> nth_cache \<Rightarrow> bool" where
  "sound_positions d run asked st \<longleftrightarrow>
     (\<forall>p i n. nc_parent st p = Some (run, i, n) \<longrightarrow>
        n = length (filter (is_element d) (take (i + 1) (childNodes d p)))) \<and>
     (\<forall>e n. nc_element st e = Some (run, n) \<and> \<not> precedes e asked \<longrightarrow> n = position d False True e)"

lemma sound_later: "sound_positions d run asked st \<Longrightarrow> \<not> precedes e asked \<Longrightarrow> sound_positions d run e st"
proof -
  assume s: "sound_positions d run asked st" "\<not> precedes e asked"
  then have "\<not> precedes x e \<Longrightarrow> \<not> precedes x asked" for x using precedes_trans precedes_linear [of e asked] by blast
  then show ?thesis using s(1) unfolding sound_positions_def by blast
qed

lemma nth_childNodes: "i < length (kids_at d p) \<Longrightarrow> childNodes d p ! i = i # p"
  by (simp add: childNodes_def)

lemma length_childNodes [simp]: "length (childNodes d p) = length (kids_at d p)"
  by (simp add: childNodes_def)

lemma seek_counts:
  "seek d e xs i n = (if is_element d e \<and> e \<in> set xs
     then Some (i + length (takeWhile (\<lambda>x. x \<noteq> e) xs), n + Suc (length (filter (is_element d) (takeWhile (\<lambda>x. x \<noteq> e) xs))))
     else None)"
  by (induction xs arbitrary: i n) auto

lemma take_child: "j \<le> length (kids_at d p) \<Longrightarrow> take j (childNodes d p) = map (\<lambda>i. i # p) [0..<j]"
  by (simp add: childNodes_def take_map take_upt)

lemma takeWhile_upt: "j < k \<Longrightarrow> m \<le> j \<Longrightarrow> takeWhile (\<lambda>x. x \<noteq> j # p) (map (\<lambda>i. i # p) [m..<k]) = map (\<lambda>i. i # p) [m..<j]"
proof -
  assume j: "j < k" "m \<le> j"
  then have "[m..<k] = [m..<j] @ j # [Suc j..<k]" by (metis less_imp_le upt_add_eq_append upt_conv_Cons le_add_diff_inverse)
  moreover have "takeWhile (\<lambda>x. x \<noteq> j # p) (map (\<lambda>i. i # p) [m..<j] @ xs) =
      map (\<lambda>i. i # p) [m..<j] @ takeWhile (\<lambda>x. x \<noteq> j # p) xs" for xs
    by (rule takeWhile_append2) auto
  ultimately show ?thesis by simp
qed

lemma siblings_before: "q \<noteq> [] \<Longrightarrow> along d PreviousSibling (j # q) = map (\<lambda>k. k # q) (rev [0..<j])"
  by (cases q) simp_all

lemma siblings_after: "q \<noteq> [] \<Longrightarrow> along d NextSibling (j # q) = map (\<lambda>k. k # q) [Suc j..<length (kids_at d q)]"
  by (cases q) simp_all

lemma seek_from:
  assumes "is_element d (j # q)" "j < length (kids_at d q)"
  shows "m \<le> j \<Longrightarrow> seek d (j # q) (drop m (childNodes d q)) m n =
      Some (j, n + Suc (length (filter (is_element d) (map (\<lambda>i. i # q) [m..<j]))))"
    and "j < m \<Longrightarrow> seek d (j # q) (drop m (childNodes d q)) m n = None"
proof -
  have drop: "drop m (childNodes d q) = map (\<lambda>i. i # q) [m..<length (kids_at d q)]"
    by (simp add: childNodes_def drop_map)
  show "m \<le> j \<Longrightarrow> seek d (j # q) (drop m (childNodes d q)) m n =
      Some (j, n + Suc (length (filter (is_element d) (map (\<lambda>i. i # q) [m..<j]))))"
    unfolding drop seek_counts using assms by (auto simp: takeWhile_upt)
  show "j < m \<Longrightarrow> seek d (j # q) (drop m (childNodes d q)) m n = None"
    unfolding drop seek_counts by auto
qed

lemma position_before:
  assumes "is_element d (j # q)" "q \<noteq> []"
  shows "position d False False (j # q) = length (filter (is_element d) (map (\<lambda>i. i # q) [0..<Suc j]))"
proof -
  have "same_kind d False (j # q) = is_element d" by (intro ext) (simp add: same_kind_def)
  then show ?thesis using assms
    by (simp add: position_def siblings_before del: along.simps flip: rev_map rev_filter)
qed

lemma forward_position_counts:
  assumes "sound_positions d run asked st" "is_element d (j # q)" "j < length (kids_at d q)" "q \<noteq> []"
    and "forward_position d run q (j # q) st = (n, st')"
  shows "n = position d False False (j # q) \<and> sound_positions d run asked st'"
proof -
  let ?count = "\<lambda>k. length (filter (is_element d) (map (\<lambda>i. i # q) [0..<k]))"
  have whole: "seek d (j # q) (childNodes d q) 0 0 = Some (j, ?count (Suc j))"
    using seek_from(1) [OF assms(2,3), of 0 0] assms(2) by simp
  have resumed: "seek d (j # q) (drop (i + 1) (childNodes d q)) (i + 1) m \<in> {None, Some (j, ?count (Suc j))}"
    if c: "nc_parent st q = Some (run, i, m)" for i m
  proof (cases "i < j")
    case True
    have "m = length (filter (is_element d) (take (i + 1) (childNodes d q)))"
      using assms(1) c unfolding sound_positions_def by blast
    then have "m = ?count (i + 1)" using take_child [of "i + 1" d q] assms(3) True by (simp only: Suc_leI less_trans flip: Suc_eq_plus1)
    moreover have "?count (i + 1) + length (filter (is_element d) (map (\<lambda>k. k # q) [i + 1..<j])) = ?count j"
      using True upt_add_eq_append [of 0 "i + 1" "j - (i + 1)"] by (simp flip: map_append filter_append length_append del: upt_Suc)
    ultimately show ?thesis using seek_from(1) [OF assms(2,3), of "i + 1" m] True assms(2) by simp
  next
    case False
    then show ?thesis using seek_from(2) [OF assms(2,3), of "i + 1" m] by simp
  qed
  have "n = ?count (Suc j) \<and> st' = st\<lparr>nc_parent := (nc_parent st)(q := Some (run, j, ?count (Suc j)))\<rparr>"
    using assms(5) whole resumed unfolding forward_position_def Let_def
    by (auto split: option.splits if_splits prod.splits simp del: upt_Suc)
  then show ?thesis using assms(1) position_before [OF assms(2,4)] take_child [of "Suc j" d q] assms(3)
    by (auto simp: sound_positions_def simp del: upt_Suc)
qed

lemma count_to_result:
  "e \<in> set xs \<Longrightarrow> same_kind d of_type e e \<Longrightarrow>
     fst (count_to d of_type noting run e xs n st) =
       n + Suc (length (filter (same_kind d of_type e) (takeWhile (\<lambda>x. x \<noteq> e) xs)))"
  by (induction xs arbitrary: n st) (auto simp: Let_def)

lemma count_to_silent: "snd (count_to d of_type False run e xs n st) = st"
  by (induction xs arbitrary: n) (auto simp: Let_def)

lemma note_sound:
  "sound_positions d run asked st \<Longrightarrow> n = position d False True x \<Longrightarrow>
     sound_positions d run asked (st\<lparr>nc_element := (nc_element st)(x := Some (run, n))\<rparr>)"
  by (simp add: sound_positions_def)

lemma count_to_sound:
  assumes "q \<noteq> []" "k \<le> length (kids_at d q)" "sound_positions d run asked st"
    and "n = length (filter (is_element d) (map (\<lambda>i. i # q) [k..<length (kids_at d q)]))"
  shows "sound_positions d run asked (snd (count_to d False noting run e (map (\<lambda>i. i # q) (rev [0..<k])) n st))"
  using assms(2-4)
proof (induction k arbitrary: n st)
  case (Suc k)
  let ?x = "k # q"
  have split: "[k..<length (kids_at d q)] = k # [Suc k..<length (kids_at d q)]"
    using Suc.prems(1) by (simp add: upt_conv_Cons)
  show ?case
  proof (cases "is_element d ?x")
    case True
    have kind: "same_kind d False ?x = is_element d" by (intro ext) (simp add: same_kind_def)
    have "n + 1 = position d False True ?x"
      using Suc.prems(3) assms(1) by (simp add: position_def siblings_after kind del: along.simps)
    then have sound: "sound_positions d run asked (if noting then st\<lparr>nc_element := (nc_element st)(?x := Some (run, n + 1))\<rparr> else st)"
      using note_sound [OF Suc.prems(2)] Suc.prems(2) by simp
    show ?thesis using True sound Suc.IH [OF _ sound, of "n + 1"] Suc.prems(1,3) split
      by (cases noting; cases "?x = e") (auto simp: same_kind_def Let_def)
  next
    case False
    then show ?thesis using Suc.IH [OF _ Suc.prems(2), of n] Suc.prems(1,3) split by (simp add: same_kind_def)
  qed
qed simp

lemma count_to_elsewhere:
  "x \<notin> set xs \<Longrightarrow> nc_element (snd (count_to d of_type noting run e xs n st)) x = nc_element st x"
  "nc_parent (snd (count_to d of_type noting run e xs n st)) = nc_parent st"
  by (induction xs arbitrary: n st) (auto simp: Let_def)

text \<open>What the first pass notes on the siblings before the element does not matter from there on.\<close>

lemma count_back_sound:
  assumes "q \<noteq> []" "sound_positions d run (j # q) st"
  shows "sound_positions d run (j # q) (snd (count_to d False noting run e (along d PreviousSibling (j # q)) n st))"
proof -
  obtain l where l: "l = along d PreviousSibling (j # q)" by blast
  have "x \<notin> set l" if "\<not> precedes x (j # q)" for x
    unfolding l using that assms(1) precedes_siblings [of _ j "[]" q "[]"] by (auto simp: siblings_before simp del: along.simps)
  then have "nc_element (snd (count_to d False noting run e l n st)) x = nc_element st x" if "\<not> precedes x (j # q)" for x
    using that count_to_elsewhere(1) by blast
  then show ?thesis using assms(2) unfolding l [symmetric] sound_positions_def count_to_elsewhere(2) by fastforce
qed

lemma takeWhile_down:
  "j < k \<Longrightarrow> takeWhile (\<lambda>x. x \<noteq> j # q) (map (\<lambda>i. i # q) (rev [0..<k])) = map (\<lambda>i. i # q) (rev [Suc j..<k])"
proof -
  assume "j < k"
  then have "[0..<k] = [0..<j] @ j # [Suc j..<k]"
    using upt_add_eq_append [of 0 j "k - j"] by (simp add: upt_conv_Cons)
  moreover have "takeWhile (\<lambda>x. x \<noteq> j # q) (map (\<lambda>i. i # q) (rev [Suc j..<k]) @ xs) =
      map (\<lambda>i. i # q) (rev [Suc j..<k]) @ takeWhile (\<lambda>x. x \<noteq> j # q) xs" for xs
    by (rule takeWhile_append2) auto
  ultimately show ?thesis by simp
qed

lemma other_position_counts:
  assumes "sound_positions d run (j # q) st" "is_element d (j # q)" "j < length (kids_at d q)" "q \<noteq> []"
    and "use_cache \<longrightarrow> \<not> forward \<and> \<not> of_type"
    and "other_position d of_type forward use_cache run q (j # q) st = (n, st')"
  shows "n = position d of_type (\<not> forward) (j # q) \<and> sound_positions d run (j # q) st'"
proof -
  let ?e = "j # q" and ?nodes = "if forward then childNodes d q else rev (childNodes d q)"
  let ?st = "if use_cache then snd (count_to d of_type True run ?e (along d PreviousSibling ?e) 0 st) else st"
  have same: "same_kind d of_type ?e ?e" using assms(2) by (simp add: same_kind_def)
  have mem: "?e \<in> set ?nodes" using assms(3) by (simp add: childNodes_def)
  have before: "length (filter (same_kind d of_type ?e) (takeWhile (\<lambda>x. x \<noteq> ?e) ?nodes)) =
      length (filter (same_kind d of_type ?e) (along d (if \<not> forward then NextSibling else PreviousSibling) ?e))"
    using assms(3,4) takeWhile_upt [of j "length (kids_at d q)" 0 q] takeWhile_down [of j "length (kids_at d q)" q]
    by (simp add: childNodes_def siblings_before siblings_after rev_map del: along.simps flip: rev_filter)
  have count: "fst (count_to d of_type use_cache run ?e ?nodes 0 ?st) = position d of_type (\<not> forward) ?e"
    unfolding count_to_result [OF mem same] before position_def by simp
  have sound: "sound_positions d run ?e (snd (count_to d of_type use_cache run ?e ?nodes 0 ?st))"
  proof (cases use_cache)
    case True
    then have "sound_positions d run ?e ?st" using count_back_sound [OF assms(4,1)] assms(5) by simp
    moreover have "rev (childNodes d q) = map (\<lambda>i. i # q) (rev [0..<length (kids_at d q)])"
      by (simp add: childNodes_def rev_map)
    ultimately show ?thesis using True assms(5) count_to_sound [OF assms(4) order.refl, where d = d and run = run and asked = ?e and st = ?st and n = 0] by simp
  qed (use assms(1) in \<open>simp add: count_to_silent\<close>)
  show ?thesis
  proof (cases "use_cache \<and> (\<exists>m. nc_element st ?e = Some (run, m))")
    case True
    then obtain m where "nc_element st ?e = Some (run, m)" by blast
    moreover from this have "m = position d False True ?e"
      using assms(1) precedes_irrefl unfolding sound_positions_def by blast
    ultimately show ?thesis using True assms(1,5,6) by (simp add: other_position_def)
  next
    case False
    then have "other_position d of_type forward use_cache run q ?e st = count_to d of_type use_cache run ?e ?nodes 0 ?st"
      using assms(5) by (auto simp: other_position_def Let_def split: option.splits)
    then have "count_to d of_type use_cache run ?e ?nodes 0 ?st = (n, st')" using assms(6) by simp
    then show ?thesis using count sound by (simp only: fst_conv snd_conv)
  qed
qed

text \<open>The filter computes what CSS says, whatever its caches hold of the run.\<close>

lemma no_kin_position: "no_kin d of_type w e \<longleftrightarrow> filter (same_kind d of_type e) (along d w e) = []"
  by (auto simp: no_kin_def list_ex_iff filter_empty_conv)

lemma in_cycle_all: "0 < i \<Longrightarrow> in_cycle 1 0 i"
  by (simp add: in_cycle_css)

lemma child_filter_decides:
  assumes before: "sound_positions d run asked st" "\<not> precedes e asked" and "is_element d e" "is_node d e"
    and "child_filter d xml run t of_type a b e st = (v, st')"
  shows "v = child_holds d t of_type a b e \<and> sound_positions d run e st'"
proof (cases "parentNode e")
  case None
  then show ?thesis using sound_later [OF before] assms(5) by (cases t) (auto simp: child_filter_def Let_def split: if_splits)
next
  case (Some q)
  then obtain j where e: "e = j # q" "q \<noteq> []" by (auto simp: parentNode_def split: list.splits)
  then have j: "j < length (kids_at d q)" using assms(4) by simp
  note sound = sound_later [OF before] and sound' = sound_later [OF before, unfolded e(1)]
  note el = assms(3) [unfolded e(1)]
  consider "t = Nth" | "t = NthLast" | "t \<noteq> Nth" "t \<noteq> NthLast" by blast
  then show ?thesis
  proof cases
    case 1
    show ?thesis
    proof (cases "a = 1 \<and> b = 0")
      case True
      then show ?thesis using 1 Some sound assms(5) in_cycle_all [of "int (position d of_type False e)"]
        by (auto simp: child_filter_def position_def)
    next
      case False
      obtain n st1 where p: "(if \<not> xml \<and> \<not> of_type then forward_position d run q e st
          else other_position d of_type True False run q e st) = (n, st1)" by force
      have "n = position d of_type False e \<and> sound_positions d run e st1"
        using p forward_position_counts [OF sound' el j e(2)] e(1)
          other_position_counts [OF sound' el j e(2), of False True of_type]
        by (auto split: if_splits)
      then show ?thesis using 1 False Some assms(5) p by (auto simp: child_filter_def Let_def split: if_splits)
    qed
  next
    case 2
    show ?thesis
    proof (cases "a = 1 \<and> b = 0")
      case True
      then show ?thesis using 2 Some sound assms(5) in_cycle_all [of "int (position d of_type True e)"]
        by (auto simp: child_filter_def position_def)
    next
      case False
      obtain n st1 where p: "other_position d of_type False (\<not> xml \<and> \<not> of_type) run q e st = (n, st1)" by force
      have "n = position d of_type True e \<and> sound_positions d run e st1"
        using p e(1) other_position_counts [OF sound' el j e(2), of "\<not> xml \<and> \<not> of_type" False of_type]
        by auto
      then show ?thesis using 2 False Some assms(5) p by (auto simp: child_filter_def Let_def)
    qed
  next
    case 3
    then show ?thesis using Some sound assms(5)
      by (cases t) (auto simp: child_filter_def no_kin_position position_def simp del: along.simps)
  qed
qed

text \<open>Elements asked about in document order, each time with the caches as the last time left them.\<close>

fun ask_all :: "dom \<Rightarrow> bool \<Rightarrow> nat \<Rightarrow> child_type \<Rightarrow> bool \<Rightarrow> int \<Rightarrow> int \<Rightarrow> place list \<Rightarrow> nth_cache \<Rightarrow>
    bool list \<times> nth_cache" where
  "ask_all d xml run t of_type a b [] st = ([], st)"
| "ask_all d xml run t of_type a b (e # es) st =
     (case child_filter d xml run t of_type a b e st of
        (v, st1) \<Rightarrow> (case ask_all d xml run t of_type a b es st1 of (vs, st2) \<Rightarrow> (v # vs, st2)))"

lemma ask_all_in_order:
  assumes "sound_positions d run asked st" "sorted_wrt (\<lambda>x y. \<not> precedes y x) (asked # es)"
    and "\<forall>e \<in> set es. is_element d e \<and> is_node d e"
  shows "fst (ask_all d xml run t of_type a b es st) = map (child_holds d t of_type a b) es"
  using assms
proof (induction es arbitrary: asked st)
  case (Cons e es)
  obtain v st1 where v: "child_filter d xml run t of_type a b e st = (v, st1)" by force
  have "\<not> precedes e asked" "is_element d e" "is_node d e" using Cons.prems by simp_all
  note d = child_filter_decides [OF Cons.prems(1) this v]
  obtain vs st2 where w: "ask_all d xml run t of_type a b es st1 = (vs, st2)" by force
  have "vs = map (child_holds d t of_type a b) es" using Cons.IH [of e st1] d Cons.prems(2,3) w by simp
  then show ?case using v w d by simp
qed simp

text \<open>Three paragraphs and a link: the second paragraph is the third child from the end, but after the third
  one has been asked about, the cache says that it is the first.\<close>

definition four_kids :: dom where
  "four_kids =
     [Dnode 9 ''#document'' [] [] ''''
        [Dnode 1 ''DIV'' [] [] ''''
           [Dnode 1 ''P'' [] [] '''' [], Dnode 1 ''P'' [] [] '''' [], Dnode 1 ''P'' [] [] '''' [], Dnode 1 ''A'' [] [] '''' []]]]"

definition no_positions :: nth_cache where
  "no_positions = \<lparr>nc_parent = (\<lambda>p. None), nc_element = (\<lambda>e. None)\<rparr>"

lemma nth_last_out_of_order:
  "fst (ask_all four_kids False 1 NthLast False 0 3 [[2, 0, 0], [1, 0, 0]] no_positions) = [False, False]"
  "fst (ask_all four_kids False 1 NthLast False 0 1 [[2, 0, 0], [1, 0, 0]] no_positions) = [False, True]"
  "map (child_holds four_kids NthLast False 0 3) [[2, 0, 0], [1, 0, 0]] = [False, True]"
  by code_simp+

end
