(* ===== verification/Sz_Cache.thy ===== *)
theory Sz_Cache
  imports Sz_Match
begin

text \<open>
  The cache of the combinators does not change a verdict: a matcher run with any sound cache
  answers what the same matcher means without one. A cache is sound for a run when every cell
  of a combinator holds, for each element that points to it, whether the element or one further on
  satisfies the combinator's matcher.
\<close>

section \<open>What matchers mean\<close>

fun scan :: "dom \<Rightarrow> combinator \<Rightarrow> bool \<Rightarrow> (place \<Rightarrow> bool) \<Rightarrow> place list \<Rightarrow> bool" where
  "scan d c check P [] = False"
| "scan d c check P (e # es) =
     (if is_element d e \<or> check
      then (if skipped d c e then scan d c check P (tl es) else P e \<or> scan d c check P es)
      else scan d c check P es)"

definition first_of :: "dom \<Rightarrow> bool \<Rightarrow> (place \<Rightarrow> bool) \<Rightarrow> place list \<Rightarrow> bool" where
  "first_of d check P es = (case filter (\<lambda>e. is_element d e \<or> check) es of [] \<Rightarrow> False | e # _ \<Rightarrow> P e)"

definition checks_all :: "combinator \<Rightarrow> bool \<Rightarrow> bool" where
  "checks_all c base \<longleftrightarrow> base \<and> co_key c = ''parentNode''"

definition related :: "dom \<Rightarrow> bool \<Rightarrow> combinator \<Rightarrow> bool \<Rightarrow> (place \<Rightarrow> bool) \<Rightarrow> place \<Rightarrow> bool" where
  "related d xml c base P e =
     (let check = checks_all c base; es = along d (co_dir c) e in
      if co_first c then first_of d check P es
      else if xml then (\<exists>x \<in> set es. (is_element d x \<or> check) \<and> P x)
      else scan d c check P es)"

section \<open>Sound caches\<close>

text \<open>An entry is the number of a combinator, its key, and the verdict it stores on each node.\<close>

type_synonym entry = "nat \<times> string \<times> (place \<Rightarrow> bool)"

definition bounded :: "match_cache \<Rightarrow> bool" where
  "bounded st \<longleftrightarrow> (\<forall>e k i. ca_slots st e k = Some i \<longrightarrow> i < length (ca_cells st))"

definition sound_entry :: "nat \<Rightarrow> entry \<Rightarrow> match_cache \<Rightarrow> bool" where
  "sound_entry run t st \<longleftrightarrow>
     (\<forall>e k i v. ca_slots st e k = Some i \<and> ca_cells st ! i = (run, fst t, v) \<longrightarrow>
        k = fst (snd t) \<and> v = snd (snd t) e)"

definition sound :: "nat \<Rightarrow> entry set \<Rightarrow> match_cache \<Rightarrow> bool" where
  "sound run E st \<longleftrightarrow> bounded st \<and> (\<forall>t \<in> E. sound_entry run t st)"

definition extends :: "nat set \<Rightarrow> match_cache \<Rightarrow> match_cache \<Rightarrow> bool" where
  "extends N st st' \<longleftrightarrow>
     (\<exists>new. ca_cells st' = ca_cells st @ new \<and> (\<forall>(r, n, v) \<in> set new. n \<in> N)) \<and>
     (\<forall>e k. ca_slots st' e k = ca_slots st e k \<or>
        (\<exists>i. ca_slots st' e k = Some i \<and> length (ca_cells st) \<le> i \<and> i < length (ca_cells st')))"

text \<open>\<open>decides run E P m\<close>: on sound caches \<open>m\<close> computes \<open>P\<close>, leaves the cache sound and adds cells of
  its own combinators only.\<close>

definition decides :: "nat \<Rightarrow> entry set \<Rightarrow> (place \<Rightarrow> bool) \<Rightarrow> stepper \<Rightarrow> bool" where
  "decides run E P m \<longleftrightarrow>
     (\<forall>e st. sound run E st \<longrightarrow>
        fst (m e st) = P e \<and> sound run E (snd (m e st)) \<and> extends (fst ` E) st (snd (m e st)))"

lemma decidesD:
  assumes "decides run E P m" "sound run E st" "m e st = (v, st')"
  shows "v = P e" "sound run E st'" "extends (fst ` E) st st'"
  using assms unfolding decides_def by (metis fst_conv snd_conv)+

lemma sound_empty [simp]: "sound run E empty_cache"
  by (auto simp: sound_def bounded_def sound_entry_def empty_cache_def)

lemma sound_insert: "sound run (insert t E) st \<longleftrightarrow> sound_entry run t st \<and> sound run E st"
  by (auto simp: sound_def)

lemma sound_Un: "sound run (E \<union> F) st \<longleftrightarrow> sound run E st \<and> sound run F st"
  by (auto simp: sound_def)

lemma extends_refl [simp]: "extends N st st"
  by (simp add: extends_def)

lemma extends_mono: "extends N st st' \<Longrightarrow> N \<subseteq> M \<Longrightarrow> extends M st st'"
  unfolding extends_def by fastforce

lemma extends_slot:
  "extends N st st' \<Longrightarrow> ca_slots st' e k = ca_slots st e k \<or>
     (\<exists>i. ca_slots st' e k = Some i \<and> length (ca_cells st) \<le> i \<and> i < length (ca_cells st'))"
  by (simp add: extends_def)

lemma extends_cells:
  assumes "extends N st st'"
  obtains new where "ca_cells st' = ca_cells st @ new" "\<forall>(r, n, v) \<in> set new. n \<in> N"
  using assms unfolding extends_def by blast

lemma extends_trans:
  assumes "extends N a b" "extends N b c"
  shows "extends N a c"
proof -
  obtain xs where xs: "ca_cells b = ca_cells a @ xs" "\<forall>(r, n, v) \<in> set xs. n \<in> N"
    using assms(1) by (rule extends_cells)
  obtain ys where ys: "ca_cells c = ca_cells b @ ys" "\<forall>(r, n, v) \<in> set ys. n \<in> N"
    using assms(2) by (rule extends_cells)
  have "ca_slots c e k = ca_slots a e k \<or>
     (\<exists>i. ca_slots c e k = Some i \<and> length (ca_cells a) \<le> i \<and> i < length (ca_cells c))" for e k
    using extends_slot [OF assms(1), of e k] extends_slot [OF assms(2), of e k] xs(1) ys(1) by auto
  then show ?thesis using xs ys unfolding extends_def by (intro conjI exI [of _ "xs @ ys"]) auto
qed

lemma extends_bounded:
  assumes "extends N st st'" "bounded st"
  shows "bounded st'"
  unfolding bounded_def
proof (intro allI impI)
  fix e k i
  assume *: "ca_slots st' e k = Some i"
  obtain new where "ca_cells st' = ca_cells st @ new" using assms(1) by (rule extends_cells)
  then show "i < length (ca_cells st')"
    using assms(2) * extends_slot [OF assms(1), of e k] unfolding bounded_def by fastforce
qed

text \<open>Cells of other combinators do not matter.\<close>

lemma sound_entry_extends:
  assumes "extends N st st'" "bounded st" "sound_entry run t st" "fst t \<notin> N"
  shows "sound_entry run t st'"
proof -
  obtain new where new: "ca_cells st' = ca_cells st @ new" "\<forall>(r, n, v) \<in> set new. n \<in> N"
    using assms(1) unfolding extends_def by blast
  show ?thesis
    unfolding sound_entry_def
  proof (intro allI impI)
    fix e k i v
    assume *: "ca_slots st' e k = Some i \<and> ca_cells st' ! i = (run, fst t, v)"
    have "\<not> (length (ca_cells st) \<le> i \<and> i < length (ca_cells st'))"
    proof
      assume "length (ca_cells st) \<le> i \<and> i < length (ca_cells st')"
      then have "ca_cells st' ! i \<in> set new" using new(1) by (auto simp: nth_append)
      then show False using * new(2) assms(4) by auto
    qed
    then have "ca_slots st e k = Some i" using assms(1) * unfolding extends_def by (metis option.inject)
    moreover from this have "ca_cells st ! i = (run, fst t, v)"
      using * assms(2) new(1) by (auto simp: bounded_def nth_append)
    ultimately show "k = fst (snd t) \<and> v = snd (snd t) e" using assms(3) unfolding sound_entry_def by blast
  qed
qed

lemma sound_extends:
  assumes "extends N st st'" "sound run E st" "fst ` E \<inter> N = {}"
  shows "sound run E st'"
proof -
  have "bounded st" "bounded st'" using assms(1,2) extends_bounded by (auto simp: sound_def)
  moreover have "sound_entry run t st'" if "t \<in> E" for t
  proof (rule sound_entry_extends [OF assms(1) \<open>bounded st\<close>])
    show "fst t \<notin> N" using that assms(3) by blast
  qed (use that assms(2) in \<open>simp add: sound_def\<close>)
  ultimately show ?thesis by (simp add: sound_def)
qed

section \<open>One combinator\<close>

definition consecutive :: "dom \<Rightarrow> way \<Rightarrow> place list \<Rightarrow> bool" where
  "consecutive d w es \<longleftrightarrow> (case es of [] \<Rightarrow> True | x # xs \<Rightarrow> xs = along d w x)"

lemma consecutive_Cons: "consecutive d w (x # xs) \<longleftrightarrow> xs = along d w x"
  by (simp add: consecutive_def)

lemma consecutive_along [simp]: "consecutive d w (along d w p)"
proof (cases "move d w p")
  case None
  then show ?thesis by (subst along_moves) (simp add: consecutive_def)
next
  case (Some q)
  then show ?thesis by (subst along_moves) (simp add: consecutive_Cons)
qed

lemma consecutive_tl:
  assumes "consecutive d w es"
  shows "consecutive d w (tl es)"
proof (cases es)
  case (Cons x xs)
  then have "tl es = along d w x" using assms by (simp add: consecutive_Cons)
  then show ?thesis by (simp only: consecutive_along)
qed (simp add: consecutive_def)

lemma along_not_self: "p \<notin> set (along d w p)"
proof (cases w)
  case ParentNode
  then show ?thesis using precedes_below [of _ p] by (auto simp: inside_iff simp flip: inside_def)
qed (auto split: list.splits)

text \<open>The state inside the loop: \<open>q\<close> is what the rest of the loop will answer, and the elements that
  point to the new cell \<open>i\<close> wait for it; its verdict is still false.\<close>

definition waits :: "nat \<Rightarrow> entry \<Rightarrow> nat \<Rightarrow> place list \<Rightarrow> bool \<Rightarrow> match_cache \<Rightarrow> bool" where
  "waits run t i es q st \<longleftrightarrow>
     (\<forall>e k j v. ca_slots st e k = Some j \<and> ca_cells st ! j = (run, fst t, v) \<longrightarrow>
        k = fst (snd t) \<and> (if j = i then e \<notin> set es \<and> snd (snd t) e = q else v = snd (snd t) e))"

definition midway :: "nat \<Rightarrow> entry set \<Rightarrow> entry \<Rightarrow> match_cache \<Rightarrow> nat \<Rightarrow> place list \<Rightarrow> bool \<Rightarrow> match_cache \<Rightarrow> bool" where
  "midway run E t st0 i es q st \<longleftrightarrow>
     sound run E st \<and> extends (insert (fst t) (fst ` E)) st0 st \<and> i = length (ca_cells st0) \<and>
     i < length (ca_cells st) \<and> ca_cells st ! i = (run, fst t, False) \<and> waits run t i es q st"

lemma waitsD:
  "waits run t i es q st \<Longrightarrow> ca_slots st e k = Some j \<Longrightarrow> ca_cells st ! j = (run, fst t, v) \<Longrightarrow>
     k = fst (snd t) \<and> (if j = i then e \<notin> set es \<and> snd (snd t) e = q else v = snd (snd t) e)"
  unfolding waits_def by blast

lemma midwayD:
  assumes "midway run E t st0 i es q st"
  shows "sound run E st" "extends (insert (fst t) (fst ` E)) st0 st" "i = length (ca_cells st0)"
    "i < length (ca_cells st)" "ca_cells st ! i = (run, fst t, False)" "waits run t i es q st"
  using assms unfolding midway_def by blast+

text \<open>Other slots and cells are left alone by \<open>set_verdict\<close> and \<open>set_slot\<close>.\<close>

lemma verdict_cells:
  "ca_cells st ! i = (run, n, u) \<Longrightarrow> ca_cells (set_verdict i v st) = (ca_cells st)[i := (run, n, v)]"
  "ca_slots (set_verdict i v st) = ca_slots st"
  by (simp_all add: set_verdict_def)

lemma slot_cells:
  "ca_cells (set_slot e k i st) = ca_cells st"
  "ca_slots (set_slot e k i st) x l = (if x = e \<and> l = k then Some i else ca_slots st x l)"
  by (simp_all add: set_slot_def)

text \<open>Writing the verdict at the end.\<close>

lemma midway_ends:
  assumes m: "midway run E t st0 i es v st" and t: "fst t \<notin> fst ` E"
  shows "sound run (insert t E) (set_verdict i v st)"
    and "extends (insert (fst t) (fst ` E)) st0 (set_verdict i v st)"
proof -
  let ?st = "set_verdict i v st"
  note m = midwayD [OF m]
  have cells: "ca_cells ?st = (ca_cells st)[i := (run, fst t, v)]" "ca_slots ?st = ca_slots st"
    using verdict_cells m(5) by blast+
  obtain new where new: "ca_cells st = ca_cells st0 @ new" "\<forall>(r, n, w) \<in> set new. n \<in> insert (fst t) (fst ` E)"
    using m(2) by (rule extends_cells)
  then obtain x xs where "new = x # xs" using m(3,4) by (cases new) simp_all
  then have "ca_cells ?st = ca_cells st0 @ (run, fst t, v) # xs" using cells(1) new(1) m(3) by simp
  moreover have "\<forall>(r, n, w) \<in> set ((run, fst t, v) # xs). n \<in> insert (fst t) (fst ` E)"
    using new(2) \<open>new = x # xs\<close> by simp
  moreover have "length (ca_cells ?st) = length (ca_cells st)" by (simp add: cells)
  ultimately show "extends (insert (fst t) (fst ` E)) st0 ?st"
    using extends_slot [OF m(2)] unfolding extends_def cells(2) by metis
  have "bounded ?st" using m(1) by (simp add: sound_def bounded_def cells)
  moreover have "sound_entry run s ?st" if s: "s \<in> E" for s
    unfolding sound_entry_def
  proof (intro allI impI)
    fix e k j w
    assume *: "ca_slots ?st e k = Some j \<and> ca_cells ?st ! j = (run, fst s, w)"
    have "fst s \<noteq> fst t" using s t by (metis imageI)
    then have "j \<noteq> i" using * m(4) by (auto simp: cells)
    then have "ca_slots st e k = Some j \<and> ca_cells st ! j = (run, fst s, w)" using * by (simp add: cells)
    then show "k = fst (snd s) \<and> w = snd (snd s) e"
      using m(1) s unfolding sound_def sound_entry_def by blast
  qed
  moreover have "sound_entry run t ?st"
    unfolding sound_entry_def
  proof (intro allI impI)
    fix e k j w
    assume *: "ca_slots ?st e k = Some j \<and> ca_cells ?st ! j = (run, fst t, w)"
    show "k = fst (snd t) \<and> w = snd (snd t) e"
    proof (cases "j = i")
      case True
      then show ?thesis using * m(4) waitsD [OF m(6), of e k i False] m(5) by (simp add: cells)
    next
      case False
      then show ?thesis using * waitsD [OF m(6), of e k j w] by (simp add: cells)
    qed
  qed
  ultimately show "sound run (insert t E) ?st" by (simp add: sound_def)
qed

text \<open>Writing \<open>false\<close> in between, pointing an element at the new cell, and running the matcher.\<close>

lemma midway_false: "midway run E t st0 i es q st \<Longrightarrow> set_verdict i False st = st"
  using midwayD(5) [of run E t st0 i es q st] by (simp add: set_verdict_def list_update_same_conv midwayD(4))

lemma midway_slot:
  assumes m: "midway run E t st0 i es q st" and t: "fst t \<notin> fst ` E"
    and e: "e \<notin> set es" "snd (snd t) e = q"
  shows "midway run E t st0 i es q (set_slot e (fst (snd t)) i st)"
proof -
  let ?st = "set_slot e (fst (snd t)) i st"
  note m = midwayD [OF m]
  have "sound_entry run s ?st" if s: "s \<in> E" for s
    unfolding sound_entry_def
  proof (intro allI impI)
    fix x k j w
    assume *: "ca_slots ?st x k = Some j \<and> ca_cells ?st ! j = (run, fst s, w)"
    have "fst s \<noteq> fst t" using s t by (metis imageI)
    then have "ca_slots st x k = Some j \<and> ca_cells st ! j = (run, fst s, w)"
      using * m(5) by (auto simp: slot_cells split: if_splits)
    then show "k = fst (snd s) \<and> w = snd (snd s) x"
      using m(1) s unfolding sound_def sound_entry_def by blast
  qed
  moreover have "bounded ?st" using m(1,4) unfolding sound_def bounded_def slot_cells by auto
  ultimately have "sound run E ?st" by (simp add: sound_def)
  moreover have "extends (insert (fst t) (fst ` E)) st0 ?st"
    using m(2,3,4) unfolding extends_def slot_cells by auto
  moreover have "waits run t i es q ?st"
    unfolding waits_def
  proof (intro allI impI)
    fix x k j w
    assume *: "ca_slots ?st x k = Some j \<and> ca_cells ?st ! j = (run, fst t, w)"
    show "k = fst (snd t) \<and> (if j = i then x \<notin> set es \<and> snd (snd t) x = q else w = snd (snd t) x)"
    proof (cases "x = e \<and> k = fst (snd t)")
      case True
      then show ?thesis using * e by (auto simp: slot_cells)
    next
      case False
      then show ?thesis using * waitsD [OF m(6), of x k j w] by (simp add: slot_cells split: if_splits)
    qed
  qed
  ultimately show ?thesis using m(3,4,5) by (simp add: midway_def slot_cells(1))
qed

lemma midway_extends:
  assumes m: "midway run E t st0 i es q st" and t: "fst t \<notin> fst ` E"
    and ext: "extends (fst ` E) st st'" and so: "sound run E st'"
  shows "midway run E t st0 i es q st'"
proof -
  note m = midwayD [OF m]
  obtain new where new: "ca_cells st' = ca_cells st @ new" "\<forall>(r, n, v) \<in> set new. n \<in> fst ` E"
    using ext by (rule extends_cells)
  have "extends (insert (fst t) (fst ` E)) st0 st'"
    using extends_trans [OF m(2) extends_mono [OF ext subset_insertI]] .
  moreover have old: "ca_slots st e k = Some j \<and> ca_cells st ! j = (run, fst t, v)"
    if "ca_slots st' e k = Some j" "ca_cells st' ! j = (run, fst t, v)" for e k j v
  proof -
    have "\<not> (length (ca_cells st) \<le> j \<and> j < length (ca_cells st'))"
    proof
      assume "length (ca_cells st) \<le> j \<and> j < length (ca_cells st')"
      then have "ca_cells st' ! j \<in> set new" using new(1) by (auto simp: nth_append)
      then show False using that(2) new(2) t by auto
    qed
    then have s: "ca_slots st e k = Some j" using that(1) extends_slot [OF ext, of e k] by auto
    then have "j < length (ca_cells st)" using m(1) by (simp add: sound_def bounded_def)
    then show ?thesis using that(2) new(1) s by (simp add: nth_append)
  qed
  have "waits run t i es q st'"
    unfolding waits_def using old waitsD [OF m(6)] by blast
  moreover have "i < length (ca_cells st')" "ca_cells st' ! i = (run, fst t, False)"
    using m(4,5) new(1) by (simp_all add: nth_append)
  ultimately show ?thesis using so m(3) by (simp add: midway_def)
qed


lemma midway_shrink: "midway run E t st0 i es q st \<Longrightarrow> set es' \<subseteq> set es \<Longrightarrow> midway run E t st0 i es' q st"
  unfolding midway_def waits_def by (meson subsetD)

text \<open>The loop answers \<open>scan\<close> and leaves a cache that is sound for its combinator too.\<close>

definition scan_entry :: "dom \<Rightarrow> combinator \<Rightarrow> bool \<Rightarrow> (place \<Rightarrow> bool) \<Rightarrow> nat \<Rightarrow> entry" where
  "scan_entry d c check P name = (name, co_key c, \<lambda>e. scan d c check P (e # along d (co_dir c) e))"

lemma walk_sound:
  assumes accept: "decides run E P accept" and name: "name \<notin> fst ` E"
  shows "consecutive d (co_dir c) es \<Longrightarrow> distinct es \<Longrightarrow>
    midway run E (scan_entry d c check P name) st0 i es (scan d c check P es) st \<Longrightarrow>
    walk d c check run name accept i es st = (v, st') \<Longrightarrow>
    v = scan d c check P es \<and> sound run (insert (scan_entry d c check P name) E) st' \<and>
    extends (insert name (fst ` E)) st0 st'"
proof (induction es arbitrary: st v st' rule: length_induct)
  case (1 es)
  let ?t = "scan_entry d c check P name"
  have t: "fst ?t = name" "fst (snd ?t) = co_key c" "fst ?t \<notin> fst ` E"
    and V: "snd (snd ?t) e = scan d c check P (e # along d (co_dir c) e)" for e
    using name by (simp_all add: scan_entry_def)
  have IH: "v = scan d c check P ys \<and> sound run (insert ?t E) st' \<and> extends (insert name (fst ` E)) st0 st'"
    if "length ys < length es" "consecutive d (co_dir c) ys" "distinct ys"
      "midway run E ?t st0 i ys (scan d c check P ys) u" "walk d c check run name accept i ys u = (v, st')" for ys u
    using 1(1) that by blast
  note ends = midway_ends [OF _ t(3)]
  show ?case
  proof (cases es)
    case Nil
    then have mid: "midway run E ?t st0 i es False st" and r: "v = False" "st' = st"
      using 1(4,5) by simp_all
    then show ?thesis using ends [OF mid] midway_false [OF mid] t(1) Nil by simp
  next
    case (Cons e xs)
    have xs: "xs = along d (co_dir c) e" "consecutive d (co_dir c) xs" "distinct xs" "e \<notin> set xs"
      using 1(2,3) Cons consecutive_tl [of d "co_dir c" es] by (auto simp: consecutive_Cons)
    have mid: "midway run E ?t st0 i ys q st" if "q = scan d c check P es" "set ys \<subseteq> set es" for ys q
      using 1(4) that midway_shrink by blast
    consider "\<not> (is_element d e \<or> check)" | "is_element d e \<or> check" "skipped d c e"
      | "is_element d e \<or> check" "\<not> skipped d c e" by blast
    then show ?thesis
    proof cases
      case a: 1
      then have "scan d c check P es = scan d c check P xs" "walk d c check run name accept i xs st = (v, st')"
        using 1(5) Cons by simp_all
      then show ?thesis using IH [OF _ xs(2,3) mid] Cons by auto
    next
      case a: 2
      have tl: "consecutive d (co_dir c) (tl xs)" "distinct (tl xs)" "set (tl xs) \<subseteq> set es"
        using xs(2,3) consecutive_tl distinct_tl Cons by (auto, cases xs) auto
      have "scan d c check P es = scan d c check P (tl xs)" "walk d c check run name accept i (tl xs) st = (v, st')"
        using a 1(5) Cons by simp_all
      then show ?thesis using IH [OF _ tl(1,2) mid [OF _ tl(3)]] Cons by auto
    next
      case a: 3
      then have sc: "scan d c check P es = (P e \<or> scan d c check P xs)" using Cons by simp
      show ?thesis
      proof (cases "old_verdict run name e (co_key c) st")
        case (Some w)
        then obtain j where j: "ca_slots st e (co_key c) = Some j" "ca_cells st ! j = (run, fst ?t, w)"
          using t(1) by (auto simp: old_verdict_def split: option.splits prod.splits if_splits)
        have "j \<noteq> i" "w = snd (snd ?t) e"
          using waitsD [OF midwayD(6) [OF 1(4)] j] Cons by (auto split: if_splits)
        then have w: "w = scan d c check P es" using V [of e] xs(1) Cons by simp
        have "walk d c check run name accept i (e # xs) st = (w, set_verdict i w st)" using a Some by simp
        then have "(v, st') = (w, set_verdict i w st)" using 1(5) unfolding Cons by (metis (no_types))
        then have vw: "v = w" "st' = set_verdict i w st" by blast+
        show ?thesis unfolding vw using w ends [OF mid [OF w subset_refl]] unfolding t(1) by blast
      next
        case None
        obtain w st2 where w: "accept e (set_slot e (co_key c) i st) = (w, st2)" by force
        have "set xs \<subseteq> set es" "snd (snd ?t) e = scan d c check P es"
          using Cons V [of e] by (auto simp only: set_simps xs(1) [symmetric])
        then have slot: "midway run E ?t st0 i xs (scan d c check P es) (set_slot e (co_key c) i st)"
          using midway_slot [OF mid [OF refl] t(3) xs(4)] unfolding t(2) by blast
        note dec = decidesD [OF accept midwayD(1) [OF slot] w]
        have mid2: "midway run E ?t st0 i xs (scan d c check P es) st2"
          using midway_extends [OF slot t(3) dec(3,2)] .
        show ?thesis
        proof (cases w)
          case True
          then have "v = True" "st' = set_verdict i True st2" using 1(5) Cons a None w by simp_all
          moreover have "scan d c check P es = True" using sc dec(1) True by simp
          ultimately show ?thesis using ends [OF mid2] t(1) by simp
        next
          case False
          then have "walk d c check run name accept i xs (set_verdict i False st2) = (v, st')"
            using 1(5) Cons a None w by simp
          moreover have "scan d c check P es = scan d c check P xs" using sc dec(1) False by simp
          ultimately show ?thesis using IH [OF _ xs(2,3)] mid2 midway_false [OF mid2] Cons by simp
        qed
      qed
    qed
  qed
qed


section \<open>Putting deciders together\<close>

lemma decidesI:
  assumes "\<And>e st v st'. sound run E st \<Longrightarrow> m e st = (v, st') \<Longrightarrow>
    v = P e \<and> sound run E st' \<and> extends (fst ` E) st st'"
  shows "decides run E P m"
  unfolding decides_def using assms by (metis prod.collapse)

lemma decides_more:
  assumes "decides run E P m" "fst ` F \<inter> fst ` E = {}"
  shows "decides run (E \<union> F) P m"
proof (rule decidesI)
  fix e st v st'
  assume st: "sound run (E \<union> F) st" "m e st = (v, st')"
  then have E: "sound run E st" and F: "sound run F st" by (simp_all add: sound_Un)
  note d = decidesD [OF assms(1) E st(2)]
  show "v = P e \<and> sound run (E \<union> F) st' \<and> extends (fst ` (E \<union> F)) st st'"
    using d sound_extends [OF d(3) F assms(2)] extends_mono [OF d(3), of "fst ` (E \<union> F)"]
    by (simp add: sound_Un image_Un)
qed

lemma decides_and:
  assumes "decides run E P m" "decides run E Q n"
  shows "decides run E (\<lambda>e. P e \<and> Q e) (\<lambda>e st. case m e st of (v, st1) \<Rightarrow> if v then n e st1 else (False, st1))"
proof (rule decidesI)
  fix e st v st'
  assume st: "sound run E st" "(case m e st of (v, st1) \<Rightarrow> if v then n e st1 else (False, st1)) = (v, st')"
  obtain w st1 where w: "m e st = (w, st1)" by force
  note d = decidesD [OF assms(1) st(1) w]
  show "v = (P e \<and> Q e) \<and> sound run E st' \<and> extends (fst ` E) st st'"
  proof (cases w)
    case True
    then have "n e st1 = (v, st')" using st(2) w by simp
    note f = decidesD [OF assms(2) d(2) this]
    show ?thesis using d f True extends_trans [OF d(3) f(3)] by simp
  qed (use d st(2) w in auto)
qed

lemma decides_or:
  assumes "decides run E P m" "decides run E Q n"
  shows "decides run E (\<lambda>e. P e \<or> Q e) (\<lambda>e st. case m e st of (v, st1) \<Rightarrow> if v then (True, st1) else n e st1)"
proof (rule decidesI)
  fix e st v st'
  assume st: "sound run E st" "(case m e st of (v, st1) \<Rightarrow> if v then (True, st1) else n e st1) = (v, st')"
  obtain w st1 where w: "m e st = (w, st1)" by force
  note d = decidesD [OF assms(1) st(1) w]
  show "v = (P e \<or> Q e) \<and> sound run E st' \<and> extends (fst ` E) st st'"
  proof (cases w)
    case False
    then have "n e st1 = (v, st')" using st(2) w by simp
    note f = decidesD [OF assms(2) d(2) this]
    show ?thesis using d f False extends_trans [OF d(3) f(3)] by simp
  qed (use d st(2) w in auto)
qed

lemma decides_pure [simp]: "decides run E P (\<lambda>e st. (P e, st))"
  by (simp add: decides_def)

lemma walk_first_sound:
  assumes "decides run E P accept"
  shows "sound run E st \<Longrightarrow> walk_first d check accept es st = (v, st') \<Longrightarrow>
    v = first_of d check P es \<and> sound run E st' \<and> extends (fst ` E) st st'"
  by (induction es) (auto simp: first_of_def split: if_splits dest: decidesD [OF assms])

lemma walk_xml_sound:
  assumes "decides run E P accept"
  shows "sound run E st \<Longrightarrow> walk_xml d check accept es st = (v, st') \<Longrightarrow>
    v = (\<exists>x \<in> set es. (is_element d x \<or> check) \<and> P x) \<and> sound run E st' \<and> extends (fst ` E) st st'"
proof (induction es arbitrary: st)
  case (Cons e es)
  show ?case
  proof (cases "is_element d e \<or> check")
    case True
    obtain w st1 where w: "accept e st = (w, st1)" by force
    note dec = decidesD [OF assms Cons.prems(1) w]
    show ?thesis using Cons.IH [OF dec(2)] Cons.prems(2) True w dec extends_trans [OF dec(3)] by (cases w) auto
  next
    case False
    then show ?thesis using Cons by auto
  qed
qed auto

lemma distinct_along: "distinct (along d w p)"
proof -
  have "distinct es" if "consecutive d w es" "length es = n" for es n
    using that
  proof (induction n arbitrary: es)
    case (Suc n)
    then obtain x xs where "es = x # xs" by (cases es) auto
    then show ?case using Suc consecutive_tl [OF Suc.prems(1)] along_not_self [of x d w] by (auto simp: consecutive_Cons)
  qed simp
  then show ?thesis using consecutive_along by blast
qed

text \<open>\<open>addCombinator\<close> decides the relation, whatever the cache holds.\<close>

lemma combinator_decides:
  assumes accept: "decides run E P accept" and name: "name \<notin> fst ` E"
  shows "decides run (insert (scan_entry d c (checks_all c base) P name) E)
    (related d xml c base P) (addCombinator d xml run c base name accept)"
proof (rule decidesI)
  let ?check = "checks_all c base"
  let ?t = "scan_entry d c ?check P name"
  fix e st v st'
  let ?es = "along d (co_dir c) e"
  assume st: "sound run (insert ?t E) st" "addCombinator d xml run c base name accept e st = (v, st')"
  have t: "fst ?t = name" by (simp add: scan_entry_def)
  have E: "sound run E st" "sound_entry run ?t st" using st(1) by (simp_all add: sound_insert)
  have keep: "sound run (insert ?t E) u \<and> extends (fst ` insert ?t E) st u"
    if "sound run E u" "extends (fst ` E) st u" for u
  proof
    have "bounded st" using E(1) by (simp add: sound_def)
    then show "sound run (insert ?t E) u"
      using that(1) sound_entry_extends [OF that(2) _ E(2)] name by (simp add: sound_insert t)
    show "extends (fst ` insert ?t E) st u"
      using that(2) by (rule extends_mono) (simp add: image_insert subset_insertI)
  qed
  show "v = related d xml c base P e \<and> sound run (insert ?t E) st' \<and> extends (fst ` insert ?t E) st st'"
  proof (cases "co_first c \<or> xml")
    case True
    have "v = related d xml c base P e \<and> sound run E st' \<and> extends (fst ` E) st st'"
    proof (cases "co_first c")
      case True
      then have "walk_first d ?check accept ?es st = (v, st')"
        using st(2) by (simp add: addCombinator_def checks_all_def Let_def)
      from walk_first_sound [OF accept E(1) this] True show ?thesis by (simp add: related_def)
    next
      case False
      then have "walk_xml d ?check accept ?es st = (v, st')"
        using st(2) \<open>co_first c \<or> xml\<close> by (simp add: addCombinator_def checks_all_def Let_def)
      from walk_xml_sound [OF accept E(1) this] False \<open>co_first c \<or> xml\<close> show ?thesis by (simp add: related_def)
    qed
    with keep show ?thesis by blast
  next
    case False
    let ?st = "st\<lparr>ca_cells := ca_cells st @ [(run, name, False)]\<rparr>"
    let ?i = "length (ca_cells st)"
    have old: "ca_slots st x k = Some j \<Longrightarrow> j < ?i" for x k j using E(1) by (simp add: sound_def bounded_def)
    have w: "walk d c ?check run name accept ?i ?es ?st = (v, st')"
      using st(2) False by (simp add: addCombinator_def checks_all_def Let_def)
    have ext: "extends {name} st ?st" by (simp add: extends_def)
    have "sound run E ?st" by (rule sound_extends [OF ext E(1)]) (use name in auto)
    moreover have "waits run ?t ?i ?es (scan d c ?check P ?es) ?st"
      unfolding waits_def
    proof (intro allI impI)
      fix x k j w
      assume *: "ca_slots ?st x k = Some j \<and> ca_cells ?st ! j = (run, fst ?t, w)"
      then have "j < ?i" using old [of x k j] by simp
      then show "k = fst (snd ?t) \<and>
          (if j = ?i then x \<notin> set ?es \<and> snd (snd ?t) x = scan d c ?check P ?es else w = snd (snd ?t) x)"
        using * E(2) unfolding sound_entry_def by (simp add: nth_append)
    qed
    ultimately have "midway run E ?t st ?i ?es (scan d c ?check P ?es) ?st"
      using extends_mono [OF ext, of "insert name (fst ` E)"] t by (simp add: midway_def)
    from walk_sound [OF accept name consecutive_along distinct_along this w]
    show ?thesis using False t by (simp add: related_def)
  qed
qed

section \<open>Matchers\<close>

fun meaning :: "'f setting \<Rightarrow> 'f compiled \<Rightarrow> place \<Rightarrow> bool" where
  "meaning s (Filter f) e = se_filter s f e"
| "meaning s (ElementMatcher ms) e = (\<forall>m \<in> set ms. meaning s m e)"
| "meaning s (Combined r name m) e =
     related (se_dom s) (se_xml s) (relative_combinator r) False (meaning s m) e"
| "meaning s (Foundation lead r n m) e =
     (\<not> lead \<and> (se_xml s \<or> \<not> is_outermost (se_outermost s) (se_context s)) \<or>
      related (se_dom s) (se_xml s) (relative_combinator r) True (in_context (se_context s)) e)"

fun entries :: "'f setting \<Rightarrow> 'f compiled \<Rightarrow> entry list" where
  "entries s (Filter f) = []"
| "entries s (ElementMatcher ms) = concat (map (entries s) ms)"
| "entries s (Combined r name m) =
     scan_entry (se_dom s) (relative_combinator r) (checks_all (relative_combinator r) False) (meaning s m) name #
     entries s m"
| "entries s (Foundation lead r n m) =
     [scan_entry (se_dom s) (relative_combinator r) (checks_all (relative_combinator r) True)
        (in_context (se_context s)) (context_name (se_context s) n m)]"

lemma disjoint_names: "distinct (map fst (xs @ ys)) \<Longrightarrow> fst ` set xs \<inter> fst ` set ys = {}"
  by auto

lemma eval_list_decides:
  assumes "\<And>m. m \<in> set ms \<Longrightarrow> distinct (map fst (entries s m)) \<Longrightarrow>
      decides (se_run s) (set (entries s m)) (meaning s m) (eval s m)"
    and "distinct (map fst (concat (map (entries s) ms)))"
  shows "decides (se_run s) (set (concat (map (entries s) ms))) (\<lambda>e. \<forall>m \<in> set ms. meaning s m e) (eval_list s ms)"
  using assms
proof (induction ms)
  case Nil
  have "eval_list s [] = (\<lambda>e st. (True, st))" by (intro ext) simp
  then show ?case by simp
next
  case (Cons m ms)
  let ?E = "set (entries s m)" and ?F = "set (concat (map (entries s) ms))"
  have dis: "fst ` ?E \<inter> fst ` ?F = {}" "distinct (map fst (entries s m))"
    "distinct (map fst (concat (map (entries s) ms)))"
    using Cons.prems(2) by auto
  have "decides (se_run s) ?E (meaning s m) (eval s m)" using Cons.prems(1) dis(2) by simp
  from decides_more [OF this, of ?F] dis(1)
  have m: "decides (se_run s) (?F \<union> ?E) (meaning s m) (eval s m)" by (simp add: Un_commute Int_commute)
  have "decides (se_run s) ?F (\<lambda>e. \<forall>m \<in> set ms. meaning s m e) (eval_list s ms)"
    using Cons.IH Cons.prems(1) dis(3) by simp
  from decides_more [OF this, of ?E] dis(1)
  have ms: "decides (se_run s) (?F \<union> ?E) (\<lambda>e. \<forall>m \<in> set ms. meaning s m e) (eval_list s ms)" by simp
  have "eval_list s (m # ms) =
      (\<lambda>e st. case eval_list s ms e st of (v, st1) \<Rightarrow> if v then eval s m e st1 else (False, st1))"
    by (intro ext) simp
  moreover have "(\<lambda>e. \<forall>k \<in> set (m # ms). meaning s k e) = (\<lambda>e. (\<forall>k \<in> set ms. meaning s k e) \<and> meaning s m e)"
    by (intro ext) auto
  moreover have "set (concat (map (entries s) (m # ms))) = ?F \<union> ?E" by auto
  ultimately show ?case using decides_and [OF ms m] by (simp only:)
qed

text \<open>A compiled matcher means the same with the cache as without it.\<close>

theorem eval_decides:
  "distinct (map fst (entries s m)) \<Longrightarrow> decides (se_run s) (set (entries s m)) (meaning s m) (eval s m)"
proof (induction m)
  case (Filter f)
  have "eval s (Filter f) = (\<lambda>e st. (meaning s (Filter f) e, st))" by (intro ext) simp
  then show ?case by simp
next
  case (ElementMatcher ms)
  have "eval s (ElementMatcher ms) = eval_list s ms" by (intro ext) simp
  moreover have "meaning s (ElementMatcher ms) = (\<lambda>e. \<forall>m \<in> set ms. meaning s m e)" by (intro ext) simp
  ultimately show ?case using ElementMatcher eval_list_decides [of ms s] by simp
next
  case (Combined r name m)
  have "eval s (Combined r name m) =
      addCombinator (se_dom s) (se_xml s) (se_run s) (relative_combinator r) False name (eval s m)"
    by (intro ext) simp
  moreover have "meaning s (Combined r name m) =
      related (se_dom s) (se_xml s) (relative_combinator r) False (meaning s m)"
    by (intro ext) simp
  moreover have "decides (se_run s) (set (entries s m)) (meaning s m) (eval s m)" "name \<notin> fst ` set (entries s m)"
    using Combined by (simp_all add: scan_entry_def)
  ultimately show ?case using combinator_decides by simp
next
  case (Foundation lead r n k)
  let ?skip = "\<not> lead \<and> (se_xml s \<or> \<not> is_outermost (se_outermost s) (se_context s))"
  let ?comb = "addCombinator (se_dom s) (se_xml s) (se_run s) (relative_combinator r) True
    (context_name (se_context s) n k) (\<lambda>x u. (in_context (se_context s) x, u))"
  have c: "decides (se_run s) (set (entries s (Foundation lead r n k)))
      (related (se_dom s) (se_xml s) (relative_combinator r) True (in_context (se_context s))) ?comb"
    using combinator_decides [OF decides_pure, of _ "{}"] by simp
  show ?case
  proof (cases ?skip)
    case True
    then have "eval s (Foundation lead r n k) = (\<lambda>e st. (meaning s (Foundation lead r n k) e, st))"
      by (intro ext) simp
    then show ?thesis by simp
  next
    case False
    then have "eval s (Foundation lead r n k) e st = ?comb e st" for e st by auto
    then have "eval s (Foundation lead r n k) = ?comb" by (intro ext)
    moreover have "meaning s (Foundation lead r n k) =
        related (se_dom s) (se_xml s) (relative_combinator r) True (in_context (se_context s))"
      using False by (intro ext) auto
    ultimately show ?thesis using c by simp
  qed
qed

end
