(* ===== verification/Sz_Select.thy ===== *)
theory Sz_Select
  imports Sz_Cache
begin

text \<open>
  Selection in docs/_static/jquery-3.5.1.js (Sizzle): \<open>select\<close> with its shortcuts (an ID at the start
  gives a smaller context, the last compound selector gives a seed), and the meaning of a
  selector as CSS defines it: a set of elements built from left to right. The functions of
  \<open>Expr.find\<close> and the two tests on the text of a selector are part of the engine. The lemmas show
  that compiled matchers mean what CSS says and that a run filters by their meaning.
\<close>

section \<open>The meaning of a selector\<close>

definition earlier_sibling :: "place \<Rightarrow> place \<Rightarrow> bool" where
  "earlier_sibling x e \<longleftrightarrow> (\<exists>i j p. x = i # p \<and> e = j # p \<and> i < j \<and> p \<noteq> [])"

fun rel_holds :: "dom \<Rightarrow> relative \<Rightarrow> place \<Rightarrow> place \<Rightarrow> bool" where
  "rel_holds d Child x e \<longleftrightarrow> parentNode e = Some x"
| "rel_holds d Descendant x e \<longleftrightarrow> inside x e"
| "rel_holds d Adjacent x e \<longleftrightarrow>
     earlier_sibling x e \<and> (\<forall>y. earlier_sibling x y \<and> earlier_sibling y e \<longrightarrow> \<not> is_element d y)"
| "rel_holds d Sibling x e \<longleftrightarrow> earlier_sibling x e"

fun css :: "dom \<Rightarrow> ('f \<Rightarrow> place \<Rightarrow> bool) \<Rightarrow> 'f token list \<Rightarrow> place set \<Rightarrow> place set" where
  "css d filt [] S = S"
| "css d filt (Test f # ts) S = css d filt ts {e \<in> S. filt f e}"
| "css d filt (Relative r # ts) S = css d filt ts {e. \<exists>x \<in> S. is_element d x \<and> rel_holds d r x e}"

section \<open>select\<close>

text \<open>\<open>en_find f\<close> is \<open>Expr.find\<close> of the filter's type applied to its argument, \<open>None\<close> when there is no
  such function or it returns \<open>undefined\<close>; \<open>en_needs\<close> is the test of \<open>needsContext\<close>, \<open>en_sibling\<close> that
  of \<open>rsibling\<close> on the text of the tokens.\<close>

record 'f engine =
  en_dom :: dom
  en_filter :: "'f \<Rightarrow> place \<Rightarrow> bool"
  en_find :: "'f \<Rightarrow> place \<Rightarrow> place list option"
  en_is_id :: "'f \<Rightarrow> bool"
  en_html :: bool
  en_needs :: "'f token list \<Rightarrow> bool"
  en_sibling :: "'f token list \<Rightarrow> bool"

definition testContext :: "dom \<Rightarrow> place option \<Rightarrow> place option" where
  "testContext d p =
     (case p of None \<Rightarrow> None | Some q \<Rightarrow> if nodeType d q = 1 \<or> nodeType d q = 9 then Some q else None)"

definition expand_context :: "dom \<Rightarrow> bool \<Rightarrow> place \<Rightarrow> place" where
  "expand_context d sibling context =
     (if sibling then (case testContext d (parentNode context) of Some p \<Rightarrow> p | None \<Rightarrow> context) else context)"

text \<open>The loop over the tokens from the last one, given in reverse, up to a combinator; the result is
  the remaining tokens and the seed.\<close>

fun find_seed :: "'f engine \<Rightarrow> place \<Rightarrow> 'f token list \<Rightarrow> 'f token list \<Rightarrow> ('f token list \<times> place list) option" where
  "find_seed en context [] after = None"
| "find_seed en context (Relative r # ts) after = None"
| "find_seed en context (Test f # ts) after =
     (case en_find en f context of
        Some seed \<Rightarrow> Some (rev ts @ after, seed)
      | None \<Rightarrow> find_seed en context ts (Test f # after))"

definition run_setting :: "'f engine \<Rightarrow> nat \<Rightarrow> place \<Rightarrow> 'f setting" where
  "run_setting en run context =
     \<lparr>se_dom = en_dom en, se_filter = en_filter en, se_context = OneContext context,
      se_outermost = (if context = the_document then None else Some context),
      se_xml = \<not> en_html en, se_run = run\<rparr>"

text \<open>\<open>compile( selector, match )( seed, context, xml, results, outermost )\<close>, with no results before.\<close>

definition run_compiled :: "'f engine \<Rightarrow> nat \<Rightarrow> nat \<Rightarrow> match_cache \<Rightarrow> 'f token list list \<Rightarrow> place list option \<Rightarrow>
    place \<Rightarrow> place \<Rightarrow> place list" where
  "run_compiled en run n st groups seed context outermost =
     (let elems = (case seed of Some es \<Rightarrow> es | None \<Rightarrow> elements_below (en_dom en) outermost)
      in fst (superMatcher (run_setting en run context) (fst (compile_groups groups n)) elems st))"

definition select_one :: "'f engine \<Rightarrow> nat \<Rightarrow> nat \<Rightarrow> match_cache \<Rightarrow> 'f token list \<Rightarrow> place \<Rightarrow> place list" where
  "select_one en run n st tokens context =
     (let lead = (leading_relative tokens = Some Adjacent \<or> leading_relative tokens = Some Sibling);
          found = (if en_needs en tokens then None
                   else find_seed en (expand_context (en_dom en) lead context) (rev tokens) [])
      in case found of
           None \<Rightarrow>
             run_compiled en run n st [tokens] None context
               (expand_context (en_dom en) (en_sibling en tokens) context)
         | Some (rest, seed) \<Rightarrow>
             if seed = [] \<or> rest = [] then seed
             else run_compiled en run n st [rest] (Some seed) context
                    (expand_context (en_dom en) (en_sibling en rest) context))"

definition select :: "'f engine \<Rightarrow> nat \<Rightarrow> nat \<Rightarrow> match_cache \<Rightarrow> 'f token list list \<Rightarrow> place \<Rightarrow> place list" where
  "select en run n st groups context =
     (case groups of
        [tokens] \<Rightarrow>
          (case tokens of
             Test f # Relative r # t # ts \<Rightarrow>
               if en_is_id en f \<and> nodeType (en_dom en) context = 9 \<and> en_html en then
                 (case en_find en f context of
                    Some (x # xs) \<Rightarrow> select_one en run n st (Relative r # t # ts) x
                  | _ \<Rightarrow> [])
               else select_one en run n st tokens context
           | _ \<Rightarrow> select_one en run n st tokens context)
      | _ \<Rightarrow>
          run_compiled en run n st groups None context
            (expand_context (en_dom en) (list_ex (en_sibling en) groups) context))"

section \<open>Matchers mean what CSS says\<close>

lemma first_of_Cons:
  "first_of d check P (x # xs) = (if is_element d x \<or> check then P x else first_of d check P xs)"
  by (simp add: first_of_def)

lemma first_below:
  "first_of d False P (map f (rev [0..<j])) \<longleftrightarrow>
     (\<exists>i<j. is_element d (f i) \<and> P (f i) \<and> (\<forall>u. i < u \<and> u < j \<longrightarrow> \<not> is_element d (f u)))"
proof (induction j)
  case 0
  then show ?case by (simp add: first_of_def)
next
  case (Suc j)
  show ?case
  proof (cases "is_element d (f j)")
    case True
    then show ?thesis by (auto simp: first_of_Cons less_Suc_eq)
  next
    case False
    then have "first_of d False P (map f (rev [0..<Suc j])) = first_of d False P (map f (rev [0..<j]))"
      by (simp add: first_of_Cons)
    moreover have "(i < u \<and> u < Suc j \<longrightarrow> \<not> is_element d (f u)) \<longleftrightarrow> (i < u \<and> u < j \<longrightarrow> \<not> is_element d (f u))" for i u
      using False by (cases "u = j") auto
    ultimately show ?thesis unfolding Suc using False by (metis less_SucI not_less_less_Suc_eq)
  qed
qed

lemma scan_exists:
  "co_next c = None \<Longrightarrow> scan d c check P es \<longleftrightarrow> (\<exists>e \<in> set es. (is_element d e \<or> check) \<and> P e)"
  by (induction es) (auto simp: skipped_def)

lemma related_descendant:
  "related d xml (relative_combinator Descendant) base P e \<longleftrightarrow>
     (\<exists>x. inside x e \<and> (is_element d x \<or> base) \<and> P x)"
  by (auto simp: related_def scan_exists checks_all_def co_key_def inside_def Let_def)

lemma earlier_siblings: "x \<in> set (along d PreviousSibling e) \<longleftrightarrow> earlier_sibling x e"
  by (cases e rule: parents_of.cases) (auto simp: earlier_sibling_def)

lemma related_sibling:
  "related d xml (relative_combinator Sibling) base P e \<longleftrightarrow>
     (\<exists>x. earlier_sibling x e \<and> is_element d x \<and> P x)"
  by (auto simp: related_def scan_exists checks_all_def co_key_def Let_def earlier_siblings simp del: along.simps)

text \<open>In a well-formed document the first element above a node is its parent, or there is none.\<close>

lemma related_child:
  assumes "well_formed d" "is_node d e"
  shows "related d xml (relative_combinator Child) False P e \<longleftrightarrow>
    (\<exists>x. parentNode e = Some x \<and> is_element d x \<and> P x)"
proof (cases "parentNode e")
  case None
  then have "along d ParentNode e = []" by (subst along_moves) simp
  then show ?thesis using None by (simp add: related_def first_of_def)
next
  case (Some x)
  then have up: "along d ParentNode e = x # along d ParentNode x" by (subst along_moves) simp
  obtain i where e: "e = i # x" "x \<noteq> []" using Some by (auto simp: parentNode_def split: list.splits)
  have "along d ParentNode x = []" if "\<not> is_element d x"
  proof -
    have "parentNode x = None" using that assms e unfolding well_formed_def by blast
    then show ?thesis by (subst along_moves) simp
  qed
  then show ?thesis using Some up
    by (auto simp: related_def first_of_def checks_all_def Let_def simp del: along.simps)
qed

lemma related_child_base:
  "related d xml (relative_combinator Child) True P e \<longleftrightarrow> (\<exists>x. parentNode e = Some x \<and> P x)"
  by (subst related_def, subst along_moves)
    (auto simp: first_of_def checks_all_def co_key_def split: option.splits)

lemma related_adjacent:
  "related d xml (relative_combinator Adjacent) base P e \<longleftrightarrow>
     (\<exists>x. rel_holds d Adjacent x e \<and> is_element d x \<and> P x)"
proof (cases e rule: parents_of.cases)
  case (3 j k q)
  let ?f = "\<lambda>i. i # k # q"
  have "related d xml (relative_combinator Adjacent) base P e \<longleftrightarrow>
      first_of d False P (map ?f (rev [0..<j]))"
    using 3 by (simp add: related_def checks_all_def co_key_def)
  also have "\<dots> \<longleftrightarrow> (\<exists>x. rel_holds d Adjacent x e \<and> is_element d x \<and> P x)"
    unfolding first_below using 3 by (auto simp: earlier_sibling_def)
  finally show ?thesis .
qed (auto simp: related_def first_of_def earlier_sibling_def Let_def)

lemma related_holds:
  assumes "well_formed d" "is_node d e"
  shows "related d xml (relative_combinator r) False P e \<longleftrightarrow> (\<exists>x. is_element d x \<and> rel_holds d r x e \<and> P x)"
  using related_child [OF assms] related_descendant [of d xml False] related_adjacent related_sibling
  by (cases r) (auto simp del: relative_combinator.simps)


lemma is_element_node: "is_element d x \<Longrightarrow> is_node d x"
  by (auto simp: is_element_def node_at_def is_node_def no_node_def split: list.splits if_splits)

lemma meaning_elementMatcher:
  "ms \<noteq> [] \<Longrightarrow> meaning s (elementMatcher ms) e \<longleftrightarrow> (\<forall>m \<in> set ms. meaning s m e)"
  by (cases ms rule: remdups_adj.cases) (auto simp: elementMatcher_def)

lemma loop_css:
  assumes "well_formed (se_dom s)" "ms \<noteq> []" "matcher_loop ts ms n = (ms', k)"
    and "\<And>e. is_node (se_dom s) e \<Longrightarrow> e \<in> S \<longleftrightarrow> (\<forall>m \<in> set ms. meaning s m e)"
    and "is_node (se_dom s) e"
  shows "ms' \<noteq> [] \<and> (e \<in> css (se_dom s) (se_filter s) ts S \<longleftrightarrow> (\<forall>m \<in> set ms'. meaning s m e))"
  using assms(2-5)
proof (induction ts ms n arbitrary: S rule: matcher_loop.induct)
  case (2 r ts ms n)
  let ?S = "{e. \<exists>x \<in> S. is_element (se_dom s) x \<and> rel_holds (se_dom s) r x e}"
  have "e \<in> ?S \<longleftrightarrow> (\<forall>m \<in> set [Combined r n (elementMatcher ms)]. meaning s m e)" if "is_node (se_dom s) e" for e
    using related_holds [OF assms(1) that, of "se_xml s" r "meaning s (elementMatcher ms)"]
      meaning_elementMatcher [OF 2(2), of s] 2(4) is_element_node
    by (auto simp del: relative_combinator.simps rel_holds.simps)
  from 2(1) [OF _ _ this 2(5)] 2(3) show ?case by (simp del: rel_holds.simps)
next
  case (3 f ts ms n)
  have "e \<in> {e \<in> S. se_filter s f e} \<longleftrightarrow> (\<forall>m \<in> set (ms @ [Filter f]). meaning s m e)" if "is_node (se_dom s) e" for e
    using 3(4) [OF that] by auto
  from 3(1) [OF _ _ this 3(5)] 3(3) show ?case by simp
qed simp

section \<open>Names\<close>

text \<open>The combinators of compiled matchers have numbers of their own.\<close>

definition names :: "'f setting \<Rightarrow> 'f compiled list \<Rightarrow> nat list" where
  "names s ms = map fst (concat (map (entries s) ms))"

lemma names_simps [simp]:
  "names s [] = []" "names s (xs @ ys) = names s xs @ names s ys"
  "names s (m # ms) = map fst (entries s m) @ names s ms"
  by (simp_all add: names_def)

lemma entries_elementMatcher: "ms \<noteq> [] \<Longrightarrow> map fst (entries s (elementMatcher ms)) = names s ms"
  by (cases ms rule: remdups_adj.cases) (simp_all add: elementMatcher_def names_def)

lemma loop_names:
  "ms \<noteq> [] \<Longrightarrow> matcher_loop ts ms n = (ms', k) \<Longrightarrow> distinct (names s ms) \<Longrightarrow> set (names s ms) \<subseteq> {l..<n} \<Longrightarrow>
    l \<le> n \<Longrightarrow> ms' \<noteq> [] \<and> distinct (names s ms') \<and> set (names s ms') \<subseteq> {l..<k} \<and> n \<le> k"
proof (induction ts ms n arbitrary: ms' k rule: matcher_loop.induct)
  case (2 r ts ms n)
  then have "distinct (names s [Combined r n (elementMatcher ms)])"
    "set (names s [Combined r n (elementMatcher ms)]) \<subseteq> {l..<Suc n}"
    using entries_elementMatcher [OF 2(2), of s] by (auto simp: scan_entry_def)
  with 2 show ?case by fastforce
qed auto

lemma tokens_names:
  assumes "matcherFromTokens ts n = (m, k)"
  shows "distinct (names s [m])" "set (names s [m]) \<subseteq> {n..<k}" "n \<le> k"
proof -
  let ?F = "Foundation (leading_relative ts \<noteq> None) (implicit_relative ts) n (n + 1)"
  obtain ms where ms: "matcher_loop (after_lead ts) [?F] (n + 2) = (ms, k)" "m = elementMatcher ms"
    using assms by (auto simp: matcherFromTokens_def split: prod.splits)
  have "distinct (names s [?F])" "set (names s [?F]) \<subseteq> {n..<n + 2}"
    by (cases "se_context s"; simp add: scan_entry_def)+
  from loop_names [OF _ ms(1) this] have "ms \<noteq> []" "distinct (names s ms)" "set (names s ms) \<subseteq> {n..<k}" "n + 2 \<le> k"
    by simp_all
  then show "distinct (names s [m])" "set (names s [m]) \<subseteq> {n..<k}" "n \<le> k"
    using entries_elementMatcher [of ms s] ms(2) by simp_all
qed

lemma group_names:
  "group_matchers tss n = (ms, k) \<Longrightarrow> distinct (names s ms) \<and> set (names s ms) \<subseteq> {n..<k} \<and> n \<le> k"
proof (induction tss arbitrary: n ms)
  case (Cons ts tss)
  obtain m l ms' where m: "matcherFromTokens ts n = (m, l)" "group_matchers tss l = (ms', k)" "ms = m # ms'"
    using Cons.prems by (auto split: prod.splits)
  have "distinct (map fst (entries s m))" "set (map fst (entries s m)) \<subseteq> {n..<l}" "n \<le> l"
    using tokens_names(1,2) [OF m(1), of s] tokens_names(3) [OF m(1)] by simp_all
  moreover have "distinct (names s ms')" "set (names s ms') \<subseteq> {l..<k}" "l \<le> k"
    using Cons.IH [OF m(2)] by blast+
  ultimately show ?case using m(3) by fastforce
qed simp

section \<open>Runs\<close>

lemma some_matcher_decides:
  assumes "distinct (names s ms)"
  shows "decides (se_run s) (set (concat (map (entries s) ms))) (\<lambda>e. \<exists>m \<in> set ms. meaning s m e) (some_matcher s ms)"
  using assms
proof (induction ms)
  case Nil
  have "some_matcher s [] = (\<lambda>e st. (False, st))" by (intro ext) simp
  then show ?case by simp
next
  case (Cons m ms)
  let ?E = "set (entries s m)" and ?F = "set (concat (map (entries s) ms))"
  have dis: "fst ` ?E \<inter> fst ` ?F = {}" "distinct (map fst (entries s m))" "distinct (names s ms)"
    using Cons.prems by (auto simp: names_def)
  from decides_more [OF eval_decides [OF dis(2)], of ?F] dis(1)
  have m: "decides (se_run s) (?E \<union> ?F) (meaning s m) (eval s m)" by (simp add: Int_commute)
  from decides_more [OF Cons.IH [OF dis(3)], of ?E] dis(1)
  have ms: "decides (se_run s) (?E \<union> ?F) (\<lambda>e. \<exists>m \<in> set ms. meaning s m e) (some_matcher s ms)"
    by (simp add: Un_commute)
  have "some_matcher s (m # ms) =
      (\<lambda>e st. case eval s m e st of (v, st1) \<Rightarrow> if v then (True, st1) else some_matcher s ms e st1)"
    by (intro ext) simp
  moreover have "(\<lambda>e. \<exists>k \<in> set (m # ms). meaning s k e) = (\<lambda>e. meaning s m e \<or> (\<exists>k \<in> set ms. meaning s k e))"
    by (intro ext) auto
  moreover have "set (concat (map (entries s) (m # ms))) = ?E \<union> ?F" by auto
  ultimately show ?case using decides_or [OF m ms] by (simp only:)
qed

lemma superMatcher_filters:
  assumes "distinct (names s ms)"
  shows "sound (se_run s) (set (concat (map (entries s) ms))) st \<Longrightarrow>
    fst (superMatcher s ms es st) = filter (\<lambda>e. \<exists>m \<in> set ms. meaning s m e) es"
proof (induction es arbitrary: st)
  case (Cons e es)
  obtain v st1 where r: "some_matcher s ms e st = (v, st1)" by force
  note d = decidesD [OF some_matcher_decides [OF assms] Cons.prems r]
  obtain xs st2 where x: "superMatcher s ms es st1 = (xs, st2)" by force
  then have "xs = filter (\<lambda>e. \<exists>m \<in> set ms. meaning s m e) es" using Cons.IH [OF d(2)] by simp
  then show ?case using r x d(1) by auto
qed simp

text \<open>A cache that holds nothing of the run is sound for it.\<close>

definition fresh_run :: "nat \<Rightarrow> match_cache \<Rightarrow> bool" where
  "fresh_run run st \<longleftrightarrow> bounded st \<and> (\<forall>(r, n, v) \<in> set (ca_cells st). r \<noteq> run)"

lemma fresh_sound: "fresh_run run st \<Longrightarrow> sound run E st"
proof -
  assume f: "fresh_run run st"
  have "ca_cells st ! i \<noteq> (run, n, v)" if "ca_slots st e k = Some i" for e k i n v
  proof -
    have "ca_cells st ! i \<in> set (ca_cells st)" using f that by (simp add: fresh_run_def bounded_def)
    then show ?thesis using f by (auto simp: fresh_run_def)
  qed
  then show ?thesis using f by (auto simp: fresh_run_def sound_def sound_entry_def)
qed

end
