(* ===== verification/Sz_Css.thy ===== *)
theory Sz_Css
  imports Sz_Select
begin

text \<open>
  \<open>select\<close> returns what CSS says: the elements that match one of the selectors, in document order.
  What the shortcuts need of the finders and of the tests on the text is the interface
  \<open>selection\<close>, which \<open>Sz_Filters\<close> provides.
\<close>

section \<open>select returns what CSS says\<close>

text \<open>The context: the document, or an element.\<close>

definition good_context :: "dom \<Rightarrow> place \<Rightarrow> bool" where
  "good_context d c \<longleftrightarrow> is_node d c \<and> well_formed d \<and> nodeType d the_document = 9 \<and>
     (c = the_document \<or> is_element d c) \<and>
     (\<forall>q. parentNode c = Some q \<longrightarrow> nodeType d q = 1 \<or> nodeType d q = 9)"

definition css_scope :: "dom \<Rightarrow> place \<Rightarrow> relative option \<Rightarrow> place set" where
  "css_scope d c lead = (case lead of None \<Rightarrow> {e. inside c e} | Some r \<Rightarrow> {e. rel_holds d r c e})"

definition css_matches :: "'f engine \<Rightarrow> 'f token list \<Rightarrow> place \<Rightarrow> place set" where
  "css_matches en ts c =
     {e. is_element (en_dom en) e \<and>
        e \<in> css (en_dom en) (en_filter en) (after_lead ts) (css_scope (en_dom en) c (leading_relative ts))}"

text \<open>The selected elements: in document order, each once.\<close>

definition selects :: "place list \<Rightarrow> place set \<Rightarrow> bool" where
  "selects xs S \<longleftrightarrow> sorted_wrt precedes xs \<and> set xs = S"

lemma no_relatives_of_document: "\<not> earlier_sibling the_document e" "\<not> earlier_sibling x the_document"
  by (auto simp: earlier_sibling_def the_document_def)

lemma css_subset: "S \<subseteq> S' \<Longrightarrow> css d filt ts S \<subseteq> css d filt ts S'"
proof (induction ts arbitrary: S S')
  case (Cons t ts)
  then show ?case
  proof (cases t)
    case (Relative r)
    show ?thesis unfolding Relative css.simps by (rule Cons.IH) (use Cons.prems in blast)
  next
    case (Test f)
    show ?thesis unfolding Test css.simps by (rule Cons.IH) (use Cons.prems in blast)
  qed
qed simp

lemma rel_inside:
  assumes "rel_holds d r x e" "inside c x"
  shows "inside c e"
proof -
  have sib: "inside c e" if "earlier_sibling x e"
  proof -
    obtain i j p where "x = i # p" "e = j # p" "p \<noteq> []" using \<open>earlier_sibling x e\<close> by (auto simp: earlier_sibling_def)
    then show ?thesis using assms(2) inside_parent [of c "i # p"] inside_parent [of c "j # p"] by simp
  qed
  show ?thesis
  proof (cases r)
    case Child
    then show ?thesis using assms inside_parent [of c e] by auto
  next
    case Descendant
    then show ?thesis using assms inside_trans by auto
  qed (use assms sib in auto)
qed

lemma css_inside: "S \<subseteq> {e. inside c e} \<Longrightarrow> css d filt ts S \<subseteq> {e. inside c e}"
proof (induction ts arbitrary: S)
  case (Cons t ts)
  show ?case
  proof (cases t)
    case (Relative r)
    show ?thesis unfolding Relative css.simps by (rule Cons.IH) (use Cons.prems rel_inside in blast)
  next
    case (Test f)
    show ?thesis unfolding Test css.simps by (rule Cons.IH) (use Cons.prems in blast)
  qed
qed simp

lemma css_append: "css d filt (ts @ us) S = css d filt us (css d filt ts S)"
proof (induction ts arbitrary: S)
  case (Cons t ts)
  then show ?case by (cases t) simp_all
qed simp

text \<open>Nothing outside the document tree matters for what is in it.\<close>

lemma css_local:
  assumes "\<And>e. is_element d e \<Longrightarrow> last e = 0 \<Longrightarrow> e \<in> S \<longleftrightarrow> e \<in> S'" "is_element d e" "last e = 0"
  shows "e \<in> css d filt ts S \<longleftrightarrow> e \<in> css d filt ts S'"
  using assms
proof (induction ts arbitrary: S S' e)
  case (Cons t ts)
  show ?case
  proof (cases t)
    case (Relative r)
    have "last x = 0" if "rel_holds d r x y" "last y = 0" for x y
      using that by (cases r) (auto simp: earlier_sibling_def parentNode_def inside_iff split: list.splits if_splits)
    then have "is_element d y \<Longrightarrow> last y = 0 \<Longrightarrow> y \<in> {e. \<exists>x\<in>S. is_element d x \<and> rel_holds d r x e} \<longleftrightarrow>
        y \<in> {e. \<exists>x\<in>S'. is_element d x \<and> rel_holds d r x e}" for y
      using Cons.prems(1) by blast
    from Cons.IH [OF this Cons.prems(2,3)] show ?thesis unfolding Relative css.simps .
  next
    case (Test f)
    have "is_element d y \<Longrightarrow> last y = 0 \<Longrightarrow> y \<in> {e \<in> S. filt f e} \<longleftrightarrow> y \<in> {e \<in> S'. filt f e}" for y
      using Cons.prems(1) by blast
    from Cons.IH [OF this Cons.prems(2,3)] show ?thesis unfolding Test css.simps .
  qed
qed simp

lemma inside_document: "inside the_document e \<longleftrightarrow> e \<noteq> [] \<and> e \<noteq> the_document \<and> last e = 0"
proof -
  have "\<exists>us. us \<noteq> [] \<and> e = us @ [0]" if "e \<noteq> []" "e \<noteq> [0]" "last e = 0"
    using that append_butlast_last_id [of e] by (metis append_Nil)
  then show ?thesis by (auto simp: inside_iff the_document_def)
qed

lemma element_not_document: "good_context d c \<Longrightarrow> is_element d e \<Longrightarrow> e \<noteq> the_document"
  by (auto simp: good_context_def is_element_def)

text \<open>What the foundational matcher accepts.\<close>

definition start :: "'f setting \<Rightarrow> 'f token list \<Rightarrow> place set" where
  "start s ts = {e. meaning s (Foundation (leading_relative ts \<noteq> None) (implicit_relative ts) 0 1) e}"

lemma tokens_css:
  assumes "well_formed (se_dom s)" "is_node (se_dom s) e"
  shows "meaning s (fst (matcherFromTokens ts n)) e \<longleftrightarrow>
    e \<in> css (se_dom s) (se_filter s) (after_lead ts) (start s ts)"
proof -
  obtain ms k where ms: "matcher_loop (after_lead ts)
      [Foundation (leading_relative ts \<noteq> None) (implicit_relative ts) n (n + 1)] (n + 2) = (ms, k)"
    by force
  have "e' \<in> start s ts \<longleftrightarrow>
      (\<forall>m \<in> set [Foundation (leading_relative ts \<noteq> None) (implicit_relative ts) n (n + 1)]. meaning s m e')" for e'
    by (simp add: start_def)
  from loop_css [OF assms(1) _ ms this assms(2)]
  have "ms \<noteq> []" "e \<in> css (se_dom s) (se_filter s) (after_lead ts) (start s ts) \<longleftrightarrow> (\<forall>m \<in> set ms. meaning s m e)"
    by simp_all
  then show ?thesis using meaning_elementMatcher [of ms s e] ms by (simp add: matcherFromTokens_def)
qed

lemma start_scope:
  assumes "good_context (en_dom en) c" "en_html en" "is_element (en_dom en) e" "c = the_document \<longrightarrow> last e = 0"
  shows "e \<in> start (run_setting en run c) ts \<longleftrightarrow> e \<in> css_scope (en_dom en) c (leading_relative ts)"
proof (cases "leading_relative ts")
  case None
  have one: "in_context (OneContext c) = (\<lambda>x. x = c)" by (intro ext) simp
  have "e \<noteq> []" using assms(3) by (auto simp: is_element_def node_at_def no_node_def)
  then have "c = the_document \<Longrightarrow> inside c e"
    using assms element_not_document by (auto simp: inside_document)
  then show ?thesis using None assms(2) related_descendant [of "en_dom en" False True "\<lambda>x. x = c" e]
    by (auto simp: start_def css_scope_def run_setting_def implicit_relative_def one simp del: relative_combinator.simps)
next
  case (Some r)
  have one: "in_context (OneContext c) = (\<lambda>x. x = c)" by (intro ext) simp
  have c: "c = the_document \<or> is_element (en_dom en) c" using assms(1) by (simp add: good_context_def)
  have "related (en_dom en) False (relative_combinator r) True (\<lambda>x. x = c) e \<longleftrightarrow> rel_holds (en_dom en) r c e"
  proof (cases r)
    case Child
    then show ?thesis using related_child_base [of "en_dom en" False "\<lambda>x. x = c" e] by simp
  next
    case Descendant
    then show ?thesis using related_descendant [of "en_dom en" False True "\<lambda>x. x = c" e] by simp
  next
    case Adjacent
    then show ?thesis using related_adjacent [of "en_dom en" False True "\<lambda>x. x = c" e] c no_relatives_of_document
      by auto
  next
    case Sibling
    then show ?thesis using related_sibling [of "en_dom en" False True "\<lambda>x. x = c" e] c no_relatives_of_document
      by auto
  qed
  then show ?thesis using Some assms(2)
    by (simp add: start_def css_scope_def run_setting_def implicit_relative_def one del: relative_combinator.simps)
qed

lemma tokens_match:
  assumes "good_context (en_dom en) c" "en_html en" "is_element (en_dom en) e" "c = the_document \<longrightarrow> last e = 0"
  shows "meaning (run_setting en run c) (fst (matcherFromTokens ts n)) e \<longleftrightarrow> e \<in> css_matches en ts c"
proof -
  let ?s = "run_setting en run c"
  have d: "se_dom ?s = en_dom en" "se_filter ?s = en_filter en" by (simp_all add: run_setting_def)
  have wf: "well_formed (en_dom en)" using assms(1) by (simp add: good_context_def)
  have "meaning ?s (fst (matcherFromTokens ts n)) e \<longleftrightarrow>
      e \<in> css (en_dom en) (en_filter en) (after_lead ts) (start ?s ts)"
    using tokens_css [of ?s e ts n] wf is_element_node [OF assms(3)] by (simp add: d)
  also have "\<dots> \<longleftrightarrow> e \<in> css (en_dom en) (en_filter en) (after_lead ts) (css_scope (en_dom en) c (leading_relative ts))"
  proof (cases "c = the_document")
    case True
    then show ?thesis using assms(4)
      by (intro css_local [OF start_scope [OF assms(1,2)] assms(3)]) auto
  next
    case False
    have same: "x \<in> css (en_dom en) (en_filter en) ts' S \<longleftrightarrow> x \<in> css (en_dom en) (en_filter en) ts' S'"
      if "\<And>y. is_element (en_dom en) y \<Longrightarrow> y \<in> S \<longleftrightarrow> y \<in> S'" "is_element (en_dom en) x" for ts' S S' x
      using that
    proof (induction ts' arbitrary: S S' x)
      case (Cons t ts')
      then show ?case
      proof (cases t)
        case (Relative r)
        have "{e. \<exists>x\<in>S. is_element (en_dom en) x \<and> rel_holds (en_dom en) r x e} =
            {e. \<exists>x\<in>S'. is_element (en_dom en) x \<and> rel_holds (en_dom en) r x e}"
          using Cons.prems(1) by blast
        then show ?thesis unfolding Relative css.simps by (simp only:)
      next
        case (Test f)
        show ?thesis unfolding Test css.simps by (rule Cons.IH) (use Cons.prems in auto)
      qed
    qed simp
    show ?thesis by (rule same [OF start_scope [OF assms(1,2)] assms(3)]) (use False in auto)
  qed
  finally show ?thesis using assms(3) by (simp add: css_matches_def)
qed

lemma groups_match:
  assumes "good_context (en_dom en) c" "en_html en" "is_element (en_dom en) e" "c = the_document \<longrightarrow> last e = 0"
  shows "(\<exists>m \<in> set (fst (group_matchers tss n)). meaning (run_setting en run c) m e) \<longleftrightarrow>
    (\<exists>ts \<in> set tss. e \<in> css_matches en ts c)"
proof (induction tss arbitrary: n)
  case (Cons ts tss)
  obtain m k where m: "matcherFromTokens ts n = (m, k)" by force
  obtain ms l where ms: "group_matchers tss k = (ms, l)" by force
  show ?case using tokens_match [OF assms, where ts = ts and n = n and run = run] Cons.IH [of k] m ms by simp
qed simp

section \<open>The interface of the finders\<close>

text \<open>A finder returns the elements in the context that pass the filter, in document order; the
  finder for IDs at most the first of them; this holds of the good filters of HTML documents. The
  tests on the text see a leading combinator.\<close>

locale selection =
  fixes en :: "'f engine" and good :: "'f \<Rightarrow> bool"
  assumes find_law: "en_html en \<Longrightarrow> good f \<Longrightarrow> good_context (en_dom en) c \<Longrightarrow> en_find en f c = Some xs \<Longrightarrow>
      xs = (let ys = filter (en_filter en f) (elements_below (en_dom en) c) in if en_is_id en f then take 1 ys else ys)"
    and id_law: "en_is_id en f \<Longrightarrow> en_html en \<Longrightarrow> good_context (en_dom en) the_document \<Longrightarrow>
      en_find en f the_document \<noteq> None"
    and needs_law: "leading_relative ts \<in> {Some Child, Some Adjacent, Some Sibling} \<Longrightarrow> en_needs en ts"
    and sibling_law: "leading_relative ts \<in> {Some Adjacent, Some Sibling} \<Longrightarrow> en_sibling en ts"
begin

text \<open>No two elements in the context have the ID of a filter.\<close>

definition unique_ids :: "place \<Rightarrow> bool" where
  "unique_ids c \<longleftrightarrow>
     (\<forall>f. en_is_id en f \<longrightarrow> length (filter (en_filter en f) (elements_below (en_dom en) c)) \<le> 1)"

lemma find_all:
  "en_html en \<Longrightarrow> good f \<Longrightarrow> good_context (en_dom en) c \<Longrightarrow> unique_ids c \<Longrightarrow> en_find en f c = Some xs \<Longrightarrow>
     xs = filter (en_filter en f) (elements_below (en_dom en) c)"
  using find_law [of f c xs] unfolding unique_ids_def by (simp add: Let_def split: if_splits)

lemma found_sorted:
  assumes "c \<noteq> []"
  shows "selects (filter (en_filter en f) (elements_below (en_dom en) c))
    {e. is_element (en_dom en) e \<and> inside c e \<and> en_filter en f e}"
  using assms is_element_node by (auto simp: selects_def elements_sorted sorted_wrt_filter set_elements_below)

lemma compiled_selects:
  assumes c: "good_context (en_dom en) c" and html: "en_html en" and fresh: "fresh_run run st"
    and es: "selects es S" "\<And>e. e \<in> S \<Longrightarrow> is_element (en_dom en) e \<and> (c = the_document \<longrightarrow> last e = 0)"
  shows "selects (fst (superMatcher (run_setting en run c) (fst (compile_groups groups n)) es st))
    {e \<in> S. \<exists>ts \<in> set groups. e \<in> css_matches en ts c}"
proof -
  let ?s = "run_setting en run c" and ?ms = "fst (compile_groups groups n)"
  have dist: "distinct (names ?s ?ms)"
    using group_names [of "rev groups" n "fst (group_matchers (rev groups) n)" _ ?s]
    by (metis compile_groups_def prod.collapse)
  have "fst (superMatcher ?s ?ms es st) = filter (\<lambda>e. \<exists>m \<in> set ?ms. meaning ?s m e) es"
    by (rule superMatcher_filters [OF dist]) (use fresh in \<open>simp add: fresh_sound run_setting_def\<close>)
  also have "\<dots> = filter (\<lambda>e. \<exists>ts \<in> set groups. e \<in> css_matches en ts c) es"
  proof (rule filter_cong [OF refl])
    fix e
    assume "e \<in> set es"
    then have "e \<in> S" using es(1) by (simp add: selects_def)
    then show "(\<exists>m \<in> set ?ms. meaning ?s m e) \<longleftrightarrow> (\<exists>ts \<in> set groups. e \<in> css_matches en ts c)"
      using groups_match [OF c html, of e "rev groups" n run] es(2) by (simp add: compile_groups_def)
  qed
  finally show ?thesis using es(1) by (auto simp: selects_def sorted_wrt_filter)
qed

lemma scope_inside_parent:
  assumes "leading_relative ts \<in> {Some Adjacent, Some Sibling}" "parentNode c = Some q"
  shows "css_matches en ts c \<subseteq> {e. inside q e}"
proof -
  have "css_scope (en_dom en) c (leading_relative ts) \<subseteq> {e. inside q e}"
  proof
    fix e
    assume "e \<in> css_scope (en_dom en) c (leading_relative ts)"
    then have "earlier_sibling c e" using assms(1) by (auto simp: css_scope_def)
    then obtain i j p where "c = i # p" "e = j # p" "p \<noteq> []" by (auto simp: earlier_sibling_def)
    then show "e \<in> {e. inside q e}" using assms(2) inside_parent [of q e] by simp
  qed
  from css_inside [OF this] show ?thesis by (auto simp: css_matches_def)
qed

lemma scope_inside:
  assumes "leading_relative ts \<notin> {Some Adjacent, Some Sibling}"
  shows "css_matches en ts c \<subseteq> {e. inside c e}"
proof -
  have "css_scope (en_dom en) c (leading_relative ts) \<subseteq> {e. inside c e}"
  proof (cases "leading_relative ts")
    case (Some r)
    moreover have "inside c e" if "parentNode e = Some c" for e using that inside_parent [of c e] by blast
    ultimately show ?thesis using assms by (cases r) (auto simp: css_scope_def)
  qed (simp add: css_scope_def)
  from css_inside [OF this] show ?thesis by (auto simp: css_matches_def)
qed

text \<open>Running all groups on the elements of the context, or of its parent when siblings matter.\<close>

lemma unseeded_selects:
  assumes c: "good_context (en_dom en) c" and html: "en_html en" and fresh: "fresh_run run st"
    and sib: "\<And>ts. ts \<in> set groups \<Longrightarrow> leading_relative ts \<in> {Some Adjacent, Some Sibling} \<Longrightarrow> sibling"
  shows "selects (run_compiled en run n st groups None c (expand_context (en_dom en) sibling c))
    (\<Union>ts \<in> set groups. css_matches en ts c)"
proof -
  let ?o = "expand_context (en_dom en) sibling c"
  have ne: "c \<noteq> []" using c by (cases c) (simp_all add: good_context_def is_node_def)
  have o: "?o = c \<or> parentNode c = Some ?o"
    by (auto simp: expand_context_def testContext_def split: option.splits if_splits)
  have root: "parentNode the_document = None" by (simp add: the_document_def parentNode_def)
  have "?o \<noteq> []" using o ne by (auto simp: parentNode_def split: list.splits)
  then have es: "selects (elements_below (en_dom en) ?o) {e. is_element (en_dom en) e \<and> inside ?o e}"
    using is_element_node by (auto simp: selects_def elements_sorted set_elements_below)
  have "selects (run_compiled en run n st groups None c ?o)
    {e \<in> {e. is_element (en_dom en) e \<and> inside ?o e}. \<exists>ts \<in> set groups. e \<in> css_matches en ts c}"
    unfolding run_compiled_def Let_def option.case
  proof (rule compiled_selects [OF c html fresh es])
    fix e
    assume e: "e \<in> {e. is_element (en_dom en) e \<and> inside ?o e}"
    have "last e = 0" if "c = the_document"
    proof -
      have "?o = the_document" using o root that by (metis option.distinct(1))
      then show ?thesis using e inside_document [of e] by simp
    qed
    then show "is_element (en_dom en) e \<and> (c = the_document \<longrightarrow> last e = 0)" using e by blast
  qed
  moreover have "e \<in> {e. is_element (en_dom en) e \<and> inside ?o e}"
    if ts: "ts \<in> set groups" and e: "e \<in> css_matches en ts c" for ts e
  proof (cases "leading_relative ts \<in> {Some Adjacent, Some Sibling}")
    case True
    then have sibling: sibling using sib ts by blast
    show ?thesis
    proof (cases "parentNode c")
      case None
      have "\<not> earlier_sibling c x" for x
        using None unfolding earlier_sibling_def by (metis option.distinct(1) parentNode_Cons)
      then have "css_scope (en_dom en) c (leading_relative ts) = {}" using True by (auto simp: css_scope_def)
      then have "e \<in> css (en_dom en) (en_filter en) (after_lead ts) {}" using e by (simp add: css_matches_def)
      moreover have "css (en_dom en) (en_filter en) us {} = {}" for us
      proof (induction us)
        case (Cons t us)
        then show ?case by (cases t) simp_all
      qed simp
      ultimately show ?thesis by simp
    next
      case (Some q)
      then have "?o = q" using c sibling by (auto simp: expand_context_def testContext_def good_context_def)
      then show ?thesis using scope_inside_parent [OF True Some] e by (auto simp: css_matches_def)
    qed
  next
    case False
    then have "inside c e" using scope_inside e by blast
    moreover have "inside ?o c" if "parentNode c = Some ?o" using that inside_parent [of ?o c] by simp
    ultimately have "inside ?o e" using o inside_trans [of ?o c e] by fastforce
    then show ?thesis using e by (simp add: css_matches_def)
  qed
  ultimately show ?thesis by (auto simp: selects_def)
qed

text \<open>A seed: the last compound selector has a filter with a finder, whose elements are filtered by
  the rest.\<close>

lemma seed_split:
  "find_seed en c rts after = Some (rest, seed) \<Longrightarrow> (\<forall>t \<in> set after. \<exists>g. t = Test g) \<Longrightarrow>
     \<exists>f us vs. rev rts @ after = us @ Test f # vs \<and> rest = us @ vs \<and> en_find en f c = Some seed \<and>
       (\<forall>t \<in> set vs. \<exists>g. t = Test g)"
proof (induction en c rts after rule: find_seed.induct)
  case (3 en c f ts after)
  show ?case
  proof (cases "en_find en f c")
    case None
    have "\<forall>t \<in> set (Test f # after). \<exists>g. t = Test g" using 3(3) by simp
    from 3(1) [OF None _ this] 3(2) None show ?thesis by simp
  next
    case (Some xs)
    then have "rest = rev ts @ after" "seed = xs" using 3(2) by simp_all
    then show ?thesis using Some 3(3)
      by (intro exI [of _ f] exI [of _ "rev ts"] exI [of _ after]) simp
  qed
qed simp_all

lemma css_tests:
  "(\<forall>t \<in> set vs. \<exists>g. t = Test g) \<Longrightarrow> css d filt vs {e \<in> S. P e} = {e \<in> css d filt vs S. P e}"
proof (induction vs arbitrary: S)
  case (Cons t vs)
  then obtain g where t: "t = Test g" by auto
  have "{e \<in> {e \<in> S. P e}. filt g e} = {e \<in> {e \<in> S. filt g e}. P e}" by auto
  then have "css d filt (t # vs) {e \<in> S. P e} = css d filt vs {e \<in> {e \<in> S. filt g e}. P e}"
    unfolding t css.simps by (simp only:)
  then show ?case using Cons.IH [of "{e \<in> S. filt g e}"] Cons.prems unfolding t css.simps by simp
qed simp

lemma seed_css:
  assumes "ts = us @ Test f # vs" "\<forall>t \<in> set vs. \<exists>g. t = Test g"
  shows "css_matches en ts c = {e \<in> css_matches en (us @ vs) c. en_filter en f e}"
proof -
  have lead: "leading_relative ts = leading_relative (us @ vs)"
    "after_lead ts = after_lead us @ Test f # vs" "after_lead (us @ vs) = after_lead us @ vs"
    if "us \<noteq> []"
    using that assms(1) by (cases us; cases "hd us"; simp add: after_lead_def)+
  have empty: "leading_relative ts = leading_relative (us @ vs)"
    "after_lead ts = after_lead us @ Test f # vs" "after_lead (us @ vs) = after_lead us @ vs"
    if "us = []"
  proof -
    have "leading_relative vs = None" using assms(2) by (cases vs) auto
    then show "leading_relative ts = leading_relative (us @ vs)"
      "after_lead ts = after_lead us @ Test f # vs" "after_lead (us @ vs) = after_lead us @ vs"
      using that assms(1) by (simp_all add: after_lead_def)
  qed
  have same: "leading_relative ts = leading_relative (us @ vs)"
    "after_lead ts = after_lead us @ Test f # vs" "after_lead (us @ vs) = after_lead us @ vs"
    using lead empty by blast+
  show ?thesis unfolding css_matches_def same(2,3) css_append css.simps css_tests [OF assms(2)] same(1) by auto
qed

text \<open>\<open>select\<close> on one selector, and on any list.\<close>

lemma select_one_css:
  assumes c: "good_context (en_dom en) c" and html: "en_html en" and fresh: "fresh_run run st"
    and unique: "unique_ids c" and good: "\<And>f. Test f \<in> set ts \<Longrightarrow> good f"
  shows "selects (select_one en run n st ts c) (css_matches en ts c)"
proof -
  let ?lead = "leading_relative ts = Some Adjacent \<or> leading_relative ts = Some Sibling"
  have ne: "c \<noteq> []" using c by (cases c) (simp_all add: good_context_def is_node_def)
  have all: "selects (run_compiled en run n st [ts] None c (expand_context (en_dom en) (en_sibling en ts) c))
      (css_matches en ts c)"
    using unseeded_selects [OF c html fresh, of "[ts]" "en_sibling en ts" n] sibling_law by simp
  show ?thesis
  proof (cases "en_needs en ts \<or> find_seed en (expand_context (en_dom en) ?lead c) (rev ts) [] = None")
    case True
    then show ?thesis using all by (auto simp: select_one_def Let_def)
  next
    case False
    then have needs: "\<not> en_needs en ts" by simp
    then have lead: "\<not> ?lead" "leading_relative ts \<notin> {Some Adjacent, Some Sibling}" using needs_law [of ts] by auto
    then have "expand_context (en_dom en) ?lead c = c" by (simp add: expand_context_def)
    then obtain rest seed where s: "find_seed en c (rev ts) [] = Some (rest, seed)" using False by auto
    from seed_split [OF this] obtain f us vs where f: "ts = us @ Test f # vs" "rest = us @ vs"
      "en_find en f c = Some seed" "\<forall>t \<in> set vs. \<exists>g. t = Test g" by auto
    have seed: "selects seed {e. is_element (en_dom en) e \<and> inside c e \<and> en_filter en f e}"
      using find_all [OF html good c unique f(3)] f(1) found_sorted [OF ne] by simp
    have mine: "css_matches en ts c = {e \<in> css_matches en rest c. en_filter en f e}"
      using seed_css [OF f(1,4)] f(2) by simp
    have within: "css_matches en ts c \<subseteq> {e. is_element (en_dom en) e \<and> inside c e \<and> en_filter en f e}"
      using scope_inside [OF lead(2)] mine by (auto simp: css_matches_def)
    have r: "select_one en run n st ts c =
        (if seed = [] \<or> rest = [] then seed
         else run_compiled en run n st [rest] (Some seed) c (expand_context (en_dom en) (en_sibling en rest) c))"
      using needs s \<open>expand_context (en_dom en) ?lead c = c\<close> by (simp add: select_one_def)
    show ?thesis
    proof (cases "seed = [] \<or> rest = []")
      case True
      moreover have "css_matches en ts c = {e. is_element (en_dom en) e \<and> inside c e \<and> en_filter en f e}"
        if "rest = []"
        using that f(1,2) by (auto simp: css_matches_def css_scope_def after_lead_def)
      ultimately show ?thesis using seed within r by (auto simp: selects_def)
    next
      case False
      have "selects (run_compiled en run n st [rest] (Some seed) c (expand_context (en_dom en) (en_sibling en rest) c))
          {e \<in> {e. is_element (en_dom en) e \<and> inside c e \<and> en_filter en f e}. \<exists>ts \<in> set [rest]. e \<in> css_matches en ts c}"
        unfolding run_compiled_def Let_def option.case
        by (rule compiled_selects [OF c html fresh seed]) (auto simp: inside_document)
      moreover have "{e \<in> {e. is_element (en_dom en) e \<and> inside c e \<and> en_filter en f e}. \<exists>ts \<in> set [rest]. e \<in> css_matches en ts c} =
          css_matches en ts c"
        using within mine by auto
      ultimately show ?thesis using False r by simp
    qed
  qed
qed

lemma unique_below: "unique_ids c \<Longrightarrow> inside c x \<Longrightarrow> c \<noteq> [] \<Longrightarrow> unique_ids x"
  unfolding unique_ids_def
proof (intro allI impI)
  fix f
  assume u: "\<forall>f. en_is_id en f \<longrightarrow> length (filter (en_filter en f) (elements_below (en_dom en) c)) \<le> 1"
    and x: "inside c x" "c \<noteq> []" and f: "en_is_id en f"
  have ne: "x \<noteq> []" using x(1) by (auto simp: inside_iff)
  have "distinct (elements_below (en_dom en) x)" "distinct (elements_below (en_dom en) c)"
    using elements_sorted sorted_wrt_precedes_distinct by blast+
  moreover have "set (elements_below (en_dom en) x) \<subseteq> set (elements_below (en_dom en) c)"
    using x inside_trans ne by (auto simp: set_elements_below)
  ultimately have "length (filter (en_filter en f) (elements_below (en_dom en) x)) \<le>
      length (filter (en_filter en f) (elements_below (en_dom en) c))"
    by (simp flip: distinct_card add: distinct_filter) (rule card_mono; auto)
  then show "length (filter (en_filter en f) (elements_below (en_dom en) x)) \<le> 1" using u f by fastforce
qed

lemma good_element:
  assumes "good_context (en_dom en) the_document" "is_element (en_dom en) x" "inside the_document x"
  shows "good_context (en_dom en) x"
proof -
  have wf: "well_formed (en_dom en)" "nodeType (en_dom en) the_document = 9"
    using assms(1) by (simp_all add: good_context_def)
  have "nodeType (en_dom en) q = 1 \<or> nodeType (en_dom en) q = 9" if q: "parentNode x = Some q" for q
  proof (cases "q = the_document")
    case False
    then have "inside the_document q" using assms(3) q inside_parent [of the_document x] by simp
    then have "parentNode q \<noteq> None" using inside_parent [of the_document q] by blast
    moreover obtain i where "x = i # q" "q \<noteq> []" using q by (auto simp: parentNode_def split: list.splits)
    ultimately have "is_element (en_dom en) q"
      using wf(1) is_element_node [OF assms(2)] unfolding well_formed_def by blast
    then show ?thesis by (simp add: is_element_def)
  qed (use wf(2) in simp)
  then show ?thesis using wf assms(2) is_element_node by (simp add: good_context_def)
qed

lemma id_step:
  assumes c: "good_context (en_dom en) the_document" and unique: "unique_ids the_document" and f: "en_is_id en f" "good f" and html: "en_html en"
    and found: "en_find en f the_document = Some xs"
  shows "xs = [] \<Longrightarrow> css_matches en (Test f # Relative r # ts) the_document = {}"
    and "xs = x # ys \<Longrightarrow> is_element (en_dom en) x \<and> inside the_document x \<and>
      css_matches en (Test f # Relative r # ts) the_document = css_matches en (Relative r # ts) x"
proof -
  let ?ids = "{y \<in> {e. inside the_document e}. en_filter en f y}"
  have xs: "xs = filter (en_filter en f) (elements_below (en_dom en) the_document)"
    using find_all [OF html f(2) c unique found] .
  have ne: "the_document \<noteq> []" by (simp add: the_document_def)
  then have set: "set xs = {y. is_element (en_dom en) y \<and> inside the_document y \<and> en_filter en f y}"
    using found_sorted xs by (simp add: selects_def)
  have m: "css_matches en (Test f # Relative r # ts) the_document =
      {e. is_element (en_dom en) e \<and> e \<in> css (en_dom en) (en_filter en) ts
         {e. \<exists>y \<in> ?ids. is_element (en_dom en) y \<and> rel_holds (en_dom en) r y e}}"
    by (simp add: css_matches_def css_scope_def after_lead_def del: rel_holds.simps)
  have image: "{e. \<exists>y \<in> ?ids. is_element (en_dom en) y \<and> rel_holds (en_dom en) r y e} =
      {e. \<exists>y \<in> set xs. rel_holds (en_dom en) r y e}"
    unfolding set by blast
  show "xs = [] \<Longrightarrow> css_matches en (Test f # Relative r # ts) the_document = {}"
  proof -
    assume "xs = []"
    moreover have "css (en_dom en) (en_filter en) us {} = {}" for us
    proof (induction us)
      case (Cons t us)
      then show ?case by (cases t) simp_all
    qed simp
    ultimately show ?thesis unfolding m image by simp
  qed
  show "is_element (en_dom en) x \<and> inside the_document x \<and>
      css_matches en (Test f # Relative r # ts) the_document = css_matches en (Relative r # ts) x"
    if "xs = x # ys"
  proof -
    have "length xs \<le> 1" using unique f(1) unfolding xs unique_ids_def by blast
    then have one: "set xs = {x}" using that by (cases ys) simp_all
    then have "x \<in> set xs" by simp
    then have "is_element (en_dom en) x" "inside the_document x" unfolding set by blast+
    moreover have "css_matches en (Test f # Relative r # ts) the_document = css_matches en (Relative r # ts) x"
      unfolding m image one by (simp add: css_matches_def css_scope_def after_lead_def del: rel_holds.simps)
    ultimately show ?thesis by blast
  qed
qed

theorem select_css:
  assumes c: "good_context (en_dom en) c" and html: "en_html en" and fresh: "fresh_run run st"
    and unique: "unique_ids c" and good: "\<And>ts f. ts \<in> set groups \<Longrightarrow> Test f \<in> set ts \<Longrightarrow> good f"
  shows "selects (select en run n st groups c) (\<Union>ts \<in> set groups. css_matches en ts c)"
proof -
  have many: "selects (run_compiled en run n st groups None c
      (expand_context (en_dom en) (list_ex (en_sibling en) groups) c)) (\<Union>ts \<in> set groups. css_matches en ts c)"
    by (rule unseeded_selects [OF c html fresh]) (use sibling_law in \<open>auto simp: list_ex_iff\<close>)
  have one: "selects (select_one en run n st ts c) (css_matches en ts c)" if "ts \<in> set groups" for ts
    by (rule select_one_css [OF c html fresh unique]) (use good that in blast)
  have first: "selects (case en_find en f c of Some (x # xs) \<Rightarrow> select_one en run n st (Relative r # ts) x | _ \<Rightarrow> [])
      (css_matches en (Test f # Relative r # ts) c)"
    if f: "en_is_id en f" and "nodeType (en_dom en) c = 9" and mem: "Test f # Relative r # ts \<in> set groups" for f r ts
  proof -
    have doc: "c = the_document" using c that(2) by (auto simp: good_context_def is_element_def)
    then obtain xs where xs: "en_find en f the_document = Some xs" using id_law f html c by blast
    have "good f" using good mem by fastforce
    note step = id_step [OF c [unfolded doc] unique [unfolded doc] f this html xs]
    show ?thesis
    proof (cases xs)
      case Nil
      then show ?thesis using step(1) xs doc by (simp add: selects_def)
    next
      case (Cons x ys)
      then have x: "is_element (en_dom en) x" "inside the_document x"
        "css_matches en (Test f # Relative r # ts) the_document = css_matches en (Relative r # ts) x"
        using step(2) by blast+
      have "selects (select_one en run n st (Relative r # ts) x) (css_matches en (Relative r # ts) x)"
        using good_element [OF c [unfolded doc] x(1,2)] unique_below [OF unique [unfolded doc] x(2)] html fresh
          good [OF mem]
        by (intro select_one_css) (auto simp: the_document_def)
      then show ?thesis using Cons xs doc x(3) by simp
    qed
  qed
  show ?thesis
  proof (cases groups rule: remdups_adj.cases)
    case (2 ts)
    show ?thesis
    proof (cases "\<exists>f r t us. ts = Test f # Relative r # t # us \<and> en_is_id en f \<and> nodeType (en_dom en) c = 9")
      case True
      then show ?thesis using 2 html first by (auto simp: select_def)
    next
      case False
      then have "select en run n st groups c = select_one en run n st ts c"
        using 2 by (auto simp: select_def split: list.splits token.splits)
      then show ?thesis using one [of ts] 2 by simp
    qed
  qed (use many in \<open>simp_all add: select_def\<close>)
qed

end

end
