(* ===== verification/Sz_Escape.thy ===== *)
theory Sz_Escape
  imports Js_Values
begin

text \<open>
  Escapes in selectors, from docs/_static/jquery-3.5.1.js (Sizzle): \<open>funescape\<close> with the expression
  \<open>runescape\<close>, \<open>fcssescape\<close> with \<open>rcssescape\<close> (\<open>Sizzle.escape\<close>, \<open>jQuery.escapeSelector\<close>), and
  identifiers. A string is a list of UTF-16 code units. Unescaping undoes escaping, and an
  escaped string is an identifier.
\<close>

unbundle bit_operations_syntax

section \<open>Code units\<close>

definition is_digit :: "nat \<Rightarrow> bool" where "is_digit c \<longleftrightarrow> 48 \<le> c \<and> c \<le> 57"

definition is_hex :: "nat \<Rightarrow> bool" where
  "is_hex c \<longleftrightarrow> is_digit c \<or> 65 \<le> c \<and> c \<le> 70 \<or> 97 \<le> c \<and> c \<le> 102"

definition is_word :: "nat \<Rightarrow> bool" where
  "is_word c \<longleftrightarrow> is_digit c \<or> 65 \<le> c \<and> c \<le> 90 \<or> 97 \<le> c \<and> c \<le> 122 \<or> c = 95"

definition is_white :: "nat \<Rightarrow> bool" where
  "is_white c \<longleftrightarrow> c = 32 \<or> c = 9 \<or> c = 13 \<or> c = 10 \<or> c = 12"

definition is_newline :: "nat \<Rightarrow> bool" where
  "is_newline c \<longleftrightarrow> c = 13 \<or> c = 10 \<or> c = 12"

definition is_control :: "nat \<Rightarrow> bool" where
  "is_control c \<longleftrightarrow> c \<le> 31 \<or> c = 127"

section \<open>Unescaping\<close>

definition hex_value :: "nat \<Rightarrow> nat" where
  "hex_value c = (if c \<le> 57 then c - 48 else if c \<le> 70 then c - 55 else c - 87)"

definition read_hex :: "nat list \<Rightarrow> nat" where
  "read_hex ds = foldl (\<lambda>n c. 16 * n + hex_value c) 0 ds"

text \<open>The hexadecimal digits after a backslash, at most six, and one white space after them.\<close>

definition hex_digits :: "nat list \<Rightarrow> nat list" where
  "hex_digits s = takeWhile is_hex (take 6 s)"

definition drop_white :: "nat list \<Rightarrow> nat list" where
  "drop_white s = (case s of [] \<Rightarrow> [] | c # t \<Rightarrow> if is_white c then t else s)"

definition after_hex :: "nat list \<Rightarrow> nat list" where
  "after_hex s = drop_white (drop (length (hex_digits s)) s)"

text \<open>\<open>funescape\<close> for a code point: one code unit, or a pair of surrogates; \<open>fromCharCode\<close> takes
  its arguments modulo 65536.\<close>

definition code_units :: "nat \<Rightarrow> nat list" where
  "code_units n =
     (if n < 0x10000 then [n]
      else let high = n - 0x10000 in
        [(drop_bit 10 high OR 0xD800) mod 0x10000, ((high AND 0x3FF) OR 0xDC00) mod 0x10000])"

lemma after_hex_shorter: "length (after_hex s) \<le> length s"
proof -
  have "length (drop_white u) \<le> length u" for u by (cases u) (simp_all add: drop_white_def)
  from this [of "drop (length (hex_digits s)) s"] show ?thesis by (simp add: after_hex_def)
qed

function unescape :: "nat list \<Rightarrow> nat list" where
  "unescape [] = []"
| "unescape (c # s) =
     (if c \<noteq> 92 then c # unescape s
      else if hex_digits s \<noteq> [] then code_units (read_hex (hex_digits s)) @ unescape (after_hex s)
      else (case s of
              [] \<Rightarrow> [92]
            | x # t \<Rightarrow> if is_newline x then 92 # unescape s else x # unescape t))"
  by pat_completeness auto
termination
  by (relation "measure length") (auto simp: after_hex_shorter less_Suc_eq_le)

section \<open>Escaping\<close>

definition hex_digit :: "nat \<Rightarrow> nat" where
  "hex_digit n = (if n < 10 then n + 48 else n + 87)"

fun print_hex :: "nat \<Rightarrow> nat list" where
  "print_hex n = (if n < 16 then [hex_digit n] else print_hex (n div 16) @ [hex_digit (n mod 16)])"

declare print_hex.simps [simp del]

definition as_code_point :: "nat \<Rightarrow> nat list" where
  "as_code_point c = [92] @ print_hex c @ [32]"

definition escape_unit :: "nat \<Rightarrow> nat list" where
  "escape_unit c =
     (if c = 0 then [0xFFFD]
      else if is_control c then as_code_point c
      else if c < 127 \<and> \<not> is_word c \<and> c \<noteq> 45 then [92, c]
      else [c])"

definition escape_rest :: "nat list \<Rightarrow> nat list" where
  "escape_rest s = concat (map escape_unit s)"

text \<open>\<open>Sizzle.escape\<close>: a digit at the start, or after a hyphen there, and a lone hyphen are special.\<close>

definition escapeSelector :: "nat list \<Rightarrow> nat list" where
  "escapeSelector s =
     (case s of
        [] \<Rightarrow> []
      | c # t \<Rightarrow>
          if is_digit c then as_code_point c @ escape_rest t
          else if c = 45 then
            (case t of
               [] \<Rightarrow> [92, 45]
             | e # u \<Rightarrow> if is_digit e then 45 # as_code_point e @ escape_rest u else 45 # escape_rest t)
          else escape_rest s)"

section \<open>Identifiers\<close>

text \<open>\<open>ridentifier\<close> on the rest of a string.\<close>

function units_of_identifier :: "nat list \<Rightarrow> bool" where
  "units_of_identifier [] = True"
| "units_of_identifier (c # s) =
     (if c = 92 then
        (if hex_digits s \<noteq> [] then units_of_identifier (after_hex s)
         else (case s of [] \<Rightarrow> False | x # t \<Rightarrow> \<not> is_newline x \<and> units_of_identifier t))
      else (is_word c \<or> c = 45 \<or> 127 < c) \<and> units_of_identifier s)"
  by pat_completeness auto
termination
  by (relation "measure length") (auto simp: after_hex_shorter less_Suc_eq_le)

definition is_identifier :: "nat list \<Rightarrow> bool" where
  "is_identifier s \<longleftrightarrow> s \<noteq> [] \<and> units_of_identifier s"

section \<open>Round trip\<close>

definition read_back :: "nat \<Rightarrow> nat" where
  "read_back c = (if c = 0 then 0xFFFD else c)"

lemma hex_value_of_digit [simp]: "n < 16 \<Longrightarrow> hex_value (hex_digit n) = n" "n < 16 \<Longrightarrow> is_hex (hex_digit n)"
  by (auto simp: hex_value_def hex_digit_def is_hex_def is_digit_def)

lemma read_print_hex: "read_hex (print_hex n) = n"
  by (induction n rule: print_hex.induct)
    (subst print_hex.simps, auto simp: read_hex_def div_mult_mod_eq)

lemma print_hex_digits: "\<forall>c \<in> set (print_hex n). is_hex c" "print_hex n \<noteq> []"
  by (induction n rule: print_hex.induct) (subst print_hex.simps; simp)+

lemma print_hex_short: "n < 256 \<Longrightarrow> length (print_hex n) \<le> 2"
proof -
  assume n: "n < 256"
  have one: "length (print_hex m) = 1" if "m < 16" for m using that by (subst print_hex.simps) simp
  have "n div 16 < 16" using n by simp
  then have "length (print_hex (n div 16)) = 1" by (rule one)
  then show ?thesis by (subst print_hex.simps) simp
qed

lemma hex_prefix:
  assumes "\<forall>c \<in> set ds. is_hex c" "length ds \<le> 6"
  shows "hex_digits (ds @ 32 # s) = ds"
proof -
  have "\<not> is_hex 32" by (simp add: is_hex_def is_digit_def)
  then show ?thesis using assms
    by (cases "6 - length ds") (simp_all add: hex_digits_def takeWhile_append2 takeWhile_eq_all_conv)
qed

lemma code_point_digits:
  assumes "c < 256"
  shows "hex_digits (print_hex c @ 32 # s) = print_hex c" "after_hex (print_hex c @ 32 # s) = s"
  using hex_prefix [OF print_hex_digits(1), of c s] print_hex_short [OF assms]
  by (simp_all add: after_hex_def drop_white_def is_white_def)

lemma unescape_code_point: "c < 256 \<Longrightarrow> unescape (as_code_point c @ s) = c # unescape s"
  using code_point_digits [of c s] print_hex_digits(2) [of c]
  by (simp add: as_code_point_def read_print_hex code_units_def)

lemma not_hex_punctuation: "\<not> is_word c \<Longrightarrow> \<not> is_hex c"
  by (auto simp: is_word_def is_hex_def)

lemma hex_digits_Nil: "\<not> is_hex x \<Longrightarrow> hex_digits (x # s) = []"
  by (simp add: hex_digits_def)

lemma unescape_unit: "unescape (escape_unit c @ s) = read_back c # unescape s"
proof -
  consider "c = 0" | "c \<noteq> 0" "is_control c" | "c \<noteq> 0" "\<not> is_control c" "c < 127 \<and> \<not> is_word c \<and> c \<noteq> 45"
    | "c \<noteq> 0" "\<not> is_control c" "\<not> (c < 127 \<and> \<not> is_word c \<and> c \<noteq> 45)" by blast
  then show ?thesis
  proof cases
    case 2
    then show ?thesis
      using unescape_code_point [of c s] by (auto simp: escape_unit_def read_back_def is_control_def)
  next
    case 3
    then have "\<not> is_newline c" by (auto simp: is_newline_def is_control_def)
    with 3 show ?thesis by (simp add: escape_unit_def read_back_def hex_digits_Nil not_hex_punctuation)
  next
    case 4
    then have "c \<noteq> 92" by (auto simp: is_word_def is_digit_def)
    with 4 show ?thesis by (auto simp: escape_unit_def read_back_def)
  qed (simp_all add: escape_unit_def read_back_def)
qed

lemma unescape_rest: "unescape (escape_rest s) = map read_back s"
  by (induction s) (simp_all add: escape_rest_def unescape_unit)

lemma digit_code: "is_digit c \<Longrightarrow> c < 256 \<and> read_back c = c"
  by (auto simp: is_digit_def read_back_def)

lemma unescape_escapeSelector: "unescape (escapeSelector s) = map read_back s"
  by (auto simp: escapeSelector_def unescape_code_point unescape_rest digit_code read_back_def hex_digits_def
      is_hex_def is_digit_def is_newline_def split: list.splits)

text \<open>Escaped strings are identifiers.\<close>

lemma identifier_code_point: "c < 256 \<Longrightarrow> units_of_identifier (as_code_point c @ s) = units_of_identifier s"
  using code_point_digits [of c s] print_hex_digits(2) [of c] by (simp add: as_code_point_def)

lemma identifier_unit: "units_of_identifier (escape_unit c @ s) = units_of_identifier s"
proof -
  consider "c = 0" | "c \<noteq> 0" "is_control c" | "c \<noteq> 0" "\<not> is_control c" "c < 127 \<and> \<not> is_word c \<and> c \<noteq> 45"
    | "c \<noteq> 0" "\<not> is_control c" "\<not> (c < 127 \<and> \<not> is_word c \<and> c \<noteq> 45)" by blast
  then show ?thesis
  proof cases
    case 2
    then show ?thesis
      using identifier_code_point [of c s] by (auto simp: escape_unit_def is_control_def)
  next
    case 3
    then have "\<not> is_newline c" by (auto simp: is_newline_def is_control_def)
    with 3 show ?thesis by (simp add: escape_unit_def hex_digits_Nil not_hex_punctuation)
  next
    case 4
    then have "c \<noteq> 92" "is_word c \<or> c = 45 \<or> 127 < c" by (auto simp: is_word_def is_digit_def is_control_def)
    with 4 show ?thesis by (auto simp: escape_unit_def)
  qed (simp_all add: escape_unit_def)
qed

lemma identifier_rest: "units_of_identifier (escape_rest s)"
  by (induction s) (simp_all add: escape_rest_def identifier_unit)

lemma escape_rest_Cons: "escape_rest (c # s) = escape_unit c @ escape_rest s"
  by (simp add: escape_rest_def)

lemma escape_unit_nonempty [simp]: "escape_unit c \<noteq> []" "as_code_point c \<noteq> []"
  by (simp_all add: escape_unit_def as_code_point_def)

lemma escape_identifier: "s \<noteq> [] \<Longrightarrow> is_identifier (escapeSelector s)"
  by (auto simp: is_identifier_def escapeSelector_def identifier_code_point identifier_rest digit_code
      escape_rest_Cons identifier_unit hex_digits_def is_hex_def is_digit_def is_newline_def split: list.splits)

end
