(* ===== verification/Sz_Filters.thy ===== *)
theory Sz_Filters
  imports Sz_Nth Sz_Css Sz_Escape "HOL-Library.Sublist"
begin

text \<open>
  The filters and finders of the selector engine of docs/_static/jquery-3.5.1.js (Sizzle): \<open>TAG\<close>, \<open>ID\<close>,
  \<open>CLASS\<close>, \<open>ATTR\<close>, \<open>CHILD\<close> and the pseudo-classes that look at one element, the two tests on the text
  of a selector, and the engine built of them, on which the interface of \<open>Sz_Css\<close> is interpreted.
  The browser's own searches (by tag, class and ID) are written out after the DOM standard, for
  HTML documents. Names in a selector may hold escapes, hence the code units; a string of the document
  has code units below 256.
\<close>

section \<open>Code units and words\<close>

definition units :: "string \<Rightarrow> nat list" where "units s = map of_char s"

text \<open>\<open>toLowerCase\<close>, right for all code units that have a lower case below 256.\<close>

definition lower_unit :: "nat \<Rightarrow> nat" where
  "lower_unit n =
     (if 65 \<le> n \<and> n \<le> 90 \<or> 192 \<le> n \<and> n \<le> 222 \<and> n \<noteq> 215 then n + 32
      else if n = 0x178 then 255 else if n = 0x1E9E then 223
      else if n = 0x212A then 107 else if n = 0x212B then 229 else n)"

definition lower_units :: "nat list \<Rightarrow> nat list" where "lower_units = map lower_unit"

definition ascii_lower :: "nat list \<Rightarrow> nat list" where
  "ascii_lower = map (\<lambda>n. if 65 \<le> n \<and> n \<le> 90 then n + 32 else n)"

fun words_from :: "nat list \<Rightarrow> nat list \<Rightarrow> nat list list" where
  "words_from w [] = (if w = [] then [] else [w])"
| "words_from w (c # s) =
     (if is_white c then (if w = [] then words_from [] s else w # words_from [] s)
      else words_from (w @ [c]) s)"

section \<open>Attributes\<close>

text \<open>\<open>getAttribute\<close> of an element of an HTML document or of another one.\<close>

definition attribute :: "dom \<Rightarrow> bool \<Rightarrow> place \<Rightarrow> nat list \<Rightarrow> nat list option" where
  "attribute d html e name =
     map_option (units \<circ> snd)
       (find (\<lambda>(k, v). units k = (if html then ascii_lower name else name)) (dn_attrs (node_at d e)))"

definition booleans :: "string list" where
  "booleans = [''checked'', ''selected'', ''async'', ''autofocus'', ''autoplay'', ''controls'', ''defer'', ''disabled'',
     ''hidden'', ''ismap'', ''loop'', ''multiple'', ''open'', ''readonly'', ''required'', ''scoped'']"

text \<open>The handles \<open>jQuery\<close> puts into \<open>attrHandle\<close> for boolean attributes, and \<open>Sizzle.attr\<close> on a browser
  whose \<open>getAttribute\<close> returns attributes.\<close>

definition boolean_handle :: "dom \<Rightarrow> bool \<Rightarrow> place \<Rightarrow> nat list \<Rightarrow> nat list option" where
  "boolean_handle d html e name =
     (if html then (if attribute d html e name = None then None else Some (lower_units name))
      else attribute d html e name)"

definition sizzle_attr :: "dom \<Rightarrow> bool \<Rightarrow> place \<Rightarrow> nat list \<Rightarrow> nat list option" where
  "sizzle_attr d html e name =
     (if lower_units name \<in> units ` set booleans then boolean_handle d html e name
      else attribute d html e name)"

section \<open>ATTR\<close>

datatype operator = Present | Equals | Differs | Begins | Contains | Ends | Word | Dashed

text \<open>The value of an attribute selector as \<open>Expr.preFilter.ATTR\<close> leaves it.\<close>

definition attr_check :: "operator \<Rightarrow> string \<Rightarrow> nat list" where
  "attr_check op raw = (let v = unescape (units raw) in if op = Word then [32] @ v @ [32] else v)"

text \<open>\<open>result.replace( rwhitespace, " " )\<close>\<close>

fun collapse_white :: "bool \<Rightarrow> nat list \<Rightarrow> nat list" where
  "collapse_white after [] = []"
| "collapse_white after (c # s) =
     (if is_white c then (if after then collapse_white True s else 32 # collapse_white True s)
      else c # collapse_white False s)"

fun attr_holds :: "operator \<Rightarrow> nat list \<Rightarrow> nat list \<Rightarrow> bool" where
  "attr_holds Present check v = True"
| "attr_holds Equals check v = (v = check)"
| "attr_holds Differs check v = (v \<noteq> check)"
| "attr_holds Begins check v = (check \<noteq> [] \<and> prefix check v)"
| "attr_holds Contains check v = (check \<noteq> [] \<and> sublist check v)"
| "attr_holds Ends check v = (check \<noteq> [] \<and> suffix check v)"
| "attr_holds Word check v = sublist check ([32] @ collapse_white False v @ [32])"
| "attr_holds Dashed check v = (v = check \<or> prefix (check @ [45]) v)"

definition attr_filter :: "dom \<Rightarrow> bool \<Rightarrow> string \<Rightarrow> operator \<Rightarrow> string \<Rightarrow> place \<Rightarrow> bool" where
  "attr_filter d html name op raw e =
     (case sizzle_attr d html e (unescape (units name)) of
        None \<Rightarrow> op = Differs
      | Some v \<Rightarrow> attr_holds op (attr_check op raw) v)"

section \<open>TAG, ID and CLASS\<close>

definition tag_filter :: "dom \<Rightarrow> string \<Rightarrow> place \<Rightarrow> bool" where
  "tag_filter d raw e \<longleftrightarrow>
     raw = ''*'' \<or> nodeName d e \<noteq> '''' \<and> units (to_lower (nodeName d e)) = lower_units (unescape (units raw))"

definition id_filter :: "dom \<Rightarrow> bool \<Rightarrow> string \<Rightarrow> place \<Rightarrow> bool" where
  "id_filter d html raw e \<longleftrightarrow> attribute d html e (units ''id'') = Some (unescape (units raw))"

text \<open>The expression \<open>(^|ws)name(ws|$)\<close>, for a name without escapes.\<close>

fun class_found :: "bool \<Rightarrow> nat list \<Rightarrow> nat list \<Rightarrow> bool" where
  "class_found at_word name [] \<longleftrightarrow> at_word \<and> name = []"
| "class_found at_word name (c # s) \<longleftrightarrow>
     at_word \<and> prefix name (c # s) \<and> (drop (length name) (c # s) = [] \<or> is_white (hd (drop (length name) (c # s)))) \<or>
     class_found (is_white c) name s"

definition class_of_element :: "dom \<Rightarrow> bool \<Rightarrow> place \<Rightarrow> nat list" where
  "class_of_element d html e = (case attribute d html e (units ''class'') of None \<Rightarrow> [] | Some v \<Rightarrow> v)"

definition class_filter :: "dom \<Rightarrow> bool \<Rightarrow> string \<Rightarrow> place \<Rightarrow> bool" where
  "class_filter d html raw e \<longleftrightarrow> class_found True (units raw) (class_of_element d html e)"

section \<open>Finders\<close>

text \<open>What the browser returns.\<close>

definition getElementsByTagName :: "dom \<Rightarrow> bool \<Rightarrow> nat list \<Rightarrow> place \<Rightarrow> place list" where
  "getElementsByTagName d html name c =
     filter (\<lambda>e. name = [42] \<or>
         (if html then ascii_lower (units (nodeName d e)) = ascii_lower name else units (nodeName d e) = name))
       (elements_below d c)"

definition getElementsByClassName :: "dom \<Rightarrow> bool \<Rightarrow> nat list \<Rightarrow> place \<Rightarrow> place list" where
  "getElementsByClassName d html name c =
     (let ws = words_from [] name in
      if ws = [] then []
      else filter (\<lambda>e. set ws \<subseteq> set (words_from [] (class_of_element d html e))) (elements_below d c))"

definition getElementById :: "dom \<Rightarrow> bool \<Rightarrow> nat list \<Rightarrow> place \<Rightarrow> place option" where
  "getElementById d html name c =
     (if name = [] then None
      else find (\<lambda>e. attribute d html e (units ''id'') = Some name) (elements_below d c))"

text \<open>\<open>Expr.find\<close>, applied to the argument without its escapes.\<close>

definition find_tag :: "dom \<Rightarrow> bool \<Rightarrow> nat list \<Rightarrow> place \<Rightarrow> place list option" where
  "find_tag d html name c =
     (if nodeType d c = 1 \<or> nodeType d c = 9 then Some (getElementsByTagName d html name c) else None)"

definition find_class :: "dom \<Rightarrow> bool \<Rightarrow> nat list \<Rightarrow> place \<Rightarrow> place list option" where
  "find_class d html name c =
     (if (nodeType d c = 1 \<or> nodeType d c = 9) \<and> html then Some (getElementsByClassName d html name c) else None)"

definition find_id :: "dom \<Rightarrow> bool \<Rightarrow> nat list \<Rightarrow> place \<Rightarrow> place list option" where
  "find_id d html name c =
     (if nodeType d c = 9 \<and> html
      then Some (case getElementById d html name c of None \<Rightarrow> [] | Some e \<Rightarrow> [e])
      else None)"

lemma words_from_start: "\<forall>c \<in> set w. \<not> is_white c \<Longrightarrow> w \<noteq> [] \<Longrightarrow>
  words_from w s = (w @ takeWhile (\<lambda>c. \<not> is_white c) s) # words_from [] (dropWhile (\<lambda>c. \<not> is_white c) s)"
  by (induction s arbitrary: w) auto

lemma word_at_start:
  assumes "\<forall>c \<in> set n. \<not> is_white c" 
  shows "prefix n s \<and> (drop (length n) s = [] \<or> is_white (hd (drop (length n) s))) \<longleftrightarrow>
    takeWhile (\<lambda>c. \<not> is_white c) s = n"
  using assms
proof (induction n arbitrary: s)
  case Nil
  then show ?case by (cases s) auto
next
  case (Cons x n)
  then show ?case by (cases s) auto
qed

lemma class_found_words:
  assumes "\<forall>c \<in> set n. \<not> is_white c" "n \<noteq> []"
  shows "class_found True n s \<longleftrightarrow> n \<in> set (words_from [] s)"
    and "class_found False n s \<longleftrightarrow> n \<in> set (words_from [] (dropWhile (\<lambda>c. \<not> is_white c) s))"
proof (induction s)
  case Nil
  case 1
  then show ?case using assms by simp
next
  case Nil
  case 2
  then show ?case using assms by simp
next
  case (Cons c s)
  have w: "takeWhile (\<lambda>c. \<not> is_white c) (c # s) = n \<longleftrightarrow> \<not> is_white c \<and> c # takeWhile (\<lambda>c. \<not> is_white c) s = n"
    using assms(2) by auto
  {
    case 1
    show ?case using Cons word_at_start [OF assms(1), of "c # s"] w words_from_start [of "[c]" s] by auto
  next
    case 2
    show ?case using Cons by auto
  }
qed

section \<open>Pseudo-classes\<close>

abbreviation has_property :: "dom \<Rightarrow> place \<Rightarrow> string \<Rightarrow> bool" where
  "has_property d e name \<equiv> map_of (dn_props (node_at d e)) name \<noteq> None"

text \<open>\<open>inDisabledFieldset\<close> is a combinator with the cache of the matchers, made once with the number
  \<open>name\<close>.\<close>

definition disabled_fieldset :: "dom \<Rightarrow> place \<Rightarrow> bool" where
  "disabled_fieldset d e \<longleftrightarrow> get_property d e ''disabled'' = Bool True \<and> lower_name d e = ''fieldset''"

definition to_fieldset :: combinator where
  "to_fieldset = \<lparr>co_dir = ParentNode, co_first = False, co_next = Some ''legend''\<rparr>"

definition inDisabledFieldset :: "dom \<Rightarrow> nat \<Rightarrow> nat \<Rightarrow> stepper" where
  "inDisabledFieldset d run name =
     addCombinator d False run to_fieldset False name (\<lambda>e st. (disabled_fieldset d e, st))"

text \<open>\<open>createDisabledPseudo\<close>; \<open>fieldset\<close> is the verdict of \<open>inDisabledFieldset\<close>.\<close>

definition disabled_pseudo :: "dom \<Rightarrow> bool \<Rightarrow> bool \<Rightarrow> place \<Rightarrow> bool" where
  "disabled_pseudo d fieldset wanted e =
     (if has_property d e ''form'' then
        (case (parentNode e, get_property d e ''disabled'') of
           (Some p, Bool False) \<Rightarrow>
             if has_property d e ''label'' then
               (if has_property d p ''label'' then get_property d p ''disabled'' = Bool wanted
                else get_property d e ''disabled'' = Bool wanted)
             else
               get_property d e ''isDisabled'' = Bool wanted \<or>
               get_property d e ''isDisabled'' \<noteq> Bool (\<not> wanted) \<and> fieldset = wanted
         | _ \<Rightarrow> get_property d e ''disabled'' = Bool wanted)
      else has_property d e ''label'' \<and> get_property d e ''disabled'' = Bool wanted)"

fun text_of :: "dnode \<Rightarrow> string" where
  "text_of (Dnode t n a pr v ks) = (if t = 1 \<or> t = 9 \<or> t = 11 then concat (map text_of ks) else if t = 3 \<or> t = 4 then v else '''')"

text \<open>The element and its ancestors that are elements, up to the first parent that is none.\<close>

definition lineage :: "dom \<Rightarrow> place \<Rightarrow> place list" where
  "lineage d e = e # takeWhile (is_element d) (along d ParentNode e)"

definition elem_lang :: "dom \<Rightarrow> bool \<Rightarrow> place \<Rightarrow> nat list" where
  "elem_lang d html e =
     (if html then (case get_property d e ''lang'' of Str s \<Rightarrow> units s | _ \<Rightarrow> [])
      else (case attribute d html e (units ''xml:lang'') of
              Some (c # s) \<Rightarrow> c # s
            | _ \<Rightarrow> (case attribute d html e (units ''lang'') of Some s \<Rightarrow> s | None \<Rightarrow> [])))"

definition lang_filter :: "dom \<Rightarrow> bool \<Rightarrow> nat list \<Rightarrow> place \<Rightarrow> bool" where
  "lang_filter d html lang e =
     (case filter (\<lambda>l. l \<noteq> []) (map (elem_lang d html) (lineage d e)) of
        [] \<Rightarrow> False
      | l # ls \<Rightarrow> lower_units l = lang \<or> prefix (lang @ [45]) (lower_units l))"

text \<open>\<open>Expr.pseudos.lang\<close> before it returns the filter: \<open>None\<close> is the syntax error.\<close>

definition lang_argument :: "string \<Rightarrow> nat list option" where
  "lang_argument raw =
     (if is_identifier (units raw) then Some (lower_units (unescape (units raw))) else None)"

text \<open>The page: the address after the number sign with the sign, the focused element and whether the
  document has the focus.\<close>

record page =
  pg_dom :: dom
  pg_html :: bool
  pg_hash :: string
  pg_active :: "place option"
  pg_focused :: bool

datatype pseudo =
    Target | Root | Focus | Enabled | Disabled | Checked | Selected | Empty | Parent | Header | Input | Button
  | Text | InputType string | ButtonType string | ContainsText string | Lang "nat list"

definition prop_is :: "dom \<Rightarrow> place \<Rightarrow> string \<Rightarrow> string \<Rightarrow> bool" where
  "prop_is d e name v \<longleftrightarrow> get_property d e name = Str v"

definition elem_id :: "dom \<Rightarrow> bool \<Rightarrow> place \<Rightarrow> nat list" where
  "elem_id d html e = (case attribute d html e (units ''id'') of None \<Rightarrow> [] | Some v \<Rightarrow> v)"

definition empty_filter :: "dom \<Rightarrow> place \<Rightarrow> bool" where
  "empty_filter d e \<longleftrightarrow> \<not> list_ex (\<lambda>c. nodeType d c < 6) (childNodes d e)"

definition header_name :: "string \<Rightarrow> bool" where
  "header_name s = (case s of [h, n] \<Rightarrow> to_lower [h] = ''h'' \<and> is_digit (of_char n) | _ \<Rightarrow> False)"

definition input_filter :: "dom \<Rightarrow> string \<Rightarrow> place \<Rightarrow> bool" where
  "input_filter d type e \<longleftrightarrow> lower_name d e = ''input'' \<and> prop_is d e ''type'' type"

definition button_filter :: "dom \<Rightarrow> string \<Rightarrow> place \<Rightarrow> bool" where
  "button_filter d type e \<longleftrightarrow>
     (lower_name d e = ''input'' \<or> lower_name d e = ''button'') \<and> prop_is d e ''type'' type"

definition text_filter :: "dom \<Rightarrow> bool \<Rightarrow> place \<Rightarrow> bool" where
  "text_filter d html e \<longleftrightarrow>
     lower_name d e = ''input'' \<and> prop_is d e ''type'' ''text'' \<and>
     (case attribute d html e (units ''type'') of None \<Rightarrow> True | Some v \<Rightarrow> lower_units v = units ''text'')"

definition focus_filter :: "page \<Rightarrow> place \<Rightarrow> bool" where
  "focus_filter p e \<longleftrightarrow>
     pg_active p = Some e \<and> pg_focused p \<and>
     (let d = pg_dom p in
      truthy (get_property d e ''type'') \<or> truthy (get_property d e ''href'') \<or>
      get_property d e ''tabIndex'' \<noteq> num_of_int (-1))"

fun pseudo_filter :: "page \<Rightarrow> pseudo \<Rightarrow> place \<Rightarrow> bool" where
  "pseudo_filter p Target e = (pg_hash p \<noteq> '''' \<and> units (tl (pg_hash p)) = elem_id (pg_dom p) (pg_html p) e)"
| "pseudo_filter p Root e = (documentElement (pg_dom p) the_document = Some e)"
| "pseudo_filter p Focus e = focus_filter p e"
| "pseudo_filter p Enabled e =
     disabled_pseudo (pg_dom p) (related (pg_dom p) False to_fieldset False (disabled_fieldset (pg_dom p)) e) False e"
| "pseudo_filter p Disabled e =
     disabled_pseudo (pg_dom p) (related (pg_dom p) False to_fieldset False (disabled_fieldset (pg_dom p)) e) True e"
| "pseudo_filter p Checked e =
     (lower_name (pg_dom p) e = ''input'' \<and> truthy (get_property (pg_dom p) e ''checked'') \<or>
      lower_name (pg_dom p) e = ''option'' \<and> truthy (get_property (pg_dom p) e ''selected''))"
| "pseudo_filter p Selected e = (get_property (pg_dom p) e ''selected'' = Bool True)"
| "pseudo_filter p Empty e = empty_filter (pg_dom p) e"
| "pseudo_filter p Parent e = (\<not> empty_filter (pg_dom p) e)"
| "pseudo_filter p Header e = header_name (nodeName (pg_dom p) e)"
| "pseudo_filter p Input e = (lower_name (pg_dom p) e \<in> {''input'', ''select'', ''textarea'', ''button''})"
| "pseudo_filter p Button e =
     (lower_name (pg_dom p) e = ''input'' \<and> prop_is (pg_dom p) e ''type'' ''button'' \<or>
      lower_name (pg_dom p) e = ''button'')"
| "pseudo_filter p Text e = text_filter (pg_dom p) (pg_html p) e"
| "pseudo_filter p (InputType type) e = input_filter (pg_dom p) type e"
| "pseudo_filter p (ButtonType type) e = button_filter (pg_dom p) type e"
| "pseudo_filter p (ContainsText raw) e = sublist (unescape (units raw)) (units (text_of (node_at (pg_dom p) e)))"
| "pseudo_filter p (Lang lang) e = lang_filter (pg_dom p) (pg_html p) lang e"

text \<open>The combinator decides what the filters of the engine ask, whatever the cache of the matchers
  holds.\<close>

lemma inDisabledFieldset_decides:
  "name \<notin> fst ` E \<Longrightarrow>
     decides run (insert (scan_entry d to_fieldset False (disabled_fieldset d) name) E)
       (related d False to_fieldset False (disabled_fieldset d)) (inDisabledFieldset d run name)"
  using combinator_decides [OF decides_pure, of name E run d to_fieldset False "disabled_fieldset d" False]
  by (simp add: inDisabledFieldset_def checks_all_def)

section \<open>The engine\<close>

text \<open>A token of a filter: its text, and its type with its arguments.\<close>

datatype kind =
    TAG string | ID string | CLASS string | ATTR string operator string
  | CHILD child_type bool int int | PSEUDO pseudo

record sz_filter =
  fl_value :: string
  fl_kind :: kind

fun filter_kind :: "page \<Rightarrow> kind \<Rightarrow> place \<Rightarrow> bool" where
  "filter_kind p (TAG n) e = tag_filter (pg_dom p) n e"
| "filter_kind p (ID n) e = id_filter (pg_dom p) (pg_html p) n e"
| "filter_kind p (CLASS n) e = class_filter (pg_dom p) (pg_html p) n e"
| "filter_kind p (ATTR n op v) e = attr_filter (pg_dom p) (pg_html p) n op v e"
| "filter_kind p (CHILD t of_type a b) e = child_holds (pg_dom p) t of_type a b e"
| "filter_kind p (PSEUDO ps) e = pseudo_filter p ps e"

fun find_kind :: "page \<Rightarrow> kind \<Rightarrow> place \<Rightarrow> place list option" where
  "find_kind p (TAG n) c = find_tag (pg_dom p) (pg_html p) (unescape (units n)) c"
| "find_kind p (ID n) c = find_id (pg_dom p) (pg_html p) (unescape (units n)) c"
| "find_kind p (CLASS n) c = find_class (pg_dom p) (pg_html p) (unescape (units n)) c"
| "find_kind p k c = None"

fun is_id :: "kind \<Rightarrow> bool" where
  "is_id (ID n) = True"
| "is_id k = False"

fun relative_text :: "relative \<Rightarrow> string" where
  "relative_text Child = ''>''"
| "relative_text Descendant = '' ''"
| "relative_text Adjacent = ''+''"
| "relative_text Sibling = ''~''"

fun token_text :: "sz_filter token \<Rightarrow> string" where
  "token_text (Relative r) = relative_text r"
| "token_text (Test f) = fl_value f"

definition tokens_text :: "sz_filter token list \<Rightarrow> string" where
  "tokens_text ts = concat (map token_text ts)"

text \<open>\<open>matchExpr.needsContext\<close>: a combinator at the start, or the name of a positional pseudo-class that a
  hyphen does not continue. \<open>rsibling\<close>: one of the two characters, anywhere.\<close>

definition positional_names :: "string list" where
  "positional_names = [''even'', ''odd'', ''eq'', ''gt'', ''lt'', ''nth'', ''first'', ''last'']"

fun positional_at :: "string \<Rightarrow> bool" where
  "positional_at [] = False"
| "positional_at (c # s) =
     (c = CHR '':'' \<and>
      list_ex (\<lambda>n. prefix n (to_lower s) \<and> (drop (length n) s = [] \<or> hd (drop (length n) s) \<noteq> CHR ''-'')) positional_names)"

definition combinator_first :: "string \<Rightarrow> bool" where
  "combinator_first s =
     (case dropWhile (\<lambda>c. is_white (of_char c)) s of [] \<Rightarrow> False | c # t \<Rightarrow> c \<in> {CHR ''>'', CHR ''+'', CHR ''~''})"

definition needsContext :: "string \<Rightarrow> bool" where
  "needsContext s \<longleftrightarrow> combinator_first s \<or> list_ex positional_at (suffixes s)"

definition rsibling :: "string \<Rightarrow> bool" where
  "rsibling s \<longleftrightarrow> list_ex (\<lambda>c. c = CHR ''+'' \<or> c = CHR ''~'') s"

definition engine_of :: "page \<Rightarrow> sz_filter engine" where
  "engine_of p =
     \<lparr>en_dom = pg_dom p, en_filter = (\<lambda>f. filter_kind p (fl_kind f)), en_find = (\<lambda>f. find_kind p (fl_kind f)),
      en_is_id = (\<lambda>f. is_id (fl_kind f)), en_html = pg_html p,
      en_needs = (\<lambda>ts. needsContext (tokens_text ts)), en_sibling = (\<lambda>ts. rsibling (tokens_text ts))\<rparr>"

section \<open>The engine provides the interface\<close>

text \<open>The names the finders treat as the filters do: tags of ASCII characters that are not the star in
  disguise, classes without escapes. \<open>:nth-last-child\<close> is left out: its cache makes it depend on the
  order of the questions (\<open>nth_last_out_of_order\<close>).\<close>

fun good_kind :: "kind \<Rightarrow> bool" where
  "good_kind (TAG n) = (n = ''*'' \<or> n \<noteq> '''' \<and> unescape (units n) \<noteq> [42] \<and> (\<forall>c \<in> set (unescape (units n)). c < 128))"
| "good_kind (ID n) = (n \<noteq> '''')"
| "good_kind (CLASS n) = (is_identifier (units n) \<and> 92 \<notin> set (units n))"
| "good_kind (CHILD t of_type a b) = (t \<noteq> NthLast \<or> of_type)"
| "good_kind k = True"

definition good_filter :: "sz_filter \<Rightarrow> bool" where
  "good_filter f = good_kind (fl_kind f)"

lemma code_units_nonempty: "code_units n \<noteq> []"
  by (simp add: code_units_def Let_def)

lemma unescape_nonempty: "s \<noteq> [] \<Longrightarrow> unescape s \<noteq> []"
  by (cases s) (auto simp: code_units_nonempty split: list.splits)

lemma unescape_plain: "92 \<notin> set s \<Longrightarrow> unescape s = s"
  by (induction s) auto

lemma identifier_not_white: "units_of_identifier s \<Longrightarrow> 92 \<notin> set s \<Longrightarrow> \<forall>c \<in> set s. \<not> is_white c"
proof (induction s)
  case (Cons c s)
  have white: "is_word c \<or> c = 45 \<or> 127 < c \<Longrightarrow> \<not> is_white c"
    by (auto simp: is_white_def is_word_def is_digit_def)
  have "c \<noteq> 92" using Cons.prems(2) by simp
  then have "is_word c \<or> c = 45 \<or> 127 < c" "units_of_identifier s"
    using Cons.prems(1) unfolding units_of_identifier.simps by (simp_all only: if_False)
  then show ?case using white Cons.IH Cons.prems(2) by simp
qed simp

lemma units_Nil [simp]: "units s = [] \<longleftrightarrow> s = []"
  by (simp add: units_def)

lemma lower_char_unit: "of_char (to_lower_char c) = (let n = (of_char c :: nat) in
    if 65 \<le> n \<and> n \<le> 90 \<or> 192 \<le> n \<and> n \<le> 222 \<and> n \<noteq> 215 then n + 32 else n)"
proof (cases "65 \<le> (of_char c :: nat) \<and> of_char c \<le> (90 :: nat) \<or>
    192 \<le> (of_char c :: nat) \<and> of_char c \<le> (222 :: nat) \<and> of_char c \<noteq> (215 :: nat)")
  case True
  then have "(of_char c :: nat) + 32 < 256" by linarith
  then have "of_char (char_of ((of_char c :: nat) + 32)) = (of_char c :: nat) + 32" by simp
  then show ?thesis using True unfolding to_lower_char_def Let_def by (simp only: if_True)
next
  case False
  then show ?thesis unfolding to_lower_char_def Let_def by (simp only: if_False)
qed

lemma lower_ascii:
  assumes "\<forall>c \<in> set q. c < 128"
  shows "units (to_lower s) = lower_units q \<longleftrightarrow> ascii_lower (units s) = ascii_lower q"
  using assms
proof (induction q arbitrary: s)
  case Nil
  then show ?case by (cases s) (simp_all add: units_def to_lower_def lower_units_def ascii_lower_def)
next
  case (Cons x q)
  show ?case
  proof (cases s)
    case Nil
    then show ?thesis by (simp add: units_def to_lower_def lower_units_def ascii_lower_def)
  next
    case (Cons c t)
    have "of_char (to_lower_char c) = lower_unit x \<longleftrightarrow>
        (if 65 \<le> (of_char c :: nat) \<and> of_char c \<le> (90 :: nat) then of_char c + 32 else of_char c) =
        (if 65 \<le> x \<and> x \<le> 90 then x + 32 else x)"
      using Cons.prems unfolding lower_char_unit Let_def lower_unit_def by auto
    with Cons.IH [of t] Cons.prems Cons show ?thesis
      by (simp add: units_def to_lower_def lower_units_def ascii_lower_def)
  qed
qed

lemma tag_finder:
  assumes "good_kind (TAG n)" "find_tag d True (unescape (units n)) c = Some xs"
  shows "xs = filter (tag_filter d n) (elements_below d c)"
proof -
  have star: "unescape (units ''*'') = [42]" by (simp add: units_def)
  have "xs = getElementsByTagName d True (unescape (units n)) c"
    using assms(2) by (simp add: find_tag_def split: if_splits)
  also have "\<dots> = filter (tag_filter d n) (elements_below d c)"
    unfolding getElementsByTagName_def
  proof (rule filter_cong [OF refl])
    fix e
    have "n \<noteq> '''' \<Longrightarrow> ascii_lower (units (nodeName d e)) = ascii_lower (unescape (units n)) \<Longrightarrow> nodeName d e \<noteq> ''''"
      using unescape_nonempty [of "units n"] by (auto simp: ascii_lower_def units_def)
    then show "(unescape (units n) = [42] \<or>
        (if True then ascii_lower (units (nodeName d e)) = ascii_lower (unescape (units n))
         else units (nodeName d e) = unescape (units n))) = tag_filter d n e"
      using assms(1) star lower_ascii [of "unescape (units n)" "nodeName d e"] by (auto simp: tag_filter_def)
  qed
  finally show ?thesis .
qed

lemma words_of_word: "\<forall>c \<in> set s. \<not> is_white c \<Longrightarrow> words_from w s = (if w @ s = [] then [] else [w @ s])"
  by (induction s arbitrary: w) auto

lemma good_class:
  assumes "good_kind (CLASS n)"
  shows "units n \<noteq> []" "\<forall>c \<in> set (units n). \<not> is_white c" "unescape (units n) = units n"
proof -
  have "units_of_identifier (units n)" "92 \<notin> set (units n)" using assms by (simp_all add: is_identifier_def)
  from identifier_not_white [OF this] unescape_plain [OF this(2)]
  show "\<forall>c \<in> set (units n). \<not> is_white c" "unescape (units n) = units n" .
  show "units n \<noteq> []" using assms by (simp add: is_identifier_def)
qed

lemma class_finder:
  assumes "good_kind (CLASS n)" "find_class d True (unescape (units n)) c = Some xs"
  shows "xs = filter (class_filter d True n) (elements_below d c)"
proof -
  note n = good_class [OF assms(1)]
  have "words_from [] (units n) = [units n]"
    using n words_of_word [of "units n" "[]"] by simp
  then show ?thesis using assms(2) n
    by (auto simp: find_class_def getElementsByClassName_def class_filter_def class_found_words
        split: if_splits intro!: filter_cong)
qed

lemma find_take: "(case find P xs of None \<Rightarrow> [] | Some x \<Rightarrow> [x]) = take 1 (filter P xs)"
  by (induction xs) simp_all

lemma id_finder:
  assumes "good_kind (ID n)" "find_id d True (unescape (units n)) c = Some xs"
  shows "xs = take 1 (filter (id_filter d True n) (elements_below d c))"
proof -
  have "unescape (units n) \<noteq> []" using assms(1) unescape_nonempty [of "units n"] by simp
  then have "xs = take 1 (filter (\<lambda>e. attribute d True e (units ''id'') = Some (unescape (units n))) (elements_below d c))"
    using assms(2) find_take by (auto simp: find_id_def getElementById_def split: if_splits)
  moreover have "(\<lambda>e. attribute d True e (units ''id'') = Some (unescape (units n))) = id_filter d True n"
    by (intro ext) (simp add: id_filter_def)
  ultimately show ?thesis by simp
qed

lemma leading_text:
  "leading_relative ts = Some r \<Longrightarrow> \<exists>s. tokens_text ts = relative_text r @ s"
  by (cases ts rule: leading_relative.cases) (auto simp: tokens_text_def)

lemma needsContext_leading:
  assumes "leading_relative ts \<in> {Some Child, Some Adjacent, Some Sibling}"
  shows "needsContext (tokens_text ts)"
proof -
  obtain r where r: "leading_relative ts = Some r" "r \<in> {Child, Adjacent, Sibling}" using assms by auto
  then obtain s where "tokens_text ts = relative_text r @ s" using leading_text by blast
  then show ?thesis using r(2) by (auto simp: needsContext_def combinator_first_def is_white_def)
qed

lemma rsibling_leading:
  assumes "leading_relative ts \<in> {Some Adjacent, Some Sibling}"
  shows "rsibling (tokens_text ts)"
proof -
  obtain r where r: "leading_relative ts = Some r" "r \<in> {Adjacent, Sibling}" using assms by auto
  then obtain s where "tokens_text ts = relative_text r @ s" using leading_text by blast
  then show ?thesis using r(2) by (auto simp: rsibling_def)
qed

lemma engine_simps [simp]:
  "en_dom (engine_of p) = pg_dom p" "en_filter (engine_of p) f = filter_kind p (fl_kind f)"
  "en_find (engine_of p) f = find_kind p (fl_kind f)" "en_is_id (engine_of p) f = is_id (fl_kind f)"
  "en_html (engine_of p) = pg_html p" "en_needs (engine_of p) ts = needsContext (tokens_text ts)"
  "en_sibling (engine_of p) ts = rsibling (tokens_text ts)"
  by (simp_all add: engine_of_def)

lemma kind_law:
  assumes "pg_html p" "good_kind k" "find_kind p k c = Some xs"
  shows "xs = (let ys = filter (filter_kind p k) (elements_below (pg_dom p) c) in if is_id k then take 1 ys else ys)"
proof (cases k)
  case (TAG n)
  have "filter_kind p k = tag_filter (pg_dom p) n" using TAG by (intro ext) simp
  then show ?thesis using TAG tag_finder [of n "pg_dom p" c xs] assms by (simp add: Let_def)
next
  case (ID n)
  have "filter_kind p k = id_filter (pg_dom p) True n" using ID assms(1) by (intro ext) simp
  then show ?thesis using ID id_finder [of n "pg_dom p" c xs] assms by (simp add: Let_def)
next
  case (CLASS n)
  have "filter_kind p k = class_filter (pg_dom p) True n" using CLASS assms(1) by (intro ext) simp
  then show ?thesis using CLASS class_finder [of n "pg_dom p" c xs] assms by (simp add: Let_def)
qed (use assms in simp_all)

interpretation sizzle: selection "engine_of p" good_filter for p
proof
  show "xs = (let ys = filter (en_filter (engine_of p) f) (elements_below (en_dom (engine_of p)) c)
      in if en_is_id (engine_of p) f then take 1 ys else ys)"
    if "en_html (engine_of p)" "good_filter f" "good_context (en_dom (engine_of p)) c"
      "en_find (engine_of p) f c = Some xs" for f c xs
  proof -
    have "en_filter (engine_of p) f = filter_kind p (fl_kind f)" by (intro ext) simp
    then show ?thesis using that kind_law [of p "fl_kind f" c xs] by (simp add: good_filter_def)
  qed
  show "en_find (engine_of p) f the_document \<noteq> None"
    if "en_is_id (engine_of p) f" "en_html (engine_of p)" "good_context (en_dom (engine_of p)) the_document" for f
    using that by (cases "fl_kind f") (simp_all add: find_id_def good_context_def)
qed (simp_all add: needsContext_leading rsibling_leading)

section \<open>Words of an attribute\<close>

text \<open>The padded word occurs in the padded text exactly when it is one of its words.\<close>

lemma prefix_up_to_space:
  "32 \<notin> set v \<Longrightarrow> 32 \<notin> set w \<Longrightarrow> prefix (v @ [32]) (w @ 32 # s) \<longleftrightarrow> v = w" for v w s :: "nat list"
proof (induction v arbitrary: w)
  case Nil
  then show ?case by (cases w) auto
next
  case (Cons x v)
  then show ?case by (cases w) auto
qed

lemma sublist_past_word:
  "32 \<notin> set w \<Longrightarrow> sublist (32 # v) (w @ s) \<longleftrightarrow> sublist (32 # v) s" for w :: "nat list"
  by (induction w) (auto simp: sublist_Cons_right)

lemma sublist_next_word:
  fixes v w s :: "nat list"
  assumes "32 \<notin> set v" "32 \<notin> set w"
  shows "sublist (32 # v @ [32]) (32 # w @ 32 # s) \<longleftrightarrow> v = w \<or> sublist (32 # v @ [32]) (32 # s)"
  using prefix_up_to_space [OF assms, of s] sublist_past_word [OF assms(2), of "v @ [32]" "32 # s"]
  by (simp add: sublist_Cons_right [of "32 # v @ [32]" 32 "w @ 32 # s"])

lemma padded_words:
  assumes "\<forall>c \<in> set v. \<not> is_white c" "v \<noteq> []"
  shows "\<forall>c \<in> set w. \<not> is_white c \<Longrightarrow>
      sublist (32 # v @ [32]) (32 # w @ collapse_white False s @ [32]) \<longleftrightarrow> v \<in> set (words_from w s)"
    and "sublist (32 # v @ [32]) (32 # collapse_white True s @ [32]) \<longleftrightarrow> v \<in> set (words_from [] s)"
proof (induction s arbitrary: w)
  have space: "is_white 32" by (simp add: is_white_def)
  have v: "32 \<notin> set v" using assms(1) space by blast
  {
    case Nil
    case 1
    then have "32 \<notin> set w" using space by blast
    moreover have "\<not> sublist (32 # v @ [32]) [32]" by (simp add: sublist_Cons_right)
    ultimately show ?case using sublist_next_word [OF v, of w "[]"] assms(2) by auto
  next
    case Nil
    case 2
    have "\<not> sublist (32 # v @ [32]) [32]" by (simp add: sublist_Cons_right)
    then show ?case using sublist_next_word [OF v, of "[]" "[]"] assms(2) by simp
  next
    case (Cons c s)
    case 1
    then have w: "32 \<notin> set w" using space by blast
    show ?case
    proof (cases "is_white c")
      case True
      then show ?thesis using sublist_next_word [OF v w, of "collapse_white True s @ [32]"] Cons(2) assms(2) by auto
    next
      case False
      then show ?thesis using Cons(1) [of "w @ [c]"] 1 by simp
    qed
  next
    case (Cons c s)
    case 2
    show ?case
    proof (cases "is_white c")
      case False
      then show ?thesis using Cons(1) [of "[c]"] by simp
    qed (use Cons(2) in simp)
  }
qed

lemma word_operator:
  assumes "good_kind (CLASS n)"
  shows "attr_holds Word (attr_check Word n) v \<longleftrightarrow> units n \<in> set (words_from [] v)"
  using padded_words(1) [OF good_class(2,1) [OF assms], of "[]" v] good_class(3) [OF assms]
  by (simp add: attr_check_def Let_def)

end
