(* ===== verification/Jq_Traverse.thy ===== *)
theory Jq_Traverse
  imports Sz_Filters Jq_Core
begin

text \<open>
  Matched sets of elements in docs/_static/jquery-3.5.1.js: the traversal methods (\<open>parents\<close>, \<open>next\<close>,
  \<open>children\<close> and so on), \<open>closest\<close>, \<open>index\<close>, \<open>add\<close>, \<open>has\<close>, \<open>filter\<close>, \<open>not\<close> and \<open>is\<close>. A selector is what
  \<open>matchesSelector\<close> answers for it. The lemmas show the order of the results.
\<close>

section \<open>Moving from one element\<close>

text \<open>\<open>dir\<close> on the nodes it visits; \<open>stop\<close> is \<open>jQuery( elem ).is( until )\<close>.\<close>

fun dir_loop :: "dom \<Rightarrow> (place \<Rightarrow> bool) option \<Rightarrow> place list \<Rightarrow> place list" where
  "dir_loop d stop [] = []"
| "dir_loop d stop (e # es) =
     (if nodeType d e = 9 then []
      else if is_element d e then
        (case stop of
           Some f \<Rightarrow> if f e then [] else e # dir_loop d stop es
         | None \<Rightarrow> e # dir_loop d stop es)
      else dir_loop d stop es)"

definition jq_dir :: "dom \<Rightarrow> way \<Rightarrow> (place \<Rightarrow> bool) option \<Rightarrow> place \<Rightarrow> place list" where
  "jq_dir d w stop e = dir_loop d stop (along d w e)"

text \<open>\<open>siblings\<close> on the children of a node.\<close>

definition element_kids :: "dom \<Rightarrow> place \<Rightarrow> place option \<Rightarrow> place list" where
  "element_kids d p elem = filter (\<lambda>n. is_element d n \<and> Some n \<noteq> elem) (childNodes d p)"

definition jq_sibling :: "dom \<Rightarrow> way \<Rightarrow> place \<Rightarrow> place option" where
  "jq_sibling d w e = find (is_element d) (along d w e)"

text \<open>The document of a frame and the content of a template are what the browser says.\<close>

record frames =
  fr_document :: "place \<Rightarrow> place option"
  fr_content :: "place \<Rightarrow> place option"

datatype traversal =
    TParent | TParents | TParentsUntil | TNext | TPrev | TNextAll | TPrevAll | TNextUntil | TPrevUntil
  | TSiblings | TChildren | TContents

fun traverse_one :: "dom \<Rightarrow> frames \<Rightarrow> traversal \<Rightarrow> (place \<Rightarrow> bool) option \<Rightarrow> place \<Rightarrow> place list" where
  "traverse_one d fr TParent stop e =
     (case parentNode e of Some p \<Rightarrow> if nodeType d p \<noteq> 11 then [p] else [] | None \<Rightarrow> [])"
| "traverse_one d fr TParents stop e = jq_dir d ParentNode None e"
| "traverse_one d fr TParentsUntil stop e = jq_dir d ParentNode stop e"
| "traverse_one d fr TNext stop e = (case jq_sibling d NextSibling e of Some x \<Rightarrow> [x] | None \<Rightarrow> [])"
| "traverse_one d fr TPrev stop e = (case jq_sibling d PreviousSibling e of Some x \<Rightarrow> [x] | None \<Rightarrow> [])"
| "traverse_one d fr TNextAll stop e = jq_dir d NextSibling None e"
| "traverse_one d fr TPrevAll stop e = jq_dir d PreviousSibling None e"
| "traverse_one d fr TNextUntil stop e = jq_dir d NextSibling stop e"
| "traverse_one d fr TPrevUntil stop e = jq_dir d PreviousSibling stop e"
| "traverse_one d fr TSiblings stop e = (case parentNode e of Some p \<Rightarrow> element_kids d p (Some e) | None \<Rightarrow> [])"
| "traverse_one d fr TChildren stop e = element_kids d e None"
| "traverse_one d fr TContents stop e =
     (case fr_document fr e of
        Some doc \<Rightarrow> [doc]
      | None \<Rightarrow>
          childNodes d
            (if lower_name d e = ''template'' then (case fr_content fr e of Some c \<Rightarrow> c | None \<Rightarrow> e) else e))"

section \<open>Filtering a set\<close>

text \<open>\<open>jQuery.filter\<close>; with \<open>not\<close> the selector is \<open>:not(...)\<close>.\<close>

definition jq_filter :: "dom \<Rightarrow> (place \<Rightarrow> bool) \<Rightarrow> place list \<Rightarrow> bool \<Rightarrow> place list" where
  "jq_filter d matches elems negated =
     (case elems of
        [elem] \<Rightarrow> if is_element d elem then (if matches elem \<noteq> negated then [elem] else []) else []
      | _ \<Rightarrow> filter (\<lambda>e. matches e \<noteq> negated) (grep (\<lambda>e i. is_element d e) False elems))"

datatype qualifier =
  ByFunction "place \<Rightarrow> nat \<Rightarrow> bool" | ByNode place | ByNodes "place list" | BySelector "place \<Rightarrow> bool"

fun winnow :: "dom \<Rightarrow> place list \<Rightarrow> qualifier \<Rightarrow> bool \<Rightarrow> place list" where
  "winnow d elements (ByFunction f) negated = grep (\<lambda>e i. f e i \<noteq> negated) False elements"
| "winnow d elements (ByNode q) negated = grep (\<lambda>e i. (e = q) \<noteq> negated) False elements"
| "winnow d elements (ByNodes qs) negated = grep (\<lambda>e i. (e \<in> set qs) \<noteq> negated) False elements"
| "winnow d elements (BySelector s) negated = jq_filter d s elements negated"

definition set_filter :: "dom \<Rightarrow> qualifier \<Rightarrow> place list \<Rightarrow> place list" where
  "set_filter d q elements = winnow d elements q False"

definition set_not :: "dom \<Rightarrow> qualifier \<Rightarrow> place list \<Rightarrow> place list" where
  "set_not d q elements = winnow d elements q True"

definition set_is :: "dom \<Rightarrow> qualifier \<Rightarrow> place list \<Rightarrow> bool" where
  "set_is d q elements \<longleftrightarrow> winnow d elements q False \<noteq> []"

section \<open>The methods\<close>

definition guaranteedUnique :: "traversal \<Rightarrow> bool" where
  "guaranteedUnique t \<longleftrightarrow> t \<in> {TChildren, TContents, TNext, TPrev}"

text \<open>The names that begin with \<open>parents\<close>, \<open>prevUntil\<close> or \<open>prevAll\<close>.\<close>

definition rparentsprev :: "traversal \<Rightarrow> bool" where
  "rparentsprev t \<longleftrightarrow> t \<in> {TParents, TParentsUntil, TPrevUntil, TPrevAll}"

text \<open>\<open>sorting\<close> is \<open>jQuery.uniqueSort\<close>.\<close>

definition traverse :: "dom \<Rightarrow> frames \<Rightarrow> (place list \<Rightarrow> place list) \<Rightarrow> traversal \<Rightarrow> (place \<Rightarrow> bool) option \<Rightarrow>
    (place \<Rightarrow> bool) option \<Rightarrow> place list \<Rightarrow> place list" where
  "traverse d fr sorting t until selector this =
     (let mapped = concat (map (traverse_one d fr t until) this);
          matched = (case selector of None \<Rightarrow> mapped | Some s \<Rightarrow> jq_filter d s mapped False)
      in if 1 < length this then
           (let unique = (if guaranteedUnique t then matched else sorting matched)
            in if rparentsprev t then rev unique else unique)
         else matched)"

text \<open>\<open>closest\<close>: a positional selector matches nothing; otherwise \<open>matches\<close> says whether a node is one of the
  targets, or an element that the selector matches.\<close>

definition closest_one :: "dom \<Rightarrow> (place \<Rightarrow> bool) \<Rightarrow> place option \<Rightarrow> place \<Rightarrow> place list" where
  "closest_one d matches context e =
     (case find (\<lambda>cur. nodeType d cur < 11 \<and> matches cur) (takeWhile (\<lambda>cur. Some cur \<noteq> context) (e # along d ParentNode e)) of
        None \<Rightarrow> []
      | Some cur \<Rightarrow> [cur])"

definition closest :: "dom \<Rightarrow> (place list \<Rightarrow> place list) \<Rightarrow> bool \<Rightarrow> (place \<Rightarrow> bool) \<Rightarrow> place option \<Rightarrow> place list \<Rightarrow> place list" where
  "closest d sorting positional matches context this =
     (let matched = (if positional then [] else concat (map (closest_one d matches context) this))
      in if 1 < length matched then sorting matched else matched)"

definition set_index :: "dom \<Rightarrow> frames \<Rightarrow> (place list \<Rightarrow> place list) \<Rightarrow> place list \<Rightarrow> int" where
  "set_index d fr sorting this =
     (case this of
        [] \<Rightarrow> -1
      | e # es \<Rightarrow>
          if parentNode e = None then -1 else int (length (traverse d fr sorting TPrevAll None None [e])))"

definition index_in :: "place list \<Rightarrow> place \<Rightarrow> int" where
  "index_in this e = index_of e this"

definition set_add :: "(place list \<Rightarrow> place list) \<Rightarrow> place list \<Rightarrow> place list \<Rightarrow> place list" where
  "set_add sorting this others = sorting (this @ others)"

text \<open>\<open>has\<close> and \<open>find\<close> with a set of targets; \<open>has_inside a b\<close> is \<open>jQuery.contains\<close>.\<close>

definition set_has :: "(place \<Rightarrow> place \<Rightarrow> bool) \<Rightarrow> place list \<Rightarrow> place list \<Rightarrow> place list" where
  "set_has has_inside targets this = grep (\<lambda>e i. list_ex (has_inside e) targets) False this"

definition find_targets :: "(place \<Rightarrow> place \<Rightarrow> bool) \<Rightarrow> place list \<Rightarrow> place list \<Rightarrow> place list" where
  "find_targets has_inside targets this = grep (\<lambda>t i. list_ex (\<lambda>e. has_inside e t) this) False targets"

text \<open>\<open>find\<close> with a selector; \<open>search\<close> is \<open>jQuery.find\<close> in one context.\<close>

definition find_selector :: "(place list \<Rightarrow> place list) \<Rightarrow> (place \<Rightarrow> place list) \<Rightarrow> place list \<Rightarrow> place list" where
  "find_selector sorting search this =
     (let ret = concat (map search this) in if 1 < length this then sorting ret else ret)"

section \<open>Order\<close>

text \<open>What the methods need of \<open>uniqueSort\<close>.\<close>

locale document_sorter =
  fixes d :: dom and sorting :: "place list \<Rightarrow> place list"
  assumes sorts: "\<forall>x \<in> set xs. is_node d x \<and> last x = 0 \<Longrightarrow> selects (sorting xs) (set xs)"

interpretation native_sorter: document_sorter d "uniqueSort detects (sortOrder_native d detached input)" for d detects detached input
proof
  show "selects (uniqueSort detects (sortOrder_native d detached input) xs) (set xs)"
    if "\<forall>x \<in> set xs. is_node d x \<and> last x = 0" for xs
    using that uniqueSort_sorts [of xs "sortOrder_native d detached input" detects] native_document_order
    by (simp add: selects_def)
qed

interpretation walk_sorter: document_sorter d "uniqueSort detects (sortOrder_walk d None input)" for d detects input
proof
  show "selects (uniqueSort detects (sortOrder_walk d None input) xs) (set xs)"
    if "\<forall>x \<in> set xs. is_node d x \<and> last x = 0" for xs
    using that uniqueSort_sorts [of xs "sortOrder_walk d None input" detects] walk_document_order
    by (simp add: selects_def)
qed

lemma grep_filter: "grep_from i (\<lambda>e j. P e) False xs = filter P xs"
  by (induction xs arbitrary: i) (auto simp: Let_def)

lemma jq_filter_eq: "jq_filter d s xs negated = filter (\<lambda>e. is_element d e \<and> s e \<noteq> negated) xs"
  by (cases xs rule: remdups_adj.cases) (auto simp: jq_filter_def grep_def grep_filter intro: filter_cong)

text \<open>No node that a loop meets is a document, but the last one on the way up.\<close>

lemma dir_loop_plain: "\<forall>x \<in> set es. nodeType d x \<noteq> 9 \<Longrightarrow> dir_loop d None es = filter (is_element d) es"
  by (induction es) auto

lemma dir_loop_up: "\<forall>x \<in> set es. nodeType d x \<noteq> 9 \<Longrightarrow> dir_loop d None (es @ [x]) = filter (is_element d) (es @ [x])"
  by (induction es) (auto simp: is_element_def)

lemma dir_loop_sorted: "sorted_wrt R es \<Longrightarrow> sorted_wrt R (dir_loop d stop es) \<and> set (dir_loop d stop es) \<subseteq> {x \<in> set es. is_element d x}"
  by (induction es) (auto split: option.splits)

lemma along_nodes:
  assumes "is_node d e" "x \<in> set (along d w e)"
  shows "is_node d x \<and> last x = last e"
proof (cases w)
  case ParentNode
  then have "inside x e" using assms(2) by (simp add: inside_def)
  then show ?thesis using assms(1) is_node_suffix by (auto simp: inside_iff)
next
  case PreviousSibling
  then show ?thesis using assms by (cases e rule: parents_of.cases) auto
next
  case NextSibling
  then show ?thesis using assms by (cases e rule: parents_of.cases) auto
qed

lemma sorted_map_upt: "sorted_wrt precedes (map (\<lambda>k. k # q) [m..<n])"
  using precedes_siblings [of _ _ "[]" q "[]"] by (auto simp: sorted_wrt_iff_nth_less)

lemma sorted_map_down: "sorted_wrt (\<lambda>x y. precedes y x) (map (\<lambda>k. k # q) (rev [m..<n]))"
  using sorted_map_upt [of q m n] by (simp add: rev_map [symmetric] sorted_wrt_rev)

lemma sorted_parents: "sorted_wrt (\<lambda>x y. precedes y x) (parents_of e) \<and> (\<forall>x \<in> set (parents_of e). precedes x e)"
proof (induction e rule: parents_of.induct)
  case (3 i j q)
  have "precedes (j # q) (i # j # q)" using precedes_below [of "[i]" "j # q"] by simp
  then show ?case using 3 precedes_trans by auto
qed simp_all

lemma along_sorted: "sorted_wrt (if w = NextSibling then precedes else (\<lambda>x y. precedes y x)) (along d w e)"
  using sorted_parents [of e] sorted_map_upt sorted_map_down
  by (cases w; cases e rule: parents_of.cases) simp_all

text \<open>The elements a method reaches from one element.\<close>

fun reached :: "traversal \<Rightarrow> place \<Rightarrow> place \<Rightarrow> bool" where
  "reached TParents e x \<longleftrightarrow> inside x e"
| "reached TNextAll e x \<longleftrightarrow> earlier_sibling e x"
| "reached TPrevAll e x \<longleftrightarrow> earlier_sibling x e"
| "reached TSiblings e x \<longleftrightarrow> earlier_sibling e x \<or> earlier_sibling x e"
| "reached t e x \<longleftrightarrow> False"

lemma document_at_top:
  assumes "well_formed d" "is_node d x" "nodeType d x = 9"
  shows "parentNode x = None"
  using assms unfolding well_formed_def by blast

lemma jq_dir_all:
  assumes "well_formed d" "is_node d e"
  shows "jq_dir d w None e = filter (is_element d) (along d w e)"
proof (cases "w = ParentNode")
  case False
  have "nodeType d x \<noteq> 9" if x: "x \<in> set (along d w e)" for x
  proof
    assume "nodeType d x = 9"
    then have "parentNode x = None" using document_at_top [OF assms(1)] along_nodes [OF assms(2) x] by blast
    then show False using x False by (cases w; cases e rule: parents_of.cases) (auto simp: parentNode_def)
  qed
  then show ?thesis unfolding jq_dir_def by (intro dir_loop_plain) blast
next
  case True
  have up: "is_node d e \<Longrightarrow> dir_loop d None (parents_of e) = filter (is_element d) (parents_of e)" for e
  proof (induction e rule: parents_of.induct)
    case (3 i j q)
    let ?p = "j # q"
    have p: "is_node d ?p" using is_node_suffix [of d "[i]" ?p] 3(2) by simp
    show ?case
    proof (cases "nodeType d ?p = 9")
      case True
      then have "parents_of ?p = []" using document_at_top [OF assms(1) p True]
        by (cases ?p rule: parents_of.cases) (simp_all add: parentNode_def)
      then show ?thesis using True by (simp add: is_element_def)
    next
      case False
      then show ?thesis using 3(1) [OF p] by simp
    qed
  qed simp_all
  then show ?thesis using True assms(2) by (simp add: jq_dir_def)
qed

lemma later_siblings:
  "is_node d x \<Longrightarrow> x \<in> set (along d NextSibling e) \<longleftrightarrow> earlier_sibling e x"
proof (cases e rule: parents_of.cases)
  case (3 i j q)
  assume x: "is_node d x"
  show ?thesis
  proof
    assume "earlier_sibling e x"
    then obtain m where "x = m # j # q" "i < m" using 3 by (auto simp: earlier_sibling_def)
    then show "x \<in> set (along d NextSibling e)" using 3 x by auto
  qed (use 3 in \<open>auto simp: earlier_sibling_def\<close>)
qed (auto simp: earlier_sibling_def)

lemma traverse_one_sorted:
  assumes "is_node d e" "last e = 0" "\<not> guaranteedUnique t"
  shows "sorted_wrt (if rparentsprev t then (\<lambda>x y. precedes y x) else precedes) (traverse_one d fr t stop e) \<and>
    (\<forall>x \<in> set (traverse_one d fr t stop e). is_node d x \<and> last x = 0)"
proof -
  have dir: "sorted_wrt (if w = NextSibling then precedes else (\<lambda>x y. precedes y x)) (jq_dir d w f e) \<and>
      (\<forall>x \<in> set (jq_dir d w f e). is_node d x \<and> last x = 0)" for w f
    using dir_loop_sorted [OF along_sorted [of w d e], where d = d and stop = f] along_nodes [OF assms(1), of _ w] assms(2)
    unfolding jq_dir_def by auto
  have par: "is_node d p \<and> last p = 0" if "parentNode e = Some p" for p
    using that along_nodes [OF assms(1), of p ParentNode] assms(2) along_moves [of d ParentNode e] by simp
  have kids: "sorted_wrt precedes (element_kids d p (Some e)) \<and> (\<forall>x \<in> set (element_kids d p (Some e)). is_node d x \<and> last x = 0)"
    if "parentNode e = Some p" for p
    using that assms(1,2) sorted_map_upt [of p 0 "length (kids_at d p)"]
    by (auto simp: element_kids_def childNodes_def parentNode_def sorted_wrt_filter split: list.splits)
  show ?thesis
    using assms(3) dir [of ParentNode] dir [of NextSibling] dir [of PreviousSibling] kids par
    by (cases t) (auto simp: guaranteedUnique_def rparentsprev_def split: option.splits)
qed

lemma traverse_one_reached:
  assumes "well_formed d" "is_node d e" "t \<in> {TParents, TNextAll, TPrevAll, TSiblings}"
  shows "set (traverse_one d fr t stop e) = {x. is_element d x \<and> reached t e x}"
proof -
  have el: "is_element d x \<Longrightarrow> x \<in> set (along d NextSibling e) \<longleftrightarrow> earlier_sibling e x" for x
    using later_siblings is_element_node by blast
  have kids: "set (element_kids d p (Some e)) = {x. is_element d x \<and> (earlier_sibling e x \<or> earlier_sibling x e)}"
    if p: "parentNode e = Some p" for p
  proof -
    obtain j where j: "e = j # p" "p \<noteq> []" using p by (auto simp: parentNode_def split: list.splits)
    have "x \<in> set (element_kids d p (Some e)) \<longleftrightarrow> is_element d x \<and> (earlier_sibling e x \<or> earlier_sibling x e)" for x
    proof -
      have "is_element d (i # p) \<Longrightarrow> i < length (kids_at d p)" for i using is_element_node [of d "i # p"] by simp
      moreover have "i < j \<or> j < i \<longleftrightarrow> i \<noteq> j" for i by auto
      ultimately show ?thesis using j by (auto simp: element_kids_def childNodes_def earlier_sibling_def)
    qed
    then show ?thesis by blast
  qed
  have orphan: "parentNode e = None \<Longrightarrow> \<not> earlier_sibling e x \<and> \<not> earlier_sibling x e" for x
    unfolding earlier_sibling_def by (metis option.distinct(1) parentNode_Cons)
  show ?thesis using assms(3) jq_dir_all [OF assms(1,2)] el earlier_siblings kids orphan
    by (cases "parentNode e") (auto simp: inside_def along.simps(1) simp del: along.simps(2,3))
qed

text \<open>The methods that sort, on any set of nodes of the document.\<close>

context document_sorter
begin

lemma traverse_sorted:
  assumes "\<forall>e \<in> set this. is_node d e \<and> last e = 0" "\<not> guaranteedUnique t"
  shows "sorted_wrt (if rparentsprev t then (\<lambda>x y. precedes y x) else precedes) (traverse d fr sorting t until selector this) \<and>
    set (traverse d fr sorting t until selector this) =
      {x \<in> \<Union> (set ` traverse_one d fr t until ` set this). case selector of None \<Rightarrow> True | Some s \<Rightarrow> is_element d x \<and> s x}"
proof -
  let ?R = "if rparentsprev t then (\<lambda>x y. precedes y x) else precedes"
  let ?mapped = "concat (map (traverse_one d fr t until) this)"
  let ?matched = "case selector of None \<Rightarrow> ?mapped | Some s \<Rightarrow> jq_filter d s ?mapped False"
  have set: "set ?matched = {x \<in> \<Union> (set ` traverse_one d fr t until ` set this).
      case selector of None \<Rightarrow> True | Some s \<Rightarrow> is_element d x \<and> s x}"
    by (auto simp: jq_filter_eq split: option.splits)
  have one: "sorted_wrt ?R (traverse_one d fr t until e)" "\<forall>x \<in> set (traverse_one d fr t until e). is_node d x \<and> last x = 0"
    if "e \<in> set this" for e
    using traverse_one_sorted [of d e t fr until] assms that by auto
  show ?thesis
  proof (cases "1 < length this")
    case True
    have "\<forall>x \<in> set ?matched. is_node d x \<and> last x = 0" using one(2) unfolding set by fastforce
    then have "selects (sorting ?matched) (set ?matched)" by (rule sorts)
    then have "sorted_wrt ?R (if rparentsprev t then rev (sorting ?matched) else sorting ?matched)"
      "set (sorting ?matched) = set ?matched"
      by (auto simp: selects_def sorted_wrt_rev)
    then show ?thesis using True assms(2) set by (auto simp: traverse_def Let_def)
  next
    case False
    have "sorted_wrt ?R ?mapped"
    proof (cases this)
      case (Cons e es)
      then show ?thesis using False one(1) [of e] by simp
    qed simp
    then have "sorted_wrt ?R (filter P ?mapped)" for P by (rule sorted_wrt_filter)
    with \<open>sorted_wrt ?R ?mapped\<close> have "sorted_wrt ?R ?matched" by (cases selector) (simp_all only: jq_filter_eq option.case)
    then show ?thesis using False set by (simp add: traverse_def Let_def)
  qed
qed

end

lemma set_index_position:
  assumes "well_formed d" "is_node d e" "parentNode e \<noteq> None"
  shows "set_index d fr sorting (e # es) = int (position d False False e) - 1"
proof -
  have "same_kind d False e = is_element d" by (intro ext) (simp add: same_kind_def)
  then show ?thesis using assms(3) jq_dir_all [OF assms(1,2), of PreviousSibling]
    by (auto simp: set_index_def traverse_def position_def simp del: along.simps)
qed

text \<open>From distinct elements \<open>children\<close>, \<open>next\<close> and \<open>prev\<close> reach distinct elements.\<close>

lemma next_of_elements:
  assumes "is_element d x" "is_element d y" "x \<noteq> y" "jq_sibling d w x = Some u" "jq_sibling d w y = Some u"
    "w \<noteq> ParentNode"
  shows False
proof -
  obtain i p where x: "x = i # p" "p \<noteq> []"
    using assms(4,6) by (cases x rule: parents_of.cases; cases w) (auto simp: jq_sibling_def)
  obtain j q where y: "y = j # q" "q \<noteq> []"
    using assms(5,6) by (cases y rule: parents_of.cases; cases w) (auto simp: jq_sibling_def)
  have in_x: "u \<in> set (along d w x)" and in_y: "u \<in> set (along d w y)"
    using assms(4,5) unfolding jq_sibling_def by (metis find_Some_iff nth_mem)+
  then have "p = q" using assms(6) x y by (cases w) (auto simp: siblings_before siblings_after simp del: along.simps)
  then have ij: "i \<noteq> j" using assms(3) x y by simp
  show False
  proof (cases w)
    case NextSibling
    have first: "\<not> is_element d (k # p)" if found: "jq_sibling d NextSibling (a # p) = Some (b # p)" and ks: "a < k" "k < b" for a b k
    proof -
      obtain n where n: "n < length (kids_at d p) - Suc a" "b = Suc a + n"
        "\<forall>m<n. \<not> is_element d ((Suc a + m) # p)"
        using found x(2) by (auto simp: jq_sibling_def siblings_after find_Some_iff simp del: along.simps)
      then have "k - Suc a < n" using n(1,2) ks by linarith
      then have "\<not> is_element d ((Suc a + (k - Suc a)) # p)" using n(3) by blast
      then show ?thesis using ks by simp
    qed
    obtain b where u: "u = b # p" "i < b" "j < b"
      using in_x in_y NextSibling x y \<open>p = q\<close> by (auto simp: siblings_after simp del: along.simps)
    show False
    proof (cases "i < j")
      case True
      then show False using first [of i b j] assms(2,4) x y u \<open>p = q\<close> NextSibling by simp
    next
      case False
      then show False using first [of j b i] assms(1,5) x y u \<open>p = q\<close> NextSibling ij by simp
    qed
  next
    case PreviousSibling
    have first: "\<not> is_element d (k # p)" if found: "jq_sibling d PreviousSibling (a # p) = Some (b # p)" and ks: "b < k" "k < a" for a b k
    proof -
      obtain n where n: "n < a" "b = a - Suc n" "\<forall>m<n. \<not> is_element d ((a - Suc m) # p)"
        using found x(2) by (auto simp: jq_sibling_def siblings_before find_Some_iff rev_nth simp del: along.simps)
      then have "a - Suc k < n" using n(1,2) ks by linarith
      then have "\<not> is_element d ((a - Suc (a - Suc k)) # p)" using n(3) by blast
      then show ?thesis using ks by simp
    qed
    obtain b where u: "u = b # p" "b < i" "b < j"
      using in_x in_y PreviousSibling x y \<open>p = q\<close> by (auto simp: siblings_before simp del: along.simps)
    show False
    proof (cases "i < j")
      case True
      then show False using first [of j b i] assms(1,5) x y u \<open>p = q\<close> PreviousSibling by simp
    next
      case False
      then show False using first [of i b j] assms(2,4) x y u \<open>p = q\<close> PreviousSibling ij by simp
    qed
  qed (use assms(6) in simp)
qed

lemma distinct_concat_map:
  "distinct xs \<Longrightarrow> (\<And>x. x \<in> set xs \<Longrightarrow> distinct (g x)) \<Longrightarrow>
     (\<And>x y. x \<in> set xs \<Longrightarrow> y \<in> set xs \<Longrightarrow> x \<noteq> y \<Longrightarrow> set (g x) \<inter> set (g y) = {}) \<Longrightarrow> distinct (concat (map g xs))"
  by (induction xs) fastforce+

lemma guaranteed_unique:
  assumes "distinct this" "\<forall>e \<in> set this. is_element d e" "t \<in> {TChildren, TNext, TPrev}"
  shows "distinct (traverse d fr sorting t until selector this)"
proof -
  have "distinct (concat (map (traverse_one d fr t until) this))"
  proof (rule distinct_concat_map [OF assms(1)])
    show "distinct (traverse_one d fr t until x)" for x
      using assms(3) by (auto simp: element_kids_def childNodes_def distinct_map inj_on_def split: option.splits)
    show "set (traverse_one d fr t until x) \<inter> set (traverse_one d fr t until y) = {}"
      if "x \<in> set this" "y \<in> set this" "x \<noteq> y" for x y
    proof -
      have apart: "jq_sibling d w x = Some u \<Longrightarrow> jq_sibling d w y = Some v \<Longrightarrow> u \<noteq> v"
        if "w \<noteq> ParentNode" for w u v
        using assms(2) \<open>x \<in> set this\<close> \<open>y \<in> set this\<close> \<open>x \<noteq> y\<close> next_of_elements [of d x y w] that by blast
      have one: "set (case jq_sibling d w x of Some u \<Rightarrow> [u] | None \<Rightarrow> []) \<inter>
          set (case jq_sibling d w y of Some u \<Rightarrow> [u] | None \<Rightarrow> []) = {}" if "w \<noteq> ParentNode" for w
        using apart [OF that] by (cases "jq_sibling d w x"; cases "jq_sibling d w y") simp_all
      have kids: "set (element_kids d x None) \<inter> set (element_kids d y None) = {}"
        using \<open>x \<noteq> y\<close> by (auto simp: element_kids_def childNodes_def)
      show ?thesis using assms(3) one [of NextSibling] one [of PreviousSibling] kids
        by (elim insertE emptyE) simp_all
    qed
  qed
  then show ?thesis using assms(3)
    by (auto simp: traverse_def Let_def jq_filter_eq guaranteedUnique_def rparentsprev_def split: option.splits)
qed

text \<open>Not so from other nodes: a text and the element before it have the same next element.\<close>

lemma next_of_text:
  "traverse [Dnode 1 ''DIV'' [] [] '''' [Dnode 1 ''P'' [] [] '''' [], Dnode 3 ''#text'' [] [] ''t'' [], Dnode 1 ''P'' [] [] '''' []]]
     \<lparr>fr_document = (\<lambda>e. None), fr_content = (\<lambda>e. None)\<rparr> id TNext None None [[0, 0], [1, 0]] = [[2, 0], [2, 0]]"
  by code_simp

end
