(* ===== verification/Jq_Event.thy ===== *)
theory Jq_Event
  imports Jq_Traverse Jq_Data
begin

text \<open>
  Events of docs/_static/jquery-3.5.1.js: registration (\<open>jQuery.event.add\<close>, \<open>remove\<close>), the choice of the
  handlers of an event and their calls (\<open>handlers\<close>, \<open>dispatch\<close>), the public \<open>on\<close>, \<open>one\<close> and \<open>off\<close>, and
  \<open>trigger\<close>. A function is a number; what it does to the page and to the event is an argument, as is
  what the selectors match. The native controllers of \<open>focus\<close>, \<open>blur\<close> and of clicks on check boxes
  (\<open>leverageNative\<close>), the substitute for a missing \<open>focusin\<close> and the default actions of the browser
  are left out.
\<close>

section \<open>Types and namespaces\<close>

definition hover_types :: "(string \<times> string) list" where
  "hover_types = [(''mouseenter'', ''mouseover''), (''mouseleave'', ''mouseout''),
     (''pointerenter'', ''pointerover''), (''pointerleave'', ''pointerout'')]"

definition delegateType :: "string \<Rightarrow> string option" where
  "delegateType = map_of ([(''focus'', ''focusin''), (''blur'', ''focusout'')] @ hover_types)"

definition bindType :: "string \<Rightarrow> string option" where
  "bindType = map_of hover_types"

definition event_type :: "string \<Rightarrow> string \<Rightarrow> string" where
  "event_type selector type =
     (case (if selector \<noteq> '''' then delegateType type else bindType type) of Some t \<Rightarrow> t | None \<Rightarrow> type)"

text \<open>\<open>rtypenamespace\<close>: the type and what follows the first full stop.\<close>

definition type_part :: "string \<Rightarrow> string" where
  "type_part t = takeWhile (\<lambda>c. c \<noteq> CHR ''.'') t"

definition namespace_part :: "string \<Rightarrow> string" where
  "namespace_part t = drop 1 (dropWhile (\<lambda>c. c \<noteq> CHR ''.'') t)"

definition sorted_names :: "string \<Rightarrow> string list" where
  "sorted_names s = array_sort (\<lambda>a b. string_less b a) (split_on CHR ''.'' s)"

text \<open>The expression \<open>(^|\.)a\.(?:.*\.|)b(\.|$)\<close> on a list of names joined by full stops, for names that are not
  empty and have no special characters.\<close>

definition names_match :: "string list \<Rightarrow> string list \<Rightarrow> bool" where
  "names_match ns namespace = subseq ns namespace"

section \<open>Registration\<close>

text \<open>A listener is a function or the function that \<open>one\<close> wraps around it, which shares its identifier.
  A host of listeners is a node or, as \<open>None\<close>, the window. A selector is empty when there is none.\<close>

datatype listener = Plain nat | Once nat

fun function_of :: "listener \<Rightarrow> nat" where
  "function_of (Plain f) = f"
| "function_of (Once f) = f"

type_synonym event_host = "place option"

record handle_obj =
  ho_type :: string
  ho_origType :: string
  ho_data :: jsval
  ho_handler :: listener
  ho_guid :: nat
  ho_selector :: string
  ho_namespace :: "string list"

text \<open>The table of a host has for each type the delegate count and the list.\<close>

type_synonym event_table = "(string \<times> nat \<times> handle_obj list) list"
type_synonym register = "event_table \<times> string list"

text \<open>\<open>ep_events\<close> is \<open>None\<close> when a host has no data of events; \<open>ep_listening\<close> has the types for which the
  browser calls the host's handle; \<open>ep_guids\<close> are the identifiers the functions have, and \<open>ep_guid\<close> is the
  counter \<open>jQuery.guid\<close>.\<close>

record event_page =
  ep_events :: "event_host \<Rightarrow> event_table option"
  ep_listening :: "event_host \<Rightarrow> string list"
  ep_guids :: "nat \<Rightarrow> nat option"
  ep_guid :: nat

definition no_events :: event_page where
  "no_events = \<lparr>ep_events = (\<lambda>h. None), ep_listening = (\<lambda>h. []), ep_guids = (\<lambda>f. None), ep_guid = 1\<rparr>"

definition takes_events :: "dom \<Rightarrow> event_host \<Rightarrow> bool" where
  "takes_events d this = (case this of None \<Rightarrow> True | Some p \<Rightarrow> nodeType d p = 1 \<or> nodeType d p = 9)"

definition give_guid :: "nat \<Rightarrow> event_page \<Rightarrow> nat \<times> event_page" where
  "give_guid f pg =
     (case ep_guids pg f of
        Some g \<Rightarrow> (g, pg)
      | None \<Rightarrow> (ep_guid pg, pg\<lparr>ep_guids := (ep_guids pg)(f := Some (ep_guid pg)), ep_guid := ep_guid pg + 1\<rparr>))"

definition find_handlers :: "event_table \<Rightarrow> string \<Rightarrow> nat \<times> handle_obj list" where
  "find_handlers table type = (case map_of table type of Some x \<Rightarrow> x | None \<Rightarrow> (0, []))"

definition handle_for :: "listener \<Rightarrow> nat \<Rightarrow> jsval \<Rightarrow> string \<Rightarrow> string \<Rightarrow> handle_obj" where
  "handle_for handler guid data selector t =
     \<lparr>ho_type = event_type selector (type_part t), ho_origType = type_part t, ho_data = data, ho_handler = handler,
      ho_guid = guid, ho_selector = selector, ho_namespace = sorted_names (namespace_part t)\<rparr>"

definition insert_handler :: "handle_obj \<Rightarrow> nat \<times> handle_obj list \<Rightarrow> nat \<times> handle_obj list" where
  "insert_handler obj handlers =
     (case handlers of (dcount, hs) \<Rightarrow>
        if ho_selector obj \<noteq> '''' then (dcount + 1, take dcount hs @ obj # drop dcount hs) else (dcount, hs @ [obj]))"

definition add_typed :: "listener \<Rightarrow> nat \<Rightarrow> jsval \<Rightarrow> string \<Rightarrow> string \<Rightarrow> register \<Rightarrow> register" where
  "add_typed handler guid data selector t reg =
     (if type_part t = '''' then reg
      else
        (let (table, listening) = reg;
             obj = handle_for handler guid data selector t
         in (put (ho_type obj) (insert_handler obj (find_handlers table (ho_type obj))) table,
             if map_of table (ho_type obj) = None then listening @ [ho_type obj] else listening)))"

definition event_words :: "string \<Rightarrow> string list" where
  "event_words types = (if html_words types = [] then [''''] else html_words types)"

definition event_add :: "dom \<Rightarrow> string \<Rightarrow> listener \<Rightarrow> jsval \<Rightarrow> string \<Rightarrow> event_host \<Rightarrow> event_page \<Rightarrow> event_page" where
  "event_add d types handler data selector this pg =
     (if \<not> takes_events d this then pg
      else
        (let (guid, pg1) = give_guid (function_of handler) pg;
             table = (case ep_events pg this of Some t \<Rightarrow> t | None \<Rightarrow> []);
             (table', listening') =
               fold (add_typed handler guid data selector) (rev (event_words types)) (table, ep_listening pg this)
         in pg1\<lparr>ep_events := (ep_events pg1)(this := Some table'), ep_listening := (ep_listening pg1)(this := listening')\<rparr>))"

text \<open>\<open>remove\<close>: whether a handler goes, one type with its namespaces, and the types of a word that has only
  namespaces.\<close>

definition goes :: "bool \<Rightarrow> string \<Rightarrow> nat option option \<Rightarrow> string \<Rightarrow> string \<Rightarrow> handle_obj \<Rightarrow> bool" where
  "goes mapped origType guid selector namespaces h \<longleftrightarrow>
     (mapped \<or> origType = ho_origType h) \<and>
     (case guid of None \<Rightarrow> True | Some g \<Rightarrow> g = Some (ho_guid h)) \<and>
     (namespaces = '''' \<or> names_match (sorted_names namespaces) (ho_namespace h)) \<and>
     (selector = '''' \<or> selector = ho_selector h \<or> selector = ''**'' \<and> ho_selector h \<noteq> '''')"

definition remove_type :: "nat option option \<Rightarrow> string \<Rightarrow> bool \<Rightarrow> string \<Rightarrow> register \<Rightarrow> register" where
  "remove_type guid selector mapped t reg =
     (let (table, listening) = reg;
          type = event_type selector (type_part t);
          (dcount, hs) = find_handlers table type;
          gone = goes mapped (type_part t) guid selector (namespace_part t);
          rest = filter (\<lambda>h. \<not> gone h) hs;
          dcount' = dcount - length (filter (\<lambda>h. gone h \<and> ho_selector h \<noteq> '''') hs)
      in if hs = [] then reg
         else if rest = [] then (filter (\<lambda>e. fst e \<noteq> type) table, filter (\<lambda>l. l \<noteq> type) listening)
         else (put type (dcount', rest) table, listening))"

definition remove_word :: "nat option option \<Rightarrow> string \<Rightarrow> string \<Rightarrow> register \<Rightarrow> register" where
  "remove_word guid selector t reg =
     (if type_part t = ''''
      then fold (\<lambda>type. remove_type guid selector True (type @ t)) (map fst (fst reg)) reg
      else remove_type guid selector False t reg)"

definition event_remove :: "string \<Rightarrow> listener option \<Rightarrow> string \<Rightarrow> event_host \<Rightarrow> event_page \<Rightarrow> event_page" where
  "event_remove types handler selector this pg =
     (case ep_events pg this of
        None \<Rightarrow> pg
      | Some table \<Rightarrow>
          (let guid = map_option (\<lambda>f. ep_guids pg (function_of f)) handler;
               (table', listening') = fold (remove_word guid selector) (rev (event_words types)) (table, ep_listening pg this)
           in pg\<lparr>ep_events := (ep_events pg)(this := (if table' = [] then None else Some table')),
                ep_listening := (ep_listening pg)(this := listening')\<rparr>))"

text \<open>\<open>on\<close>, \<open>one\<close> and \<open>off\<close> of a set of hosts.\<close>

definition jq_on :: "dom \<Rightarrow> event_host list \<Rightarrow> string \<Rightarrow> string \<Rightarrow> jsval \<Rightarrow> nat \<Rightarrow> bool \<Rightarrow> event_page \<Rightarrow> event_page" where
  "jq_on d hosts types selector data f one pg =
     (let pg1 = (if one then snd (give_guid f pg) else pg);
          handler = (if one then Once f else Plain f)
      in fold (event_add d types handler data selector) hosts pg1)"

definition jq_off :: "event_host list \<Rightarrow> string \<Rightarrow> string \<Rightarrow> listener option \<Rightarrow> event_page \<Rightarrow> event_page" where
  "jq_off hosts types selector handler pg = fold (event_remove types handler selector) hosts pg"

text \<open>\<open>off(event)\<close> for the handler object the event has at its delegate target.\<close>

definition off_event :: "event_host \<Rightarrow> handle_obj \<Rightarrow> event_page \<Rightarrow> event_page" where
  "off_event target h pg =
     jq_off [target] (ho_origType h @ (if ho_namespace h = [''''] then '''' else CHR ''.'' # join_with CHR ''.'' (ho_namespace h)))
       (ho_selector h) (Some (ho_handler h)) pg"

section \<open>Dispatch\<close>

text \<open>\<open>ev_names\<close> is empty for an event without namespaces.\<close>

record jq_event =
  ev_type :: string
  ev_target :: event_host
  ev_button :: int
  ev_related :: "place option"
  ev_names :: "string list"
  ev_stopped :: bool
  ev_stopped_now :: bool
  ev_prevented :: bool
  ev_result :: jsval

text \<open>\<open>matches sel this cur\<close>: whether \<open>cur\<close> is among the elements \<open>sel\<close> selects in \<open>this\<close>.\<close>

type_synonym element_matcher = "string \<Rightarrow> event_host \<Rightarrow> place \<Rightarrow> bool"
type_synonym handler_queue = "(event_host \<times> handle_obj list) list"

definition delegates_at :: "dom \<Rightarrow> element_matcher \<Rightarrow> event_host \<Rightarrow> jq_event \<Rightarrow> handle_obj list \<Rightarrow> place \<Rightarrow> handler_queue" where
  "delegates_at d matches this ev delegates cur =
     (if is_element d cur \<and> \<not> (ev_type ev = ''click'' \<and> get_property d cur ''disabled'' = Bool True) then
        (let hs = filter (\<lambda>h. matches (ho_selector h) this cur) delegates
         in if hs = [] then [] else [(Some cur, hs)])
      else [])"

definition event_handlers :: "dom \<Rightarrow> element_matcher \<Rightarrow> event_host \<Rightarrow> jq_event \<Rightarrow> nat \<times> handle_obj list \<Rightarrow> handler_queue" where
  "event_handlers d matches this ev handlers =
     (case handlers of (dcount, hs) \<Rightarrow>
        (if dcount \<noteq> 0 \<and> \<not> (ev_type ev = ''click'' \<and> 1 \<le> ev_button ev)
         then (case ev_target ev of
                 None \<Rightarrow> []
               | Some target \<Rightarrow>
                   concat (map (delegates_at d matches this ev (take dcount hs))
                     (takeWhile (\<lambda>x. Some x \<noteq> this) (target # along d ParentNode target))))
         else [])
        @ (if dcount < length hs then [(this, drop dcount hs)] else []))"

text \<open>What a handler does: its result and what it asks of the event.\<close>

record handler_outcome =
  oc_result :: jsval
  oc_stop :: bool
  oc_stop_now :: bool
  oc_prevent :: bool

definition after_call :: "handler_outcome \<Rightarrow> jq_event \<Rightarrow> jq_event" where
  "after_call oc ev =
     ev\<lparr>ev_stopped := ev_stopped ev \<or> oc_stop oc \<or> oc_stop_now oc \<or> oc_result oc = Bool False,
       ev_stopped_now := ev_stopped_now ev \<or> oc_stop_now oc,
       ev_prevented := ev_prevented ev \<or> oc_prevent oc \<or> oc_result oc = Bool False,
       ev_result := (if oc_result oc = Undefined then ev_result ev else oc_result oc)\<rparr>"

text \<open>A handler is called when its namespaces include those of the event, and a handler of \<open>mouseenter\<close> and its
  like when the pointer comes from outside the element.\<close>

definition from_outside :: "event_host \<Rightarrow> jq_event \<Rightarrow> bool" where
  "from_outside this ev =
     (case ev_related ev of
        None \<Rightarrow> True
      | Some r \<Rightarrow> Some r \<noteq> this \<and> (case this of Some e \<Rightarrow> \<not> inside e r | None \<Rightarrow> True))"

definition is_called :: "event_host \<Rightarrow> jq_event \<Rightarrow> handle_obj \<Rightarrow> bool" where
  "is_called this ev h \<longleftrightarrow>
     (ev_names ev = [] \<or> names_match (ev_names ev) (ho_namespace h)) \<and>
     (ho_origType h \<notin> fst ` set hover_types \<or> from_outside this ev)"

text \<open>The state of a dispatch: the event, the page with what else the functions change, and the calls so far.
  \<open>behave f this h ev\<close> is what the function \<open>f\<close> does; the wrapper of \<open>one\<close> takes the handler off first.\<close>

type_synonym 'x behaviour =
  "nat \<Rightarrow> event_host \<Rightarrow> handle_obj \<Rightarrow> jq_event \<Rightarrow> event_page \<times> 'x \<Rightarrow> handler_outcome \<times> event_page \<times> 'x"
type_synonym 'x dispatching = "jq_event \<times> (event_page \<times> 'x) \<times> (event_host \<times> handle_obj) list"

definition call_listener :: "'x behaviour \<Rightarrow> event_host \<Rightarrow> event_host \<Rightarrow> handle_obj \<Rightarrow> jq_event \<Rightarrow> event_page \<times> 'x \<Rightarrow>
    handler_outcome \<times> event_page \<times> 'x" where
  "call_listener behave target this h ev s =
     (case ho_handler h of
        Plain f \<Rightarrow> behave f this h ev s
      | Once f \<Rightarrow> behave f this h ev (off_event target h (fst s), snd s))"

fun run_handlers :: "'x behaviour \<Rightarrow> event_host \<Rightarrow> event_host \<Rightarrow> handle_obj list \<Rightarrow> 'x dispatching \<Rightarrow> 'x dispatching" where
  "run_handlers behave target this [] st = st"
| "run_handlers behave target this (h # hs) (ev, s, calls) =
     (if ev_stopped_now ev then (ev, s, calls)
      else if is_called this ev h then
        (case call_listener behave target this h ev s of (oc, s1) \<Rightarrow>
           run_handlers behave target this hs (after_call oc ev, s1, calls @ [(this, h)]))
      else run_handlers behave target this hs (ev, s, calls))"

fun run_queue :: "'x behaviour \<Rightarrow> event_host \<Rightarrow> handler_queue \<Rightarrow> 'x dispatching \<Rightarrow> 'x dispatching" where
  "run_queue behave target [] st = st"
| "run_queue behave target ((this, hs) # q) st =
     (if ev_stopped (fst st) then st else run_queue behave target q (run_handlers behave target this hs st))"

definition handlers_of :: "event_page \<Rightarrow> event_host \<Rightarrow> string \<Rightarrow> nat \<times> handle_obj list" where
  "handlers_of pg this type = (case ep_events pg this of Some t \<Rightarrow> find_handlers t type | None \<Rightarrow> (0, []))"

definition dispatch :: "dom \<Rightarrow> element_matcher \<Rightarrow> 'x behaviour \<Rightarrow> event_host \<Rightarrow> 'x dispatching \<Rightarrow> 'x dispatching" where
  "dispatch d matches behave this st =
     (case st of (ev, s, calls) \<Rightarrow>
        run_queue behave this (event_handlers d matches this ev (handlers_of (fst s) this (ev_type ev))) st)"

section \<open>Trigger\<close>

text \<open>The hosts an event of a script passes: the element, its ancestors and, in a document, the window. An event
  of type \<open>focus\<close> or \<open>blur\<close> passes the element twice, the second time as \<open>focusin\<close> or \<open>focusout\<close>; \<open>load\<close> does not
  bubble.\<close>

definition bubble_type :: "string \<Rightarrow> string" where
  "bubble_type type = (case delegateType type of Some t \<Rightarrow> t | None \<Rightarrow> type)"

definition event_path :: "dom \<Rightarrow> bool \<Rightarrow> string \<Rightarrow> event_host \<Rightarrow> event_host list" where
  "event_path d onlyHandlers type elem =
     (case elem of
        None \<Rightarrow> [None]
      | Some e \<Rightarrow>
          if onlyHandlers \<or> type = ''load'' then [Some e]
          else
            (let up = (if bubble_type type @ type \<in> {''focusinfocus'', ''focusoutblur''} then [e] else []) @ along d ParentNode e;
                 tmp = (if up = [] then e else last up)
             in Some e # map Some up @ (if nodeType d tmp = 9 then [None] else [])))"

text \<open>\<open>inline this type\<close> is the function of the property \<open>on...\<close> of a host, if it has one.\<close>

type_synonym 'x inline = "event_host \<Rightarrow> string \<Rightarrow> (jq_event \<Rightarrow> event_page \<times> 'x \<Rightarrow> handler_outcome \<times> event_page \<times> 'x) option"

definition after_inline :: "handler_outcome \<Rightarrow> jq_event \<Rightarrow> jq_event" where
  "after_inline oc ev =
     ev\<lparr>ev_stopped := ev_stopped ev \<or> oc_stop oc \<or> oc_stop_now oc,
       ev_stopped_now := ev_stopped_now ev \<or> oc_stop_now oc,
       ev_prevented := ev_prevented ev \<or> oc_prevent oc \<or> oc_result oc = Bool False,
       ev_result := oc_result oc\<rparr>"

definition fire_at :: "dom \<Rightarrow> element_matcher \<Rightarrow> 'x behaviour \<Rightarrow> 'x inline \<Rightarrow> string \<Rightarrow> event_host \<Rightarrow> 'x dispatching \<Rightarrow> 'x dispatching" where
  "fire_at d matches behave inline type cur st =
     (let st1 = (if snd (handlers_of (fst (fst (snd st))) cur (ev_type (fst st))) = [] then st
                 else dispatch d matches behave cur st)
      in if CHR '':'' \<in> set type \<or> \<not> takes_events d cur then st1
         else
           (case inline cur type of
              None \<Rightarrow> st1
            | Some native \<Rightarrow>
                (case st1 of (ev, s, calls) \<Rightarrow>
                   case native ev s of (oc, s1) \<Rightarrow> (after_inline oc ev, s1, calls))))"

fun fire_path :: "dom \<Rightarrow> element_matcher \<Rightarrow> 'x behaviour \<Rightarrow> 'x inline \<Rightarrow> string \<Rightarrow> string \<Rightarrow> event_host list \<Rightarrow> 'x dispatching \<Rightarrow>
    'x dispatching" where
  "fire_path d matches behave inline type typed [] st = st"
| "fire_path d matches behave inline type typed (cur # path) (ev, s) =
     (if ev_stopped ev then (ev, s)
      else
        fire_path d matches behave inline type (bubble_type type) path
          (fire_at d matches behave inline type cur (ev\<lparr>ev_type := typed\<rparr>, s)))"

definition trigger_names :: "string \<Rightarrow> string list" where
  "trigger_names event =
     (let ns = (if CHR ''.'' \<in> set event then sorted_names (namespace_part event) else [])
      in if ns = [''''] then [] else ns)"

text \<open>The default action is due when the element takes events and nothing prevented it; \<open>special._default\<close> of
  \<open>focus\<close>, \<open>blur\<close> and \<open>click\<close> may still refuse it.\<close>

definition trigger :: "dom \<Rightarrow> element_matcher \<Rightarrow> 'x behaviour \<Rightarrow> 'x inline \<Rightarrow> string \<Rightarrow> event_host \<Rightarrow> bool \<Rightarrow> event_page \<times> 'x \<Rightarrow>
    'x dispatching \<times> bool" where
  "trigger d matches behave inline event elem onlyHandlers s =
     (let type = type_part event;
          ev = \<lparr>ev_type = type, ev_target = elem, ev_button = 0, ev_related = None, ev_names = trigger_names event,
                ev_stopped = False, ev_stopped_now = False, ev_prevented = False, ev_result = Undefined\<rparr>
      in if (case elem of Some e \<Rightarrow> nodeType d e \<in> {3, 8} | None \<Rightarrow> False) then ((ev, s, []), False)
         else
           (let (ev1, s1, calls) =
                  fire_path d matches behave inline type (case bindType type of Some t \<Rightarrow> t | None \<Rightarrow> type)
                    (event_path d onlyHandlers type elem) (ev, s, [])
            in ((ev1\<lparr>ev_type := type\<rparr>, s1, calls),
                \<not> onlyHandlers \<and> \<not> ev_prevented ev1 \<and> takes_events d elem)))"

section \<open>The tables\<close>

definition delegated :: "handle_obj \<Rightarrow> bool" where
  "delegated h \<longleftrightarrow> ho_selector h \<noteq> ''''"

text \<open>A list of handlers of a type: not empty, the delegated ones in front and counted.\<close>

definition handlers_ok :: "string \<Rightarrow> nat \<times> handle_obj list \<Rightarrow> bool" where
  "handlers_ok type handlers \<longleftrightarrow>
     (case handlers of (dcount, hs) \<Rightarrow>
        hs \<noteq> [] \<and> (\<forall>h \<in> set hs. ho_type h = type) \<and> dcount = length (filter delegated hs) \<and>
        hs = filter delegated hs @ filter (\<lambda>h. \<not> delegated h) hs)"

definition table_ok :: "event_table \<Rightarrow> bool" where
  "table_ok table \<longleftrightarrow> distinct (map fst table) \<and> (\<forall>(type, handlers) \<in> set table. handlers_ok type handlers)"

definition register_ok :: "register \<Rightarrow> bool" where
  "register_ok reg \<longleftrightarrow> table_ok (fst reg) \<and> distinct (snd reg) \<and> set (snd reg) = fst ` set (fst reg)"

definition all_handlers :: "event_table \<Rightarrow> handle_obj set" where
  "all_handlers table = (\<Union>(type, dcount, hs) \<in> set table. set hs)"

text \<open>The invariant of a page, in parts: every register is in order, every handler has the names of a word
  and the identifier of its function, and different functions have different identifiers below the counter.\<close>

definition named :: "handle_obj \<Rightarrow> bool" where
  "named h \<longleftrightarrow>
     (\<exists>t. word t \<and> type_part t \<noteq> '''' \<and> ho_origType h = type_part t \<and> ho_namespace h = sorted_names (namespace_part t) \<and>
          ho_type h = event_type (ho_selector h) (type_part t))"

definition guids_ok :: "event_page \<Rightarrow> bool" where
  "guids_ok pg \<longleftrightarrow>
     (\<forall>f g. ep_guids pg f = Some g \<longrightarrow> g < ep_guid pg \<and> (\<forall>f'. ep_guids pg f' = Some g \<longrightarrow> f' = f)) \<and>
     (\<forall>this table h. ep_events pg this = Some table \<longrightarrow> h \<in> all_handlers table \<longrightarrow>
        named h \<and> ep_guids pg (function_of (ho_handler h)) = Some (ho_guid h))"

definition host_ok :: "event_table option \<Rightarrow> string list \<Rightarrow> bool" where
  "host_ok shelf listening =
     (case shelf of None \<Rightarrow> listening = [] | Some table \<Rightarrow> register_ok (table, listening))"

definition registers_ok :: "event_page \<Rightarrow> bool" where
  "registers_ok pg \<longleftrightarrow> (\<forall>this. host_ok (ep_events pg this) (ep_listening pg this))"

lemma event_type_name: "ho_type (handle_for handler guid data selector t) = event_type selector (type_part t)"
  by (simp add: handle_for_def)

lemma handlers_ok_insert:
  assumes "handlers_ok type (dcount, hs) \<or> dcount = 0 \<and> hs = []" "ho_type h = type"
  shows "handlers_ok type (insert_handler h (dcount, hs))"
proof (cases "hs = []")
  case True
  then show ?thesis using assms by (auto simp: handlers_ok_def insert_handler_def delegated_def)
next
  case False
  then have ok: "handlers_ok type (dcount, hs)" using assms by simp
  define front where "front = filter delegated hs"
  define later where "later = filter (\<lambda>h. \<not> delegated h) hs"
  have hs: "hs = front @ later" and dcount: "dcount = length front" and types: "\<forall>x \<in> set hs. ho_type x = type"
    using ok by (simp_all add: handlers_ok_def front_def later_def)
  have f: "filter delegated front = front" "filter delegated later = []"
      "filter (\<lambda>h. \<not> delegated h) front = []" "filter (\<lambda>h. \<not> delegated h) later = later"
    by (simp_all add: front_def later_def)
  show ?thesis using types assms(2) f
    by (auto simp: handlers_ok_def insert_handler_def hs dcount delegated_def [symmetric])
qed

lemma handlers_ok_filter:
  assumes "handlers_ok type (dcount, hs)" "filter P hs \<noteq> []"
  shows "handlers_ok type (dcount - length (filter (\<lambda>h. \<not> P h \<and> delegated h) hs), filter P hs)"
proof -
  have hs: "hs = filter delegated hs @ filter (\<lambda>h. \<not> delegated h) hs"
    and dcount: "dcount = length (filter delegated hs)" and types: "\<forall>x \<in> set hs. ho_type x = type"
    using assms(1) by (simp_all add: handlers_ok_def)
  have "filter P hs = filter P (filter delegated hs) @ filter P (filter (\<lambda>h. \<not> delegated h) hs)"
    by (subst hs) simp
  then have split: "filter P hs = filter delegated (filter P hs) @ filter (\<lambda>h. \<not> delegated h) (filter P hs)"
    by (simp add: conj_ac)
  have "length (filter delegated (filter P hs)) + length (filter (\<lambda>h. \<not> P h \<and> delegated h) hs) = length (filter delegated hs)"
    using sum_length_filter_compl [of P "filter delegated hs"] by (simp add: conj_commute)
  then have "dcount - length (filter (\<lambda>h. \<not> P h \<and> delegated h) hs) = length (filter delegated (filter P hs))"
    unfolding dcount by linarith
  moreover have "\<forall>x \<in> set (filter P hs). ho_type x = type" using types by simp
  ultimately show ?thesis using split assms(2) unfolding handlers_ok_def prod.case by blast
qed

lemma table_find:
  assumes "table_ok table"
  shows "handlers_ok type (find_handlers table type) \<or> find_handlers table type = (0, []) \<and> map_of table type = None"
  using assms by (auto simp: table_ok_def find_handlers_def split: option.splits dest: map_of_SomeD)

lemma set_put: "distinct (map fst ps) \<Longrightarrow> set (put k v ps) = insert (k, v) {p \<in> set ps. fst p \<noteq> k}"
  by (auto simp: put_def set_insert_prop image_iff)

lemma register_ok_add:
  assumes "register_ok reg"
  shows "register_ok (add_typed handler guid data selector t reg)"
proof -
  obtain table listening where reg: "reg = (table, listening)" by (cases reg)
  define h where "h = handle_for handler guid data selector t"
  have ok: "table_ok table" "distinct listening" "set listening = fst ` set table"
    using assms by (simp_all add: register_ok_def reg)
  obtain dcount hs where fh: "find_handlers table (ho_type h) = (dcount, hs)"
    by (cases "find_handlers table (ho_type h)")
  have "handlers_ok (ho_type h) (insert_handler h (dcount, hs))"
    using handlers_ok_insert table_find [OF ok(1), of "ho_type h"] fh by auto
  then have "table_ok (put (ho_type h) (insert_handler h (dcount, hs)) table)"
    using ok(1) by (auto simp: table_ok_def set_put)
  moreover have "map_of table (ho_type h) = None \<longleftrightarrow> ho_type h \<notin> set listening"
    using ok(3) by (simp add: map_of_eq_None_iff)
  ultimately show ?thesis using ok
    by (auto simp: register_ok_def reg add_typed_def h_def [symmetric] fh Let_def)
qed

lemma register_ok_remove_type:
  assumes "register_ok reg"
  shows "register_ok (remove_type guid selector mapped t reg)"
proof -
  obtain table listening where reg: "reg = (table, listening)" by (cases reg)
  define type where "type = event_type selector (type_part t)"
  obtain dcount hs where fh: "find_handlers table type = (dcount, hs)" by (cases "find_handlers table type")
  define gone where "gone = goes mapped (type_part t) guid selector (namespace_part t)"
  have ok: "table_ok table" "distinct listening" "set listening = fst ` set table"
    using assms by (simp_all add: register_ok_def reg)
  have eq: "remove_type guid selector mapped t reg =
      (if hs = [] then reg
       else if filter (\<lambda>h. \<not> gone h) hs = []
            then (filter (\<lambda>e. fst e \<noteq> type) table, filter (\<lambda>l. l \<noteq> type) listening)
       else (put type (dcount - length (filter (\<lambda>h. \<not> \<not> gone h \<and> delegated h) hs), filter (\<lambda>h. \<not> gone h) hs) table, listening))"
    by (simp add: remove_type_def reg type_def [symmetric] fh gone_def Let_def delegated_def)
  have "table_ok (filter (\<lambda>e. fst e \<noteq> type) table)"
    using ok(1) by (auto simp: table_ok_def distinct_map_filter)
  moreover have "table_ok (put type (dcount - length (filter (\<lambda>h. \<not> \<not> gone h \<and> delegated h) hs), filter (\<lambda>h. \<not> gone h) hs) table)
      \<and> type \<in> set listening" if "filter (\<lambda>h. \<not> gone h) hs \<noteq> []"
  proof -
    have "handlers_ok type (dcount, hs)" "map_of table type \<noteq> None"
      using table_find [OF ok(1), of type] fh that by (auto simp: find_handlers_def split: option.splits)
    then show ?thesis using handlers_ok_filter [OF _ that] ok
      by (auto simp: table_ok_def set_put map_of_eq_None_iff)
  qed
  ultimately show ?thesis using ok assms unfolding eq register_ok_def by (auto simp: insert_absorb)
qed

lemma fold_keeps: "(\<And>x s. x \<in> set xs \<Longrightarrow> P s \<Longrightarrow> P (g x s)) \<Longrightarrow> P s \<Longrightarrow> P (fold g xs s)"
  by (induction xs arbitrary: s) auto

lemma remove_word_keeps:
  assumes "\<And>m w r. P r \<Longrightarrow> P (remove_type guid selector m w r)" "P reg"
  shows "P (remove_word guid selector t reg)"
proof (cases "type_part t = ''''")
  case True
  have "P (fold (\<lambda>type. remove_type guid selector True (type @ t)) types reg)" for types
    by (rule fold_keeps [where P = P, OF _ assms(2)]) (rule assms(1))
  then show ?thesis using True by (simp add: remove_word_def)
qed (simp add: remove_word_def assms)

lemma register_ok_remove_word: "register_ok reg \<Longrightarrow> register_ok (remove_word guid selector t reg)"
  by (rule remove_word_keeps [where P = register_ok]) (rule register_ok_remove_type)

lemma handlers_ok_parts:
  assumes "handlers_ok type (dcount, hs)"
  shows "hs \<noteq> [] \<and> (\<forall>h \<in> set hs. ho_type h = type) \<and> (\<forall>h \<in> set (take dcount hs). ho_selector h \<noteq> '''') \<and>
    (\<forall>h \<in> set (drop dcount hs). ho_selector h = '''') \<and> dcount \<le> length hs"
proof -
  define front where "front = filter delegated hs"
  define rest where "rest = filter (\<lambda>h. \<not> delegated h) hs"
  have hs: "hs = front @ rest" "dcount = length front" "hs \<noteq> []" "\<forall>h \<in> set hs. ho_type h = type"
    using assms by (simp_all add: handlers_ok_def front_def rest_def)
  have "take dcount hs = front" "drop dcount hs = rest" "dcount \<le> length hs" by (simp_all add: hs(1,2))
  moreover have "\<forall>h \<in> set front. ho_selector h \<noteq> ''''" "\<forall>h \<in> set rest. ho_selector h = ''''"
    by (simp_all add: front_def rest_def delegated_def)
  ultimately show ?thesis using hs(3,4) by metis
qed

section \<open>Pages\<close>

lemma all_handlers_add:
  assumes "table_ok (fst reg)"
  shows "all_handlers (fst (add_typed handler guid data selector t reg)) \<subseteq>
    insert (handle_for handler guid data selector t) (all_handlers (fst reg))"
proof -
  obtain table listening where reg: "reg = (table, listening)" by (cases reg)
  define h where "h = handle_for handler guid data selector t"
  obtain dcount hs where fh: "find_handlers table (ho_type h) = (dcount, hs)"
    by (cases "find_handlers table (ho_type h)")
  have "set (snd (insert_handler h (dcount, hs))) = insert h (set hs)"
    using append_take_drop_id [of dcount hs] set_append [of "take dcount hs" "drop dcount hs"]
    by (auto simp: insert_handler_def)
  moreover have "set hs \<subseteq> all_handlers table"
    using fh by (auto simp: find_handlers_def all_handlers_def split: option.splits dest!: map_of_SomeD)
  ultimately show ?thesis using assms
    by (cases "insert_handler h (dcount, hs)")
      (auto simp: add_typed_def reg h_def [symmetric] fh Let_def all_handlers_def set_put table_ok_def)
qed

lemma all_handlers_remove_type:
  assumes "table_ok (fst reg)"
  shows "all_handlers (fst (remove_type guid selector mapped t reg)) \<subseteq> all_handlers (fst reg)"
proof -
  obtain table listening where reg: "reg = (table, listening)" by (cases reg)
  obtain dcount hs where fh: "find_handlers table (event_type selector (type_part t)) = (dcount, hs)"
    by (cases "find_handlers table (event_type selector (type_part t))")
  have "set hs \<subseteq> all_handlers table"
    using fh by (auto simp: find_handlers_def all_handlers_def split: option.splits dest!: map_of_SomeD)
  then show ?thesis using assms
    by (auto simp: remove_type_def reg fh Let_def all_handlers_def set_put table_ok_def)
qed

lemma all_handlers_remove_word:
  assumes "register_ok reg"
  shows "all_handlers (fst (remove_word guid selector t reg)) \<subseteq> all_handlers (fst reg)"
proof -
  define P where "P r \<longleftrightarrow> register_ok r \<and> all_handlers (fst r) \<subseteq> all_handlers (fst reg)" for r
  have "P (remove_type guid selector m w r)" if "P r" for m w r
    using that register_ok_remove_type [of r guid selector m w] all_handlers_remove_type [of r guid selector m w]
    by (auto simp: P_def register_ok_def)
  from remove_word_keeps [of P, OF this] show ?thesis using assms by (simp add: P_def)
qed

lemma fold_words_remove:
  "register_ok reg \<Longrightarrow> register_ok (fold (remove_word guid selector) ws reg) \<and>
     all_handlers (fst (fold (remove_word guid selector) ws reg)) \<subseteq> all_handlers (fst reg)"
proof (induction ws arbitrary: reg)
  case (Cons w ws)
  show ?case
    using Cons.IH [OF register_ok_remove_word [OF Cons.prems, of guid selector w]]
      all_handlers_remove_word [OF Cons.prems, of guid selector w] by auto
qed simp

lemma fold_words_add:
  assumes "register_ok reg"
  shows "register_ok (fold (add_typed handler guid data selector) ws reg) \<and>
    all_handlers (fst (fold (add_typed handler guid data selector) ws reg)) \<subseteq>
    all_handlers (fst reg) \<union> handle_for handler guid data selector ` {t \<in> set ws. type_part t \<noteq> ''''}"
  using assms
proof (induction ws arbitrary: reg)
  case (Cons w ws)
  have "all_handlers (fst (add_typed handler guid data selector w reg)) \<subseteq>
      all_handlers (fst reg) \<union> (if type_part w = '''' then {} else {handle_for handler guid data selector w})"
    using all_handlers_add [of reg handler guid data selector w] Cons.prems by (auto simp: register_ok_def add_typed_def)
  then show ?case
    using Cons.IH [OF register_ok_add [OF Cons.prems, of handler guid data selector w]] by (auto split: if_splits)
qed simp

definition page_ok :: "event_page \<Rightarrow> bool" where
  "page_ok pg \<longleftrightarrow> guids_ok pg \<and> registers_ok pg"

definition register_at :: "event_page \<Rightarrow> event_host \<Rightarrow> register" where
  "register_at pg this = ((case ep_events pg this of Some t \<Rightarrow> t | None \<Rightarrow> []), ep_listening pg this)"

lemma register_at_ok: "registers_ok pg \<Longrightarrow> register_ok (register_at pg this)"
  unfolding registers_ok_def register_at_def
  by (drule spec [of _ this]) (auto simp: host_ok_def register_ok_def table_ok_def split: option.splits)

lemma guid_at:
  "guids_ok pg \<Longrightarrow> h \<in> all_handlers (fst (register_at pg this)) \<Longrightarrow>
    named h \<and> ep_guids pg (function_of (ho_handler h)) = Some (ho_guid h)"
  by (cases "ep_events pg this") (auto simp: register_at_def guids_ok_def all_handlers_def)

lemma page_ok_start: "page_ok no_events"
  by (simp add: page_ok_def guids_ok_def registers_ok_def host_ok_def no_events_def)

lemma give_guid_ok:
  assumes "page_ok pg" "give_guid f pg = (g, pg1)"
  shows "page_ok pg1 \<and> ep_guids pg1 f = Some g \<and> ep_events pg1 = ep_events pg \<and> ep_listening pg1 = ep_listening pg"
proof (cases "ep_guids pg f")
  case (Some x)
  then show ?thesis using assms by (simp add: give_guid_def)
next
  case None
  then have pg1: "pg1 = pg\<lparr>ep_guids := (ep_guids pg)(f := Some (ep_guid pg)), ep_guid := ep_guid pg + 1\<rparr>" "g = ep_guid pg"
    using assms(2) by (auto simp: give_guid_def)
  have less: "ep_guids pg f' = Some x \<Longrightarrow> x < ep_guid pg" for f' x
    using assms(1) by (simp add: page_ok_def guids_ok_def)
  have "guids_ok pg1"
    using assms(1) None less unfolding pg1 page_ok_def guids_ok_def
    by (auto simp: less_Suc_eq dest: less)
  moreover have "registers_ok pg1" using assms(1) by (simp add: pg1 page_ok_def registers_ok_def)
  ultimately show ?thesis by (simp add: page_ok_def pg1)
qed

text \<open>A host gets another register, whose handlers have the identifiers of their functions.\<close>

lemma page_ok_update:
  assumes "page_ok pg" "register_ok (table, listening)"
    "\<forall>h \<in> all_handlers table. named h \<and> ep_guids pg (function_of (ho_handler h)) = Some (ho_guid h)"
    "shelf = Some table \<or> shelf = None \<and> table = []"
  shows "page_ok (pg\<lparr>ep_events := (ep_events pg)(this := shelf), ep_listening := (ep_listening pg)(this := listening)\<rparr>)"
proof -
  have "host_ok shelf listening" using assms(2,4) by (auto simp: host_ok_def register_ok_def)
  then have "registers_ok (pg\<lparr>ep_events := (ep_events pg)(this := shelf), ep_listening := (ep_listening pg)(this := listening)\<rparr>)"
    using assms(1) by (simp add: page_ok_def registers_ok_def)
  moreover have "guids_ok (pg\<lparr>ep_events := (ep_events pg)(this := shelf), ep_listening := (ep_listening pg)(this := listening)\<rparr>)"
    using assms(1,3,4) by (auto simp: page_ok_def guids_ok_def)
  ultimately show ?thesis by (simp add: page_ok_def)
qed

lemma event_words_word: "t \<in> set (event_words types) \<Longrightarrow> type_part t \<noteq> '''' \<Longrightarrow> word t"
  using html_words_words by (auto simp: event_words_def type_part_def split: if_splits)

lemma named_handle:
  "t \<in> set (event_words types) \<Longrightarrow> type_part t \<noteq> '''' \<Longrightarrow> named (handle_for handler guid data selector t)"
  using event_words_word by (auto simp: named_def handle_for_def)

lemma handle_for_guid [simp]:
  "ho_guid (handle_for handler guid data selector t) = guid" "ho_handler (handle_for handler guid data selector t) = handler"
  by (simp_all add: handle_for_def)

lemma event_add_at:
  assumes "takes_events d this" "give_guid (function_of handler) pg = (g, pg1)"
    "fold (add_typed handler g data selector) (rev (event_words types)) (register_at pg this) = (table, listening)"
  shows "event_add d types handler data selector this pg =
    pg1\<lparr>ep_events := (ep_events pg1)(this := Some table), ep_listening := (ep_listening pg1)(this := listening)\<rparr>"
  using assms by (simp add: event_add_def register_at_def)

lemma page_ok_add:
  assumes "page_ok pg"
  shows "page_ok (event_add d types handler data selector this pg)"
proof (cases "takes_events d this")
  case True
  obtain g pg1 where g: "give_guid (function_of handler) pg = (g, pg1)" by (cases "give_guid (function_of handler) pg")
  have pg1: "page_ok pg1" "ep_guids pg1 (function_of handler) = Some g" "ep_events pg1 = ep_events pg"
      "ep_listening pg1 = ep_listening pg"
    using give_guid_ok [OF assms g] by simp_all
  obtain table listening where f:
    "fold (add_typed handler g data selector) (rev (event_words types)) (register_at pg this) = (table, listening)"
    by (cases "fold (add_typed handler g data selector) (rev (event_words types)) (register_at pg this)")
  have old: "\<forall>h \<in> all_handlers (fst (register_at pg this)). named h \<and> ep_guids pg1 (function_of (ho_handler h)) = Some (ho_guid h)"
    using guid_at [of pg1 _ this] pg1 by (simp add: register_at_def page_ok_def)
  have "register_ok (table, listening) \<and> all_handlers table \<subseteq>
      all_handlers (fst (register_at pg this)) \<union>
        handle_for handler g data selector ` {t \<in> set (rev (event_words types)). type_part t \<noteq> ''''}"
    using fold_words_add [of "register_at pg this" handler g data selector "rev (event_words types)"]
      register_at_ok assms by (simp add: f page_ok_def)
  moreover have "named (handle_for handler g data selector t) \<and> ep_guids pg1 (function_of handler) = Some g"
    if "t \<in> set (rev (event_words types))" "type_part t \<noteq> ''''" for t
    using named_handle that pg1(2) by simp
  ultimately show ?thesis unfolding event_add_at [OF True g f]
    using old pg1 by (intro page_ok_update) (auto simp: handle_for_guid)
qed (simp add: event_add_def assms)

lemma event_remove_at:
  assumes "ep_events pg this \<noteq> None"
    "fold (remove_word (map_option (\<lambda>f. ep_guids pg (function_of f)) handler) selector) (rev (event_words types))
       (register_at pg this) = (table, listening)"
  shows "event_remove types handler selector this pg =
    pg\<lparr>ep_events := (ep_events pg)(this := (if table = [] then None else Some table)),
      ep_listening := (ep_listening pg)(this := listening)\<rparr>"
  using assms by (auto simp: event_remove_def register_at_def)

lemma page_ok_remove:
  assumes "page_ok pg"
  shows "page_ok (event_remove types handler selector this pg)"
proof (cases "ep_events pg this")
  case (Some table0)
  let ?g = "map_option (\<lambda>f. ep_guids pg (function_of f)) handler"
  obtain table listening where f:
    "fold (remove_word ?g selector) (rev (event_words types)) (register_at pg this) = (table, listening)"
    by (cases "fold (remove_word ?g selector) (rev (event_words types)) (register_at pg this)")
  have new: "register_ok (table, listening)" "all_handlers table \<subseteq> all_handlers (fst (register_at pg this))"
    using fold_words_remove [of "register_at pg this" ?g selector "rev (event_words types)"] register_at_ok assms
    by (simp_all add: f page_ok_def)
  have "\<forall>h \<in> all_handlers table. named h \<and> ep_guids pg (function_of (ho_handler h)) = Some (ho_guid h)"
    using guid_at [of pg _ this] new(2) assms by (auto simp: page_ok_def)
  then show ?thesis using page_ok_update [OF assms new(1)]
    by (subst event_remove_at [OF _ f]) (simp_all add: Some)
qed (simp add: event_remove_def assms)

section \<open>Without the handlers of an identifier\<close>

definition without_guid :: "nat \<Rightarrow> register \<Rightarrow> register" where
  "without_guid g reg =
     (let keep = filter (\<lambda>h. ho_guid h \<noteq> g);
          table = filter (\<lambda>(type, dcount, hs). hs \<noteq> [])
            (map (\<lambda>(type, dcount, hs). (type, length (filter delegated (keep hs)), keep hs)) (fst reg))
      in (table, filter (\<lambda>type. type \<in> fst ` set table) (snd reg)))"

lemma filter_insert_prop: "\<not> P (k, v) \<Longrightarrow> filter P (insert_prop k v ps) = filter P ps"
  by (induction ps) auto

text \<open>A handler of the identifier more or less in the list of a type makes no difference.\<close>

definition strip :: "nat \<Rightarrow> event_table \<Rightarrow> event_table" where
  "strip g table =
     filter (\<lambda>(type, dcount, hs). hs \<noteq> [])
       (map (\<lambda>(type, dcount, hs). (type, length (filter delegated (filter (\<lambda>h. ho_guid h \<noteq> g) hs)), filter (\<lambda>h. ho_guid h \<noteq> g) hs)) table)"

lemma without_strip: "without_guid g (table, listening) = (strip g table, filter (\<lambda>type. type \<in> fst ` set (strip g table)) listening)"
  by (simp add: without_guid_def strip_def Let_def)

lemma strip_put:
  assumes "distinct (map fst table)"
    "filter (\<lambda>h. ho_guid h \<noteq> g) hs' = filter (\<lambda>h. ho_guid h \<noteq> g) (snd (find_handlers table k))"
  shows "strip g (put k (n, hs') table) = strip g table"
proof (cases "k \<in> fst ` set table")
  case True
  have "snd (find_handlers table k) = hs" if "(k, m, hs) \<in> set table" for m hs
    using that assms(1) by (simp add: find_handlers_def)
  then have "map (\<lambda>(type, dcount, hs). (type, length (filter delegated (filter (\<lambda>h. ho_guid h \<noteq> g) hs)), filter (\<lambda>h. ho_guid h \<noteq> g) hs))
       (map (\<lambda>p. if fst p = k then (k, n, hs') else p) table) =
      map (\<lambda>(type, dcount, hs). (type, length (filter delegated (filter (\<lambda>h. ho_guid h \<noteq> g) hs)), filter (\<lambda>h. ho_guid h \<noteq> g) hs)) table"
    using assms(2) by (auto simp del: filter_filter)
  then show ?thesis using True by (simp only: strip_def put_def if_True)
next
  case False
  then have "map_of table k = None" by (simp add: map_of_eq_None_iff)
  then have empty: "filter (\<lambda>h. ho_guid h \<noteq> g) hs' = []" using assms(2) by (simp add: find_handlers_def)
  have "strip g t = map (\<lambda>(type, dcount, hs). (type, length (filter delegated (filter (\<lambda>h. ho_guid h \<noteq> g) hs)), filter (\<lambda>h. ho_guid h \<noteq> g) hs))
      (filter (\<lambda>(type, dcount, hs). filter (\<lambda>h. ho_guid h \<noteq> g) hs \<noteq> []) t)" for t
    by (induction t) (auto simp: strip_def)
  moreover have "filter (\<lambda>(type, dcount, hs). filter (\<lambda>h. ho_guid h \<noteq> g) hs \<noteq> []) (insert_prop k (n, hs') table) =
      filter (\<lambda>(type, dcount, hs). filter (\<lambda>h. ho_guid h \<noteq> g) hs \<noteq> []) table"
    by (rule filter_insert_prop) (use empty in simp)
  ultimately show ?thesis using False by (simp add: put_def)
qed

lemma strip_drop_type:
  assumes "distinct (map fst table)" "filter (\<lambda>h. ho_guid h \<noteq> g) (snd (find_handlers table k)) = []"
  shows "strip g (filter (\<lambda>e. fst e \<noteq> k) table) = strip g table"
proof -
  have "\<forall>e \<in> set table. fst e = k \<longrightarrow> filter (\<lambda>h. ho_guid h \<noteq> g) (snd (snd e)) = []"
  proof (intro ballI impI)
    fix e assume "e \<in> set table" "fst e = k"
    then have "(k, snd e) \<in> set table" by (cases e) auto
    then have "map_of table k = Some (snd e)" using assms(1) by simp
    then show "filter (\<lambda>h. ho_guid h \<noteq> g) (snd (snd e)) = []" using assms(2) by (simp add: find_handlers_def)
  qed
  then show ?thesis unfolding strip_def by (induction table) (auto simp del: filter_empty_conv)
qed

lemma strip_keys: "fst ` set (strip g table) \<subseteq> fst ` set table"
  by (auto simp: strip_def image_iff) force

lemma strip_same:
  assumes "table_ok table" "\<forall>h \<in> all_handlers table. ho_guid h \<noteq> g"
  shows "strip g table = table"
  using assms unfolding table_ok_def all_handlers_def
proof (induction table)
  case (Cons e table)
  obtain type dcount hs where e: "e = (type, dcount, hs)" by (cases e)
  have "filter (\<lambda>h. ho_guid h \<noteq> g) hs = hs" using Cons.prems(2) by (simp add: e)
  moreover have "hs \<noteq> []" "dcount = length (filter delegated hs)" using Cons.prems(1) by (auto simp: e handlers_ok_def)
  moreover have "strip g table = table" using Cons by auto
  ultimately show ?case by (simp add: e strip_def del: filter_filter)
qed (simp add: strip_def)

lemma without_same:
  assumes "register_ok reg" "\<forall>h \<in> all_handlers (fst reg). ho_guid h \<noteq> g"
  shows "without_guid g reg = reg"
  using strip_same [of "fst reg" g] assms
  by (cases reg) (auto simp: without_strip register_ok_def filter_id_conv)

lemma without_add:
  assumes "register_ok reg"
  shows "without_guid g (add_typed handler g data selector t reg) = without_guid g reg"
proof -
  obtain table listening where reg: "reg = (table, listening)" by (cases reg)
  define h where "h = handle_for handler g data selector t"
  have dist: "distinct (map fst table)" using assms by (simp add: register_ok_def table_ok_def reg)
  obtain dcount hs where fh: "find_handlers table (ho_type h) = (dcount, hs)" by (cases "find_handlers table (ho_type h)")
  obtain n hs' where i: "insert_handler h (dcount, hs) = (n, hs')" by (cases "insert_handler h (dcount, hs)")
  have g: "ho_guid h = g" by (simp add: h_def handle_for_def)
  have "filter (\<lambda>h. ho_guid h \<noteq> g) (take dcount hs) @ filter (\<lambda>h. ho_guid h \<noteq> g) (drop dcount hs) = filter (\<lambda>h. ho_guid h \<noteq> g) hs"
    by (simp add: filter_append [symmetric])
  then have "filter (\<lambda>h. ho_guid h \<noteq> g) hs' = filter (\<lambda>h. ho_guid h \<noteq> g) (snd (find_handlers table (ho_type h)))"
    using i g by (auto simp: fh insert_handler_def split: if_splits)
  from strip_put [OF dist this, of n] have strip: "strip g (put (ho_type h) (n, hs') table) = strip g table" .
  have "ho_type h \<notin> fst ` set (strip g table)" if "map_of table (ho_type h) = None"
    using that strip_keys [of g table] by (auto simp: map_of_eq_None_iff)
  then show ?thesis
    by (auto simp: reg add_typed_def h_def [symmetric] fh i Let_def without_strip strip)
qed

lemma goes_guid: "goes m t (Some (Some g)) selector ns h \<Longrightarrow> ho_guid h = g"
  by (simp add: goes_def)

lemma without_remove_type:
  assumes "register_ok reg"
  shows "without_guid g (remove_type (Some (Some g)) selector m t reg) = without_guid g reg"
proof -
  obtain table listening where reg: "reg = (table, listening)" by (cases reg)
  define type where "type = event_type selector (type_part t)"
  obtain dcount hs where fh: "find_handlers table type = (dcount, hs)" by (cases "find_handlers table type")
  define gone where "gone = goes m (type_part t) (Some (Some g)) selector (namespace_part t)"
  have dist: "distinct (map fst table)" using assms by (simp add: register_ok_def table_ok_def reg)
  have gone: "gone h \<Longrightarrow> ho_guid h = g" for h by (simp add: gone_def goes_guid)
  then have same: "filter (\<lambda>h. ho_guid h \<noteq> g) (filter (\<lambda>h. \<not> gone h) hs) = filter (\<lambda>h. ho_guid h \<noteq> g) (snd (find_handlers table type))"
    by (auto simp: fh intro: filter_cong)
  show ?thesis
  proof (cases "filter (\<lambda>h. \<not> gone h) hs = []")
    case False
    then show ?thesis using strip_put [OF dist same]
      by (auto simp: remove_type_def reg type_def [symmetric] fh gone_def [symmetric] Let_def without_strip)
  next
    case True
    then have drop: "strip g (filter (\<lambda>e. fst e \<noteq> type) table) = strip g table"
      using strip_drop_type [OF dist, of g type] same by simp
    have "type \<notin> fst ` set (strip g table)"
      using strip_keys [of g "filter (\<lambda>e. fst e \<noteq> type) table"] by (auto simp: drop)
    then have "filter (\<lambda>x. x \<in> fst ` set (strip g table)) (filter (\<lambda>l. l \<noteq> type) listening) = filter (\<lambda>x. x \<in> fst ` set (strip g table)) listening"
      by (auto intro: filter_cong)
    then show ?thesis using True drop
      by (auto simp: remove_type_def reg type_def [symmetric] fh gone_def [symmetric] Let_def without_strip)
  qed
qed

lemma without_remove_word:
  assumes "register_ok reg"
  shows "without_guid g (remove_word (Some (Some g)) selector t reg) = without_guid g reg"
proof -
  define P where "P r \<longleftrightarrow> register_ok r \<and> without_guid g r = without_guid g reg" for r
  have "P (remove_type (Some (Some g)) selector m w r)" if "P r" for m w r
    using that register_ok_remove_type [of r] without_remove_type [of r g selector m w] by (simp add: P_def)
  from remove_word_keeps [of P, OF this] show ?thesis using assms by (simp add: P_def)
qed

section \<open>Taking a handler off\<close>

lemma handler_listed:
  assumes "table_ok table" "h \<in> all_handlers table"
  shows "h \<in> set (snd (find_handlers table (ho_type h)))"
  using assms by (fastforce simp: table_ok_def all_handlers_def handlers_ok_def find_handlers_def)

lemma listed_handler: "table_ok table \<Longrightarrow> h \<in> set (snd (find_handlers table type)) \<Longrightarrow> ho_type h = type"
  using table_find [of table type] by (auto simp: handlers_ok_def)

lemma remove_type_kills:
  assumes ok: "register_ok reg" and type: "ho_type h = event_type selector (type_part t)"
    and gone: "goes m (type_part t) guid selector (namespace_part t) h"
  shows "h \<notin> all_handlers (fst (remove_type guid selector m t reg))"
proof -
  obtain table listening where reg: "reg = (table, listening)" by (cases reg)
  obtain dcount hs where fh: "find_handlers table (ho_type h) = (dcount, hs)" by (cases "find_handlers table (ho_type h)")
  have tok: "table_ok table" using ok by (simp add: register_ok_def reg)
  have new: "table_ok (fst (remove_type guid selector m t reg))"
    using register_ok_remove_type [OF ok] by (simp add: register_ok_def)
  have "h \<notin> set (snd (find_handlers (fst (remove_type guid selector m t reg)) (ho_type h)))"
  proof (cases "hs = []")
    case False
    then show ?thesis using gone
      by (auto simp: remove_type_def reg type [symmetric] fh Let_def find_handlers_def split: option.splits dest: map_of_SomeD)
  qed (simp add: remove_type_def reg type [symmetric] fh Let_def)
  then show ?thesis using handler_listed [OF new] by blast
qed

lemma handle_goes:
  "type_part t \<noteq> '''' \<Longrightarrow> goes False (type_part t) (Some (Some g)) selector (namespace_part t) (handle_for handler g data selector t)"
  by (simp add: goes_def handle_for_def names_match_def)

lemma words_kill:
  assumes "register_ok reg" "t \<in> set ws" "type_part t \<noteq> ''''"
  shows "handle_for handler g data selector t \<notin> all_handlers (fst (fold (remove_word (Some (Some g)) selector) ws reg))"
  using assms(1,2)
proof (induction ws arbitrary: reg)
  case (Cons w ws)
  have ok: "register_ok (remove_word (Some (Some g)) selector w reg)" by (rule register_ok_remove_word [OF Cons.prems(1)])
  show ?case
  proof (cases "t = w")
    case True
    have "handle_for handler g data selector t \<notin> all_handlers (fst (remove_word (Some (Some g)) selector w reg))"
      using remove_type_kills [OF Cons.prems(1) event_type_name handle_goes [OF assms(3)]] assms(3) True
      by (simp add: remove_word_def)
    then show ?thesis using fold_words_remove [OF ok] by auto
  next
    case False
    then show ?thesis using Cons.IH [OF ok] Cons.prems(2) by simp
  qed
qed simp

lemma fold_without_remove:
  "register_ok reg \<Longrightarrow> without_guid g (fold (remove_word (Some (Some g)) selector) ws reg) = without_guid g reg"
proof (induction ws arbitrary: reg)
  case (Cons w ws)
  then show ?case using Cons.IH [OF register_ok_remove_word [OF Cons.prems]] without_remove_word by simp
qed simp

lemma fold_without_add:
  "register_ok reg \<Longrightarrow> without_guid g (fold (add_typed handler g data selector) ws reg) = without_guid g reg"
proof (induction ws arbitrary: reg)
  case (Cons w ws)
  then show ?case using Cons.IH [OF register_ok_add [OF Cons.prems]] without_add by simp
qed simp

lemma register_round_trip:
  assumes ok: "register_ok reg" and fresh: "\<forall>h \<in> all_handlers (fst reg). ho_guid h \<noteq> g"
  shows "fold (remove_word (Some (Some g)) selector) ws (fold (add_typed handler g data selector) ws reg) = reg"
proof -
  define added where "added = fold (add_typed handler g data selector) ws reg"
  define removed where "removed = fold (remove_word (Some (Some g)) selector) ws added"
  have added: "register_ok added" unfolding added_def using fold_words_add [OF ok] by blast
  have removed: "register_ok removed" "all_handlers (fst removed) \<subseteq> all_handlers (fst added)"
    unfolding removed_def using fold_words_remove [OF added] by blast+
  have "ho_guid h \<noteq> g" if h: "h \<in> all_handlers (fst removed)" for h
  proof
    assume g: "ho_guid h = g"
    have "h \<in> all_handlers (fst added)" using h removed(2) by blast
    then obtain t where "t \<in> set ws" "type_part t \<noteq> ''''" "h = handle_for handler g data selector t"
      using fold_words_add [OF ok, of handler g data selector ws] fresh g unfolding added_def by blast
    then show False using words_kill [OF added, of t ws handler g data selector] h by (simp add: removed_def)
  qed
  then have "removed = without_guid g removed" using without_same [OF removed(1)] by simp
  also have "\<dots> = without_guid g reg"
    unfolding removed_def added_def using fold_without_remove fold_without_add [OF ok] added by (simp add: added_def)
  also have "\<dots> = reg" by (rule without_same [OF ok fresh])
  finally show ?thesis by (simp add: removed_def added_def)
qed

lemma off_undoes_add:
  assumes "page_ok pg" "takes_events d this" "ep_guids pg (function_of handler) = None" "ep_events pg this \<noteq> Some []"
    "function_of handler' = function_of handler"
  shows "ep_events (event_remove types (Some handler') selector this (event_add d types handler data selector this pg)) = ep_events pg
    \<and> ep_listening (event_remove types (Some handler') selector this (event_add d types handler data selector this pg)) = ep_listening pg"
proof -
  let ?f = "function_of handler" and ?ws = "rev (event_words types)" and ?reg = "register_at pg this"
  define g where "g = ep_guid pg"
  define pg1 where "pg1 = pg\<lparr>ep_guids := (ep_guids pg)(?f := Some g), ep_guid := g + 1\<rparr>"
  have give: "give_guid ?f pg = (g, pg1)" using assms(3) by (simp add: give_guid_def pg1_def g_def)
  obtain table listening where add: "fold (add_typed handler g data selector) ?ws ?reg = (table, listening)"
    by (cases "fold (add_typed handler g data selector) ?ws ?reg")
  define pg2 where "pg2 = event_add d types handler data selector this pg"
  have pg2: "pg2 = pg1\<lparr>ep_events := (ep_events pg1)(this := Some table), ep_listening := (ep_listening pg1)(this := listening)\<rparr>"
    unfolding pg2_def by (rule event_add_at [OF assms(2) give add])
  have ok: "register_ok ?reg" using register_at_ok assms(1) by (simp add: page_ok_def)
  have fresh: "\<forall>h \<in> all_handlers (fst ?reg). ho_guid h \<noteq> g"
  proof
    fix h assume "h \<in> all_handlers (fst ?reg)"
    then have "ep_guids pg (function_of (ho_handler h)) = Some (ho_guid h)"
      using guid_at assms(1) by (simp add: page_ok_def)
    then have "ho_guid h < g" using assms(1) by (simp add: page_ok_def guids_ok_def g_def)
    then show "ho_guid h \<noteq> g" by simp
  qed
  have "register_at pg2 this = (table, listening)" by (simp add: register_at_def pg2)
  moreover have "map_option (\<lambda>f. ep_guids pg2 (function_of f)) (Some handler') = Some (Some g)"
    by (simp add: pg2 pg1_def assms(5))
  ultimately have "fold (remove_word (map_option (\<lambda>f. ep_guids pg2 (function_of f)) (Some handler')) selector) ?ws (register_at pg2 this)
      = (fst ?reg, snd ?reg)"
    using register_round_trip [OF ok fresh, of selector ?ws handler data] add by simp
  from event_remove_at [OF _ this] have "event_remove types (Some handler') selector this pg2 =
      pg2\<lparr>ep_events := (ep_events pg2)(this := (if fst ?reg = [] then None else Some (fst ?reg))),
        ep_listening := (ep_listening pg2)(this := snd ?reg)\<rparr>" by (simp add: pg2)
  moreover have "(if fst ?reg = [] then None else Some (fst ?reg)) = ep_events pg this"
    using assms(4) by (auto simp: register_at_def split: option.splits)
  ultimately show ?thesis unfolding pg2_def [symmetric] by (simp add: pg2 pg1_def register_at_def fun_eq_iff)
qed

section \<open>The order of the calls\<close>

text \<open>Up to and including the first element with a property.\<close>

fun upto_first :: "('a \<Rightarrow> bool) \<Rightarrow> 'a list \<Rightarrow> 'a list" where
  "upto_first P [] = []"
| "upto_first P (x # xs) = (if P x then [x] else x # upto_first P xs)"

text \<open>The stations of an event that is at the host \<open>this\<close>: the elements from the target upwards to below the
  host, each with the delegated handlers whose selector it matches, and then the host itself with its own
  handlers. A click of another button, or on a disabled element, has no delegated handler.\<close>

definition stations :: "dom \<Rightarrow> element_matcher \<Rightarrow> event_host \<Rightarrow> jq_event \<Rightarrow> handle_obj list \<Rightarrow> handler_queue" where
  "stations d matches this ev hs =
     map (\<lambda>x. (Some x, filter (\<lambda>h. delegated h \<and> matches (ho_selector h) this x) hs))
       (filter (\<lambda>x. is_element d x \<and> \<not> (ev_type ev = ''click'' \<and> (1 \<le> ev_button ev \<or> get_property d x ''disabled'' = Bool True)))
         (case ev_target ev of
            None \<Rightarrow> []
          | Some target \<Rightarrow> takeWhile (\<lambda>x. Some x \<noteq> this) (target # along d ParentNode target)))
     @ [(this, filter (\<lambda>h. \<not> delegated h) hs)]"

text \<open>The calls at a station end with the first that stops at once; no station comes after one with a call
  that stops.\<close>

definition stops :: "handler_outcome \<Rightarrow> bool" where
  "stops oc \<longleftrightarrow> oc_stop oc \<or> oc_stop_now oc \<or> oc_result oc = Bool False"

definition calls_at :: "(event_host \<Rightarrow> handle_obj \<Rightarrow> handler_outcome) \<Rightarrow> jq_event \<Rightarrow> event_host \<times> handle_obj list \<Rightarrow> (event_host \<times> handle_obj) list" where
  "calls_at oc ev station =
     (case station of (x, hs) \<Rightarrow>
        map (Pair x) (upto_first (\<lambda>h. oc_stop_now (oc x h)) (filter (is_called x ev) hs)))"

definition calls_through :: "(event_host \<Rightarrow> handle_obj \<Rightarrow> handler_outcome) \<Rightarrow> jq_event \<Rightarrow> handler_queue \<Rightarrow> (event_host \<times> handle_obj) list" where
  "calls_through oc ev q = concat (upto_first (\<lambda>cs. \<exists>(x, h) \<in> set cs. stops (oc x h)) (map (calls_at oc ev) q))"

lemma called_after_call [simp]: "is_called x (after_call oc ev) = is_called x ev"
  by (rule ext) (simp add: is_called_def from_outside_def after_call_def)

lemma after_call_flags [simp]:
  "ev_stopped (after_call oc ev) \<longleftrightarrow> ev_stopped ev \<or> stops oc"
  "ev_stopped_now (after_call oc ev) \<longleftrightarrow> ev_stopped_now ev \<or> oc_stop_now oc"
  by (auto simp: after_call_def stops_def)

definition has_outcomes :: "(event_host \<Rightarrow> handle_obj \<Rightarrow> handler_outcome) \<Rightarrow> 'x behaviour \<Rightarrow> bool" where
  "has_outcomes oc behave \<longleftrightarrow> (\<forall>f x h ev s. fst (behave f x h ev s) = oc x h)"

lemma call_outcome: "has_outcomes oc behave \<Longrightarrow> fst (call_listener behave target x h ev s) = oc x h"
  by (cases s) (simp add: has_outcomes_def call_listener_def split: listener.split)

lemma run_handlers_calls:
  assumes "has_outcomes oc behave" "\<not> ev_stopped_now ev"
    "run_handlers behave target x hs (ev, s, calls) = (ev', s', calls')"
  shows "calls' = calls @ calls_at oc ev (x, hs) \<and> (\<forall>y h. is_called y ev' h = is_called y ev h) \<and>
     (ev_stopped ev' \<longleftrightarrow> ev_stopped ev \<or> (\<exists>(y, h) \<in> set (calls_at oc ev (x, hs)). stops (oc y h))) \<and>
     (ev_stopped_now ev' \<longrightarrow> ev_stopped ev')"
  using assms(2,3)
proof (induction hs arbitrary: ev s calls)
  case (Cons h hs)
  show ?case
  proof (cases "is_called x ev h")
    case False
    then have run: "run_handlers behave target x hs (ev, s, calls) = (ev', s', calls')"
      and same: "calls_at oc ev (x, h # hs) = calls_at oc ev (x, hs)"
      using Cons.prems by (simp_all add: calls_at_def)
    from Cons.IH [OF Cons.prems(1) run] show ?thesis unfolding same .
  next
    case True
    obtain s1 where c: "call_listener behave target x h ev s = (oc x h, s1)"
      using call_outcome [OF assms(1), of target x h ev s] by (cases "call_listener behave target x h ev s") auto
    have run: "run_handlers behave target x hs (after_call (oc x h) ev, s1, calls @ [(x, h)]) = (ev', s', calls')"
      using Cons.prems True c by simp
    show ?thesis
    proof (cases "oc_stop_now (oc x h)")
      case True
      then have "run_handlers behave target x hs (after_call (oc x h) ev, s1, calls @ [(x, h)]) = (after_call (oc x h) ev, s1, calls @ [(x, h)])"
        by (cases hs) simp_all
      then show ?thesis using run True \<open>is_called x ev h\<close> by (auto simp: calls_at_def stops_def)
    next
      case False
      then show ?thesis using Cons.IH [OF _ run] Cons.prems(1) True by (auto simp: calls_at_def)
    qed
  qed
qed (auto simp: calls_at_def)

lemma calls_at_cong: "(\<And>y h. is_called y ev' h = is_called y ev h) \<Longrightarrow> calls_at oc ev' = calls_at oc ev"
proof -
  assume "\<And>y h. is_called y ev' h = is_called y ev h"
  then have "is_called y ev' = is_called y ev" for y by (rule ext)
  then show ?thesis by (intro ext) (simp add: calls_at_def)
qed

lemma run_queue_calls:
  assumes "has_outcomes oc behave" "\<not> ev_stopped ev" "\<not> ev_stopped_now ev"
  shows "snd (snd (run_queue behave target q (ev, s, calls))) = calls @ calls_through oc ev q"
  using assms(2,3)
proof (induction q arbitrary: ev s calls)
  case (Cons station q)
  obtain x hs where st: "station = (x, hs)" by (cases station)
  obtain ev' s' calls' where run: "run_handlers behave target x hs (ev, s, calls) = (ev', s', calls')"
    by (cases "run_handlers behave target x hs (ev, s, calls)")
  note r = run_handlers_calls [OF assms(1) Cons.prems(2) run]
  have same: "calls_at oc ev' = calls_at oc ev" using r by (intro calls_at_cong) simp
  show ?case
  proof (cases "ev_stopped ev'")
    case True
    then have "run_queue behave target q (ev', s', calls') = (ev', s', calls')" by (cases q) auto
    then show ?thesis using r True Cons.prems by (simp add: st run calls_through_def)
  next
    case False
    then have "\<not> ev_stopped_now ev'" using r by blast
    then show ?thesis using Cons.IH [OF False] r False Cons.prems by (simp add: st run calls_through_def same)
  qed
qed (simp add: calls_through_def)

text \<open>Stations without handlers make no difference.\<close>

lemma calls_through_nonempty: "calls_through oc ev (filter (\<lambda>(x, hs). hs \<noteq> []) q) = calls_through oc ev q"
  by (induction q) (auto simp: calls_through_def calls_at_def)

lemma handlers_are_stations:
  assumes "handlers_ok type (dcount, hs) \<or> dcount = 0 \<and> hs = []"
  shows "filter (\<lambda>(x, hs). hs \<noteq> []) (stations d matches this ev hs) = event_handlers d matches this ev (dcount, hs)"
proof -
  define front where "front = filter delegated hs"
  define rest where "rest = filter (\<lambda>h. \<not> delegated h) hs"
  have hs: "hs = front @ rest" and n: "dcount = length front"
    using assms by (auto simp: handlers_ok_def front_def rest_def)
  have td: "take dcount hs = front" "drop dcount hs = rest" "dcount < length hs \<longleftrightarrow> rest \<noteq> []" "dcount \<noteq> 0 \<longleftrightarrow> front \<noteq> []"
    by (simp_all add: hs n)
  have sel: "filter (\<lambda>h. delegated h \<and> matches (ho_selector h) this x) hs = filter (\<lambda>h. matches (ho_selector h) this x) front" for x
    by (simp add: front_def conj_commute)
  have path: "concat (map (delegates_at d matches this ev front) xs) =
      filter (\<lambda>(x, hs). hs \<noteq> []) (map (\<lambda>x. (Some x, filter (\<lambda>h. matches (ho_selector h) this x) front))
        (filter (\<lambda>x. is_element d x \<and> \<not> (ev_type ev = ''click'' \<and> (1 \<le> ev_button ev \<or> get_property d x ''disabled'' = Bool True))) xs))"
    if "\<not> (ev_type ev = ''click'' \<and> 1 \<le> ev_button ev)" for xs
    using that by (induction xs) (auto simp: delegates_at_def Let_def)
  have none: "filter (\<lambda>(x, hs). hs \<noteq> []) (map (\<lambda>x. (Some x, filter (\<lambda>h. matches (ho_selector h) this x) [])) xs) = []" for xs :: "place list"
    by (induction xs) auto
  show ?thesis
    unfolding stations_def event_handlers_def prod.case td sel rest_def [symmetric]
    using path none by (auto split: option.splits)
qed

lemma handlers_of_ok:
  assumes "page_ok pg"
  shows "handlers_ok type (handlers_of pg this type) \<or> handlers_of pg this type = (0, [])"
proof (cases "ep_events pg this")
  case (Some table)
  have "table_ok table" using register_at_ok [of pg this] assms by (simp add: page_ok_def register_at_def register_ok_def Some)
  then show ?thesis using table_find [of table type] by (auto simp: handlers_of_def Some)
qed (simp add: handlers_of_def)

lemma dispatch_calls:
  assumes "page_ok (fst s)" "has_outcomes oc behave" "\<not> ev_stopped ev" "\<not> ev_stopped_now ev"
  shows "snd (snd (dispatch d matches behave this (ev, s, calls))) =
    calls @ calls_through oc ev (stations d matches this ev (snd (handlers_of (fst s) this (ev_type ev))))"
proof -
  obtain dcount hs where h: "handlers_of (fst s) this (ev_type ev) = (dcount, hs)" by (cases "handlers_of (fst s) this (ev_type ev)")
  have "event_handlers d matches this ev (dcount, hs) = filter (\<lambda>(x, hs). hs \<noteq> []) (stations d matches this ev hs)"
    using handlers_are_stations handlers_of_ok [OF assms(1), of "ev_type ev" this] h by fastforce
  then show ?thesis using run_queue_calls [OF assms(2-4)] by (simp add: dispatch_def h calls_through_nonempty)
qed

section \<open>Handlers that run once\<close>

lemma string_less_asym: "string_less s t \<Longrightarrow> \<not> string_less t s"
  by (induction s t rule: string_less.induct) auto

lemma string_less_trans: "\<not> string_less s t \<Longrightarrow> \<not> string_less t u \<Longrightarrow> \<not> string_less s u"
proof (induction s u arbitrary: t rule: string_less.induct)
  case (3 c cs d ds)
  then show ?case by (cases t) (auto split: if_splits)
qed (auto elim: string_less.elims)

lemma array_sort_sorted: "sorted_wrt (\<lambda>a b. \<not> after a b) xs \<Longrightarrow> array_sort after xs = xs"
proof (induction xs)
  case (Cons x xs)
  then show ?case by (cases xs) (simp_all add: array_sort_Cons array_sort_def)
qed (simp add: array_sort_def)

lemma names_sorted: "sorted_wrt (\<lambda>a b. \<not> string_less b a) (array_sort (\<lambda>a b. string_less b a) ns)"
  by (rule sorted_array_sort) (use string_less_trans string_less_asym in blast)+

text \<open>The names of a handler are read back from their joined string.\<close>

lemma sorted_names_join: "sorted_names (join_with CHR ''.'' (sorted_names n)) = sorted_names n"
proof -
  have "sorted_names n \<noteq> []"
    unfolding sorted_names_def by (metis mset_array_sort mset_zero_iff split_on_not_Nil)
  moreover have "\<forall>x \<in> set (sorted_names n). CHR ''.'' \<notin> set x"
    by (simp add: sorted_names_def split_on_components)
  ultimately have "split_on CHR ''.'' (join_with CHR ''.'' (sorted_names n)) = sorted_names n"
    by (rule split_on_join)
  then show ?thesis using array_sort_sorted [OF names_sorted]
    by (simp add: sorted_names_def [of "join_with CHR ''.'' (sorted_names n)"]) (simp add: sorted_names_def)
qed

definition off_word :: "handle_obj \<Rightarrow> string" where
  "off_word h = ho_origType h @ (if ho_namespace h = [''''] then '''' else CHR ''.'' # join_with CHR ''.'' (ho_namespace h))"

lemma parts_append:
  assumes "CHR ''.'' \<notin> set s"
  shows "type_part (s @ CHR ''.'' # n) = s \<and> namespace_part (s @ CHR ''.'' # n) = n \<and>
    type_part s = s \<and> namespace_part s = ''''"
  using assms by (induction s) (auto simp: type_part_def namespace_part_def)

lemma set_join_with: "set (join_with c xs) \<subseteq> insert c (\<Union> (set ` set xs))"
  by (induction c xs rule: join_with.induct) auto

lemma set_split_on: "x \<in> set (split_on c s) \<Longrightarrow> set x \<subseteq> set s"
proof (induction s arbitrary: x)
  case (Cons a s)
  show ?case
  proof (cases "split_on c s")
    case split: (Cons y ys)
    then have "set y \<subseteq> set s" "z \<in> set ys \<Longrightarrow> set z \<subseteq> set s" for z
      using Cons.IH [of y] Cons.IH [of z] by simp_all
    then show ?thesis using Cons.prems split by (auto split: if_splits)
  qed simp
qed simp

lemma off_word_facts:
  assumes "named h"
  shows "event_words (off_word h) = [off_word h]" "type_part (off_word h) = ho_origType h" "ho_origType h \<noteq> ''''"
    "ho_type h = event_type (ho_selector h) (type_part (off_word h))"
    "goes False (type_part (off_word h)) (Some (Some (ho_guid h))) (ho_selector h) (namespace_part (off_word h)) h"
proof -
  obtain t where t: "word t" "type_part t \<noteq> ''''" "ho_origType h = type_part t" "ho_namespace h = sorted_names (namespace_part t)"
      "ho_type h = event_type (ho_selector h) (type_part t)"
    using assms by (auto simp: named_def)
  have type: "CHR ''.'' \<notin> set (type_part t)" by (auto simp: type_part_def dest: set_takeWhileD)
  have "set (type_part t) \<subseteq> set t" by (auto simp: type_part_def dest: set_takeWhileD)
  moreover have "set (namespace_part t) \<subseteq> set t"
    unfolding namespace_part_def by (meson in_set_dropD set_dropWhileD subsetI)
  then have "set (join_with CHR ''.'' (sorted_names (namespace_part t))) \<subseteq> insert CHR ''.'' (set t)"
    using set_join_with [of "CHR ''.''" "sorted_names (namespace_part t)"] set_split_on [of _ "CHR ''.''" "namespace_part t"]
    by (auto simp: sorted_names_def)
  moreover have "\<not> html_white CHR ''.''" by (simp add: html_white_def)
  ultimately have "word (off_word h)"
    using t(1,2) unfolding word_def off_word_def t(3,4) by auto
  then show "event_words (off_word h) = [off_word h]"
    by (simp add: event_words_def html_words_word)
  show *: "type_part (off_word h) = ho_origType h"
    using parts_append [OF type] by (simp add: off_word_def t(3))
  show "ho_origType h \<noteq> ''''" using t(2,3) by simp
  show "ho_type h = event_type (ho_selector h) (type_part (off_word h))" using t(5) * by (simp add: t(3))
  have "namespace_part (off_word h) = '''' \<or> sorted_names (namespace_part (off_word h)) = ho_namespace h"
    using parts_append [OF type] sorted_names_join by (auto simp: off_word_def t(3,4))
  then show "goes False (type_part (off_word h)) (Some (Some (ho_guid h))) (ho_selector h) (namespace_part (off_word h)) h"
    using * by (auto simp: goes_def names_match_def)
qed

definition page_handlers :: "event_page \<Rightarrow> event_host \<Rightarrow> handle_obj set" where
  "page_handlers pg this = all_handlers (fst (register_at pg this))"

lemma page_handlers_remove:
  assumes "page_ok pg"
  shows "page_handlers (event_remove types handler selector this pg) this \<subseteq> page_handlers pg this"
proof (cases "ep_events pg this")
  case (Some table0)
  let ?g = "map_option (\<lambda>f. ep_guids pg (function_of f)) handler"
  obtain table listening where f:
    "fold (remove_word ?g selector) (rev (event_words types)) (register_at pg this) = (table, listening)"
    by (cases "fold (remove_word ?g selector) (rev (event_words types)) (register_at pg this)")
  have "all_handlers table \<subseteq> page_handlers pg this"
    using fold_words_remove [of "register_at pg this" ?g selector "rev (event_words types)"] register_at_ok assms
    by (simp add: f page_ok_def page_handlers_def)
  then show ?thesis by (subst event_remove_at [OF _ f]) (auto simp: Some page_handlers_def register_at_def)
qed (simp add: event_remove_def)

lemma off_event_eq: "off_event this h pg = event_remove (off_word h) (Some (ho_handler h)) (ho_selector h) this pg"
  by (simp add: off_event_def jq_off_def off_word_def)

lemma off_event_kills:
  assumes "page_ok pg"
  shows "h \<notin> page_handlers (off_event this h pg) this"
proof (cases "h \<in> page_handlers pg this")
  case False
  then show ?thesis using page_handlers_remove [OF assms, of "off_word h" "Some (ho_handler h)" "ho_selector h" this]
    by (auto simp: off_event_eq)
next
  case True
  then have h: "named h" "ep_guids pg (function_of (ho_handler h)) = Some (ho_guid h)"
    using guid_at [of pg h this] assms by (simp_all add: page_ok_def page_handlers_def)
  note w = off_word_facts [OF h(1)]
  obtain table listening where f: "remove_type (Some (Some (ho_guid h))) (ho_selector h) False (off_word h) (register_at pg this) = (table, listening)"
    by (cases "remove_type (Some (Some (ho_guid h))) (ho_selector h) False (off_word h) (register_at pg this)")
  have ok: "register_ok (register_at pg this)" using assms register_at_ok by (simp add: page_ok_def)
  have "h \<notin> all_handlers table" using remove_type_kills [OF ok w(4,5)] by (simp add: f)
  moreover have "fold (remove_word (map_option (\<lambda>f. ep_guids pg (function_of f)) (Some (ho_handler h))) (ho_selector h))
      (rev (event_words (off_word h))) (register_at pg this) = (table, listening)"
    using w(2,3) by (simp add: w(1) h(2) remove_word_def f)
  moreover have "ep_events pg this \<noteq> None"
    using True by (cases "ep_events pg this") (auto simp: page_handlers_def register_at_def all_handlers_def)
  ultimately show ?thesis unfolding off_event_eq
    by (subst event_remove_at) (auto simp: page_handlers_def register_at_def)
qed

definition keeps_page :: "'x behaviour \<Rightarrow> bool" where
  "keeps_page behave \<longleftrightarrow> (\<forall>f x h ev s. fst (snd (behave f x h ev s)) = fst s)"

text \<open>The invariant of a dispatch at \<open>target\<close>: no handler of \<open>one\<close> that was called is still there.\<close>

definition once_gone :: "event_host \<Rightarrow> 'x dispatching \<Rightarrow> bool" where
  "once_gone target st \<longleftrightarrow>
     (case st of (ev, s, calls) \<Rightarrow>
        page_ok (fst s) \<and> (\<forall>(x, h) \<in> set calls. (\<exists>f. ho_handler h = Once f) \<longrightarrow> h \<notin> page_handlers (fst s) target))"

lemma once_gone_call:
  assumes "keeps_page behave" "once_gone target (ev, s, calls)" "call_listener behave target x h ev s = (oc, s1)"
  shows "once_gone target (ev', s1, calls @ [(x, h)])"
proof (cases "ho_handler h")
  case (Plain f)
  then have "fst s1 = fst s" using assms(1,3) by (metis call_listener_def keeps_page_def listener.case(1) snd_conv)
  then show ?thesis using assms(2) Plain by (auto simp: once_gone_def)
next
  case (Once f)
  then have "behave f x h ev (off_event target h (fst s), snd s) = (oc, s1)"
    using assms(3) by (simp add: call_listener_def)
  then have s1: "fst s1 = off_event target h (fst s)"
    using assms(1) unfolding keeps_page_def by (metis fst_conv snd_conv)
  have ok: "page_ok (fst s)" using assms(2) by (simp add: once_gone_def)
  have "page_ok (fst s1)" using page_ok_remove [OF ok] by (simp add: s1 off_event_eq)
  moreover have "page_handlers (fst s1) target \<subseteq> page_handlers (fst s) target"
    using page_handlers_remove [OF ok] by (simp add: s1 off_event_eq)
  moreover have "h \<notin> page_handlers (fst s1) target" using off_event_kills [OF ok] by (simp add: s1)
  ultimately show ?thesis using assms(2) by (auto simp: once_gone_def)
qed

lemma once_gone_handlers:
  assumes "keeps_page behave"
  shows "once_gone target st \<Longrightarrow> once_gone target (run_handlers behave target x hs st)"
proof (induction hs arbitrary: st)
  case (Cons h hs)
  obtain ev s calls where st: "st = (ev, s, calls)" by (cases st)
  obtain oc s1 where c: "call_listener behave target x h ev s = (oc, s1)" by (cases "call_listener behave target x h ev s")
  show ?case using Cons.IH once_gone_call [OF assms _ c] Cons.prems by (simp add: st c)
qed simp

lemma once_gone_queue:
  assumes "keeps_page behave"
  shows "once_gone target st \<Longrightarrow> once_gone target (run_queue behave target q st)"
proof (induction q arbitrary: st)
  case (Cons station q)
  then show ?case using once_gone_handlers [OF assms] by (cases station) simp
qed simp

lemma once_gone_dispatch:
  assumes "keeps_page behave" "once_gone target st"
  shows "once_gone target (dispatch d matches behave target st)"
  using once_gone_queue [OF assms] by (cases st) (simp add: dispatch_def)

end
