(* ===== verification/Selector_Properties.thy ===== *)
theory Selector_Properties
  imports Jq_Traverse
begin

text \<open>
  The properties of the selector engine of docs/_static/jquery-3.5.1.js: what \<open>select\<close> returns, that
  the caches of the matchers and of \<open>:nth-child\<close> do not show, the order of results, the way of
  a string into a selector and back, and the traversal of documents.
\<close>

section \<open>A page\<close>






definition sample_page :: page where
  "sample_page =
     \<lparr>pg_dom =
        [Dnode 9 ''#document'' [] [] ''''
           [Dnode 1 ''DIV'' [(''id'', ''x'')] [] ''''
              [Dnode 1 ''P'' [] [] '''' [], Dnode 3 ''#text'' [] [] ''t'' [], Dnode 1 ''P'' [(''class'', ''a b'')] [] '''' []]]],
      pg_html = True, pg_hash = '''', pg_active = None, pg_focused = False\<rparr>"



section \<open>Selection\<close>


definition sample_groups :: "sz_filter token list list" where
  "sample_groups =
     [[Test \<lparr>fl_value = ''#x'', fl_kind = ID ''x''\<rparr>, Relative Child, Test \<lparr>fl_value = ''p'', fl_kind = TAG ''p''\<rparr>,
       Test \<lparr>fl_value = ''.b'', fl_kind = CLASS ''b''\<rparr>]]"


lemma sample_selection:
  "select (engine_of sample_page) 1 0 empty_cache sample_groups the_document = [[2, 0, 0]]"
  by code_simp

section \<open>Matching\<close>

text \<open>C26: the matchers of a run accept an element exactly when it has the meaning of one of them,
  whatever earlier runs have left in the cache on the nodes: the verdicts that combinators keep for
  ancestors and siblings never change a result.\<close>

theorem matching_ignores_cache:
  assumes "fresh_run (se_run s) cache"
  shows "fst (superMatcher s (fst (compile_groups groups done)) elems cache) =
    filter (\<lambda>e. \<exists>m \<in> set (fst (compile_groups groups done)). meaning s m e) elems"
proof (rule superMatcher_filters)
  show "distinct (names s (fst (compile_groups groups done)))"
    using group_names [of "rev groups" "done" "fst (group_matchers (rev groups) done)" _ s]
    by (metis compile_groups_def prod.collapse)
qed (rule fresh_sound [OF assms])

definition stale_cache :: match_cache where
  "stale_cache =
     \<lparr>ca_cells = [(1, 2, True), (1, 2, False)],
      ca_slots = (\<lambda>e k. if k = ''parentNode'' then (if e = [0, 0] then Some 0 else Some 1) else None)\<rparr>"

theorem matching_ignores_cache_witness:
  "fst (superMatcher (run_setting (engine_of sample_page) 2 the_document) (fst (compile_groups sample_groups 0))
      [[0, 0, 0], [2, 0, 0]] stale_cache) =
    filter (\<lambda>e. \<exists>m \<in> set (fst (compile_groups sample_groups 0)).
      meaning (run_setting (engine_of sample_page) 2 the_document) m e) [[0, 0, 0], [2, 0, 0]]"
  by (rule matching_ignores_cache) (simp add: fresh_run_def bounded_def stale_cache_def run_setting_def)

text \<open>C28: \<open>uniqueSort\<close> returns the given nodes of the document, each once, in document order, both with
  the browser's \<open>compareDocumentPosition\<close> and without it.\<close>

theorem uniqueSort_document_order:
  assumes "\<forall>x \<in> set results. is_node d x \<and> last x = 0"
  shows "selects (uniqueSort detects (sortOrder_native d detached input) results) (set results) \<and>
    selects (uniqueSort detects (sortOrder_walk d None input) results) (set results)"
  using uniqueSort_sorts [of results "sortOrder_native d detached input" detects]
    uniqueSort_sorts [of results "sortOrder_walk d None input" detects]
    native_document_order walk_document_order assms
  by (simp_all add: selects_def)

theorem uniqueSort_document_order_witness:
  "selects (uniqueSort True (sortOrder_native (pg_dom sample_page) False None) [[2, 0, 0], [0, 0], [2, 0, 0]])
     {[0, 0], [2, 0, 0]}"
  using uniqueSort_document_order [of "[[2, 0, 0], [0, 0], [2, 0, 0]]" "pg_dom sample_page" True False None]
  by (simp add: sample_page_def insert_commute)

text \<open>C27: asked about elements in document order, the filter of \<open>:nth-child\<close> and its relatives answers what
  CSS says (a position \<open>an+b\<close> with a natural number \<open>n\<close> among the siblings, or the first, last or only
  one), whatever right positions its two caches hold.\<close>

theorem child_filter_is_css:
  assumes "sound_positions d run asked cache" "sorted_wrt (\<lambda>x y. \<not> precedes y x) (asked # elems)"
    and "\<forall>e \<in> set elems. is_element d e"
  shows "fst (ask_all d xml run t of_type a b elems cache) = map (child_holds d t of_type a b) elems \<and>
    (\<forall>e. child_holds d Nth of_type a b e \<longleftrightarrow>
       parentNode e \<noteq> None \<and> (\<exists>n\<ge>0. int (position d of_type False e) = a * n + b))"
  using ask_all_in_order [OF assms(1,2)] assms(3) is_element_node by (simp add: in_cycle_css)

definition known_positions :: nth_cache where
  "known_positions =
     \<lparr>nc_parent = (\<lambda>p. if p = [0, 0] then Some (1, 0, 1) else None),
      nc_element = (\<lambda>e. if e = [1, 0, 0] then Some (1, 3) else None)\<rparr>"

theorem child_filter_is_css_witness:
  "fst (ask_all four_kids False 1 NthLast False 0 3 [[0, 0, 0], [1, 0, 0], [2, 0, 0], [3, 0, 0]] known_positions) =
     [False, True, False, False]"
proof -
  have "sound_positions four_kids 1 [] known_positions"
    by (simp add: sound_positions_def known_positions_def four_kids_def childNodes_def is_element_def node_at_def
        position_def same_kind_def numeral_eq_Suc)
  moreover have "sorted_wrt (\<lambda>x y. \<not> precedes y x) [[], [0, 0, 0], [1, 0, 0], [2, 0, 0], [3, 0, 0]]"
    by (simp add: precedes_def)
  moreover have "map (child_holds four_kids NthLast False 0 3) [[0, 0, 0], [1, 0, 0], [2, 0, 0], [3, 0, 0]] =
      [False, True, False, False]" by code_simp
  ultimately show ?thesis
    using child_filter_is_css [of four_kids 1 "[]" known_positions "[[0, 0, 0], [1, 0, 0], [2, 0, 0], [3, 0, 0]]"
        False NthLast False 0 3]
    by (simp add: four_kids_def is_element_def node_at_def numeral_eq_Suc)
qed

section \<open>Strings in selectors\<close>

text \<open>C29: reading the escapes of an escaped string returns the string, with the code unit 0 replaced by
  U+FFFD, and an escaped string is empty or an identifier.\<close>

theorem selector_escape_round_trip:
  "unescape (escapeSelector s) = map (\<lambda>c. if c = 0 then 0xFFFD else c) s \<and>
   (s = [] \<or> is_identifier (escapeSelector s))"
  using unescape_escapeSelector [of s] escape_identifier [of s] by (auto simp: read_back_def)

text \<open>The selector of an ID made with \<open>escapeSelector\<close> finds the elements that have the ID, whatever
  characters the ID has besides NUL.\<close>

theorem escaped_id_finds:
  assumes "units raw = escapeSelector (units name)" "CHR 0x00 \<notin> set name"
  shows "id_filter d html raw e \<longleftrightarrow> attribute d html e (units ''id'') = Some (units name)"
proof -
  have "(of_char c :: nat) = 0 \<longleftrightarrow> c = CHR 0x00" for c
    using of_char_eq_iff [of c "CHR 0x00", where ?'a = nat] by simp
  then have "map read_back (units name) = units name"
    using assms(2) by (induction name) (auto simp: units_def read_back_def)
  then show ?thesis using unescape_escapeSelector [of "units name"] assms(1) by (simp add: id_filter_def)
qed

theorem escaped_id_finds_witness:
  "id_filter (pg_dom sample_page) True (map char_of (escapeSelector (units ''x''))) [0, 0] \<longleftrightarrow>
     attribute (pg_dom sample_page) True [0, 0] (units ''id'') = Some (units ''x'')"
  by (rule escaped_id_finds)
    (simp_all add: units_def escapeSelector_def is_digit_def escape_rest_def escape_unit_def is_control_def is_word_def)

text \<open>An element matches \<open>.name\<close> exactly when it matches \<open>[class~="name"]\<close>, and exactly when the name is
  one of the words of its class.\<close>

theorem class_selectors_agree:
  assumes "is_identifier (units name)" "CHR 0x5C \<notin> set name"
  shows "(class_filter d html name e \<longleftrightarrow> units name \<in> set (words_from [] (class_of_element d html e))) \<and>
    (attr_filter d html ''class'' Word name e \<longleftrightarrow> class_filter d html name e)"
proof -
  have "92 \<notin> set (units name)"
  proof
    assume "92 \<in> set (units name)"
    then obtain c where "c \<in> set name" "(of_char c :: nat) = of_char (CHR 0x5C)" by (auto simp: units_def)
    then show False using assms(2) by (simp only: of_char_eq_iff)
  qed
  then have good: "good_kind (CLASS name)" using assms(1) by (simp only: good_kind.simps simp_thms)
  have words: "class_filter d html name e \<longleftrightarrow> units name \<in> set (words_from [] (class_of_element d html e))"
    unfolding class_filter_def by (rule class_found_words(1) [OF good_class(2,1) [OF good]])
  have name: "unescape (units ''class'') = units ''class''" "lower_units (units ''class'') \<notin> units ` set booleans"
    by (simp_all add: units_def lower_units_def lower_unit_def booleans_def)
  have "attr_filter d html ''class'' Word name e \<longleftrightarrow> class_filter d html name e"
    unfolding words attr_filter_def sizzle_attr_def name using name(2) word_operator [OF good]
    by (auto simp: class_of_element_def split: option.splits)
  with words show ?thesis by blast
qed

theorem class_selectors_agree_witness:
  "class_filter (pg_dom sample_page) True ''b'' [2, 0, 0] \<and> attr_filter (pg_dom sample_page) True ''class'' Word ''b'' [2, 0, 0]"
proof -
  have "is_identifier (units ''b'')" by (simp add: is_identifier_def units_def is_word_def)
  from class_selectors_agree [OF this, of "pg_dom sample_page" True "[2, 0, 0]"]
  show ?thesis
    by (simp add: sample_page_def class_of_element_def attribute_def node_at_def units_def ascii_lower_def is_white_def)
qed

text \<open>Where the engine differs from the standards it names: an empty word is found in an empty attribute
  by \<open>~=\<close>; the keywords of \<open>:nth-child\<close> are recognised without regard to case and then read with regard
  to it; an escaped star finds all elements, which its own filter rejects.\<close>

lemma empty_word_matches: "attr_holds Word (attr_check Word []) (units [])"
  by (simp add: attr_check_def units_def sublist_Cons_right)

lemma upper_case_even:
  "child_numbers \<lparr>cc_argument = ''EVEN'', cc_x = None, cc_y = None\<rparr> = Some (0, 0)"
  "\<not> child_holds d Nth of_type 0 0 e"
  by (auto simp: child_numbers_def in_cycle_def position_def)

lemma escaped_star:
  "select (engine_of sample_page) 1 0 empty_cache [[Test \<lparr>fl_value = [CHR 0x5C, CHR ''*''], fl_kind = TAG [CHR 0x5C, CHR ''*'']\<rparr>]]
     the_document = [[0, 0], [0, 0, 0], [2, 0, 0]]"
  "\<not> tag_filter (pg_dom sample_page) [CHR 0x5C, CHR ''*''] [0, 0]"
  by code_simp+

section \<open>Traversal\<close>




end
