(* ===== verification/Spec2Isabelle.thy ===== *)
theory Spec2Isabelle
  imports Channel_Properties Connection_Properties Contract_Properties Client_Properties
    Underscore_Equal Underscore_Strings Underscore_Wrapper Sphinx_Search Doctools Jq_Deferred
    Jq_Queue Jquery_Properties Event_Properties Script_Properties Selector_Properties
begin

text \<open>
  IBC for Corda: a verification library for the repository corda-ibc.

  The repository has two programs with logic of their own. The CorDapp (contracts/src/main/kotlin,
  package \<open>jp.datachain.corda.ibc\<close>) implements the IBC protocol on Corda: the handshakes of
  connections and channels, packets with their receipts and acknowledgements, light clients, two
  ICS-20 token transfer applications, and the contract that accepts a Corda transaction when its
  output states are those the handler of its datagram computes. The scripts of the documentation
  site (docs/_static) are the full-text search, the page tools and the two libraries they stand
  on. Each program is a stack of components; a theory models one component and imports those it
  calls. Definitions have the names of the source.

  \<^bold>\<open>The CorDapp.\<close> A method that may throw is a function into \<open>exn + 'a\<close> (\<open>Prelude\<close>); \<open>Long\<close> and the
  sequence numbers of protocol buffers are \<open>64 word\<close>, with their wrap-around and the signed
  comparison of Kotlin; a Corda state is a record, and the transaction context that the handlers
  read and write (\<open>ics26/Context.kt\<close>) is passed as a value.
  \<^item> \<open>Ibc_Messages\<close>: the messages, one record for each; heights and their order.
  \<^item> \<open>Identifiers\<close>, \<open>Host\<close> (ics24): identifiers and the check of their format; the host state and
    the numbering of clients, connections and channels. \<open>identifier_issuer\<close> is the interface of
    a numbering, interpreted for the three kinds.
  \<^item> \<open>Denoms\<close>, \<open>Addresses\<close>, \<open>Token_Pools\<close>, \<open>Bank\<close>, \<open>Cash_Bank\<close> (ics20, ics20cash): denominations
    and their paths, addresses, and the books of the two applications. \<open>token_pool\<close> is the
    interface of a book (what is put can be taken, taking needs enough), interpreted for the locked
    and the minted balances of the bank and for the cash bank.
  \<^item> \<open>Ledger_States\<close> (states, ics26/Context.kt): the states of the ledger, the lookup of inputs and
    references, the outputs added, and \<open>verifyResults\<close>.
  \<^item> \<open>Clients\<close>, \<open>Light_Client\<close> (ics2, clients/corda): the Corda client, which reads the states of
    the counterparty out of a notarized transaction. The record \<open>env\<close> holds what is not under
    src/: hashing, address and signature code, the bodies of transactions, and the Fabric client,
    which the CorDapp reaches over gRPC. \<open>light_client\<close> is what a handler relies on; the Corda client provides it.
  \<^item> \<open>Handler_Connection\<close>, \<open>Handler_Channel\<close>, \<open>Handler_Packet\<close> (ics25/Handler.kt): the handlers.
  \<^item> \<open>Ics20_Module\<close>, \<open>Ics20_Cash_Module\<close>: sending tokens and the callbacks of the applications.
  \<^item> \<open>Datagram_Handlers\<close> (ics26), \<open>Ibc_Contract\<close> (contracts/Ibc.kt): one function for each datagram
    and the contract.
  \<^item> \<open>Machines\<close>, \<open>Channel_Machine\<close>, \<open>Connection_Machine\<close>, \<open>Packet_Flow\<close>: the life of a channel and of
    a connection as step relations whose steps are runs of the handlers in some context. The
    locale \<open>ranked_machine\<close> gives termination of the handshakes; \<open>chan_history\<close> relates a channel to the
    messages that made it, and its lemmas say what its fields (counters, stored packets, receipts,
    acknowledgements) record of them.
  \<^item> \<open>Commitments\<close>: what a packet commitment binds. \<open>Demo\<close>: a concrete ledger for witnesses.
  \<^item> \<open>Channel_Properties\<close>, \<open>Connection_Properties\<close>, \<open>Contract_Properties\<close>, \<open>Client_Properties\<close>: the
    properties. Packets are received at most once (unordered) or in sequence (ordered), also along
    chains of accepted transactions; what is received was sent; acknowledgements are stable
    and come once; handshakes move forward and are attested by the counterparty; an accepted
    transaction has the computed outputs; one bank for a host. \<open>Bank\<close> states conservation.

  \<^bold>\<open>The scripts.\<close> \<open>Js_Values\<close> gives the values of the language on a store of objects, with exact
  rational numbers, and what its standard library does with them. A function that the code builds
  (a closure) is a datatype value with its meaning, or a function of its arguments.
  \<^item> \<open>Underscore_Types\<close>, \<open>_Objects\<close>, \<open>_Search\<close>, \<open>_Collections\<close>, \<open>_Arrays\<close>, \<open>_Functions\<close>, \<open>_Strings\<close>,
    \<open>_Equal\<close>, \<open>_Wrapper\<close> (underscore-1.12.0.js): the library in the order of its file. Wrappers with
    private state (memoize, throttle, debounce, once) are transitions with the clock as argument.
  \<^item> \<open>Split_Query\<close>, \<open>Porter_Stemmer\<close> (language_data.js): the splitter, written as the scan of the
    code and proved equal to the maximal runs of word characters, and the stemmer, its regular
    expressions as matchers.
  \<^item> \<open>Sphinx_Search\<close> (searchtools.js), \<open>Doctools\<close> (doctools.js): queries, scores, the order of
    results, excerpts; addresses, highlighting on a tree of nodes, translations, keys.
  \<^item> \<open>Jq_Strings\<close>, \<open>Jq_Core\<close>, \<open>Jq_Data\<close>, \<open>Jq_Classes\<close>, \<open>Jq_Param\<close>, \<open>Jq_Ajax\<close> (jquery-3.5.1.js): words
    and camel case, types and \<open>extend\<close>, the data cache, class attributes, request parameters, and
    the parts of the request pipeline that are free of the browser.
  \<^item> \<open>Jq_Callbacks\<close>, \<open>Jq_Deferred\<close>, \<open>Jq_Promise\<close>: callback lists as a machine on which a callback runs any
    actions, the list that calls it included; deferreds, six wired lists each; promises on
    deferreds, with timers. The locale \<open>list_law\<close> turns a law that the operations on one list keep
    into one of all runs; it is interpreted for spent lists, members, unique lists, lists fired once,
    lists being fired, the wired lists, and the lists of pages that use \<open>then\<close> only.
  \<^item> \<open>Jq_Queue\<close>: queues of functions in the private data of an element, on the interface \<open>key_store\<close>, which
    the data cache provides; \<open>Jq_Traverse\<close>: traversal and filtering of sets of elements, on the interface
    \<open>document_sorter\<close>, interpreted for \<open>uniqueSort\<close> with both comparisons.
  \<^item> \<open>Jq_Event\<close>: the tables of event handlers under \<open>on\<close>, \<open>one\<close> and \<open>off\<close>, the choice, order and calls of the
    handlers of an event, and \<open>trigger\<close>. What functions do and selectors match is an argument. Its lemmas
    give the invariant of a page (\<open>page_ok\<close>), the stations of an event, and what removal leaves.
  \<^item> The selector engine of jquery-3.5.1.js (Sizzle): \<open>Js_Dom\<close> has documents as trees and nodes as places
    in them; \<open>Sz_Order\<close> containment, the comparisons of nodes and \<open>uniqueSort\<close>; \<open>Sz_Match\<close> the
    compiled matchers with the cache that combinators keep on nodes, and \<open>Sz_Cache\<close> the proof that
    it changes no verdict; \<open>Sz_Nth\<close> the filter of \<open>:nth-child\<close> with its own caches; \<open>Sz_Escape\<close> the
    escapes in selectors; \<open>Sz_Select\<close> the meaning of a selector after CSS and \<open>select\<close> with its
    shortcuts; \<open>Sz_Css\<close> the proof that \<open>select\<close> returns what CSS says, from the interface \<open>selection\<close>
    of the finders; \<open>Sz_Filters\<close> the filters and finders, on which \<open>selection\<close> is interpreted.
  \<^item> \<open>Jquery_Properties\<close>, \<open>Event_Properties\<close>, \<open>Selector_Properties\<close>, \<open>Script_Properties\<close>: the properties.

  \<^bold>\<open>Fuel.\<close> Firing callback lists may go on for ever (a callback that fires its list again), so the
  machine has fuel; a list of \<open>n\<close> functions that act on no list is fired with \<open>n + 4\<close>
  units. Deep comparison needs one unit more than there are objects, since a pair of objects that
  is being compared is not compared again; its result without fuel is \<open>OutOfFuel\<close>. The
  conversions of a response take two rounds for each data type and one more. \<open>flatten\<close> to a bounded
  depth needs as many units as levels and one more; to any depth it may not end on a cyclic array.

  \<^bold>\<open>Not modelled.\<close> The proxies between Corda serialization and protocol buffers and the message
  declarations (generated code outside src/); the flows, the gRPC adapter, the relayer modules in
  Go, and the Rust client (requests to services); on the side of the scripts, the tokenizer of
  selectors, positional and nested pseudo-classes, the browser's own part in events
  (default actions, \<open>focus\<close> and \<open>blur\<close>), and the document, style, animation and
  transport parts of jQuery, which act on the document, the layout and the network of a browser;
  minified copies and generated tables. The timing of timers
  is an argument; exceptions that a callback throws leave the operation that called it, as in the
  code.
\<close>

end
